(* ===== verification/Prelude.thy ===== *)
theory Prelude
  imports Main "HOL-Library.Char_ord" "HOL-Library.List_Lexorder" "HOL-Library.Sublist"
begin

text \<open>
  Shared vocabulary of the development.  Go strings are byte sequences, so they are HOL's
  \<open>string\<close> with one \<open>char\<close> per byte; the order on them is the byte order of
  \<open>sort.Strings\<close>.  A Go function that returns only an \<open>error\<close> becomes a function into
  \<open>'e option\<close> (\<open>None\<close> is nil); one that returns a value and an error becomes a function into
  \<open>'e + 'a\<close>.  The combinators below are the three shapes of control flow such functions use:
  check and go on, check every element of a slice in order, bind a value or return early.
\<close>

named_theorems check_simps \<open>characteristic equations of the early-return combinators\<close>

subsection \<open>Early returns\<close>

definition then_check :: "'e option \<Rightarrow> 'e option \<Rightarrow> 'e option" where
  "then_check a b = (case a of Some e \<Rightarrow> Some e | None \<Rightarrow> b)"

definition require :: "bool \<Rightarrow> 'e \<Rightarrow> 'e option" where
  "require b e = (if b then None else Some e)"

fun each_check :: "('a \<Rightarrow> 'e option) \<Rightarrow> 'a list \<Rightarrow> 'e option" where
  "each_check f [] = None"
| "each_check f (x # xs) = then_check (f x) (each_check f xs)"

definition rbind :: "'e + 'a \<Rightarrow> ('a \<Rightarrow> 'e + 'b) \<Rightarrow> 'e + 'b" where
  "rbind m f = (case m of Inl e \<Rightarrow> Inl e | Inr x \<Rightarrow> f x)"

definition rcheck :: "'e option \<Rightarrow> 'e + 'a \<Rightarrow> 'e + 'a" where
  "rcheck c m = (case c of Some e \<Rightarrow> Inl e | None \<Rightarrow> m)"

fun rmap :: "('a \<Rightarrow> 'e + 'b) \<Rightarrow> 'a list \<Rightarrow> 'e + 'b list" where
  "rmap f [] = Inr []"
| "rmap f (x # xs) = rbind (f x) (\<lambda>y. rbind (rmap f xs) (\<lambda>ys. Inr (y # ys)))"

lemma then_check_None [check_simps]: "then_check a b = None \<longleftrightarrow> a = None \<and> b = None"
  by (simp add: then_check_def split: option.splits)

lemma then_check_simps [simp]:
  "then_check None b = b" "then_check (Some e) b = Some e"
  by (simp_all add: then_check_def)

lemma require_None [check_simps]: "require b e = None \<longleftrightarrow> b"
  by (simp add: require_def)

lemma require_Some [check_simps]: "require b e = Some e' \<longleftrightarrow> \<not> b \<and> e' = e"
  by (auto simp: require_def)

lemma require_simps [simp]: "require True e = None" "require False e = Some e"
  by (simp_all add: require_def)

lemma each_check_None [check_simps]: "each_check f xs = None \<longleftrightarrow> (\<forall>x \<in> set xs. f x = None)"
  by (induction xs) (auto simp: then_check_None)

lemma each_check_Some:
  "each_check f xs = Some e \<Longrightarrow> \<exists>x \<in> set xs. f x = Some e"
  by (induction xs) (auto simp: then_check_def split: option.splits)

lemma rbind_Inr [check_simps]: "rbind m f = Inr y \<longleftrightarrow> (\<exists>x. m = Inr x \<and> f x = Inr y)"
  by (simp add: rbind_def split: sum.splits)

lemma rbind_simps [simp]: "rbind (Inl e) f = Inl e" "rbind (Inr x) f = f x"
  by (simp_all add: rbind_def)

lemma rcheck_Inr [check_simps]: "rcheck c m = Inr y \<longleftrightarrow> c = None \<and> m = Inr y"
  by (simp add: rcheck_def split: option.splits)

lemma rcheck_simps [simp]: "rcheck None m = m" "rcheck (Some e) m = Inl e"
  by (simp_all add: rcheck_def)

lemma rmap_cong [fundef_cong]:
  "xs = ys \<Longrightarrow> (\<And>x. x \<in> set ys \<Longrightarrow> f x = g x) \<Longrightarrow> rmap f xs = rmap g ys"
  by (induction xs arbitrary: ys) (auto simp: rbind_def)

lemma rbind_cong [fundef_cong]:
  "m = n \<Longrightarrow> (\<And>x. n = Inr x \<Longrightarrow> f x = g x) \<Longrightarrow> rbind m f = rbind n g"
  by (simp add: rbind_def split: sum.splits)

lemma each_check_cong [fundef_cong]:
  "xs = ys \<Longrightarrow> (\<And>x. x \<in> set ys \<Longrightarrow> f x = g x) \<Longrightarrow> each_check f xs = each_check g ys"
  by (induction xs arbitrary: ys) (auto simp: then_check_def)

lemma rmap_Inr_length: "rmap f xs = Inr ys \<Longrightarrow> length ys = length xs"
  by (induction xs arbitrary: ys) (auto simp: rbind_Inr)

lemma rmap_Inr_nth: "rmap f xs = Inr ys \<Longrightarrow> i < length xs \<Longrightarrow> f (xs ! i) = Inr (ys ! i)"
proof (induction xs arbitrary: ys i)
  case (Cons x xs)
  then show ?case by (cases i) (auto simp: rbind_Inr)
qed simp

subsection \<open>The parts of package strings the code uses\<close>

definition has_prefix :: "string \<Rightarrow> string \<Rightarrow> bool" where
  "has_prefix s p \<longleftrightarrow> take (length p) s = p"

definition has_suffix :: "string \<Rightarrow> string \<Rightarrow> bool" where
  "has_suffix s p \<longleftrightarrow> length p \<le> length s \<and> drop (length s - length p) s = p"

definition trim_prefix :: "string \<Rightarrow> string \<Rightarrow> string" where
  "trim_prefix s p = (if has_prefix s p then drop (length p) s else s)"

definition trim_suffix :: "string \<Rightarrow> string \<Rightarrow> string" where
  "trim_suffix s p = (if has_suffix s p then take (length s - length p) s else s)"

definition trim_right :: "(char \<Rightarrow> bool) \<Rightarrow> string \<Rightarrow> string" where
  "trim_right p s = rev (dropWhile p (rev s))"

definition replace_char :: "char \<Rightarrow> string \<Rightarrow> string \<Rightarrow> string" where
  "replace_char c r s = concat (map (\<lambda>x. if x = c then r else [x]) s)"

fun join_strings :: "string \<Rightarrow> string list \<Rightarrow> string" where
  "join_strings sep [] = []"
| "join_strings sep [x] = x"
| "join_strings sep (x # y # xs) = x @ sep @ join_strings sep (y # xs)"

lemma has_prefix_append [simp]: "has_prefix (p @ t) p"
  by (simp add: has_prefix_def)

lemma has_prefix_iff: "has_prefix s p \<longleftrightarrow> (\<exists>t. s = p @ t)"
  by (metis append_eq_conv_conj has_prefix_def append_take_drop_id)

lemma has_suffix_append [simp]: "has_suffix (t @ p) p"
  by (simp add: has_suffix_def)

lemma has_suffix_iff: "has_suffix s p \<longleftrightarrow> (\<exists>t. s = t @ p)"
  by (metis append_take_drop_id has_suffix_append has_suffix_def)

lemma trim_prefix_append [simp]: "trim_prefix (p @ t) p = t"
  by (simp add: trim_prefix_def)

lemma trim_suffix_append [simp]: "trim_suffix (t @ p) p = t"
  by (simp add: trim_suffix_def)

lemma trim_right_split: "\<exists>t. s = trim_right p s @ t \<and> (\<forall>c \<in> set t. p c)"
proof -
  have "s = trim_right p s @ rev (takeWhile p (rev s))"
    unfolding trim_right_def
    by (metis rev_append rev_rev_ident takeWhile_dropWhile_id)
  then show ?thesis
    by (metis set_rev set_takeWhileD)
qed

lemma trim_right_append:
  assumes "\<forall>c \<in> set t. p c" and "s = [] \<or> \<not> p (last s)"
  shows "trim_right p (s @ t) = s"
proof -
  have "dropWhile p (rev t @ rev s) = rev s"
  proof (cases "s = []")
    case True
    then show ?thesis using assms(1) by (simp add: dropWhile_eq_Nil_conv)
  next
    case False
    with assms(2) have "dropWhile p (rev s) = rev s"
      by (metis dropWhile_eq_self_iff hd_rev)
    then show ?thesis using assms(1) by (simp add: dropWhile_append)
  qed
  then show ?thesis by (simp add: trim_right_def)
qed

lemma trim_right_not_last: "trim_right p s = [] \<or> \<not> p (last (trim_right p s))"
  unfolding trim_right_def
  by (metis hd_dropWhile last_rev rev_is_Nil_conv)

end
