(* ===== verification/Errors.thy ===== *)
theory Errors
  imports Prelude
begin

text \<open>
  The typed errors of engine/protocol/errors.go and the exit code contract.  An error value
  carries its class, its exit code and the wrapped cause; the text of the message is not part of
  the model, since nothing in the program branches on it.  Errors that come from the Go standard
  library or from a database driver are \<open>ForeignErr\<close> values: only the facts the program tests
  (a context error, a SQLSTATE, a transport failure) are kept of them.
\<close>

subsection \<open>Exit codes\<close>

type_synonym exit_code = int

definition ExitSuccess :: exit_code where "ExitSuccess = 0"
definition ExitFailure :: exit_code where "ExitFailure = 1"
definition ExitDigestMismatch :: exit_code where "ExitDigestMismatch = 10"
definition ExitTopologyDrift :: exit_code where "ExitTopologyDrift = 11"
definition ExitLockHeld :: exit_code where "ExitLockHeld = 12"
definition ExitAuthorizationUnsatisfied :: exit_code where "ExitAuthorizationUnsatisfied = 13"
definition ExitVerificationFailed :: exit_code where "ExitVerificationFailed = 14"
definition ExitUnsupportedTopology :: exit_code where "ExitUnsupportedTopology = 15"
definition ExitInsufficientPrivilege :: exit_code where "ExitInsufficientPrivilege = 16"

lemmas exit_defs [simp] =
  ExitSuccess_def ExitFailure_def ExitDigestMismatch_def ExitTopologyDrift_def ExitLockHeld_def
  ExitAuthorizationUnsatisfied_def ExitVerificationFailed_def ExitUnsupportedTopology_def
  ExitInsufficientPrivilege_def

definition AllExitCodes :: "exit_code list" where
  "AllExitCodes = [ExitSuccess, ExitFailure, ExitDigestMismatch, ExitTopologyDrift, ExitLockHeld,
     ExitAuthorizationUnsatisfied, ExitVerificationFailed, ExitUnsupportedTopology,
     ExitInsufficientPrivilege]"

subsection \<open>Error classes\<close>

text \<open>
  \<open>ErrorKind\<close> is an open string type: the packages state and executor declare further classes,
  which are \<open>OtherKind\<close> values named by their string.
\<close>

datatype error_kind =
    KindNone | KindGeneric | KindDigestMismatch | KindTopologyDrift | KindLockHeld
  | KindAuthorizationUnsatisfied | KindVerificationFailed | KindUnsupportedTopology
  | KindInsufficientPrivilege | KindUnsupportedFormatVersion | KindInvalidPlan
  | KindUnknownNodeKind | KindInvalidTransition | KindInvalidIdentifier | KindNameCollision
  | OtherKind string

datatype foreign_error =
    ContextCanceled | DeadlineExceeded | SqlStateError string | ConnectionLost
  | NetTimeout | NetOpError | UnknownError | Signal string

datatype err =
    PErr error_kind exit_code "err option"
  | FmtErr "err option"
  | ForeignErr foreign_error

text \<open>Unwrapping, and the first typed error along the chain of causes (\<open>errors.As\<close>).\<close>

fun as_perr :: "err \<Rightarrow> (error_kind \<times> exit_code) option" where
  "as_perr (PErr k c w) = Some (k, c)"
| "as_perr (FmtErr None) = None"
| "as_perr (FmtErr (Some e)) = as_perr e"
| "as_perr (ForeignErr f) = None"

text \<open>\<open>errors.Is(err, sentinel)\<close>: some typed error along the chain has the sentinel's kind.\<close>

fun err_is :: "err \<Rightarrow> error_kind \<Rightarrow> bool" where
  "err_is (PErr k c None) t \<longleftrightarrow> k = t"
| "err_is (PErr k c (Some e)) t \<longleftrightarrow> k = t \<or> err_is e t"
| "err_is (FmtErr None) t \<longleftrightarrow> False"
| "err_is (FmtErr (Some e)) t \<longleftrightarrow> err_is e t"
| "err_is (ForeignErr f) t \<longleftrightarrow> False"

fun Detailf :: "err \<Rightarrow> err" where
  "Detailf (PErr k c w) = PErr k c w"
| "Detailf e = e"

fun Wrap :: "err \<Rightarrow> err \<Rightarrow> err" where
  "Wrap (PErr k c w) cause = PErr k c (Some cause)"
| "Wrap e cause = e"

subsection \<open>The sentinels\<close>

definition ErrFailure :: err where
  "ErrFailure = PErr KindGeneric ExitFailure None"
definition ErrDigestMismatch :: err where
  "ErrDigestMismatch = PErr KindDigestMismatch ExitDigestMismatch None"
definition ErrTopologyDrift :: err where
  "ErrTopologyDrift = PErr KindTopologyDrift ExitTopologyDrift None"
definition ErrLockHeld :: err where
  "ErrLockHeld = PErr KindLockHeld ExitLockHeld None"
definition ErrAuthorizationUnsatisfied :: err where
  "ErrAuthorizationUnsatisfied = PErr KindAuthorizationUnsatisfied ExitAuthorizationUnsatisfied None"
definition ErrVerificationFailed :: err where
  "ErrVerificationFailed = PErr KindVerificationFailed ExitVerificationFailed None"
definition ErrUnsupportedTopology :: err where
  "ErrUnsupportedTopology = PErr KindUnsupportedTopology ExitUnsupportedTopology None"
definition ErrInsufficientPrivilege :: err where
  "ErrInsufficientPrivilege = PErr KindInsufficientPrivilege ExitInsufficientPrivilege None"
definition ErrUnsupportedFormatVersion :: err where
  "ErrUnsupportedFormatVersion = PErr KindUnsupportedFormatVersion ExitFailure None"
definition ErrInvalidPlan :: err where
  "ErrInvalidPlan = PErr KindInvalidPlan ExitFailure None"
definition ErrUnknownNodeKind :: err where
  "ErrUnknownNodeKind = PErr KindUnknownNodeKind ExitFailure None"
definition ErrInvalidTransition :: err where
  "ErrInvalidTransition = PErr KindInvalidTransition ExitFailure None"
definition ErrInvalidIdentifier :: err where
  "ErrInvalidIdentifier = PErr KindInvalidIdentifier ExitFailure None"
definition ErrNameCollision :: err where
  "ErrNameCollision = PErr KindNameCollision ExitFailure None"

lemmas sentinel_defs =
  ErrFailure_def ErrDigestMismatch_def ErrTopologyDrift_def ErrLockHeld_def
  ErrAuthorizationUnsatisfied_def ErrVerificationFailed_def ErrUnsupportedTopology_def
  ErrInsufficientPrivilege_def ErrUnsupportedFormatVersion_def ErrInvalidPlan_def
  ErrUnknownNodeKind_def ErrInvalidTransition_def ErrInvalidIdentifier_def ErrNameCollision_def

subsection \<open>From errors to exit codes\<close>

definition ExitCodeFor :: "err option \<Rightarrow> exit_code" where
  "ExitCodeFor e = (case e of None \<Rightarrow> ExitSuccess
     | Some x \<Rightarrow> (case as_perr x of Some (k, c) \<Rightarrow> c | None \<Rightarrow> ExitFailure))"

definition KindOf :: "err option \<Rightarrow> error_kind" where
  "KindOf e = (case e of None \<Rightarrow> KindNone
     | Some x \<Rightarrow> (case as_perr x of Some (k, c) \<Rightarrow> k | None \<Rightarrow> KindGeneric))"

lemma as_perr_Detailf [simp]: "as_perr (Detailf e) = as_perr e"
  by (cases e) simp_all

lemma as_perr_Wrap [simp]: "as_perr (Wrap e c) = as_perr e"
  by (cases e) simp_all

lemma ExitCodeFor_Detailf [simp]: "ExitCodeFor (Some (Detailf e)) = ExitCodeFor (Some e)"
  by (simp add: ExitCodeFor_def)

lemma ExitCodeFor_Wrap [simp]: "ExitCodeFor (Some (Wrap e c)) = ExitCodeFor (Some e)"
  by (simp add: ExitCodeFor_def)

lemma err_is_Detailf [simp]: "err_is (Detailf e) k = err_is e k"
  by (cases e) simp_all

end
