(* ===== verification/Utf8.thy ===== *)
theory Utf8
  imports Prelude
begin

text \<open>
  The parts of package unicode/utf8 and of the range loop over a string that the protocol
  package relies on.  A rune is its code point; \<open>decode_rune\<close> gives the first rune of a byte
  string and how many bytes it occupies, with the replacement character and width one where the
  bytes are not well formed, as Go does.
\<close>

subsection \<open>Definitions\<close>

type_synonym rune = nat

definition RuneError :: rune where "RuneError = 65533"

text \<open>The well formed second bytes after a given first byte, and the length the first byte announces.\<close>

definition first_len :: "nat \<Rightarrow> nat" where
  "first_len b = (if b < 128 then 1
     else if 194 \<le> b \<and> b \<le> 223 then 2
     else if 224 \<le> b \<and> b \<le> 239 then 3
     else if 240 \<le> b \<and> b \<le> 244 then 4
     else 0)"

definition second_ok :: "nat \<Rightarrow> nat \<Rightarrow> bool" where
  "second_ok b0 b1 \<longleftrightarrow>
     (if b0 = 224 then 160 else if b0 = 240 then 144 else 128) \<le> b1 \<and>
     b1 \<le> (if b0 = 237 then 159 else if b0 = 244 then 143 else 191)"

definition cont_ok :: "nat \<Rightarrow> bool" where
  "cont_ok b \<longleftrightarrow> 128 \<le> b \<and> b \<le> 191"

definition decode_bytes :: "nat list \<Rightarrow> (rune \<times> nat) option" where
  "decode_bytes bs = (case bs of
     [] \<Rightarrow> None
   | b0 # r0 \<Rightarrow>
      (if first_len b0 = 1 then Some (b0, 1)
       else if first_len b0 = 0 then None
       else (case r0 of [] \<Rightarrow> None | b1 # r1 \<Rightarrow>
         (if \<not> second_ok b0 b1 then None
          else if first_len b0 = 2 then Some ((b0 - 192) * 64 + (b1 - 128), 2)
          else (case r1 of [] \<Rightarrow> None | b2 # r2 \<Rightarrow>
            (if \<not> cont_ok b2 then None
             else if first_len b0 = 3
               then Some ((b0 - 224) * 4096 + (b1 - 128) * 64 + (b2 - 128), 3)
             else (case r2 of [] \<Rightarrow> None | b3 # r3 \<Rightarrow>
               (if \<not> cont_ok b3 then None
                else Some ((b0 - 240) * 262144 + (b1 - 128) * 4096 + (b2 - 128) * 64
                           + (b3 - 128), 4)))))))))"

definition bytes_of :: "string \<Rightarrow> nat list" where
  "bytes_of s = map of_char s"

definition decode_rune :: "string \<Rightarrow> rune \<times> nat" where
  "decode_rune s = (case decode_bytes (bytes_of (take 4 s)) of
     Some rw \<Rightarrow> rw | None \<Rightarrow> (RuneError, 1))"

definition well_formed_head :: "string \<Rightarrow> bool" where
  "well_formed_head s \<longleftrightarrow> decode_bytes (bytes_of (take 4 s)) \<noteq> None"

definition encode_rune :: "rune \<Rightarrow> string" where
  "encode_rune r = map char_of
     (if r < 128 then [r]
      else if r < 2048 then [192 + r div 64, 128 + r mod 64]
      else if r < 65536 then [224 + r div 4096, 128 + r div 64 mod 64, 128 + r mod 64]
      else [240 + r div 262144, 128 + r div 4096 mod 64, 128 + r div 64 mod 64, 128 + r mod 64])"

definition scalar :: "rune \<Rightarrow> bool" where
  "scalar r \<longleftrightarrow> r < 55296 \<or> (57344 \<le> r \<and> r < 1114112)"

text \<open>\<open>WriteRune\<close>: a rune that is not a Unicode scalar value is written as the replacement character.\<close>

definition write_rune :: "rune \<Rightarrow> string" where
  "write_rune r = encode_rune (if scalar r then r else RuneError)"

definition rune_len :: "rune \<Rightarrow> int" where
  "rune_len r = (if r < 128 then 1 else if r < 2048 then 2
     else if \<not> scalar r then -1 else if r < 65536 then 3 else 4)"

subsection \<open>Decoding terminates and stays inside the string\<close>

lemma decode_bytes_width: "decode_bytes bs = Some (r, w) \<Longrightarrow> 0 < w \<and> w \<le> length bs \<and> w \<le> 4"
  by (auto simp: decode_bytes_def split: list.splits if_splits)

lemma decode_rune_width_pos: "0 < snd (decode_rune s)"
  using decode_bytes_width by (fastforce simp: decode_rune_def split: option.splits)

lemma decode_rune_width_le: "s \<noteq> [] \<Longrightarrow> snd (decode_rune s) \<le> length s"
proof -
  assume "s \<noteq> []"
  then have "1 \<le> length s" by (cases s) auto
  then show ?thesis
    using decode_bytes_width [of "bytes_of (take 4 s)"]
    by (auto simp: decode_rune_def bytes_of_def split: option.splits)
qed

lemma drop_rune_less:
  "s \<noteq> [] \<Longrightarrow> length s - snd (decode_rune s) < length s"
  using decode_rune_width_pos [of s] by simp

text \<open>The runes a range loop over the string visits, and \<open>utf8.ValidString\<close>.\<close>

function runes_of :: "string \<Rightarrow> rune list" where
  "runes_of s = (if s = [] then [] else fst (decode_rune s) # runes_of (drop (snd (decode_rune s)) s))"
  by pat_completeness auto
termination
  by (relation "measure length") (auto simp: drop_rune_less)

function valid_utf8 :: "string \<Rightarrow> bool" where
  "valid_utf8 s = (if s = [] then True
     else if well_formed_head s then valid_utf8 (drop (snd (decode_rune s)) s) else False)"
  by pat_completeness auto
termination
  by (relation "measure length") (auto simp: drop_rune_less)

declare runes_of.simps [simp del] valid_utf8.simps [simp del]

lemma runes_of_Nil [simp]: "runes_of [] = []"
  by (simp add: runes_of.simps)

lemma valid_utf8_Nil [simp]: "valid_utf8 []"
  by (simp add: valid_utf8.simps)

subsection \<open>Encoding and decoding are inverse\<close>

lemma of_char_byte: "n < 256 \<Longrightarrow> of_char (char_of n :: char) = (n :: nat)"
  by (simp add: of_char_of)

lemma scalar_RuneError [simp]: "scalar RuneError"
  by (simp add: scalar_def RuneError_def)

lemma length_encode_rune: "scalar r \<Longrightarrow> int (length (encode_rune r)) = rune_len r"
  by (auto simp: encode_rune_def rune_len_def scalar_def)

lemma length_encode_rune_bounds: "0 < length (encode_rune r) \<and> length (encode_rune r) \<le> 4"
  by (simp add: encode_rune_def)

lemma radix64 [simp]:
  "z < 64 \<Longrightarrow> (a * 64 + z) div 64 = (a::nat)" "z < 64 \<Longrightarrow> (a * 64 + z) mod 64 = z"
  by simp_all

lemma div_64_64: "n div 4096 = (n::nat) div 64 div 64" "n div 262144 = n div 64 div 64 div 64"
  by (simp_all add: div_mult2_eq [symmetric])

lemma radix64_split: "\<exists>a z. n = a * 64 + z \<and> z < (64::nat)"
  by (metis div_mult_mod_eq mod_less_divisor zero_less_numeral)

lemma first_len_iff:
  "first_len b = Suc 0 \<longleftrightarrow> b < 128"
  "first_len b = 2 \<longleftrightarrow> 194 \<le> b \<and> b \<le> 223"
  "first_len b = 3 \<longleftrightarrow> 224 \<le> b \<and> b \<le> 239"
  "first_len b = 4 \<longleftrightarrow> 240 \<le> b \<and> b \<le> 244"
  by (simp_all add: first_len_def)

lemma second_ok_iff:
  "second_ok b0 b1 \<longleftrightarrow> 128 \<le> b1 \<and> b1 < 192 \<and> (b0 = 224 \<longrightarrow> 160 \<le> b1) \<and> (b0 = 240 \<longrightarrow> 144 \<le> b1)
     \<and> (b0 = 237 \<longrightarrow> b1 < 160) \<and> (b0 = 244 \<longrightarrow> b1 < 144)"
  by (simp add: second_ok_def) linarith

lemma decode_two:
  "2 \<le> x \<Longrightarrow> x < 32 \<Longrightarrow> y < 64 \<Longrightarrow> decode_bytes ((192 + x) # (128 + y) # t) = Some (x * 64 + y, 2)"
  by (simp add: decode_bytes_def first_len_def second_ok_iff)

lemma decode_three:
  "x < 16 \<Longrightarrow> y < 64 \<Longrightarrow> z < 64 \<Longrightarrow> (x = 0 \<longrightarrow> 32 \<le> y) \<Longrightarrow> (x = 13 \<longrightarrow> y < 32) \<Longrightarrow>
     decode_bytes ((224 + x) # (128 + y) # (128 + z) # t) = Some ((x * 64 + y) * 64 + z, 3)"
  by (simp add: decode_bytes_def first_len_def second_ok_iff cont_ok_def algebra_simps)

lemma decode_four:
  "x < 5 \<Longrightarrow> y < 64 \<Longrightarrow> z < 64 \<Longrightarrow> u < 64 \<Longrightarrow> (x = 0 \<longrightarrow> 16 \<le> y) \<Longrightarrow> (x = 4 \<longrightarrow> y < 16) \<Longrightarrow>
     decode_bytes ((240 + x) # (128 + y) # (128 + z) # (128 + u) # t)
       = Some (((x * 64 + y) * 64 + z) * 64 + u, 4)"
  by (simp add: decode_bytes_def first_len_def second_ok_iff cont_ok_def algebra_simps)

lemma encode_two:
  "2 \<le> x \<Longrightarrow> x < 32 \<Longrightarrow> y < 64 \<Longrightarrow> encode_rune (x * 64 + y) = map char_of [192 + x, 128 + y]"
  by (simp add: encode_rune_def)

lemma encode_three:
  assumes "x < 16" "y < 64" "z < 64" "x = 0 \<longrightarrow> 32 \<le> y"
  shows "encode_rune ((x * 64 + y) * 64 + z) = map char_of [224 + x, 128 + y, 128 + z]"
proof -
  have "\<not> (x * 64 + y) * 64 + z < 2048" "\<not> (x * 64 + y) * 64 + z < 128"
    using assms by (cases "x = 0"; simp)+
  moreover have "(x * 64 + y) * 64 + z < 65536" using assms by simp
  ultimately show ?thesis
    using assms by (simp add: encode_rune_def div_64_64 del: distrib_right_numeral)
qed

lemma encode_four:
  assumes "y < 64" "z < 64" "u < 64" "x = 0 \<longrightarrow> 16 \<le> y"
  shows "encode_rune (((x * 64 + y) * 64 + z) * 64 + u)
           = map char_of [240 + x, 128 + y, 128 + z, 128 + u]"
proof -
  have "\<not> ((x * 64 + y) * 64 + z) * 64 + u < 65536"
    using assms by (cases "x = 0") simp_all
  then have "\<not> ((x * 64 + y) * 64 + z) * 64 + u < 2048" "\<not> ((x * 64 + y) * 64 + z) * 64 + u < 128"
    "\<not> ((x * 64 + y) * 64 + z) * 64 + u < 65536" by linarith+
  then show ?thesis
    using assms by (simp add: encode_rune_def div_64_64 del: distrib_right_numeral)
qed

text \<open>Every scalar value has one of the four shapes.\<close>

lemma scalar_cases:
  assumes "scalar r"
  obtains (one) "r < 128"
    | (two) x y where "r = x * 64 + y" "2 \<le> x" "x < 32" "y < 64"
    | (three) x y z where "r = (x * 64 + y) * 64 + z" "x < 16" "y < 64" "z < 64"
        "x = 0 \<longrightarrow> 32 \<le> y" "x = 13 \<longrightarrow> y < 32"
    | (four) x y z u where "r = ((x * 64 + y) * 64 + z) * 64 + u" "x < 5" "y < 64" "z < 64"
        "u < 64" "x = 0 \<longrightarrow> 16 \<le> y" "x = 4 \<longrightarrow> y < 16"
proof -
  obtain a u where a: "r = a * 64 + u" "u < 64" using radix64_split by blast
  obtain b z where b: "a = b * 64 + z" "z < 64" using radix64_split by blast
  obtain c y where c: "b = c * 64 + y" "y < 64" using radix64_split by blast
  have r: "r = ((c * 64 + y) * 64 + z) * 64 + u" using a b c by simp
  have lt: "r < 1114112" using assms by (auto simp: scalar_def)
  consider "r < 128" | "128 \<le> r" "r < 2048" | "2048 \<le> r" "r < 65536" | "65536 \<le> r" by linarith
  then show thesis
  proof cases
    case 1 then show ?thesis by (rule one)
  next
    case 2 then show ?thesis using a by (intro two [of a u]) auto
  next
    case 3
    have "b < 16" using 3 a b by auto
    moreover have "b = 0 \<longrightarrow> 32 \<le> z" using 3 a b by auto
    moreover have "b = 13 \<longrightarrow> z < 32" using assms a b by (auto simp: scalar_def)
    ultimately show ?thesis using a b by (intro three [of b z u]) auto
  next
    case 4
    have "c < 5" using lt r by auto
    moreover have "c = 0 \<longrightarrow> 16 \<le> y" using 4 r b(2) a(2) by auto
    moreover have "c = 4 \<longrightarrow> y < 16" using lt r by auto
    ultimately show ?thesis using r a b c by (intro four [of c y z u]) auto
  qed
qed

lemma decode_bytes_take4: "decode_bytes (take 4 bs) = decode_bytes bs"
proof (cases "length bs \<le> 4")
  case False
  then have "Suc (Suc (Suc (Suc (Suc 0)))) \<le> length bs" by simp
  then obtain a b c d e r where "bs = a # b # c # d # e # r"
    by (auto simp: Suc_le_length_iff)
  then show ?thesis by (simp add: decode_bytes_def)
qed simp

lemma decode_rune_bytes:
  "decode_rune s = (case decode_bytes (bytes_of s) of Some rw \<Rightarrow> rw | None \<Rightarrow> (RuneError, 1))"
  by (simp add: decode_rune_def bytes_of_def take_map [symmetric] decode_bytes_take4)

lemma well_formed_head_bytes: "well_formed_head s \<longleftrightarrow> decode_bytes (bytes_of s) \<noteq> None"
  by (simp add: well_formed_head_def bytes_of_def take_map [symmetric] decode_bytes_take4)

lemma decode_encode_bytes:
  assumes "scalar r"
  shows "decode_bytes (bytes_of (encode_rune r @ t)) = Some (r, length (encode_rune r))"
  using assms
proof (cases rule: scalar_cases)
  case one
  then show ?thesis
    by (simp add: encode_rune_def bytes_of_def of_char_byte decode_bytes_def first_len_def)
next
  case (two x y)
  then show ?thesis
    by (simp add: encode_two bytes_of_def of_char_byte decode_two)
next
  case (three x y z)
  then show ?thesis
    by (simp add: encode_three bytes_of_def of_char_byte decode_three del: distrib_right_numeral)
next
  case (four x y z u)
  then show ?thesis
    by (simp add: encode_four bytes_of_def of_char_byte decode_four del: distrib_right_numeral)
qed

lemma decode_rune_encode [simp]:
  "scalar r \<Longrightarrow> decode_rune (encode_rune r @ t) = (r, length (encode_rune r))"
  by (simp add: decode_rune_bytes decode_encode_bytes)

lemma well_formed_encode [simp]: "scalar r \<Longrightarrow> well_formed_head (encode_rune r @ t)"
  by (simp add: well_formed_head_bytes decode_encode_bytes)

text \<open>The converse: the bytes of a well formed head are the encoding of the rune read from them.\<close>

lemma decode_bytes_cases:
  assumes "decode_bytes n = Some (r, w)"
  obtains (one) b t where "n = b # t" "b < 128" "r = b" "w = 1"
    | (two) x y t where "n = (192 + x) # (128 + y) # t" "2 \<le> x" "x < 32" "y < 64"
        "r = x * 64 + y" "w = 2"
    | (three) x y z t where "n = (224 + x) # (128 + y) # (128 + z) # t" "x < 16" "y < 64" "z < 64"
        "x = 0 \<longrightarrow> 32 \<le> y" "x = 13 \<longrightarrow> y < 32" "r = (x * 64 + y) * 64 + z" "w = 3"
    | (four) x y z u t where "n = (240 + x) # (128 + y) # (128 + z) # (128 + u) # t" "x < 5"
        "y < 64" "z < 64" "u < 64" "x = 0 \<longrightarrow> 16 \<le> y" "x = 4 \<longrightarrow> y < 16"
        "r = ((x * 64 + y) * 64 + z) * 64 + u" "w = 4"
proof -
  have add: "\<And>k m::nat. k \<le> m \<Longrightarrow> \<exists>j. m = k + j" by (rule le_Suc_ex)
  consider b t where "n = b # t" "first_len b = 1" "r = b" "w = 1"
    | b0 b1 t where "n = b0 # b1 # t" "first_len b0 = 2" "second_ok b0 b1"
        "r = (b0 - 192) * 64 + (b1 - 128)" "w = 2"
    | b0 b1 b2 t where "n = b0 # b1 # b2 # t" "first_len b0 = 3" "second_ok b0 b1"
        "cont_ok b2" "r = (b0 - 224) * 4096 + (b1 - 128) * 64 + (b2 - 128)" "w = 3"
    | b0 b1 b2 b3 t where "n = b0 # b1 # b2 # b3 # t" "first_len b0 = 4"
        "second_ok b0 b1" "cont_ok b2" "cont_ok b3"
        "r = (b0 - 240) * 262144 + (b1 - 128) * 4096 + (b2 - 128) * 64 + (b3 - 128)" "w = 4"
    using assms by (auto simp: decode_bytes_def first_len_def split: list.splits if_splits)
  then show thesis
  proof cases
    case 1
    then show ?thesis by (intro one) (simp_all add: first_len_iff)
  next
    case 2
    then have "192 \<le> b0" "128 \<le> b1" by (simp_all add: first_len_iff second_ok_iff)
    then obtain x y where "b0 = 192 + x" "b1 = 128 + y" by (blast dest: add)
    with 2 show ?thesis
      by (intro two [of x y t]) (simp_all add: first_len_iff second_ok_iff)
  next
    case 3
    then have "224 \<le> b0" "128 \<le> b1" "128 \<le> b2"
      by (simp_all add: first_len_iff second_ok_iff cont_ok_def)
    then obtain x y z where "b0 = 224 + x" "b1 = 128 + y" "b2 = 128 + z" by (blast dest: add)
    with 3 show ?thesis
      by (intro three [of x y z t]) (simp_all add: first_len_iff second_ok_iff cont_ok_def)
  next
    case 4
    then have "240 \<le> b0" "128 \<le> b1" "128 \<le> b2" "128 \<le> b3"
      by (simp_all add: first_len_iff second_ok_iff cont_ok_def)
    then have "\<exists>x. b0 = 240 + x" "\<exists>y. b1 = 128 + y" "\<exists>z. b2 = 128 + z" "\<exists>u. b3 = 128 + u"
      by (simp_all add: add)
    then obtain x y z u where "b0 = 240 + x" "b1 = 128 + y" "b2 = 128 + z" "b3 = 128 + u"
      by blast
    with 4 show ?thesis
      by (intro four [of x y z u t]) (simp_all add: first_len_iff second_ok_iff cont_ok_def)
  qed
qed

lemma decode_bytes_scalar:
  assumes "decode_bytes bs = Some (r, w)" shows "scalar r"
  using assms
proof (cases rule: decode_bytes_cases)
  case (three x y z t)
  then show ?thesis by (cases "x \<le> 13"; cases "x = 13") (simp_all add: scalar_def)
next
  case (four x y z u t)
  then show ?thesis by (cases "x = 0"; cases "x = 4") (simp_all add: scalar_def)
qed (simp_all add: scalar_def)

lemma encode_decode_bytes:
  assumes "decode_bytes (bytes_of s) = Some (r, w)"
  shows "encode_rune r = take w s"
proof -
  have s: "s = map char_of (bytes_of s)"
    unfolding bytes_of_def by (simp add: map_idI comp_def)
  from assms show ?thesis
  proof (cases rule: decode_bytes_cases)
    case (one b t)
    then show ?thesis by (subst s) (simp add: encode_rune_def)
  next
    case (two x y t)
    then show ?thesis by (subst s) (simp add: encode_two)
  next
    case (three x y z t)
    then show ?thesis by (subst s) (simp add: encode_three del: distrib_right_numeral)
  next
    case (four x y z u t)
    then show ?thesis by (subst s) (simp add: encode_four del: distrib_right_numeral)
  qed
qed

lemma well_formed_headD:
  assumes "well_formed_head s"
  shows "scalar (fst (decode_rune s))"
    and "encode_rune (fst (decode_rune s)) = take (snd (decode_rune s)) s"
proof -
  obtain r w where "decode_bytes (bytes_of s) = Some (r, w)"
    using assms by (auto simp: well_formed_head_bytes)
  then show "scalar (fst (decode_rune s))"
    and "encode_rune (fst (decode_rune s)) = take (snd (decode_rune s)) s"
    by (simp_all add: decode_rune_bytes decode_bytes_scalar encode_decode_bytes)
qed

lemma decode_rune_scalar: "scalar (fst (decode_rune s))"
proof (cases "decode_bytes (bytes_of s)")
  case (Some rw)
  then show ?thesis by (cases rw) (simp add: decode_rune_bytes decode_bytes_scalar)
qed (simp add: decode_rune_bytes)

subsection \<open>Strings as rune sequences\<close>

lemma encode_rune_nonempty [simp]: "encode_rune r \<noteq> []"
  by (simp add: encode_rune_def)

lemma valid_utf8_encode_append [simp]:
  "scalar r \<Longrightarrow> valid_utf8 (encode_rune r @ t) \<longleftrightarrow> valid_utf8 t"
  by (subst valid_utf8.simps) simp

lemma runes_of_encode_append [simp]:
  "scalar r \<Longrightarrow> runes_of (encode_rune r @ t) = r # runes_of t"
  by (subst runes_of.simps) simp

definition string_of_runes :: "rune list \<Rightarrow> string" where
  "string_of_runes rs = concat (map encode_rune rs)"

lemma string_of_runes_simps [simp]:
  "string_of_runes [] = []" "string_of_runes (r # rs) = encode_rune r @ string_of_runes rs"
  by (simp_all add: string_of_runes_def)

lemma string_of_runes_append [simp]:
  "string_of_runes (rs @ rs') = string_of_runes rs @ string_of_runes rs'"
  by (simp add: string_of_runes_def)

lemma valid_string_of_runes [simp]: "\<forall>r \<in> set rs. scalar r \<Longrightarrow> valid_utf8 (string_of_runes rs)"
  by (induction rs) simp_all

lemma runes_of_string_of_runes [simp]:
  "\<forall>r \<in> set rs. scalar r \<Longrightarrow> runes_of (string_of_runes rs) = rs"
  by (induction rs) simp_all

lemma runes_of_scalar: "r \<in> set (runes_of s) \<Longrightarrow> scalar r"
proof (induction s rule: runes_of.induct)
  case (1 s)
  then show ?case
    by (cases "s = []") (auto simp: runes_of.simps [of s] decode_rune_scalar)
qed

lemma valid_utf8_string_of_runes: "valid_utf8 s \<Longrightarrow> string_of_runes (runes_of s) = s"
proof (induction s rule: valid_utf8.induct)
  case (1 s)
  show ?case
  proof (cases "s = []")
    case False
    with "1.prems" have h: "well_formed_head s" "valid_utf8 (drop (snd (decode_rune s)) s)"
      by (auto simp: valid_utf8.simps [of s] split: if_splits)
    then show ?thesis
      using "1.IH" False by (simp add: runes_of.simps [of s] well_formed_headD(2) [OF h(1)])
  qed simp
qed

lemma runes_of_inject: "valid_utf8 s \<Longrightarrow> valid_utf8 t \<Longrightarrow> runes_of s = runes_of t \<longleftrightarrow> s = t"
  by (metis valid_utf8_string_of_runes)

lemma valid_utf8_runesE:
  assumes "valid_utf8 s"
  obtains rs where "s = string_of_runes rs" "\<forall>r \<in> set rs. scalar r"
  using assms runes_of_scalar valid_utf8_string_of_runes by metis

lemma valid_utf8_append_left: "valid_utf8 s \<Longrightarrow> valid_utf8 (s @ t) \<longleftrightarrow> valid_utf8 t"
proof (erule valid_utf8_runesE)
  fix rs assume "s = string_of_runes rs" "\<forall>r \<in> set rs. scalar r"
  then show ?thesis by (induction rs arbitrary: s) simp_all
qed

lemma runes_of_append: "valid_utf8 s \<Longrightarrow> runes_of (s @ t) = runes_of s @ runes_of t"
proof (erule valid_utf8_runesE)
  fix rs assume "s = string_of_runes rs" "\<forall>r \<in> set rs. scalar r"
  then show ?thesis by (induction rs arbitrary: s) simp_all
qed

text \<open>Bytes below 128 are runes of their own.\<close>

definition ascii :: "string \<Rightarrow> bool" where
  "ascii s \<longleftrightarrow> (\<forall>c \<in> set s. of_char c < (128::nat))"

lemma encode_ascii: "n < 128 \<Longrightarrow> encode_rune n = [char_of n]"
  by (simp add: encode_rune_def)

lemma ascii_runes: "ascii s \<Longrightarrow> s = string_of_runes (map of_char s) \<and> (\<forall>r \<in> set (map of_char s). scalar r)"
  by (induction s) (auto simp: ascii_def encode_ascii scalar_def)

lemma ascii_valid: "ascii s \<Longrightarrow> valid_utf8 s"
  by (metis ascii_runes valid_string_of_runes)

lemma ascii_runes_of: "ascii s \<Longrightarrow> runes_of s = map of_char s"
  by (metis ascii_runes runes_of_string_of_runes)

end
