(* ===== verification/Identifiers.thy ===== *)
theory Identifiers
  imports Errors Utf8
begin

text \<open>
  engine/protocol/quote.go and the object names of types.go: validation and quoting of PostgreSQL
  identifiers.  The reading side, \<open>scan_quoted\<close> and \<open>scan_name\<close>, is the server's lexical rule for
  quoted identifiers and string literals (a doubled quote stands for one quote); it serves as the
  abstract specification against which quoting is proved injection free.
\<close>

subsection \<open>Quoting (quote.go)\<close>

definition MaxIdentifierBytes :: nat where "MaxIdentifierBytes = 63"

definition dquote :: char where "dquote = CHR 0x22"
definition squote :: char where "squote = CHR 0x27"
definition dot :: char where "dot = CHR ''.''"
definition nul :: char where "nul = CHR 0x00"

definition QuoteIdentifier :: "string \<Rightarrow> string" where
  "QuoteIdentifier s = [dquote] @ replace_char dquote [dquote, dquote] s @ [dquote]"

definition QuoteLiteral :: "string \<Rightarrow> string" where
  "QuoteLiteral s = [squote] @ replace_char squote [squote, squote] s @ [squote]"

definition QuoteQualifiedName :: "string list \<Rightarrow> string" where
  "QuoteQualifiedName parts =
     join_strings [dot] (map QuoteIdentifier (filter (\<lambda>p. p \<noteq> []) parts))"

definition index_byte :: "string \<Rightarrow> char \<Rightarrow> int" where
  "index_byte s c = (if c \<in> set s then int (length (takeWhile (\<lambda>x. x \<noteq> c) s)) else -1)"

definition QuoteMaybeQualified :: "string \<Rightarrow> string" where
  "QuoteMaybeQualified s = (let i = index_byte s dot in
     if i \<le> 0 \<or> i = int (length s) - 1 \<or> count_list s dot \<noteq> 1 then QuoteIdentifier s
     else QuoteIdentifier (take (nat i) s) @ [dot] @ QuoteIdentifier (drop (nat i + 1) s))"

definition ValidateIdentifier :: "string \<Rightarrow> err option" where
  "ValidateIdentifier s =
     (if s = [] then Some (Detailf ErrInvalidIdentifier)
      else if length s > MaxIdentifierBytes then Some (Detailf ErrInvalidIdentifier)
      else if \<not> valid_utf8 s then Some (Detailf ErrInvalidIdentifier)
      else if index_byte s nul \<ge> 0 then Some (Detailf ErrInvalidIdentifier)
      else None)"

definition ValidateSimpleIdentifier :: "string \<Rightarrow> err option" where
  "ValidateSimpleIdentifier s =
     then_check (ValidateIdentifier s)
       (if dot \<in> set s then Some (Detailf ErrInvalidIdentifier) else None)"

definition validateSQLFragment :: "string \<Rightarrow> err option" where
  "validateSQLFragment s =
     (if s = [] then Some (Detailf ErrInvalidPlan)
      else if \<not> valid_utf8 s then Some (Detailf ErrInvalidPlan)
      else if index_byte s nul \<ge> 0 then Some (Detailf ErrInvalidPlan)
      else None)"

subsection \<open>Object names (types.go)\<close>

record object_name =
  obj_schema :: string
  obj_name :: string

definition NewObjectName :: "string \<Rightarrow> string \<Rightarrow> object_name" where
  "NewObjectName s n = \<lparr>obj_schema = s, obj_name = n\<rparr>"

definition obj_String :: "object_name \<Rightarrow> string" where
  "obj_String o1 = (if obj_schema o1 = [] then obj_name o1
     else obj_schema o1 @ [dot] @ obj_name o1)"

definition obj_Quoted :: "object_name \<Rightarrow> string" where
  "obj_Quoted o1 = QuoteQualifiedName [obj_schema o1, obj_name o1]"

definition obj_IsZero :: "object_name \<Rightarrow> bool" where
  "obj_IsZero o1 \<longleftrightarrow> obj_schema o1 = [] \<and> obj_name o1 = []"

definition obj_Validate :: "object_name \<Rightarrow> err option" where
  "obj_Validate o1 = then_check
     (if obj_schema o1 \<noteq> [] then ValidateIdentifier (obj_schema o1) else None)
     (ValidateIdentifier (obj_name o1))"

text \<open>The Go function returns the name together with the error; on an error callers drop the name.\<close>

definition ParseObjectName :: "string \<Rightarrow> err + object_name" where
  "ParseObjectName s =
     (if count_list s dot = 0 then
        (let o1 = NewObjectName [] s in rcheck (obj_Validate o1) (Inr o1))
      else if count_list s dot = 1 then
        (let i = nat (index_byte s dot);
             o1 = NewObjectName (take i s) (drop (i + 1) s)
         in if obj_schema o1 = [] then Inl (Detailf ErrInvalidIdentifier)
            else rcheck (obj_Validate o1) (Inr o1))
      else Inl (Detailf ErrInvalidIdentifier))"

definition ValidateMaybeQualified :: "string \<Rightarrow> err option" where
  "ValidateMaybeQualified s =
     (if count_list s dot = 0 then ValidateIdentifier s
      else (case ParseObjectName s of Inl e \<Rightarrow> Some e | Inr o1 \<Rightarrow> obj_Validate o1))"

subsection \<open>The server's reading of quoted names\<close>

text \<open>
  Inside quotes a doubled quote is one quote character and a single quote ends the token.  The
  result is the text of the token and the rest of the input; an unterminated token is \<open>None\<close>.
\<close>

fun scan_quoted :: "char \<Rightarrow> string \<Rightarrow> (string \<times> string) option" where
  "scan_quoted q [] = None"
| "scan_quoted q [c] = (if c = q then Some ([], []) else None)"
| "scan_quoted q (c # d # s) =
     (if c = q then
        (if d = q then map_option (\<lambda>(t, r). (q # t, r)) (scan_quoted q s) else Some ([], d # s))
      else map_option (\<lambda>(t, r). (c # t, r)) (scan_quoted q (d # s)))"

definition scan_token :: "char \<Rightarrow> string \<Rightarrow> (string \<times> string) option" where
  "scan_token q s = (case s of [] \<Rightarrow> None | c # r \<Rightarrow> if c = q then scan_quoted q r else None)"

text \<open>A possibly qualified name: quoted identifiers separated by dots.\<close>

fun scan_name :: "nat \<Rightarrow> string \<Rightarrow> (string list \<times> string) option" where
  "scan_name 0 s = None"
| "scan_name (Suc n) s = (case scan_token dquote s of
      None \<Rightarrow> None
    | Some (t, r) \<Rightarrow>
       (case r of c # r' \<Rightarrow>
          (if c = dot then map_option (\<lambda>(ts, u). (t # ts, u)) (scan_name n r') else Some ([t], r))
        | [] \<Rightarrow> Some ([t], r)))"

subsection \<open>Validation\<close>

lemma index_byte_nonneg: "index_byte s c \<ge> 0 \<longleftrightarrow> c \<in> set s"
  by (simp add: index_byte_def)

lemma ValidateIdentifier_None:
  "ValidateIdentifier s = None \<longleftrightarrow>
     s \<noteq> [] \<and> length s \<le> MaxIdentifierBytes \<and> valid_utf8 s \<and> nul \<notin> set s"
  by (simp add: ValidateIdentifier_def index_byte_nonneg not_less)

lemma ValidateIdentifier_Some:
  "ValidateIdentifier s = Some e \<Longrightarrow> e = ErrInvalidIdentifier"
  by (auto simp: ValidateIdentifier_def ErrInvalidIdentifier_def split: if_splits)

lemma validateSQLFragment_None:
  "validateSQLFragment s = None \<longleftrightarrow> s \<noteq> [] \<and> valid_utf8 s \<and> nul \<notin> set s"
  by (simp add: validateSQLFragment_def index_byte_nonneg not_less)

lemma ValidateSimpleIdentifier_None:
  "ValidateSimpleIdentifier s = None \<longleftrightarrow> ValidateIdentifier s = None \<and> dot \<notin> set s"
  by (simp add: ValidateSimpleIdentifier_def then_check_None)

lemma obj_Validate_None:
  "obj_Validate o1 = None \<longleftrightarrow>
     (obj_schema o1 \<noteq> [] \<longrightarrow> ValidateIdentifier (obj_schema o1) = None) \<and>
     ValidateIdentifier (obj_name o1) = None"
  by (simp add: obj_Validate_def then_check_None)

subsection \<open>Quoting is undone by the server's scanner\<close>

lemma replace_char_Cons:
  "replace_char c r (x # s) = (if x = c then r else [x]) @ replace_char c r s"
  by (simp add: replace_char_def)

lemma replace_char_Nil [simp]: "replace_char c r [] = []"
  by (simp add: replace_char_def)

lemma scan_quoted_other: "c \<noteq> q \<Longrightarrow> t \<noteq> [] \<Longrightarrow>
   scan_quoted q (c # t) = map_option (\<lambda>(u, r). (c # u, r)) (scan_quoted q t)"
  by (cases t) simp_all

lemma scan_quoted_replace:
  assumes "rest = [] \<or> hd rest \<noteq> q"
  shows "scan_quoted q (replace_char q [q, q] s @ [q] @ rest) = Some (s, rest)"
proof (induction s)
  case Nil
  then show ?case using assms by (cases rest) simp_all
next
  case (Cons x s)
  show ?case
  proof (cases "x = q")
    case True
    with Cons show ?thesis by (simp add: replace_char_Cons)
  next
    case False
    with Cons show ?thesis by (simp add: replace_char_Cons scan_quoted_other)
  qed
qed

lemma scan_token_QuoteIdentifier:
  "rest = [] \<or> hd rest \<noteq> dquote \<Longrightarrow> scan_token dquote (QuoteIdentifier s @ rest) = Some (s, rest)"
  using scan_quoted_replace [of rest dquote s] by (simp add: scan_token_def QuoteIdentifier_def)

lemma scan_token_QuoteLiteral:
  "rest = [] \<or> hd rest \<noteq> squote \<Longrightarrow> scan_token squote (QuoteLiteral s @ rest) = Some (s, rest)"
  using scan_quoted_replace [of rest squote s] by (simp add: scan_token_def QuoteLiteral_def)

lemma scan_token_QuoteIdentifier_end [simp]: "scan_token dquote (QuoteIdentifier s) = Some (s, [])"
  using scan_token_QuoteIdentifier [of "[]" s] by simp

lemma QuoteIdentifier_inject [simp]: "QuoteIdentifier s = QuoteIdentifier t \<longleftrightarrow> s = t"
  by (metis append_Nil2 fst_conv option.inject scan_token_QuoteIdentifier)

lemma dot_dquote [simp]: "dot \<noteq> dquote" "dquote \<noteq> dot"
  by (simp_all add: dot_def dquote_def)

lemma scan_name_QuoteQualified:
  "ps \<noteq> [] \<Longrightarrow> \<forall>p \<in> set ps. p \<noteq> [] \<Longrightarrow> length ps \<le> n \<Longrightarrow>
     rest = [] \<or> hd rest \<notin> {dot, dquote} \<Longrightarrow>
     scan_name n (QuoteQualifiedName ps @ rest) = Some (ps, rest)"
proof (induction ps arbitrary: n)
  case (Cons p ps)
  then obtain m where n: "n = Suc m" by (cases n) auto
  show ?case
  proof (cases ps)
    case Nil
    then show ?thesis using Cons.prems
      by (cases rest) (auto simp: n QuoteQualifiedName_def scan_token_QuoteIdentifier)
  next
    case (Cons p' ps')
    have ih: "scan_name m (QuoteQualifiedName ps @ rest) = Some (ps, rest)"
      using Cons.IH Cons.prems Cons n by simp
    have "QuoteQualifiedName (p # ps) = QuoteIdentifier p @ dot # QuoteQualifiedName ps"
      using Cons.prems Cons by (simp add: QuoteQualifiedName_def)
    then have "scan_token dquote (QuoteQualifiedName (p # ps) @ rest)
        = Some (p, dot # QuoteQualifiedName ps @ rest)"
      by (simp add: scan_token_QuoteIdentifier)
    then show ?thesis by (simp add: n ih)
  qed
qed simp

lemma obj_Quoted_qualified:
  "obj_Quoted o1 = QuoteQualifiedName (filter (\<lambda>p. p \<noteq> []) [obj_schema o1, obj_name o1])"
  by (simp add: obj_Quoted_def QuoteQualifiedName_def)

lemma scan_name_obj_Quoted:
  assumes "obj_name o1 \<noteq> []" and "rest = [] \<or> hd rest \<notin> {dot, dquote}"
  shows "scan_name 2 (obj_Quoted o1 @ rest)
           = Some (filter (\<lambda>p. p \<noteq> []) [obj_schema o1, obj_name o1], rest)"
  unfolding obj_Quoted_qualified
  by (rule scan_name_QuoteQualified) (use assms in auto)

subsection \<open>Parsing object names\<close>

lemma takeWhile_neq_less: "c \<in> set s \<Longrightarrow> length (takeWhile (\<lambda>x. x \<noteq> c) s) < length s"
  by (induction s) auto

lemma index_byte_split:
  assumes "c \<in> set s"
  shows "s = take (nat (index_byte s c)) s @ c # drop (nat (index_byte s c) + 1) s"
    and "c \<notin> set (take (nat (index_byte s c)) s)"
proof -
  let ?n = "length (takeWhile (\<lambda>x. x \<noteq> c) s)"
  have n: "nat (index_byte s c) = ?n" using assms by (simp add: index_byte_def)
  have lt: "?n < length s" using assms by (rule takeWhile_neq_less)
  moreover have "s ! ?n = c" using nth_length_takeWhile [OF lt] by simp
  ultimately show "s = take (nat (index_byte s c)) s @ c # drop (nat (index_byte s c) + 1) s"
    unfolding n by (metis Suc_eq_plus1 id_take_nth_drop)
  show "c \<notin> set (take (nat (index_byte s c)) s)"
    unfolding n by (metis (mono_tags, lifting) set_takeWhileD takeWhile_eq_take)
qed

lemma ParseObjectName_String:
  assumes "ParseObjectName s = Inr o1"
  shows "obj_String o1 = s \<and> obj_Validate o1 = None \<and>
         dot \<notin> set (obj_schema o1) \<and> dot \<notin> set (obj_name o1)"
proof (cases "count_list s dot = 0")
  case True
  then have "dot \<notin> set s" by (simp add: count_list_0_iff)
  with True assms show ?thesis
    by (auto simp: ParseObjectName_def Let_def rcheck_Inr NewObjectName_def obj_String_def)
next
  case False
  then have mem: "dot \<in> set s" by (metis count_notin)
  let ?i = "nat (index_byte s dot)"
  have one: "count_list s dot = 1"
    using assms False by (simp add: ParseObjectName_def Let_def split: if_splits)
  have o1: "o1 = NewObjectName (take ?i s) (drop (?i + 1) s)" "obj_schema o1 \<noteq> []"
    "obj_Validate o1 = None"
    using assms one by (auto simp: ParseObjectName_def Let_def rcheck_Inr split: if_splits)
  have "count_list s dot = count_list (take ?i s) dot + 1 + count_list (drop (?i + 1) s) dot"
    by (subst index_byte_split(1) [OF mem]) simp
  then have "dot \<notin> set (drop (?i + 1) s)" using one by (simp add: count_list_0_iff)
  then show ?thesis
    using o1 index_byte_split [OF mem] by (simp add: NewObjectName_def obj_String_def)
qed

lemma ParseObjectName_complete:
  assumes "obj_Validate o1 = None" "dot \<notin> set (obj_schema o1)" "dot \<notin> set (obj_name o1)"
  shows "ParseObjectName (obj_String o1) = Inr o1"
proof (cases "obj_schema o1 = []")
  case True
  then have "NewObjectName [] (obj_name o1) = o1" by (simp add: NewObjectName_def)
  then show ?thesis using assms True
    by (simp add: ParseObjectName_def obj_String_def count_notin Let_def)
next
  case False
  let ?s = "obj_String o1"
  have s: "?s = obj_schema o1 @ dot # obj_name o1" using False by (simp add: obj_String_def)
  have "takeWhile (\<lambda>x. x \<noteq> dot) ?s = obj_schema o1"
    using assms(2) by (auto simp: s takeWhile_append)
  then have i: "nat (index_byte ?s dot) = length (obj_schema o1)"
    by (simp add: index_byte_def s)
  have "count_list ?s dot = 1" using assms by (simp add: s count_notin)
  moreover have "NewObjectName (take (length (obj_schema o1)) ?s) (drop (length (obj_schema o1) + 1) ?s) = o1"
    by (simp add: s NewObjectName_def)
  ultimately show ?thesis using assms(1) False by (simp add: ParseObjectName_def Let_def i)
qed

end
