(* ===== verification/Hashing.thy ===== *)
theory Hashing
  imports Prelude "HOL-Library.Word"
begin

text \<open>
  The hashing vocabulary of the engine: SHA-256 (crypto/sha256), unpadded base32 and lower-case
  hexadecimal text, big-endian integers, and the length framing that both the protocol package and
  the state package put in front of every hashed field.  The framing is proved injective, so two
  different field sequences are never the same hash input.
\<close>

unbundle bit_operations_syntax

subsection \<open>SHA-256\<close>

type_synonym w32 = "32 word"

definition sha_ror :: "nat \<Rightarrow> w32 \<Rightarrow> w32" where
  "sha_ror n x = drop_bit n x OR push_bit (32 - n) x"

definition sha_small0 :: "w32 \<Rightarrow> w32" where
  "sha_small0 x = sha_ror 7 x XOR sha_ror 18 x XOR drop_bit 3 x"

definition sha_small1 :: "w32 \<Rightarrow> w32" where
  "sha_small1 x = sha_ror 17 x XOR sha_ror 19 x XOR drop_bit 10 x"

definition sha_big0 :: "w32 \<Rightarrow> w32" where
  "sha_big0 x = sha_ror 2 x XOR sha_ror 13 x XOR sha_ror 22 x"

definition sha_big1 :: "w32 \<Rightarrow> w32" where
  "sha_big1 x = sha_ror 6 x XOR sha_ror 11 x XOR sha_ror 25 x"

text \<open>
  The constants are the leading 32 bits of the fractional parts of roots of the first primes: cube
  roots for the rounds, square roots for the initial state.
\<close>

definition int_root :: "nat \<Rightarrow> nat \<Rightarrow> nat" where
  "int_root k n = foldr (\<lambda>i r. if (r + 2 ^ i) ^ k \<le> n then r + 2 ^ i else r) [0..<40] 0"

definition root_word :: "nat \<Rightarrow> nat \<Rightarrow> w32" where
  "root_word k p = word_of_nat (int_root k (p * 2 ^ (32 * k)))"

definition is_prime :: "nat \<Rightarrow> bool" where
  "is_prime p \<longleftrightarrow> 2 \<le> p \<and> list_all (\<lambda>d. p mod d \<noteq> 0) [2..<p]"

definition sha_primes :: "nat list" where
  "sha_primes = filter is_prime [0..<312]"

definition sha_round_constants :: "w32 list" where
  "sha_round_constants = map (root_word 3) sha_primes"

type_synonym sha_state = "w32 \<times> w32 \<times> w32 \<times> w32 \<times> w32 \<times> w32 \<times> w32 \<times> w32"

fun state_of_words :: "w32 list \<Rightarrow> sha_state" where
  "state_of_words [a, b, c, d, e, f, g, h] = (a, b, c, d, e, f, g, h)"
| "state_of_words ws = (0, 0, 0, 0, 0, 0, 0, 0)"

definition sha_init :: sha_state where
  "sha_init = state_of_words (map (root_word 2) (take 8 sha_primes))"

fun be_word :: "string \<Rightarrow> w32" where
  "be_word s = word_of_nat (foldl (\<lambda>a c. a * 256 + of_char c) 0 s)"

text \<open>The message schedule, latest word first.\<close>

definition sha_extend :: "w32 list \<Rightarrow> w32 list" where
  "sha_extend ws = (sha_small1 (ws ! 1) + ws ! 6 + sha_small0 (ws ! 14) + ws ! 15) # ws"

definition sha_schedule :: "string \<Rightarrow> w32 list" where
  "sha_schedule block = rev ((sha_extend ^^ 48)
     (rev (map (\<lambda>i. be_word (take 4 (drop (4 * i) block))) [0..<16])))"

fun sha_round :: "sha_state \<Rightarrow> w32 \<times> w32 \<Rightarrow> sha_state" where
  "sha_round (a, b, c, d, e, f, g, h) (k, w) =
     (let t1 = h + sha_big1 e + ((e AND f) XOR (NOT e AND g)) + k + w;
          t2 = sha_big0 a + ((a AND b) XOR (a AND c) XOR (b AND c))
      in (t1 + t2, a, b, c, d + t1, e, f, g))"

fun sha_add :: "sha_state \<Rightarrow> sha_state \<Rightarrow> sha_state" where
  "sha_add (a, b, c, d, e, f, g, h) (a', b', c', d', e', f', g', h') =
     (a + a', b + b', c + c', d + d', e + e', f + f', g + g', h + h')"

definition sha_block :: "sha_state \<Rightarrow> string \<Rightarrow> sha_state" where
  "sha_block s block = sha_add s (foldl sha_round s (zip sha_round_constants (sha_schedule block)))"

text \<open>Big-endian bytes of a number.\<close>

definition be_bytes :: "nat \<Rightarrow> nat \<Rightarrow> string" where
  "be_bytes n x = map (\<lambda>i. char_of (x div 256 ^ (n - 1 - i))) [0..<n]"

definition sha_pad :: "string \<Rightarrow> string" where
  "sha_pad m = m @ char_of (128::nat) # replicate ((119 - length m mod 64) mod 64) (char_of (0::nat))
     @ be_bytes 8 (8 * length m)"

fun sha_words :: "sha_state \<Rightarrow> w32 list" where
  "sha_words (a, b, c, d, e, f, g, h) = [a, b, c, d, e, f, g, h]"

definition sha256 :: "string \<Rightarrow> string" where
  "sha256 m = (let p = sha_pad m;
       blocks = map (\<lambda>i. take 64 (drop (64 * i) p)) [0..<length p div 64]
     in concat (map (\<lambda>w. be_bytes 4 (unat w)) (sha_words (foldl sha_block sha_init blocks))))"

subsection \<open>Text encodings of a hash\<close>

definition char_bits :: "char \<Rightarrow> bool list" where
  "char_bits c = map (\<lambda>i. odd (of_char c div 2 ^ (7 - i) :: nat)) [0..<8]"

definition bits_value :: "bool list \<Rightarrow> nat" where
  "bits_value bs = foldl (\<lambda>a b. 2 * a + (if b then 1 else 0)) 0 bs"

fun chunks5 :: "bool list \<Rightarrow> bool list list" where
  "chunks5 [] = []"
| "chunks5 (a # b # c # d # e # r) = [a, b, c, d, e] # chunks5 r"
| "chunks5 r = [take 5 (r @ replicate 4 False)]"

definition base32_alphabet :: string where
  "base32_alphabet = ''ABCDEFGHIJKLMNOPQRSTUVWXYZ234567''"

definition base32_encode :: "string \<Rightarrow> string" where
  "base32_encode s = map (\<lambda>b. base32_alphabet ! bits_value b) (chunks5 (concat (map char_bits s)))"

definition lower_char :: "char \<Rightarrow> char" where
  "lower_char c = (if 65 \<le> (of_char c :: nat) \<and> (of_char c :: nat) \<le> 90
     then char_of (of_char c + 32 :: nat) else c)"

definition hex_digits :: string where
  "hex_digits = ''0123456789abcdef''"

definition hex_encode :: "string \<Rightarrow> string" where
  "hex_encode s = concat (map (\<lambda>c. [hex_digits ! (of_char c div 16), hex_digits ! (of_char c mod 16)]) s)"

subsection \<open>Length framing\<close>

definition writeLengthPrefixed :: "string \<Rightarrow> string" where
  "writeLengthPrefixed b = be_bytes 8 (length b) @ b"

definition frames :: "string list \<Rightarrow> string" where
  "frames bs = concat (map writeLengthPrefixed bs)"

subsection \<open>Lengths\<close>

lemma length_be_bytes [simp]: "length (be_bytes n x) = n"
  by (simp add: be_bytes_def)

lemma length_sha_words: "length (sha_words s) = 8"
  by (rule sha_words.cases [of s]) simp

lemma length_concat_const: "\<forall>x \<in> set xs. length (f x) = n \<Longrightarrow> length (concat (map f xs)) = n * length xs"
  by (induction xs) simp_all

lemma length_sha256 [simp]: "length (sha256 m) = 32"
  by (simp add: sha256_def length_concat_const [of _ _ 4] length_sha_words Let_def)

lemma length_hex_encode [simp]: "length (hex_encode s) = 2 * length s"
  by (induction s) (simp_all add: hex_encode_def)

lemma length_chunks5: "length (chunks5 bs) = (length bs + 4) div 5"
  by (induction bs rule: chunks5.induct) simp_all

lemma length_char_bits [simp]: "length (char_bits c) = 8"
  by (simp add: char_bits_def)

lemma length_concat_char_bits: "length (concat (map char_bits s)) = 8 * length s"
  by (induction s) simp_all

lemma length_base32_encode: "length (base32_encode s) = (8 * length s + 4) div 5"
  by (simp add: base32_encode_def length_chunks5 length_concat_char_bits)

lemma chunks5_length: "b \<in> set (chunks5 bs) \<Longrightarrow> length b = 5"
  by (induction bs rule: chunks5.induct) auto

lemma bits_value_bound: "length bs = 5 \<Longrightarrow> bits_value bs < 32"
  by (auto simp: bits_value_def length_Suc_conv eval_nat_numeral)

text \<open>Lower-cased base32 consists of the letters a to z and the digits 2 to 7.\<close>

definition base32_lower :: "char \<Rightarrow> bool" where
  "base32_lower c \<longleftrightarrow> (97 \<le> (of_char c :: nat) \<and> (of_char c :: nat) \<le> 122) \<or>
     (50 \<le> (of_char c :: nat) \<and> (of_char c :: nat) \<le> 55)"

lemma lower_alphabet: "c \<in> set base32_alphabet \<Longrightarrow> base32_lower (lower_char c)"
  by (auto simp: base32_alphabet_def base32_lower_def lower_char_def)

lemma base32_alphabet_nth: "n < 32 \<Longrightarrow> base32_alphabet ! n \<in> set base32_alphabet"
  by (rule nth_mem) (simp add: base32_alphabet_def)

lemma lower_base32_encode: "c \<in> set (map lower_char (base32_encode s)) \<Longrightarrow> base32_lower c"
  by (auto simp: base32_encode_def intro!: lower_alphabet base32_alphabet_nth bits_value_bound
        dest: chunks5_length)

text \<open>
  What the callers rely on about the hash: its output length.  The interface is interpreted on
  SHA-256; the shape of tags, digests and lock keys follows from it.
\<close>

locale digest_function =
  fixes H :: "string \<Rightarrow> string"
  assumes length_digest: "length (H x) = 32"
begin

lemma length_base32_tag: "n \<le> 51 \<Longrightarrow> length (map lower_char (take n (base32_encode (H x)))) = n"
  by (simp add: length_base32_encode length_digest)

lemma base32_tag_lower: "c \<in> set (map lower_char (take n (base32_encode (H x)))) \<Longrightarrow> base32_lower c"
  using lower_base32_encode [of c "H x"] by (auto dest: in_set_takeD)

lemma length_hex_digest: "length (hex_encode (H x)) = 64"
  by (simp add: length_digest)

end

interpretation sha: digest_function sha256
  by unfold_locales (rule length_sha256)

subsection \<open>Framing is injective\<close>

definition be_value :: "string \<Rightarrow> nat" where
  "be_value s = foldl (\<lambda>a c. a * 256 + of_char c) 0 s"

lemma be_bytes_0 [simp]: "be_bytes 0 x = []"
  by (simp add: be_bytes_def)

lemma be_bytes_Suc: "be_bytes (Suc n) x = be_bytes n (x div 256) @ [char_of x]"
proof (rule nth_equalityI)
  show "length (be_bytes (Suc n) x) = length (be_bytes n (x div 256) @ [char_of x])" by simp
  fix i assume "i < length (be_bytes (Suc n) x)"
  then consider "i < n" | "i = n" by fastforce
  then show "be_bytes (Suc n) x ! i = (be_bytes n (x div 256) @ [char_of x]) ! i"
  proof cases
    case 1
    then have "n - i = Suc (n - 1 - i)" by simp
    then have "x div 256 ^ (n - i) = x div 256 div 256 ^ (n - 1 - i)"
      by (simp add: div_mult2_eq)
    with 1 show ?thesis by (simp add: be_bytes_def nth_append del: upt_Suc)
  next
    case 2
    then show ?thesis by (simp add: be_bytes_def nth_append del: upt_Suc)
  qed
qed

lemma be_value_be_bytes: "be_value (be_bytes n x) = x mod 256 ^ n"
proof (induction n arbitrary: x)
  case (Suc n)
  have "be_value (be_bytes (Suc n) x) = be_value (be_bytes n (x div 256)) * 256 + x mod 256"
    by (simp add: be_bytes_Suc be_value_def of_char_of)
  also have "\<dots> = (x div 256 mod 256 ^ n) * 256 + x mod 256" by (simp add: Suc)
  also have "\<dots> = x mod 256 ^ Suc n"
    by (simp add: mod_mult2_eq mult.commute)
  finally show ?case .
qed (simp add: be_value_def)

lemma be_bytes_inject:
  "x < 256 ^ n \<Longrightarrow> y < 256 ^ n \<Longrightarrow> be_bytes n x = be_bytes n y \<longleftrightarrow> x = y"
  by (metis be_value_be_bytes mod_less)

definition framable :: "string \<Rightarrow> bool" where
  "framable b \<longleftrightarrow> length b < 256 ^ 8"

lemma append_split_eq: "length p = length q \<Longrightarrow> p @ s = q @ t \<Longrightarrow> p = q \<and> s = t"
  by simp

lemma writeLengthPrefixed_append_inject:
  assumes "framable a" "framable b"
    and "writeLengthPrefixed a @ s = writeLengthPrefixed b @ t"
  shows "a = b \<and> s = t"
proof -
  have "be_bytes 8 (length a) @ (a @ s) = be_bytes 8 (length b) @ (b @ t)"
    using assms(3) by (simp only: writeLengthPrefixed_def append_assoc)
  then have eq: "be_bytes 8 (length a) = be_bytes 8 (length b) \<and> a @ s = b @ t"
    by (rule append_split_eq [rotated]) (simp only: length_be_bytes)
  have "length a < 256 ^ 8" "length b < 256 ^ 8"
    using assms(1,2) unfolding framable_def .
  then have "length a = length b" using eq be_bytes_inject by blast
  then show ?thesis using append_split_eq eq by blast
qed

lemma frames_append_inject:
  "\<forall>b \<in> set as. framable b \<Longrightarrow> \<forall>b \<in> set bs. framable b \<Longrightarrow> length as = length bs \<Longrightarrow>
     frames as @ s = frames bs @ t \<Longrightarrow> as = bs \<and> s = t"
proof (induction as arbitrary: bs)
  case (Cons a as)
  then obtain b bs' where bs: "bs = b # bs'" by (cases bs) auto
  have "writeLengthPrefixed a @ (frames as @ s) = writeLengthPrefixed b @ (frames bs' @ t)"
    using Cons.prems(4) by (simp add: frames_def bs)
  moreover have "framable a" "framable b" using Cons.prems(1,2) bs by simp_all
  ultimately have "a = b" "frames as @ s = frames bs' @ t"
    by (blast dest: writeLengthPrefixed_append_inject)+
  then show ?case using Cons.IH [of bs'] Cons.prems bs by simp
qed (simp add: frames_def)

lemma frames_inject:
  "\<forall>b \<in> set as. framable b \<Longrightarrow> \<forall>b \<in> set bs. framable b \<Longrightarrow> length as = length bs \<Longrightarrow>
     frames as = frames bs \<Longrightarrow> as = bs"
  using frames_append_inject [of as bs "[]" "[]"] by simp

end
