(* ===== verification/Naming.thy ===== *)
theory Naming
  imports Identifiers Hashing
begin

text \<open>
  engine/protocol/naming.go: the generated names of child indexes and the recognition of the
  transient names a failed REINDEX CONCURRENTLY leaves behind.  The model hashes with the SHA-256
  of theory Hashing, so the generator is executable.  The lemmas show that generated names are legal
  identifiers, that tagged and untagged names never meet, that the collision check is exact, and
  that a leftover is resolved to a base index exactly when one candidate derives it.
\<close>

subsection \<open>Child index names\<close>

definition childNameDomain :: string where "childNameDomain = ''partitionctl.childindex.v1''"
definition childNameTagLen :: nat where "childNameTagLen = 12"

definition childIndexTag :: "string \<Rightarrow> string \<Rightarrow> string" where
  "childIndexTag parentIndex part =
     (let h = writeLengthPrefixed childNameDomain @ writeLengthPrefixed parentIndex
                @ writeLengthPrefixed part;
          encoded = base32_encode (sha256 h)
      in map lower_char (take childNameTagLen encoded))"

text \<open>The range loop of \<open>truncateUTF8\<close>; \<open>b\<close> is the content of the builder.\<close>

fun truncate_loop :: "nat \<Rightarrow> string \<Rightarrow> rune list \<Rightarrow> string" where
  "truncate_loop maxBytes b [] = b"
| "truncate_loop maxBytes b (r # rs) =
     (let n0 = rune_len r; n = (if n0 < 0 then rune_len RuneError else n0) in
      if int (length b) + n > int maxBytes then b
      else truncate_loop maxBytes (b @ write_rune r) rs)"

definition truncateUTF8 :: "string \<Rightarrow> nat \<Rightarrow> string" where
  "truncateUTF8 s maxBytes = truncate_loop maxBytes [] (runes_of s)"

definition looksTagged :: "string \<Rightarrow> bool" where
  "looksTagged s =
     (if length s < childNameTagLen + 1 then False
      else if s ! (length s - childNameTagLen - 1) \<noteq> CHR ''_'' then False
      else list_all base32_lower (drop (length s - childNameTagLen) s))"

text \<open>The byte budget is a natural number: truncated subtraction is the code's test for \<open>budget < 0\<close>.\<close>

definition ChildIndexName :: "string \<Rightarrow> string \<Rightarrow> string" where
  "ChildIndexName parentIndex part =
     (let natural = parentIndex @ ''_'' @ part in
      if length natural \<le> MaxIdentifierBytes \<and> valid_utf8 natural \<and> \<not> looksTagged natural
      then natural
      else (let tag = childIndexTag parentIndex part;
                budget = MaxIdentifierBytes - 1 - length tag
            in truncateUTF8 natural budget @ ''_'' @ tag))"

fun child_names_loop :: "string \<Rightarrow> (string \<rightharpoonup> nat) \<Rightarrow> nat \<Rightarrow> string list \<Rightarrow> err + string list" where
  "child_names_loop parentIndex seen i [] = Inr []"
| "child_names_loop parentIndex seen i (p # ps) =
     (let name = ChildIndexName parentIndex p in
      case seen name of
        Some j \<Rightarrow> Inl (Detailf ErrNameCollision)
      | None \<Rightarrow> rbind (child_names_loop parentIndex (seen(name \<mapsto> i)) (i + 1) ps)
                  (\<lambda>names. Inr (name # names)))"

definition ChildIndexNames :: "string \<Rightarrow> string list \<Rightarrow> err + string list" where
  "ChildIndexNames parentIndex partitions = child_names_loop parentIndex (\<lambda>_. None) 0 partitions"

text \<open>The grouping pass: the leaf names and the leaf positions of each schema, in leaf order.\<close>

record schema_groups =
  grp_schemas :: "string list"
  grp_names :: "string \<rightharpoonup> string list"
  grp_positions :: "string \<rightharpoonup> nat list"

definition slice_at :: "('k \<rightharpoonup> 'v list) \<Rightarrow> 'k \<Rightarrow> 'v list" where
  "slice_at m k = (case m k of None \<Rightarrow> [] | Some vs \<Rightarrow> vs)"

definition group_leaf :: "schema_groups \<Rightarrow> nat \<Rightarrow> object_name \<Rightarrow> schema_groups" where
  "group_leaf g i l = (let s = obj_schema l in
     \<lparr>grp_schemas = (case grp_names g s of None \<Rightarrow> grp_schemas g @ [s] | Some _ \<Rightarrow> grp_schemas g),
      grp_names = (grp_names g)(s \<mapsto> slice_at (grp_names g) s @ [obj_name l]),
      grp_positions = (grp_positions g)(s \<mapsto> slice_at (grp_positions g) s @ [i])\<rparr>)"

fun group_leaves :: "nat \<Rightarrow> schema_groups \<Rightarrow> object_name list \<Rightarrow> schema_groups" where
  "group_leaves i g [] = g"
| "group_leaves i g (l # ls) = group_leaves (i + 1) (group_leaf g i l) ls"

fun place_names :: "string \<Rightarrow> object_name list \<Rightarrow> (nat \<times> string) list \<Rightarrow> object_name list" where
  "place_names s out [] = out"
| "place_names s out ((pos, n) # r) = place_names s (out[pos := NewObjectName s n]) r"

fun qualified_loop :: "string \<Rightarrow> schema_groups \<Rightarrow> object_name list \<Rightarrow> string list
    \<Rightarrow> err + object_name list" where
  "qualified_loop parentIndex g out [] = Inr out"
| "qualified_loop parentIndex g out (s # ss) =
     rbind (ChildIndexNames parentIndex (slice_at (grp_names g) s)) (\<lambda>names.
       qualified_loop parentIndex g (place_names s out (zip (slice_at (grp_positions g) s) names)) ss)"

definition ChildIndexNamesQualified :: "string \<Rightarrow> object_name list \<Rightarrow> err + object_name list" where
  "ChildIndexNamesQualified parentIndex leaves =
     (let g = group_leaves 0 \<lparr>grp_schemas = [], grp_names = (\<lambda>_. None), grp_positions = (\<lambda>_. None)\<rparr>
                leaves
      in qualified_loop parentIndex g (replicate (length leaves) (NewObjectName [] []))
           (sort (grp_schemas g)))"

subsection \<open>Leftovers of REINDEX CONCURRENTLY\<close>

definition LeftoverNewPrefix :: string where "LeftoverNewPrefix = ''_ccnew''"
definition LeftoverOldPrefix :: string where "LeftoverOldPrefix = ''_ccold''"

datatype leftover_kind = LeftoverNone | LeftoverNew | LeftoverOld

definition is_digit :: "char \<Rightarrow> bool" where
  "is_digit c \<longleftrightarrow> c \<in> set ''0123456789''"

definition splitLeftover :: "string \<Rightarrow> leftover_kind \<times> string \<times> string" where
  "splitLeftover indexName =
     (let trimmed = trim_right is_digit indexName;
          digits = drop (length trimmed) indexName
      in if has_suffix trimmed LeftoverNewPrefix
         then (LeftoverNew, trim_suffix trimmed LeftoverNewPrefix, LeftoverNewPrefix @ digits)
         else if has_suffix trimmed LeftoverOldPrefix
         then (LeftoverOld, trim_suffix trimmed LeftoverOldPrefix, LeftoverOldPrefix @ digits)
         else (LeftoverNone, indexName, []))"

definition ClassifyLeftover :: "string \<Rightarrow> leftover_kind \<times> string" where
  "ClassifyLeftover indexName = (case splitLeftover indexName of (kind, stem, _) \<Rightarrow> (kind, stem))"

definition DerivesLeftover :: "string \<Rightarrow> string \<Rightarrow> bool" where
  "DerivesLeftover base leftover =
     (case splitLeftover leftover of (kind, _, sfx) \<Rightarrow>
        if kind = LeftoverNone then False
        else truncateUTF8 base (MaxIdentifierBytes - length sfx) @ sfx = leftover)"

datatype leftover_resolution =
  LeftoverNotAName | LeftoverResolved | LeftoverAmbiguous | LeftoverUnresolved

fun resolve_loop :: "object_name \<Rightarrow> object_name \<Rightarrow> nat \<Rightarrow> object_name list \<Rightarrow> object_name \<times> nat" where
  "resolve_loop leftover found n [] = (found, n)"
| "resolve_loop leftover found n (c # cs) =
     (if obj_schema c \<noteq> obj_schema leftover \<or> obj_name c = obj_name leftover
      then resolve_loop leftover found n cs
      else if fst (splitLeftover (obj_name c)) \<noteq> LeftoverNone
      then resolve_loop leftover found n cs
      else if \<not> DerivesLeftover (obj_name c) (obj_name leftover)
      then resolve_loop leftover found n cs
      else resolve_loop leftover c (n + 1) cs)"

definition ResolveLeftoverBase ::
    "object_name \<Rightarrow> object_name list \<Rightarrow> object_name \<times> leftover_resolution" where
  "ResolveLeftoverBase leftover candidates =
     (if fst (splitLeftover (obj_name leftover)) = LeftoverNone
      then (NewObjectName [] [], LeftoverNotAName)
      else (case resolve_loop leftover (NewObjectName [] []) 0 candidates of (found, n) \<Rightarrow>
        if n = 0 then (NewObjectName [] [], LeftoverUnresolved)
        else if n = 1 then (found, LeftoverResolved)
        else (NewObjectName [] [], LeftoverAmbiguous)))"

subsection \<open>Truncation\<close>

lemma rune_len_scalar: "scalar r \<Longrightarrow> rune_len r > 0"
  by (simp add: rune_len_def)

lemma truncate_loop_prefix:
  "\<forall>r \<in> set rs. scalar r \<Longrightarrow> length b \<le> m \<Longrightarrow>
     \<exists>k. truncate_loop m b rs = b @ string_of_runes (take k rs) \<and>
         length (truncate_loop m b rs) \<le> m \<and>
         (k < length rs \<longrightarrow> length (truncate_loop m b rs) + length (encode_rune (rs ! k)) > m) \<and>
         k \<le> length rs"
proof (induction rs arbitrary: b)
  case (Cons r rs)
  have r: "scalar r" "int (length (encode_rune r)) = rune_len r" "\<not> rune_len r < 0"
    using Cons.prems(1) by (auto simp: length_encode_rune rune_len_def)
  show ?case
  proof (cases "int (length b) + rune_len r > int m")
    case True
    then show ?thesis using r Cons.prems(2) by (intro exI [of _ 0]) (auto simp: Let_def)
  next
    case False
    then have "length (b @ encode_rune r) \<le> m" using r(2) by simp
    then obtain k where k: "truncate_loop m (b @ encode_rune r) rs
          = (b @ encode_rune r) @ string_of_runes (take k rs)"
        "length (truncate_loop m (b @ encode_rune r) rs) \<le> m"
        "k < length rs \<longrightarrow> length (truncate_loop m (b @ encode_rune r) rs)
            + length (encode_rune (rs ! k)) > m" "k \<le> length rs"
      using Cons.IH Cons.prems(1) by (metis list.set_intros(2))
    have "truncate_loop m b (r # rs) = truncate_loop m (b @ encode_rune r) rs"
      using False r by (simp add: Let_def write_rune_def)
    then show ?thesis using k by (intro exI [of _ "Suc k"]) simp
  qed
qed simp

lemma truncateUTF8_prefix:
  obtains k where "truncateUTF8 s m = string_of_runes (take k (runes_of s))"
    "length (truncateUTF8 s m) \<le> m" "k \<le> length (runes_of s)"
    "k < length (runes_of s) \<longrightarrow> length (truncateUTF8 s m) + length (encode_rune (runes_of s ! k)) > m"
proof -
  have "\<forall>r \<in> set (runes_of s). scalar r" using runes_of_scalar by blast
  moreover have "length ([] :: string) \<le> m" by simp
  ultimately obtain k where
    "truncateUTF8 s m = string_of_runes (take k (runes_of s))"
    "length (truncateUTF8 s m) \<le> m" "k \<le> length (runes_of s)"
    "k < length (runes_of s) \<longrightarrow> length (truncateUTF8 s m) + length (encode_rune (runes_of s ! k)) > m"
    unfolding truncateUTF8_def using truncate_loop_prefix [of "runes_of s" "[]" m]
    unfolding append_Nil by blast
  then show thesis by (rule that)
qed

lemma length_truncateUTF8: "length (truncateUTF8 s m) \<le> m"
  by (rule truncateUTF8_prefix)

lemma take_runes_scalar: "\<forall>r \<in> set (take k (runes_of s)). scalar r"
  by (metis in_set_takeD runes_of_scalar)

lemma valid_truncateUTF8: "valid_utf8 (truncateUTF8 s m)"
  by (rule truncateUTF8_prefix [of s m]) (simp add: take_runes_scalar)

lemma truncateUTF8_fits:
  assumes "valid_utf8 s" "length s \<le> m" shows "truncateUTF8 s m = s"
proof (rule truncateUTF8_prefix [of s m])
  fix k assume k: "truncateUTF8 s m = string_of_runes (take k (runes_of s))"
    "k \<le> length (runes_of s)"
    "k < length (runes_of s) \<longrightarrow> length (truncateUTF8 s m) + length (encode_rune (runes_of s ! k)) > m"
  have s: "s = string_of_runes (take k (runes_of s)) @ string_of_runes (drop k (runes_of s))"
    using assms(1) by (metis append_take_drop_id string_of_runes_append valid_utf8_string_of_runes)
  have "k = length (runes_of s)"
  proof (rule ccontr)
    assume "k \<noteq> length (runes_of s)"
    with k(2) have lt: "k < length (runes_of s)" by simp
    then have "drop k (runes_of s) = runes_of s ! k # drop (Suc k) (runes_of s)"
      by (simp add: Cons_nth_drop_Suc)
    then have "length s \<ge> length (truncateUTF8 s m) + length (encode_rune (runes_of s ! k))"
      using s k(1) by (metis add.assoc le_add1 length_append string_of_runes_simps(2))
    then show False using k(3) lt assms(2) by simp
  qed
  then show ?thesis using k(1) valid_utf8_string_of_runes [OF assms(1)] by simp
qed

lemma char_of_zero: "char_of (0::nat) = nul"
  by (simp add: nul_def char_of_def)

lemma nul_map_char_of:
  assumes "nul \<in> set (map char_of ns)" "\<forall>n \<in> set ns. n < (256::nat)" shows "0 \<in> set ns"
proof -
  obtain n where n: "nul = char_of n" "n \<in> set ns" using assms(1) by auto
  then have "n < 256" using assms(2) by blast
  moreover have "of_char nul = n mod 256" using n(1) by (metis of_char_of)
  moreover have "(of_char nul :: nat) = 0" by (simp add: nul_def)
  ultimately show ?thesis using n(2) by simp
qed

lemma nul_encode_rune: "nul \<in> set (encode_rune r) \<Longrightarrow> scalar r \<Longrightarrow> r = 0"
proof (erule scalar_cases)
  assume "nul \<in> set (encode_rune r)" "r < 128"
  then have "nul \<in> set (map char_of [r])" "r < 256" by (simp_all add: encode_ascii)
  then show "r = 0" by (metis nul_map_char_of empty_iff empty_set list.set_cases set_ConsD)
next
  fix x y :: nat assume n: "nul \<in> set (encode_rune r)" "r = x * 64 + y" "2 \<le> x" "x < 32" "y < 64"
  then have "nul \<in> set (map char_of [192 + x, 128 + y])" by (simp add: encode_two)
  then have "0 \<in> set [192 + x, 128 + y]" by (rule nul_map_char_of) (use n in simp)
  then show "r = 0" by simp
next
  fix x y z :: nat
  assume n: "nul \<in> set (encode_rune r)" "r = (x * 64 + y) * 64 + z" "x < 16" "y < 64" "z < 64"
    "x = 0 \<longrightarrow> 32 \<le> y"
  then have "nul \<in> set (map char_of [224 + x, 128 + y, 128 + z])" using n by (metis encode_three)
  then have "0 \<in> set [224 + x, 128 + y, 128 + z]" by (rule nul_map_char_of) (use n in simp)
  then show "r = 0" by simp
next
  fix x y z u :: nat
  assume n: "nul \<in> set (encode_rune r)" "r = ((x * 64 + y) * 64 + z) * 64 + u" "x < 5" "y < 64"
    "z < 64" "u < 64" "x = 0 \<longrightarrow> 16 \<le> y"
  then have "nul \<in> set (map char_of [240 + x, 128 + y, 128 + z, 128 + u])" using n by (metis encode_four)
  then have "0 \<in> set [240 + x, 128 + y, 128 + z, 128 + u]" by (rule nul_map_char_of) (use n in simp)
  then show "r = 0" by simp
qed

lemma nul_string_of_runes:
  "nul \<in> set (string_of_runes rs) \<Longrightarrow> \<forall>r \<in> set rs. scalar r \<Longrightarrow> 0 \<in> set rs"
  by (induction rs) (auto dest: nul_encode_rune)

lemma decode_rune_zero: "s \<noteq> [] \<Longrightarrow> fst (decode_rune s) = 0 \<Longrightarrow> nul \<in> set s"
proof -
  assume s: "s \<noteq> []" "fst (decode_rune s) = 0"
  then have "well_formed_head s"
    by (auto simp: decode_rune_def well_formed_head_def RuneError_def split: option.splits)
  then have "encode_rune 0 = take (snd (decode_rune s)) s"
    using s well_formed_headD(2) by metis
  then have "nul \<in> set (take (snd (decode_rune s)) s)"
    by (metis encode_ascii list.set_intros(1) char_of_zero zero_less_numeral)
  then show ?thesis by (rule in_set_takeD)
qed

lemma zero_runes_of: "0 \<in> set (runes_of s) \<Longrightarrow> nul \<in> set s"
proof (induction s rule: runes_of.induct)
  case (1 s)
  then show ?case
    by (cases "s = []") (auto simp: runes_of.simps [of s] dest: in_set_dropD intro: decode_rune_zero)
qed

lemma nul_truncateUTF8: "nul \<in> set (truncateUTF8 s m) \<Longrightarrow> nul \<in> set s"
proof (rule truncateUTF8_prefix [of s m])
  fix k assume "nul \<in> set (truncateUTF8 s m)" "truncateUTF8 s m = string_of_runes (take k (runes_of s))"
  then show "nul \<in> set s"
    by (metis in_set_takeD nul_string_of_runes take_runes_scalar zero_runes_of)
qed

subsection \<open>Tags\<close>

lemma length_childIndexTag [simp]: "length (childIndexTag p q) = 12"
  unfolding childIndexTag_def Let_def childNameTagLen_def by (rule sha.length_base32_tag) simp

lemma childIndexTag_lower: "c \<in> set (childIndexTag p q) \<Longrightarrow> base32_lower c"
  unfolding childIndexTag_def Let_def by (rule sha.base32_tag_lower)

lemma base32_lower_ascii: "\<forall>c \<in> set t. base32_lower c \<Longrightarrow> ascii t"
  by (auto simp: ascii_def base32_lower_def)

lemma looksTagged_append:
  "length t = 12 \<Longrightarrow> \<forall>c \<in> set t. base32_lower c \<Longrightarrow> looksTagged (s @ ''_'' @ t)"
  by (simp add: looksTagged_def childNameTagLen_def nth_append list_all_iff)

definition natural_ok :: "string \<Rightarrow> string \<Rightarrow> bool" where
  "natural_ok p q \<longleftrightarrow> length (p @ ''_'' @ q) \<le> MaxIdentifierBytes \<and> valid_utf8 (p @ ''_'' @ q)
     \<and> \<not> looksTagged (p @ ''_'' @ q)"

lemma ChildIndexName_cases:
  "ChildIndexName p q = (if natural_ok p q then p @ ''_'' @ q
     else truncateUTF8 (p @ ''_'' @ q) 50 @ ''_'' @ childIndexTag p q)"
  by (simp add: ChildIndexName_def natural_ok_def MaxIdentifierBytes_def Let_def)

lemma looksTagged_ChildIndexName: "looksTagged (ChildIndexName p q) \<longleftrightarrow> \<not> natural_ok p q"
proof (cases "natural_ok p q")
  case True
  then show ?thesis by (simp add: ChildIndexName_cases) (simp add: natural_ok_def)
next
  case False
  then show ?thesis using looksTagged_append [OF length_childIndexTag] childIndexTag_lower
    by (simp add: ChildIndexName_cases)
qed

lemma ascii_underscore: "ascii ''_''"
  by (simp add: ascii_def)

lemma valid_tagged: "valid_utf8 (truncateUTF8 s m @ ''_'' @ childIndexTag p q)"
  using valid_utf8_append_left [OF valid_truncateUTF8] ascii_valid
    base32_lower_ascii [of "CHR ''_'' # childIndexTag p q"]
  by (metis ascii_underscore ascii_valid base32_lower_ascii childIndexTag_lower valid_utf8_append_left)

lemma nul_base32: "base32_lower nul \<Longrightarrow> False"
  by (simp add: base32_lower_def nul_def)

text \<open>
  C40. Every generated child index name is a legal PostgreSQL identifier: 1 to 63 bytes of valid
  UTF-8, whatever the two inputs are, as long as neither carries a NUL byte.
\<close>
theorem ChildIndexName_legal:
  assumes "nul \<notin> set p" "nul \<notin> set q"
  shows "ValidateIdentifier (ChildIndexName p q) = None"
proof (cases "natural_ok p q")
  case True
  then show ?thesis using assms
    by (simp add: ChildIndexName_cases ValidateIdentifier_None) (simp add: natural_ok_def nul_def)
next
  case False
  have "nul \<notin> set (truncateUTF8 (p @ ''_'' @ q) 50)"
    using nul_truncateUTF8 [of "p @ ''_'' @ q" 50] assms by (auto simp: nul_def)
  moreover have "nul \<notin> set (childIndexTag p q)" using childIndexTag_lower nul_base32 by blast
  moreover have "nul \<noteq> CHR ''_''" by (simp add: nul_def)
  ultimately show ?thesis
    using False length_truncateUTF8 [of "p @ ''_'' @ q" 50] valid_tagged
    by (simp add: ChildIndexName_cases ValidateIdentifier_None MaxIdentifierBytes_def)
qed

theorem ChildIndexName_legal_witness:
  "ValidateIdentifier (ChildIndexName ''idx'' ''p2024'') = None"
  by (rule ChildIndexName_legal) (simp_all add: nul_def)

text \<open>
  The natural and the tagged names are disjoint images, and two partitions of one parent index
  share a name only if both names are tagged, were truncated to the same readable part, and have
  equal hash tags: a collision is never produced by truncation alone.
\<close>
theorem ChildIndexName_collision:
  "ChildIndexName p q = ChildIndexName p q' \<longleftrightarrow> q = q' \<or>
     (looksTagged (ChildIndexName p q) \<and> looksTagged (ChildIndexName p q') \<and>
      childIndexTag p q = childIndexTag p q' \<and>
      truncateUTF8 (p @ ''_'' @ q) 50 = truncateUTF8 (p @ ''_'' @ q') 50)"
proof (cases "natural_ok p q \<longleftrightarrow> natural_ok p q'")
  case True
  have "natural_ok p q' \<Longrightarrow> natural_ok p q \<Longrightarrow>
      ChildIndexName p q = ChildIndexName p q' \<longleftrightarrow> q = q'"
    by (simp add: ChildIndexName_cases)
  moreover have "\<not> natural_ok p q' \<Longrightarrow> \<not> natural_ok p q \<Longrightarrow>
      ChildIndexName p q = ChildIndexName p q' \<longleftrightarrow> childIndexTag p q = childIndexTag p q' \<and>
      truncateUTF8 (p @ ''_'' @ q) 50 = truncateUTF8 (p @ ''_'' @ q') 50"
    by (auto simp: ChildIndexName_cases)
  ultimately show ?thesis using True looksTagged_ChildIndexName by blast
next
  case False
  then have "ChildIndexName p q \<noteq> ChildIndexName p q'" using looksTagged_ChildIndexName by metis
  moreover have "q \<noteq> q'" using False by auto
  ultimately show ?thesis using False looksTagged_ChildIndexName by blast
qed

subsection \<open>Collision checks\<close>

lemma Detailf_ErrNameCollision [simp]: "Detailf ErrNameCollision = ErrNameCollision"
  by (simp add: ErrNameCollision_def)

lemma child_names_loop_spec:
  "child_names_loop p seen i ps =
     (if distinct (map (ChildIndexName p) ps) \<and> (\<forall>q \<in> set ps. seen (ChildIndexName p q) = None)
      then Inr (map (ChildIndexName p) ps) else Inl ErrNameCollision)"
proof (induction ps arbitrary: seen i)
  case (Cons q ps)
  show ?case
  proof (cases "seen (ChildIndexName p q)")
    case None
    have "(\<forall>r \<in> set ps. (seen(ChildIndexName p q \<mapsto> i)) (ChildIndexName p r) = None) \<longleftrightarrow>
        ChildIndexName p q \<notin> ChildIndexName p ` set ps \<and> (\<forall>r \<in> set ps. seen (ChildIndexName p r) = None)"
      by (auto simp: image_iff split: if_splits)
    then show ?thesis using None Cons.IH by (simp add: Let_def)
  next
    case (Some j)
    then show ?thesis by (simp add: Let_def)
  qed
qed simp

lemma ChildIndexNames_spec:
  "ChildIndexNames p ps = (if distinct (map (ChildIndexName p) ps)
     then Inr (map (ChildIndexName p) ps) else Inl ErrNameCollision)"
  by (simp add: ChildIndexNames_def child_names_loop_spec)

abbreviation in_schema :: "string \<Rightarrow> object_name \<Rightarrow> bool" where
  "in_schema s l \<equiv> obj_schema l = s"

lemma slice_at_upd [simp]: "slice_at (m(k \<mapsto> v)) k' = (if k' = k then v else slice_at m k')"
  by (simp add: slice_at_def)

lemma group_leaves_names:
  "slice_at (grp_names (group_leaves i g ls)) s
     = slice_at (grp_names g) s @ map obj_name (filter (in_schema s) ls)"
  by (induction ls arbitrary: i g) (auto simp: group_leaf_def Let_def)

lemma group_leaves_positions:
  "slice_at (grp_positions (group_leaves i g ls)) s
     = slice_at (grp_positions g) s @ map fst (filter (\<lambda>(k, l). in_schema s l) (enumerate i ls))"
  by (induction ls arbitrary: i g) (auto simp: group_leaf_def Let_def)

lemma group_leaves_schemas:
  "set (grp_schemas g) = dom (grp_names g) \<Longrightarrow> distinct (grp_schemas g) \<Longrightarrow>
     set (grp_schemas (group_leaves i g ls)) = dom (grp_names g) \<union> obj_schema ` set ls \<and>
     distinct (grp_schemas (group_leaves i g ls))"
proof (induction ls arbitrary: i g)
  case (Cons l ls)
  have "set (grp_schemas (group_leaf g i l)) = dom (grp_names (group_leaf g i l))"
    "distinct (grp_schemas (group_leaf g i l))"
    "dom (grp_names (group_leaf g i l)) = insert (obj_schema l) (dom (grp_names g))"
    using Cons.prems by (auto simp: group_leaf_def Let_def domIff split: option.split)
  then show ?case using Cons.IH [of "group_leaf g i l" "i + 1"] by simp
qed simp

lemma length_place_names [simp]: "length (place_names s out es) = length out"
  by (induction s out es rule: place_names.induct) simp_all

lemma place_names_nth:
  "distinct (map fst es) \<Longrightarrow> k < length out \<Longrightarrow>
     place_names s out es ! k = (case map_of es k of None \<Rightarrow> out ! k | Some n \<Rightarrow> NewObjectName s n)"
  by (induction s out es rule: place_names.induct)
     (auto simp: nth_list_update rev_image_eqI split: option.splits dest: map_of_SomeD)

lemma enumerate_filter_fst:
  "(k, l) \<in> set (filter (\<lambda>(k, l). P l) (enumerate 0 ls)) \<longleftrightarrow> k < length ls \<and> ls ! k = l \<and> P l"
  by (auto simp: in_set_enumerate_eq)

lemma distinct_fst_filter_enumerate: "distinct (map fst (filter P (enumerate n ls)))"
  by (induction ls arbitrary: n) (auto simp: in_set_enumerate_eq)

lemma map_of_enumerate_filter:
  "map_of (map (\<lambda>(k, l). (k, f (obj_name l))) (filter (\<lambda>(k, l). in_schema s l) (enumerate 0 ls))) k
     = (if k < length ls \<and> in_schema s (ls ! k) then Some (f (obj_name (ls ! k))) else None)"
  (is "map_of ?es k = _")
proof -
  have fst: "map fst ?es = map fst (filter (\<lambda>(k, l). in_schema s l) (enumerate 0 ls))"
    by (simp add: case_prod_unfold comp_def)
  show ?thesis
  proof (cases "k < length ls \<and> in_schema s (ls ! k)")
    case True
    then have "(k, f (obj_name (ls ! k))) \<in> set ?es"
      using enumerate_filter_fst [of k "ls ! k" "in_schema s" ls] by (simp add: image_iff) blast
    then show ?thesis
      using True fst distinct_fst_filter_enumerate map_of_is_SomeI by metis
  next
    case False
    then have "k \<notin> set (map fst ?es)"
      unfolding fst by (auto simp: in_set_enumerate_eq)
    then have "map_of ?es k = None" by (simp only: map_of_eq_None_iff set_map not_False_eq_True)
    then show ?thesis by (simp only: False if_False)
  qed
qed


lemma distinct_by_group:
  assumes "\<And>x y. g x = g y \<Longrightarrow> key x = key y"
  shows "distinct (map g ls) \<longleftrightarrow> (\<forall>s. distinct (map g (filter (\<lambda>l. key l = s) ls)))"
proof (induction ls)
  case (Cons l ls)
  let ?C = "g l \<in> g ` {x \<in> set ls. key x = key l}"
  have "{x \<in> set ls. g l = g x} = {x \<in> set ls. key x = key l \<and> g l = g x}"
    using assms [of l] by (intro Collect_cong) (metis (full_types))
  then have mem: "g l \<in> g ` set ls \<longleftrightarrow> ?C" by (auto simp: image_iff)
  have step: "distinct (map g (filter (\<lambda>x. key x = s) (l # ls))) \<longleftrightarrow>
      (key l = s \<longrightarrow> \<not> ?C) \<and> distinct (map g (filter (\<lambda>x. key x = s) ls))" for s
    by (cases "key l = s") simp_all
  have "distinct (map g (l # ls)) \<longleftrightarrow> \<not> ?C \<and> distinct (map g ls)" by (simp add: mem)
  then show ?case unfolding step Cons.IH by (metis (full_types))
qed simp

definition child_object :: "string \<Rightarrow> object_name \<Rightarrow> object_name" where
  "child_object p l = NewObjectName (obj_schema l) (ChildIndexName p (obj_name l))"

lemma NewObjectName_eq [simp]: "NewObjectName s n = NewObjectName s' n' \<longleftrightarrow> s = s' \<and> n = n'"
  by (simp add: NewObjectName_def)

lemma child_object_filter:
  "distinct (map (child_object p) (filter (in_schema s) ls))
     \<longleftrightarrow> distinct (map (ChildIndexName p) (map obj_name (filter (in_schema s) ls)))"
  by (induction ls) (auto simp: child_object_def)

lemma distinct_child_objects:
  "distinct (map (child_object p) ls) \<longleftrightarrow>
     (\<forall>s. distinct (map (ChildIndexName p) (map obj_name (filter (in_schema s) ls))))"
  using distinct_by_group [of "child_object p" obj_schema ls] child_object_filter
  by (simp add: child_object_def)

lemma zip_positions_names:
  "zip (map fst (filter (\<lambda>(k, l). in_schema s l) (enumerate n ls)))
       (map f (map obj_name (filter (in_schema s) ls)))
     = map (\<lambda>(k, l). (k, f (obj_name l))) (filter (\<lambda>(k, l). in_schema s l) (enumerate n ls))"
  by (induction ls arbitrary: n) auto

lemma place_group_nth:
  assumes "k < length out" "length out = length ls"
  shows "place_names s out (zip (map fst (filter (\<lambda>(k, l). in_schema s l) (enumerate 0 ls)))
       (map (ChildIndexName p) (map obj_name (filter (in_schema s) ls)))) ! k
     = (if in_schema s (ls ! k) then child_object p (ls ! k) else out ! k)"
proof -
  have "map fst (map (\<lambda>(k, l). (k, ChildIndexName p (obj_name l)))
      (filter (\<lambda>(k, l). in_schema s l) (enumerate 0 ls)))
      = map fst (filter (\<lambda>(k, l). in_schema s l) (enumerate 0 ls))"
    by (simp add: case_prod_unfold comp_def)
  then have "distinct (map fst (map (\<lambda>(k, l). (k, ChildIndexName p (obj_name l)))
      (filter (\<lambda>(k, l). in_schema s l) (enumerate 0 ls))))"
    using distinct_fst_filter_enumerate by metis
  from place_names_nth [OF this assms(1)] show ?thesis
    unfolding zip_positions_names map_of_enumerate_filter using assms
    by (auto simp: child_object_def)
qed

lemma qualified_loop_spec:
  assumes "\<And>s. slice_at (grp_names g) s = map obj_name (filter (in_schema s) ls)"
    and "\<And>s. slice_at (grp_positions g) s
           = map fst (filter (\<lambda>(k, l). in_schema s l) (enumerate 0 ls))"
    and "length out = length ls"
  shows "qualified_loop p g out ss =
    (if \<forall>s \<in> set ss. distinct (map (ChildIndexName p) (map obj_name (filter (in_schema s) ls)))
     then Inr (map (\<lambda>k. if obj_schema (ls ! k) \<in> set ss then child_object p (ls ! k) else out ! k)
                 [0..<length ls])
     else Inl ErrNameCollision)"
  using assms(3)
proof (induction ss arbitrary: out)
  case Nil
  then show ?case by (auto simp: map_nth [symmetric] intro: nth_equalityI)
next
  case (Cons s ss)
  let ?out = "place_names s out (zip (map fst (filter (\<lambda>(k, l). in_schema s l) (enumerate 0 ls)))
       (map (ChildIndexName p) (map obj_name (filter (in_schema s) ls))))"
  have len: "length ?out = length ls" using Cons.prems by simp
  have "map (\<lambda>k. if obj_schema (ls ! k) \<in> set ss then child_object p (ls ! k) else ?out ! k) [0..<length ls]
      = map (\<lambda>k. if obj_schema (ls ! k) \<in> set (s # ss) then child_object p (ls ! k) else out ! k)
          [0..<length ls]"
    using Cons.prems by (intro map_cong) (auto simp: place_group_nth simp del: map_map)
  then show ?case
    using Cons.IH [OF len] by (simp add: assms(1,2) ChildIndexNames_spec del: map_map)
qed

lemma ChildIndexNamesQualified_eq:
  "ChildIndexNamesQualified p leaves =
     (let out = map (child_object p) leaves in
      if distinct out then Inr out else Inl ErrNameCollision)"
proof -
  let ?g = "group_leaves 0 \<lparr>grp_schemas = [], grp_names = (\<lambda>_. None), grp_positions = (\<lambda>_. None)\<rparr>
              leaves"
  let ?ss = "sort (grp_schemas ?g)"
  have ss: "set ?ss = obj_schema ` set leaves"
    using group_leaves_schemas [of "\<lparr>grp_schemas = [], grp_names = (\<lambda>_. None), grp_positions = (\<lambda>_. None)\<rparr>"]
    by simp
  have loop: "ChildIndexNamesQualified p leaves =
    (if \<forall>s \<in> set ?ss. distinct (map (ChildIndexName p) (map obj_name (filter (in_schema s) leaves)))
     then Inr (map (\<lambda>k. if obj_schema (leaves ! k) \<in> set ?ss then child_object p (leaves ! k)
                 else replicate (length leaves) (NewObjectName [] []) ! k) [0..<length leaves])
     else Inl ErrNameCollision)"
    unfolding ChildIndexNamesQualified_def Let_def
    by (rule qualified_loop_spec)
       (simp_all add: group_leaves_names group_leaves_positions slice_at_def [of "\<lambda>_. None"])
  have out: "map (\<lambda>k. if obj_schema (leaves ! k) \<in> set ?ss then child_object p (leaves ! k)
      else replicate (length leaves) (NewObjectName [] []) ! k) [0..<length leaves]
      = map (child_object p) leaves"
    unfolding ss by (intro nth_equalityI) auto
  have "s \<notin> set ?ss \<Longrightarrow> filter (in_schema s) leaves = []" for s
    unfolding ss by (auto simp: filter_empty_conv)
  then have "(\<forall>s \<in> set ?ss. distinct (map (ChildIndexName p) (map obj_name (filter (in_schema s) leaves))))
      \<longleftrightarrow> distinct (map (child_object p) leaves)"
    unfolding distinct_child_objects by (metis distinct.simps(1) list.map(1))
  then show ?thesis using loop out by (simp add: Let_def del: set_sort)
qed

text \<open>
  The qualified name generator is exactly the pointwise one with a collision check: it returns
  the child name of every leaf, in leaf order and in the schema of that leaf, when these
  names are pairwise distinct, and the name collision error otherwise.  So a legal tree is never
  rejected and no two plan nodes ever share an index name.
\<close>
theorem ChildIndexNamesQualified_exact:
  "ChildIndexNamesQualified p leaves =
     (let out = map (child_object p) leaves in
      if distinct out then Inr out else Inl ErrNameCollision)"
  by (rule ChildIndexNamesQualified_eq)

subsection \<open>Leftover names\<close>

definition leftover_suffix :: "string \<Rightarrow> bool" where
  "leftover_suffix s \<longleftrightarrow>
     (\<exists>d. list_all is_digit d \<and> (s = LeftoverNewPrefix @ d \<or> s = LeftoverOldPrefix @ d))"

lemma splitLeftover_append:
  assumes "list_all is_digit d"
  shows "splitLeftover (x @ LeftoverNewPrefix @ d) = (LeftoverNew, x, LeftoverNewPrefix @ d)"
    and "splitLeftover (x @ LeftoverOldPrefix @ d) = (LeftoverOld, x, LeftoverOldPrefix @ d)"
proof -
  have "trim_right is_digit ((x @ LeftoverNewPrefix) @ d) = x @ LeftoverNewPrefix"
    by (rule trim_right_append)
       (use assms in \<open>simp_all add: list_all_iff LeftoverNewPrefix_def is_digit_def\<close>)
  moreover have "trim_right is_digit ((x @ LeftoverOldPrefix) @ d) = x @ LeftoverOldPrefix"
    by (rule trim_right_append)
       (use assms in \<open>simp_all add: list_all_iff LeftoverOldPrefix_def is_digit_def\<close>)
  moreover have "\<not> has_suffix (x @ LeftoverOldPrefix) LeftoverNewPrefix"
    by (auto simp: has_suffix_iff LeftoverOldPrefix_def LeftoverNewPrefix_def append_eq_append_conv2
        append_eq_Cons_conv)
  ultimately show
    "splitLeftover (x @ LeftoverNewPrefix @ d) = (LeftoverNew, x, LeftoverNewPrefix @ d)"
    "splitLeftover (x @ LeftoverOldPrefix @ d) = (LeftoverOld, x, LeftoverOldPrefix @ d)"
    by (simp_all add: splitLeftover_def Let_def)
qed

lemma splitLeftover_shape:
  assumes "splitLeftover s = (k, stem, sfx)" "k \<noteq> LeftoverNone"
  shows "s = stem @ sfx \<and> leftover_suffix sfx"
proof -
  let ?t = "trim_right is_digit s"
  obtain d where d: "s = ?t @ d" "\<forall>c \<in> set d. is_digit c"
    using trim_right_split [of s is_digit] by blast
  then have digits: "drop (length ?t) s = d" by (metis append_eq_conv_conj)
  consider x where "?t = x @ LeftoverNewPrefix" "stem = x" "sfx = LeftoverNewPrefix @ d"
    | x where "?t = x @ LeftoverOldPrefix" "stem = x" "sfx = LeftoverOldPrefix @ d"
    using assms digits
    by (auto simp: splitLeftover_def Let_def has_suffix_iff split: if_splits)
  then show ?thesis
    by cases (use d in \<open>auto simp: leftover_suffix_def list_all_iff\<close>)
qed

text \<open>
  The leftover test is exactly PostgreSQL's forward derivation: a name is a leftover of a base
  index iff it is the base, cut on a rune boundary so that the suffix fits in 63 bytes,
  followed by \<open>_ccnew\<close> or \<open>_ccold\<close> and any run of decimal digits.
\<close>
theorem DerivesLeftover_exact:
  "DerivesLeftover base leftover \<longleftrightarrow>
     (\<exists>sfx. leftover_suffix sfx \<and> leftover = truncateUTF8 base (MaxIdentifierBytes - length sfx) @ sfx)"
proof
  assume h: "DerivesLeftover base leftover"
  obtain k stem sfx where s: "splitLeftover leftover = (k, stem, sfx)" by (metis prod_cases3)
  with h have "k \<noteq> LeftoverNone" "truncateUTF8 base (MaxIdentifierBytes - length sfx) @ sfx = leftover"
    by (auto simp: DerivesLeftover_def split: if_splits)
  then show "\<exists>sfx. leftover_suffix sfx \<and>
      leftover = truncateUTF8 base (MaxIdentifierBytes - length sfx) @ sfx"
    using splitLeftover_shape [OF s] by metis
next
  assume "\<exists>sfx. leftover_suffix sfx \<and>
      leftover = truncateUTF8 base (MaxIdentifierBytes - length sfx) @ sfx"
  then show "DerivesLeftover base leftover"
    by (auto simp: DerivesLeftover_def leftover_suffix_def splitLeftover_append)
qed

definition base_candidate :: "object_name \<Rightarrow> object_name \<Rightarrow> bool" where
  "base_candidate leftover c \<longleftrightarrow> obj_schema c = obj_schema leftover \<and> obj_name c \<noteq> obj_name leftover \<and>
     fst (splitLeftover (obj_name c)) = LeftoverNone \<and> DerivesLeftover (obj_name c) (obj_name leftover)"

lemma resolve_loop_spec:
  "resolve_loop l found n cs =
     (last (found # filter (base_candidate l) cs), n + length (filter (base_candidate l) cs))"
  by (induction l found n cs rule: resolve_loop.induct) (auto simp: base_candidate_def)

lemma ResolveLeftoverBase_eq:
  "ResolveLeftoverBase l cs =
     (if \<not> (\<exists>stem sfx. obj_name l = stem @ sfx \<and> leftover_suffix sfx)
      then (NewObjectName [] [], LeftoverNotAName)
      else (case filter (base_candidate l) cs of
          [] \<Rightarrow> (NewObjectName [] [], LeftoverUnresolved)
        | [c] \<Rightarrow> (c, LeftoverResolved)
        | _ \<Rightarrow> (NewObjectName [] [], LeftoverAmbiguous)))"
proof -
  have "fst (splitLeftover s) = LeftoverNone \<longleftrightarrow> \<not> (\<exists>stem sfx. s = stem @ sfx \<and> leftover_suffix sfx)" for s
  proof -
    have "fst (splitLeftover (stem @ sfx)) \<noteq> LeftoverNone" if "leftover_suffix sfx" for stem sfx
      using that by (auto simp: leftover_suffix_def splitLeftover_append)
    moreover have "\<exists>stem sfx. s = stem @ sfx \<and> leftover_suffix sfx"
      if "fst (splitLeftover s) \<noteq> LeftoverNone"
      using splitLeftover_shape that by (metis prod.collapse)
    ultimately show ?thesis by blast
  qed
  then show ?thesis
    by (auto simp: ResolveLeftoverBase_def resolve_loop_spec split: list.splits)
qed

text \<open>
  Resolving a leftover never guesses: it names a base index exactly when one single index of
  the relation derives the leftover, and reports ambiguity as soon as two do.
\<close>
theorem ResolveLeftoverBase_exact:
  "ResolveLeftoverBase l cs =
     (if \<not> (\<exists>stem sfx. obj_name l = stem @ sfx \<and> leftover_suffix sfx)
      then (NewObjectName [] [], LeftoverNotAName)
      else (case filter (base_candidate l) cs of
          [] \<Rightarrow> (NewObjectName [] [], LeftoverUnresolved)
        | [c] \<Rightarrow> (c, LeftoverResolved)
        | _ \<Rightarrow> (NewObjectName [] [], LeftoverAmbiguous)))"
  by (rule ResolveLeftoverBase_eq)

end
