(* ===== verification/Node_Kind.thy ===== *)
theory Node_Kind
  imports Errors
begin

text \<open>
  engine/protocol/nodekind.go: the closed set of node kinds and the tables that drive dispatch,
  transaction placement, retry and lock reporting.  \<open>NodeKind\<close> is a Go string type, so a kind that
  is none of the nine constants is \<open>UnknownKind\<close> with its text.  The lock levels are ordered by
  their strength.
\<close>

datatype node_kind =
    KindCatalogAssert | KindIndexCreateParentInvalid | KindIndexCreateConcurrently
  | KindIndexAttach | KindIndexVerify | KindWait | KindIndexDropConcurrently
  | KindIndexReindexConcurrently | KindIndexDropPartitioned | UnknownKind string

datatype lock_level = LockNone | LockShareUpdateExclusive | LockShare | LockAccessExclusive

definition allNodeKinds :: "node_kind list" where
  "allNodeKinds = [KindCatalogAssert, KindIndexCreateParentInvalid, KindIndexCreateConcurrently,
     KindIndexAttach, KindIndexVerify, KindWait, KindIndexDropConcurrently,
     KindIndexReindexConcurrently, KindIndexDropPartitioned]"

fun kind_String :: "node_kind \<Rightarrow> string" where
  "kind_String KindCatalogAssert = ''catalog.assert''"
| "kind_String KindIndexCreateParentInvalid = ''index.create_parent_invalid''"
| "kind_String KindIndexCreateConcurrently = ''index.create_concurrently''"
| "kind_String KindIndexAttach = ''index.attach''"
| "kind_String KindIndexVerify = ''index.verify''"
| "kind_String KindWait = ''wait''"
| "kind_String KindIndexDropConcurrently = ''index.drop_concurrently''"
| "kind_String KindIndexReindexConcurrently = ''index.reindex_concurrently''"
| "kind_String KindIndexDropPartitioned = ''index.drop_partitioned''"
| "kind_String (UnknownKind s) = s"

definition kind_of_string :: "string \<Rightarrow> node_kind" where
  "kind_of_string s = (case filter (\<lambda>k. kind_String k = s) allNodeKinds of
     k # _ \<Rightarrow> k | [] \<Rightarrow> UnknownKind s)"

fun kind_Valid :: "node_kind \<Rightarrow> bool" where
  "kind_Valid KindCatalogAssert = True"
| "kind_Valid KindIndexCreateParentInvalid = True"
| "kind_Valid KindIndexCreateConcurrently = True"
| "kind_Valid KindIndexAttach = True"
| "kind_Valid KindIndexVerify = True"
| "kind_Valid KindWait = True"
| "kind_Valid KindIndexDropConcurrently = True"
| "kind_Valid KindIndexReindexConcurrently = True"
| "kind_Valid KindIndexDropPartitioned = True"
| "kind_Valid (UnknownKind s) = False"

definition IsDestructive :: "node_kind \<Rightarrow> bool" where
  "IsDestructive k = (case k of
     KindIndexDropConcurrently \<Rightarrow> True | KindIndexDropPartitioned \<Rightarrow> True | _ \<Rightarrow> False)"

definition IssuesDDL :: "node_kind \<Rightarrow> bool" where
  "IssuesDDL k = (case k of
     KindIndexCreateParentInvalid \<Rightarrow> True | KindIndexCreateConcurrently \<Rightarrow> True
   | KindIndexAttach \<Rightarrow> True | KindIndexDropConcurrently \<Rightarrow> True
   | KindIndexReindexConcurrently \<Rightarrow> True | KindIndexDropPartitioned \<Rightarrow> True | _ \<Rightarrow> False)"

definition MustRunOutsideTransaction :: "node_kind \<Rightarrow> bool" where
  "MustRunOutsideTransaction k = (case k of
     KindIndexCreateConcurrently \<Rightarrow> True | KindIndexDropConcurrently \<Rightarrow> True
   | KindIndexReindexConcurrently \<Rightarrow> True | _ \<Rightarrow> False)"

definition AllowsStatementTimeout :: "node_kind \<Rightarrow> bool" where
  "AllowsStatementTimeout k = (case k of
     KindIndexCreateConcurrently \<Rightarrow> False | KindIndexReindexConcurrently \<Rightarrow> False
   | KindIndexDropConcurrently \<Rightarrow> False | _ \<Rightarrow> True)"

definition WaitsForConcurrentTransactions :: "node_kind \<Rightarrow> bool" where
  "WaitsForConcurrentTransactions k = (case k of
     KindIndexCreateConcurrently \<Rightarrow> True | KindIndexDropConcurrently \<Rightarrow> True
   | KindIndexReindexConcurrently \<Rightarrow> True | _ \<Rightarrow> False)"

definition ClaimsOwnership :: "node_kind \<Rightarrow> bool" where
  "ClaimsOwnership k = (case k of
     KindIndexCreateParentInvalid \<Rightarrow> True | KindIndexCreateConcurrently \<Rightarrow> True
   | KindIndexAttach \<Rightarrow> True | KindIndexReindexConcurrently \<Rightarrow> True | _ \<Rightarrow> False)"

definition Retryable :: "node_kind \<Rightarrow> bool" where
  "Retryable k = IssuesDDL k"

definition RetrySafe :: "node_kind \<Rightarrow> bool" where
  "RetrySafe k = (case k of
     KindIndexAttach \<Rightarrow> True | KindIndexDropPartitioned \<Rightarrow> True | _ \<Rightarrow> False)"

definition LockLevel :: "node_kind \<Rightarrow> lock_level" where
  "LockLevel k = (case k of
     KindIndexCreateParentInvalid \<Rightarrow> LockShare
   | KindIndexCreateConcurrently \<Rightarrow> LockShareUpdateExclusive
   | KindIndexAttach \<Rightarrow> LockShareUpdateExclusive
   | KindIndexDropConcurrently \<Rightarrow> LockShareUpdateExclusive
   | KindIndexReindexConcurrently \<Rightarrow> LockShareUpdateExclusive
   | KindIndexDropPartitioned \<Rightarrow> LockAccessExclusive
   | _ \<Rightarrow> LockNone)"

definition CheckNodeKind :: "node_kind \<Rightarrow> err option" where
  "CheckNodeKind k = (if kind_Valid k then None else Some (Detailf ErrUnknownNodeKind))"

lemmas kind_tables =
  IsDestructive_def IssuesDDL_def MustRunOutsideTransaction_def AllowsStatementTimeout_def
  WaitsForConcurrentTransactions_def ClaimsOwnership_def Retryable_def RetrySafe_def LockLevel_def

subsection \<open>Lock levels by strength\<close>

fun lock_strength :: "lock_level \<Rightarrow> nat" where
  "lock_strength LockNone = 0"
| "lock_strength LockShareUpdateExclusive = 1"
| "lock_strength LockShare = 2"
| "lock_strength LockAccessExclusive = 3"

lemma lock_strength_inject: "lock_strength a = lock_strength b \<Longrightarrow> a = b"
  by (cases a; cases b) simp_all

instantiation lock_level :: linorder
begin

definition less_eq_lock_level :: "lock_level \<Rightarrow> lock_level \<Rightarrow> bool" where
  "less_eq_lock_level a b \<longleftrightarrow> lock_strength a \<le> lock_strength b"

definition less_lock_level :: "lock_level \<Rightarrow> lock_level \<Rightarrow> bool" where
  "less_lock_level a b \<longleftrightarrow> lock_strength a < lock_strength b"

instance
  by intro_classes
     (auto simp: less_eq_lock_level_def less_lock_level_def intro: lock_strength_inject)

end

subsection \<open>The tables agree\<close>

lemma kind_Valid_iff: "kind_Valid k \<longleftrightarrow> k \<in> set allNodeKinds"
  by (cases k) (simp_all add: allNodeKinds_def)

lemma kind_Valid_not_unknown: "kind_Valid k \<longleftrightarrow> (\<forall>s. k \<noteq> UnknownKind s)"
  by (cases k) simp_all

lemma kind_of_string_String: "kind_Valid k \<Longrightarrow> kind_of_string (kind_String k) = k"
  by (cases k) (simp_all add: kind_of_string_def allNodeKinds_def)

lemma kind_String_of_string [simp]: "kind_String (kind_of_string s) = s"
proof (cases "filter (\<lambda>k. kind_String k = s) allNodeKinds")
  case (Cons k ks)
  then have "k \<in> set (filter (\<lambda>k. kind_String k = s) allNodeKinds)" by (metis list.set_intros(1))
  then have "kind_String k = s" by (simp only: set_filter mem_Collect_eq)
  then show ?thesis using Cons by (simp add: kind_of_string_def)
qed (simp add: kind_of_string_def)

lemma concurrently_tables:
  "MustRunOutsideTransaction k \<longleftrightarrow> WaitsForConcurrentTransactions k"
  "AllowsStatementTimeout k \<longleftrightarrow> \<not> MustRunOutsideTransaction k"
  by (cases k; simp add: kind_tables)+

lemma RetrySafe_Retryable: "RetrySafe k \<Longrightarrow> Retryable k"
  by (cases k) (simp_all add: kind_tables)

lemma RetrySafe_in_transaction: "RetrySafe k \<Longrightarrow> \<not> MustRunOutsideTransaction k"
  by (cases k) (simp_all add: kind_tables)

lemma IsDestructive_IssuesDDL: "IsDestructive k \<Longrightarrow> IssuesDDL k"
  by (cases k) (simp_all add: kind_tables)

lemma IssuesDDL_iff: "IssuesDDL k \<longleftrightarrow> IsDestructive k \<or> ClaimsOwnership k"
  by (cases k) (simp_all add: kind_tables)

lemma not_destructive_and_owning: "\<not> (IsDestructive k \<and> ClaimsOwnership k)"
  by (cases k) (simp_all add: kind_tables)

lemma IssuesDDL_Valid: "IssuesDDL k \<Longrightarrow> kind_Valid k"
  by (cases k) (simp_all add: kind_tables)

text \<open>
  The kind tables are consistent: a kind takes a lock exactly when it issues DDL; it issues
  DDL exactly when it is destructive or claims ownership, never both; a kind that runs outside a
  transaction carries no statement timeout, waits for other transactions, takes at most
  ShareUpdateExclusive, and is never blindly re-issued; only the partitioned drop takes more than
  a Share lock.
\<close>
theorem kind_tables_consistent:
  "(LockLevel k = LockNone \<longleftrightarrow> \<not> IssuesDDL k) \<and>
   (IssuesDDL k \<longleftrightarrow> (IsDestructive k \<noteq> ClaimsOwnership k)) \<and>
   (MustRunOutsideTransaction k \<longleftrightarrow> \<not> AllowsStatementTimeout k) \<and>
   (MustRunOutsideTransaction k \<longleftrightarrow> WaitsForConcurrentTransactions k) \<and>
   \<not> (MustRunOutsideTransaction k \<and> (LockLevel k > LockShareUpdateExclusive \<or> RetrySafe k)) \<and>
   \<not> (LockLevel k > LockShare \<and> k \<noteq> KindIndexDropPartitioned) \<and>
   \<not> (IssuesDDL k \<and> \<not> kind_Valid k)"
  by (cases k) (simp_all add: kind_tables less_lock_level_def)

end
