(* ===== verification/Node_Params.thy ===== *)
theory Node_Params
  imports Identifiers Node_Kind
begin

text \<open>
  engine/protocol/authorization.go and params.go: authorization modes, the typed parameters of
  each node kind, and their validation.  Pointers to optional values are \<open>option\<close>s, the map of
  storage parameters is an association list (first entry wins, as \<open>map_of\<close> reads it), and Go's
  string enumerations keep an unknown value with its text.  A validation error is
  \<open>FmtErr\<close>, wrapping the identifier error where the code uses \<open>%w\<close>.
\<close>

definition errorf :: "err option" where "errorf = Some (FmtErr None)"

definition wrapf :: "err option \<Rightarrow> err option" where
  "wrapf e = map_option (\<lambda>x. FmtErr (Some x)) e"

lemma wrapf_None [check_simps]: "wrapf e = None \<longleftrightarrow> e = None"
  by (simp add: wrapf_def)

lemma errorf_not_None [simp]: "errorf \<noteq> None" "None \<noteq> errorf"
  by (simp_all add: errorf_def)

subsection \<open>Authorization (authorization.go)\<close>

datatype authorization_mode = AuthProvenance | AuthLeftover | AuthExplicit | UnknownMode string

definition mode_Valid :: "authorization_mode \<Rightarrow> bool" where
  "mode_Valid m = (case m of UnknownMode _ \<Rightarrow> False | _ \<Rightarrow> True)"

definition ConfirmExclusiveLock :: string where
  "ConfirmExclusiveLock = ''--confirm-exclusive-lock''"

record authorization =
  auth_mode :: authorization_mode
  auth_object :: object_name
  auth_relation :: "object_name option"
  auth_required_confirmation :: string
  auth_note :: string

text \<open>The receiver is a pointer: \<open>None\<close> is nil.\<close>

definition auth_Validate :: "authorization option \<Rightarrow> err option" where
  "auth_Validate x = (case x of None \<Rightarrow> errorf | Some a \<Rightarrow>
     then_check (if mode_Valid (auth_mode a) then None else errorf)
     (then_check (wrapf (obj_Validate (auth_object a)))
     (then_check (case auth_relation a of None \<Rightarrow> None | Some r \<Rightarrow> wrapf (obj_Validate r))
       (case auth_mode a of
          AuthExplicit \<Rightarrow> if auth_required_confirmation a = [] then errorf else None
        | AuthLeftover \<Rightarrow> if auth_relation a = None then errorf else None
        | _ \<Rightarrow> None))))"

subsection \<open>Index definitions\<close>

record index_column =
  col_name :: string
  col_expression :: string
  col_collation :: string
  col_opclass :: string
  col_descending :: bool
  col_nulls_first :: "bool option"

record index_definition =
  def_method :: string
  def_columns :: "index_column list"
  def_unique :: bool
  def_include :: "string list"
  def_where :: string
  def_tablespace :: string
  def_storage_params :: "(string \<times> string) list"

definition column_Validate :: "index_column \<Rightarrow> err option" where
  "column_Validate c =
     then_check
       (if col_name c = [] \<and> col_expression c = [] then errorf
        else if col_name c \<noteq> [] \<and> col_expression c \<noteq> [] then errorf
        else if col_name c \<noteq> [] then ValidateIdentifier (col_name c)
        else validateSQLFragment (col_expression c))
     (then_check
       (if col_collation c \<noteq> [] then wrapf (ValidateMaybeQualified (col_collation c)) else None)
       (if col_opclass c \<noteq> [] then wrapf (ValidateMaybeQualified (col_opclass c)) else None))"

definition definition_Validate :: "index_definition \<Rightarrow> err option" where
  "definition_Validate d =
     then_check (if def_method d \<noteq> [] then wrapf (ValidateSimpleIdentifier (def_method d)) else None)
     (then_check (if def_columns d = [] then errorf else None)
     (then_check (each_check (\<lambda>c. wrapf (column_Validate c)) (def_columns d))
     (then_check (each_check (\<lambda>c. wrapf (ValidateIdentifier c)) (def_include d))
     (then_check (if def_where d \<noteq> [] then validateSQLFragment (def_where d) else None)
     (then_check (if def_tablespace d \<noteq> [] then wrapf (ValidateIdentifier (def_tablespace d)) else None)
       (each_check (\<lambda>k. wrapf (ValidateIdentifier k)) (map fst (def_storage_params d))))))))"

subsection \<open>Assertions and checks\<close>

datatype assertion_kind =
    AssertRelationIsPartitioned | AssertPartitionStrategy | AssertPartitionDepth
  | AssertNoDefaultPartition | AssertRoleMembership | AssertIndexNameAvailable
  | AssertIndexExists | AssertIndexIsPartitioned | AssertIndexNotConstraintBacked
  | AssertLeavesAttached | UnknownAssertion string

definition assertion_Valid :: "assertion_kind \<Rightarrow> bool" where
  "assertion_Valid a = (case a of UnknownAssertion _ \<Rightarrow> False | _ \<Rightarrow> True)"

record assertion =
  asrt_kind :: assertion_kind
  asrt_relation :: "object_name option"
  asrt_index :: "object_name option"
  asrt_role :: string
  asrt_expected :: "string list"
  asrt_failure_code :: exit_code
  asrt_message :: string

definition assertion_Validate :: "assertion \<Rightarrow> err option" where
  "assertion_Validate a =
     then_check (if assertion_Valid (asrt_kind a) then None else errorf)
     (then_check (case asrt_relation a of None \<Rightarrow> None | Some r \<Rightarrow> wrapf (obj_Validate r))
     (then_check (case asrt_index a of None \<Rightarrow> None | Some i \<Rightarrow> wrapf (obj_Validate i))
     (then_check (if asrt_role a \<noteq> [] then wrapf (ValidateIdentifier (asrt_role a)) else None)
       (if asrt_kind a = AssertRoleMembership \<and> asrt_role a = [] then errorf else None))))"

definition validateObject :: "object_name \<Rightarrow> err option" where
  "validateObject o1 = (if obj_IsZero o1 then errorf else wrapf (obj_Validate o1))"

definition validateOptionalObject :: "object_name option \<Rightarrow> err option" where
  "validateOptionalObject x = (case x of None \<Rightarrow> None | Some o1 \<Rightarrow> validateObject o1)"

datatype verify_check_kind =
    CheckIndexValid | CheckIndexAttached | CheckParentIndexValid | CheckLeafIndexCount
  | CheckIndexAbsent | CheckNoLeftoverIndexes | UnknownCheck string

definition check_Valid :: "verify_check_kind \<Rightarrow> bool" where
  "check_Valid c = (case c of UnknownCheck _ \<Rightarrow> False | _ \<Rightarrow> True)"

record verify_check =
  vc_check :: verify_check_kind
  vc_index :: "object_name option"
  vc_parent_index :: "object_name option"
  vc_relation :: "object_name option"
  vc_expected_count :: "int option"
  vc_message :: string

definition check_Validate :: "verify_check \<Rightarrow> err option" where
  "check_Validate c =
     then_check (if check_Valid (vc_check c) then None else errorf)
     (then_check (validateOptionalObject (vc_index c))
     (then_check (validateOptionalObject (vc_parent_index c))
     (then_check (validateOptionalObject (vc_relation c))
       (case vc_check c of
          CheckIndexValid \<Rightarrow> if vc_index c = None then errorf else None
        | CheckIndexAbsent \<Rightarrow> if vc_index c = None then errorf else None
        | CheckIndexAttached \<Rightarrow> if vc_index c = None \<or> vc_parent_index c = None then errorf else None
        | CheckParentIndexValid \<Rightarrow> if vc_parent_index c = None then errorf else None
        | CheckLeafIndexCount \<Rightarrow>
            if vc_parent_index c = None then errorf
            else (case vc_expected_count c of None \<Rightarrow> errorf
                  | Some n \<Rightarrow> if n < 0 then errorf else None)
        | CheckNoLeftoverIndexes \<Rightarrow> if vc_relation c = None then errorf else None
        | UnknownCheck _ \<Rightarrow> None))))"

subsection \<open>The parameters of each node kind\<close>

datatype drop_reason =
    DropReasonNone | DropInvalidBuild | DropCCNew | DropCCOld | DropUnattachedOrphan
  | UnknownDropReason string

definition drop_reason_Valid :: "drop_reason \<Rightarrow> bool" where
  "drop_reason_Valid r = (case r of DropReasonNone \<Rightarrow> False | UnknownDropReason _ \<Rightarrow> False | _ \<Rightarrow> True)"

record create_parent_invalid_params =
  cpi_parent :: object_name
  cpi_index :: object_name
  cpi_definition :: index_definition

record create_concurrently_params =
  ccp_partition :: object_name
  ccp_index :: object_name
  ccp_definition :: index_definition
  ccp_parent_index :: "object_name option"

record attach_params =
  att_parent_index :: object_name
  att_child_index :: object_name

record wait_params =
  wait_seconds :: int
  wait_reason :: string

record drop_concurrently_params =
  dcp_index :: object_name
  dcp_relation :: "object_name option"
  dcp_reason :: drop_reason

record reindex_concurrently_params =
  rcp_index :: object_name
  rcp_relation :: "object_name option"
  rcp_parent_index :: "object_name option"
  rcp_estimated_peak_bytes :: int

record drop_partitioned_params =
  dpp_parent :: object_name
  dpp_index :: object_name
  dpp_leaf_count :: int

datatype node_params =
    CatalogAssertParams "assertion list"
  | CreateParentInvalidParams create_parent_invalid_params
  | CreateConcurrentlyParams create_concurrently_params
  | AttachParams attach_params
  | VerifyParams "verify_check list"
  | WaitParams wait_params
  | DropConcurrentlyParams drop_concurrently_params
  | ReindexConcurrentlyParams reindex_concurrently_params
  | DropPartitionedParams drop_partitioned_params

fun params_Kind :: "node_params \<Rightarrow> node_kind" where
  "params_Kind (CatalogAssertParams _) = KindCatalogAssert"
| "params_Kind (CreateParentInvalidParams _) = KindIndexCreateParentInvalid"
| "params_Kind (CreateConcurrentlyParams _) = KindIndexCreateConcurrently"
| "params_Kind (AttachParams _) = KindIndexAttach"
| "params_Kind (VerifyParams _) = KindIndexVerify"
| "params_Kind (WaitParams _) = KindWait"
| "params_Kind (DropConcurrentlyParams _) = KindIndexDropConcurrently"
| "params_Kind (ReindexConcurrentlyParams _) = KindIndexReindexConcurrently"
| "params_Kind (DropPartitionedParams _) = KindIndexDropPartitioned"

definition zero_object :: object_name where "zero_object = NewObjectName [] []"

definition zero_definition :: index_definition where
  "zero_definition = \<lparr>def_method = [], def_columns = [], def_unique = False, def_include = [],
     def_where = [], def_tablespace = [], def_storage_params = []\<rparr>"

fun NewParams :: "node_kind \<Rightarrow> err + node_params" where
  "NewParams KindCatalogAssert = Inr (CatalogAssertParams [])"
| "NewParams KindIndexCreateParentInvalid = Inr (CreateParentInvalidParams
     \<lparr>cpi_parent = zero_object, cpi_index = zero_object, cpi_definition = zero_definition\<rparr>)"
| "NewParams KindIndexCreateConcurrently = Inr (CreateConcurrentlyParams
     \<lparr>ccp_partition = zero_object, ccp_index = zero_object, ccp_definition = zero_definition,
      ccp_parent_index = None\<rparr>)"
| "NewParams KindIndexAttach = Inr (AttachParams
     \<lparr>att_parent_index = zero_object, att_child_index = zero_object\<rparr>)"
| "NewParams KindIndexVerify = Inr (VerifyParams [])"
| "NewParams KindWait = Inr (WaitParams \<lparr>wait_seconds = 0, wait_reason = []\<rparr>)"
| "NewParams KindIndexDropConcurrently = Inr (DropConcurrentlyParams
     \<lparr>dcp_index = zero_object, dcp_relation = None, dcp_reason = DropReasonNone\<rparr>)"
| "NewParams KindIndexReindexConcurrently = Inr (ReindexConcurrentlyParams
     \<lparr>rcp_index = zero_object, rcp_relation = None, rcp_parent_index = None,
      rcp_estimated_peak_bytes = 0\<rparr>)"
| "NewParams KindIndexDropPartitioned = Inr (DropPartitionedParams
     \<lparr>dpp_parent = zero_object, dpp_index = zero_object, dpp_leaf_count = 0\<rparr>)"
| "NewParams (UnknownKind s) =
     (case CheckNodeKind (UnknownKind s) of Some e \<Rightarrow> Inl e | None \<Rightarrow> Inr (CatalogAssertParams []))"

definition CatalogAssert_Validate :: "assertion list \<Rightarrow> err option" where
  "CatalogAssert_Validate as =
     then_check (if as = [] then errorf else None) (each_check (\<lambda>a. wrapf (assertion_Validate a)) as)"

definition CreateParentInvalid_Validate :: "create_parent_invalid_params \<Rightarrow> err option" where
  "CreateParentInvalid_Validate p =
     then_check (validateObject (cpi_parent p))
     (then_check (validateObject (cpi_index p)) (definition_Validate (cpi_definition p)))"

definition CreateConcurrently_Validate :: "create_concurrently_params \<Rightarrow> err option" where
  "CreateConcurrently_Validate p =
     then_check (validateObject (ccp_partition p))
     (then_check (validateObject (ccp_index p))
     (then_check (validateOptionalObject (ccp_parent_index p)) (definition_Validate (ccp_definition p))))"

definition Attach_Validate :: "attach_params \<Rightarrow> err option" where
  "Attach_Validate p =
     then_check (validateObject (att_parent_index p)) (validateObject (att_child_index p))"

definition Verify_Validate :: "verify_check list \<Rightarrow> err option" where
  "Verify_Validate cs =
     then_check (if cs = [] then errorf else None) (each_check (\<lambda>c. wrapf (check_Validate c)) cs)"

definition Wait_Validate :: "wait_params \<Rightarrow> err option" where
  "Wait_Validate p = (if wait_seconds p < 0 then errorf else None)"

definition DropConcurrently_Validate :: "drop_concurrently_params \<Rightarrow> err option" where
  "DropConcurrently_Validate p =
     then_check (validateObject (dcp_index p))
     (then_check (validateOptionalObject (dcp_relation p))
       (if dcp_reason p \<noteq> DropReasonNone \<and> \<not> drop_reason_Valid (dcp_reason p) then errorf else None))"

definition ReindexConcurrently_Validate :: "reindex_concurrently_params \<Rightarrow> err option" where
  "ReindexConcurrently_Validate p =
     then_check (validateObject (rcp_index p))
     (then_check (validateOptionalObject (rcp_relation p))
     (then_check (validateOptionalObject (rcp_parent_index p))
       (if rcp_estimated_peak_bytes p < 0 then errorf else None)))"

definition DropPartitioned_Validate :: "drop_partitioned_params \<Rightarrow> err option" where
  "DropPartitioned_Validate p =
     then_check (validateObject (dpp_parent p))
     (then_check (validateObject (dpp_index p))
       (if dpp_leaf_count p < 0 then errorf else None))"

text \<open>The interface method \<open>Validate\<close> dispatches on the dynamic type.\<close>

fun params_Validate :: "node_params \<Rightarrow> err option" where
  "params_Validate (CatalogAssertParams as) = CatalogAssert_Validate as"
| "params_Validate (CreateParentInvalidParams p) = CreateParentInvalid_Validate p"
| "params_Validate (CreateConcurrentlyParams p) = CreateConcurrently_Validate p"
| "params_Validate (AttachParams p) = Attach_Validate p"
| "params_Validate (VerifyParams cs) = Verify_Validate cs"
| "params_Validate (WaitParams p) = Wait_Validate p"
| "params_Validate (DropConcurrentlyParams p) = DropConcurrently_Validate p"
| "params_Validate (ReindexConcurrentlyParams p) = ReindexConcurrently_Validate p"
| "params_Validate (DropPartitionedParams p) = DropPartitioned_Validate p"

lemmas params_Validate_defs [simp] =
  CatalogAssert_Validate_def CreateParentInvalid_Validate_def CreateConcurrently_Validate_def
  Attach_Validate_def Verify_Validate_def Wait_Validate_def DropConcurrently_Validate_def
  ReindexConcurrently_Validate_def DropPartitioned_Validate_def

fun_cases params_Kind_cases: "params_Kind p = k"

lemma NewParams_Kind: "NewParams k = Inr p \<Longrightarrow> params_Kind p = k"
  by (cases k) (auto simp: CheckNodeKind_def)

lemma NewParams_total: "kind_Valid k \<longleftrightarrow> (\<exists>p. NewParams k = Inr p)"
  by (cases k) (simp_all add: CheckNodeKind_def)

lemma params_Kind_Valid [simp]: "kind_Valid (params_Kind p)"
  by (cases p) simp_all

lemma validateObject_None:
  "validateObject o1 = None \<longleftrightarrow> obj_Validate o1 = None"
  by (auto simp: validateObject_def wrapf_None obj_IsZero_def obj_Validate_None ValidateIdentifier_None)

lemma obj_Validate_name: "obj_Validate o1 = None \<Longrightarrow> obj_name o1 \<noteq> []"
  by (simp add: obj_Validate_None ValidateIdentifier_None)

lemma validateOptionalObject_None:
  "validateOptionalObject x = None \<longleftrightarrow> (\<forall>o1. x = Some o1 \<longrightarrow> obj_Validate o1 = None)"
  by (simp add: validateOptionalObject_def validateObject_None split: option.splits)

lemmas validate_simps =
  then_check_None each_check_None wrapf_None require_None validateObject_None
  validateOptionalObject_None

end
