(* ===== verification/Node.thy ===== *)
theory Node
  imports Node_Params
begin

text \<open>
  engine/protocol/node.go, the data of a plan node and its validation, and render.go, the SQL text
  of a node.  The abstract side is a small grammar of the statements: the identifiers the server
  reads back from a rendered statement are exactly the names in the node's parameters.
\<close>

subsection \<open>Nodes (node.go)\<close>

type_synonym node_id = string

record node =
  n_id :: node_id
  n_kind :: node_kind
  n_params :: "node_params option"
  n_depends_on :: "node_id list"
  n_rendered_sql :: string
  n_estimated_seconds :: int
  n_authorization :: "authorization option"

definition node_Object :: "node \<Rightarrow> object_name \<times> bool" where
  "node_Object n = (case n_params n of
     Some (CreateParentInvalidParams p) \<Rightarrow> (cpi_index p, True)
   | Some (CreateConcurrentlyParams p) \<Rightarrow> (ccp_index p, True)
   | Some (AttachParams p) \<Rightarrow> (att_child_index p, True)
   | Some (DropConcurrentlyParams p) \<Rightarrow> (dcp_index p, True)
   | Some (ReindexConcurrentlyParams p) \<Rightarrow> (rcp_index p, True)
   | Some (DropPartitionedParams p) \<Rightarrow> (dpp_index p, True)
   | _ \<Rightarrow> (NewObjectName [] [], False))"

definition node_Validate :: "node \<Rightarrow> err option" where
  "node_Validate n =
     (if n_id n = [] then Some (Detailf ErrInvalidPlan)
      else if \<not> kind_Valid (n_kind n) then Some (Detailf ErrUnknownNodeKind)
      else (case n_params n of
        None \<Rightarrow> Some (Detailf ErrInvalidPlan)
      | Some p \<Rightarrow>
          if params_Kind p \<noteq> n_kind n then Some (Detailf ErrInvalidPlan)
          else if params_Validate p \<noteq> None then Some (Detailf ErrInvalidPlan)
          else if n_estimated_seconds n < 0 then Some (Detailf ErrInvalidPlan)
          else if IsDestructive (n_kind n) \<and> n_authorization n = None
            then Some (Detailf ErrAuthorizationUnsatisfied)
          else if \<not> IsDestructive (n_kind n) \<and> n_authorization n \<noteq> None
            then Some (Detailf ErrInvalidPlan)
          else if n_authorization n \<noteq> None \<and> auth_Validate (n_authorization n) \<noteq> None
            then Some (Detailf ErrInvalidPlan)
          else None))"

subsection \<open>Rendering (render.go)\<close>

record create_index_form =
  cif_index :: object_name
  cif_table :: object_name
  cif_only :: bool
  cif_concurrently :: bool
  cif_definition :: index_definition

definition renderIndexColumn :: "index_column \<Rightarrow> string" where
  "renderIndexColumn c =
     (if col_expression c \<noteq> [] then ''('' @ col_expression c @ '')'' else QuoteIdentifier (col_name c))
     @ (if col_collation c \<noteq> [] then '' COLLATE '' @ QuoteMaybeQualified (col_collation c) else [])
     @ (if col_opclass c \<noteq> [] then '' '' @ QuoteMaybeQualified (col_opclass c) else [])
     @ (if col_descending c then '' DESC'' else [])
     @ (case col_nulls_first c of None \<Rightarrow> []
        | Some b \<Rightarrow> if b then '' NULLS FIRST'' else '' NULLS LAST'')"

definition sorted_keys :: "(string \<times> 'v) list \<Rightarrow> string list" where
  "sorted_keys m = sort (remdups (map fst m))"

definition renderStorageParam :: "(string \<times> string) list \<Rightarrow> string \<Rightarrow> string" where
  "renderStorageParam m k = QuoteIdentifier k @ '' = '' @ QuoteLiteral (the (map_of m k))"

definition renderCreateIndex :: "create_index_form \<Rightarrow> err + string" where
  "renderCreateIndex c =
     (if obj_schema (cif_index c) \<noteq> [] \<and> obj_schema (cif_index c) \<noteq> obj_schema (cif_table c)
      then Inl (Detailf ErrInvalidPlan)
      else (let d = cif_definition c in Inr (
        ''CREATE ''
        @ (if def_unique d then ''UNIQUE '' else [])
        @ ''INDEX ''
        @ (if cif_concurrently c then ''CONCURRENTLY '' else [])
        @ QuoteIdentifier (obj_name (cif_index c))
        @ '' ON ''
        @ (if cif_only c then ''ONLY '' else [])
        @ obj_Quoted (cif_table c)
        @ (if def_method d \<noteq> [] then '' USING '' @ QuoteIdentifier (def_method d) else [])
        @ '' ('' @ join_strings '', '' (map renderIndexColumn (def_columns d)) @ '')''
        @ (if length (def_include d) > 0
           then '' INCLUDE ('' @ join_strings '', '' (map QuoteIdentifier (def_include d)) @ '')''
           else [])
        @ (if length (def_storage_params d) > 0
           then '' WITH ('' @ join_strings '', ''
             (map (renderStorageParam (def_storage_params d)) (sorted_keys (def_storage_params d))) @ '')''
           else [])
        @ (if def_tablespace d \<noteq> [] then '' TABLESPACE '' @ QuoteIdentifier (def_tablespace d) else [])
        @ (if def_where d \<noteq> [] then '' WHERE '' @ def_where d else []))))"

text \<open>\<open>Render\<close> dispatches on the kind alone; the argument is a pointer, nil is \<open>None\<close>.\<close>

definition Render :: "node option \<Rightarrow> err + string" where
  "Render x = (case x of None \<Rightarrow> Inl (Detailf ErrInvalidPlan) | Some n \<Rightarrow>
    (case n_kind n of
       KindCatalogAssert \<Rightarrow> Inr []
     | KindIndexVerify \<Rightarrow> Inr []
     | KindWait \<Rightarrow> Inr []
     | KindIndexCreateParentInvalid \<Rightarrow> (case n_params n of
         Some (CreateParentInvalidParams p) \<Rightarrow> renderCreateIndex
           \<lparr>cif_index = cpi_index p, cif_table = cpi_parent p, cif_only = True,
            cif_concurrently = False, cif_definition = cpi_definition p\<rparr>
       | _ \<Rightarrow> Inl (Detailf ErrInvalidPlan))
     | KindIndexCreateConcurrently \<Rightarrow> (case n_params n of
         Some (CreateConcurrentlyParams p) \<Rightarrow> renderCreateIndex
           \<lparr>cif_index = ccp_index p, cif_table = ccp_partition p, cif_only = False,
            cif_concurrently = True, cif_definition = ccp_definition p\<rparr>
       | _ \<Rightarrow> Inl (Detailf ErrInvalidPlan))
     | KindIndexAttach \<Rightarrow> (case n_params n of
         Some (AttachParams p) \<Rightarrow> Inr (''ALTER INDEX '' @ obj_Quoted (att_parent_index p)
           @ '' ATTACH PARTITION '' @ obj_Quoted (att_child_index p))
       | _ \<Rightarrow> Inl (Detailf ErrInvalidPlan))
     | KindIndexDropConcurrently \<Rightarrow> (case n_params n of
         Some (DropConcurrentlyParams p) \<Rightarrow> Inr (''DROP INDEX CONCURRENTLY '' @ obj_Quoted (dcp_index p))
       | _ \<Rightarrow> Inl (Detailf ErrInvalidPlan))
     | KindIndexReindexConcurrently \<Rightarrow> (case n_params n of
         Some (ReindexConcurrentlyParams p) \<Rightarrow>
           Inr (''REINDEX INDEX CONCURRENTLY '' @ obj_Quoted (rcp_index p))
       | _ \<Rightarrow> Inl (Detailf ErrInvalidPlan))
     | KindIndexDropPartitioned \<Rightarrow> (case n_params n of
         Some (DropPartitionedParams p) \<Rightarrow> Inr (''DROP INDEX '' @ obj_Quoted (dpp_index p))
       | _ \<Rightarrow> Inl (Detailf ErrInvalidPlan))
     | UnknownKind _ \<Rightarrow> Inl (Detailf ErrUnknownNodeKind)))"

definition Preview :: "node option \<Rightarrow> string" where
  "Preview x = (case Render x of Inl _ \<Rightarrow> [] | Inr sql \<Rightarrow> if sql = [] then [] else sql @ '';'')"

subsection \<open>What a valid node guarantees\<close>

lemma node_Validate_None:
  "node_Validate n = None \<longleftrightarrow> n_id n \<noteq> [] \<and>
     (\<exists>p. n_params n = Some p \<and> params_Kind p = n_kind n \<and> params_Validate p = None) \<and>
     n_estimated_seconds n \<ge> 0 \<and>
     (IsDestructive (n_kind n) \<longleftrightarrow> n_authorization n \<noteq> None) \<and>
     (n_authorization n \<noteq> None \<longrightarrow> auth_Validate (n_authorization n) = None)"
proof -
  have "params_Kind p = n_kind n \<Longrightarrow> kind_Valid (n_kind n)" for p by (metis params_Kind_Valid)
  then show ?thesis by (auto simp: node_Validate_def split: option.splits)
qed

text \<open>
  Destruction needs authorization: a valid node carries an authorization exactly when its
  kind is destructive, that authorization is itself valid, and an explicit one names the
  confirmation it needs while a leftover one names the relation it was found on.
\<close>
theorem node_Validate_authorization:
  assumes "node_Validate n = None"
  shows "(IsDestructive (n_kind n) \<longleftrightarrow> n_authorization n \<noteq> None) \<and>
    (case n_authorization n of None \<Rightarrow> True | Some a \<Rightarrow>
       mode_Valid (auth_mode a) \<and> obj_Validate (auth_object a) = None \<and>
       \<not> (auth_mode a = AuthExplicit \<and> auth_required_confirmation a = []) \<and>
       \<not> (auth_mode a = AuthLeftover \<and> auth_relation a = None))"
  using assms
  by (auto simp: node_Validate_None auth_Validate_def then_check_None wrapf_None
      split: option.splits if_splits authorization_mode.splits)

lemma wait_node_valid:
  "node_Validate \<lparr>n_id = ''w'', n_kind = KindWait,
     n_params = Some (WaitParams \<lparr>wait_seconds = 1, wait_reason = []\<rparr>),
     n_depends_on = [], n_rendered_sql = [], n_estimated_seconds = 0, n_authorization = None\<rparr> = None"
  by (simp add: node_Validate_None IsDestructive_def)

definition sample_drop :: node where
  "sample_drop = \<lparr>n_id = ''d'', n_kind = KindIndexDropPartitioned,
     n_params = Some (DropPartitionedParams \<lparr>dpp_parent = NewObjectName [] ''t'',
       dpp_index = NewObjectName [] ''i'', dpp_leaf_count = 1\<rparr>),
     n_depends_on = [], n_rendered_sql = [], n_estimated_seconds = 0,
     n_authorization = Some \<lparr>auth_mode = AuthExplicit, auth_object = NewObjectName [] ''i'',
       auth_relation = None, auth_required_confirmation = ConfirmExclusiveLock, auth_note = []\<rparr>\<rparr>"

lemma sample_identifiers: "ValidateIdentifier ''t'' = None" "ValidateIdentifier ''i'' = None"
  by (simp_all add: ValidateIdentifier_None MaxIdentifierBytes_def ascii_valid ascii_def nul_def)

lemma sample_drop_valid: "node_Validate sample_drop = None"
  by (simp add: sample_drop_def node_Validate_None IsDestructive_def validate_simps obj_Validate_None
      NewObjectName_def sample_identifiers auth_Validate_def mode_Valid_def ConfirmExclusiveLock_def)

theorem node_Validate_authorization_witness:
  "n_authorization sample_drop \<noteq> None"
proof -
  have "IsDestructive (n_kind sample_drop)" by (simp add: sample_drop_def IsDestructive_def)
  then show ?thesis using node_Validate_authorization [OF sample_drop_valid] by blast
qed

subsection \<open>What rendering guarantees\<close>

lemma Render_no_DDL: "kind_Valid (n_kind n) \<Longrightarrow> \<not> IssuesDDL (n_kind n) \<Longrightarrow> Render (Some n) = Inr []"
  by (cases "n_kind n") (simp_all add: Render_def IssuesDDL_def)

lemma renderCreateIndex_nonempty [simp]: "renderCreateIndex c \<noteq> Inr []"
  by (simp add: renderCreateIndex_def Let_def)

text \<open>
  Each kind that issues DDL renders one statement form; \<open>Render_cases\<close> lists them with the
  parameters they come from.
\<close>

lemma Render_cases:
  assumes "Render (Some n) = Inr sql"
  obtains (none) "\<not> IssuesDDL (n_kind n)" "kind_Valid (n_kind n)" "sql = []"
    | (parent) p where "n_params n = Some (CreateParentInvalidParams p)"
        "n_kind n = KindIndexCreateParentInvalid"
        "renderCreateIndex \<lparr>cif_index = cpi_index p, cif_table = cpi_parent p, cif_only = True,
            cif_concurrently = False, cif_definition = cpi_definition p\<rparr> = Inr sql"
    | (create) p where "n_params n = Some (CreateConcurrentlyParams p)"
        "n_kind n = KindIndexCreateConcurrently"
        "renderCreateIndex \<lparr>cif_index = ccp_index p, cif_table = ccp_partition p, cif_only = False,
            cif_concurrently = True, cif_definition = ccp_definition p\<rparr> = Inr sql"
    | (attach) p where "n_params n = Some (AttachParams p)" "n_kind n = KindIndexAttach"
        "sql = ''ALTER INDEX '' @ obj_Quoted (att_parent_index p)
           @ '' ATTACH PARTITION '' @ obj_Quoted (att_child_index p)"
    | (drop) p where "n_params n = Some (DropConcurrentlyParams p)"
        "n_kind n = KindIndexDropConcurrently"
        "sql = ''DROP INDEX CONCURRENTLY '' @ obj_Quoted (dcp_index p)"
    | (reindex) p where "n_params n = Some (ReindexConcurrentlyParams p)"
        "n_kind n = KindIndexReindexConcurrently"
        "sql = ''REINDEX INDEX CONCURRENTLY '' @ obj_Quoted (rcp_index p)"
    | (drop_partitioned) p where "n_params n = Some (DropPartitionedParams p)"
        "n_kind n = KindIndexDropPartitioned" "sql = ''DROP INDEX '' @ obj_Quoted (dpp_index p)"
proof (cases "n_kind n")
  case KindIndexCreateParentInvalid
  then show ?thesis using assms parent
    by (simp add: Render_def split: option.splits node_params.splits)
next
  case KindIndexCreateConcurrently
  then show ?thesis using assms create
    by (simp add: Render_def split: option.splits node_params.splits)
next
  case KindIndexAttach
  then show ?thesis using assms attach
    by (simp add: Render_def split: option.splits node_params.splits)
next
  case KindIndexDropConcurrently
  then show ?thesis using assms drop
    by (simp add: Render_def split: option.splits node_params.splits)
next
  case KindIndexReindexConcurrently
  then show ?thesis using assms reindex
    by (simp add: Render_def split: option.splits node_params.splits)
next
  case KindIndexDropPartitioned
  then show ?thesis using assms drop_partitioned
    by (simp add: Render_def split: option.splits node_params.splits)
qed (use assms none in \<open>simp_all add: Render_def IssuesDDL_def\<close>)

lemma Render_Inr_nonempty:
  assumes "Render (Some n) = Inr s" "IssuesDDL (n_kind n)" shows "s \<noteq> []"
  using assms(1) by (cases rule: Render_cases) (use assms(2) in auto)

text \<open>
  No injection through a name: the drop and reindex statements are a fixed keyword sequence
  followed by a quoted name, and the server's scanner reads exactly the schema and name of the
  node's own object back from it, with nothing left over, whatever characters they contain.
\<close>
theorem Render_single_object:
  assumes "node_Validate n = None" "Render (Some n) = Inr sql" "node_Object n = (o1, True)"
    and "IsDestructive (n_kind n) \<or> n_kind n = KindIndexReindexConcurrently"
  shows "\<exists>kw \<in> {''DROP INDEX CONCURRENTLY '', ''REINDEX INDEX CONCURRENTLY '', ''DROP INDEX ''}.
    sql = kw @ obj_Quoted o1 \<and>
    scan_name 2 (obj_Quoted o1) = Some (filter (\<lambda>p. p \<noteq> []) [obj_schema o1, obj_name o1], [])"
proof -
  obtain p where p: "n_params n = Some p" "params_Kind p = n_kind n" "params_Validate p = None"
    using assms(1) by (auto simp: node_Validate_None)
  have scan: "obj_Validate o1 = None \<Longrightarrow> scan_name 2 (obj_Quoted o1)
      = Some (filter (\<lambda>p. p \<noteq> []) [obj_schema o1, obj_name o1], [])"
    using scan_name_obj_Quoted [of o1 "[]"] obj_Validate_name by simp
  show ?thesis
    using assms(2)
  proof (cases rule: Render_cases)
    case (drop q)
    then show ?thesis using p assms(3) scan by (auto simp: node_Object_def validate_simps)
  next
    case (reindex q)
    then show ?thesis using p assms(3) scan by (auto simp: node_Object_def validate_simps)
  next
    case (drop_partitioned q)
    then show ?thesis using p assms(3) scan by (auto simp: node_Object_def validate_simps)
  next
    case none
    then show ?thesis using assms(4) IsDestructive_IssuesDDL by (auto simp: IssuesDDL_def)
  qed (use assms(4) in \<open>simp_all add: IsDestructive_def\<close>)
qed

theorem Render_single_object_witness:
  "\<exists>kw \<in> {''DROP INDEX CONCURRENTLY '', ''REINDEX INDEX CONCURRENTLY '', ''DROP INDEX ''}.
    ''DROP INDEX '' @ obj_Quoted (NewObjectName [] ''i'') = kw @ obj_Quoted (NewObjectName [] ''i'') \<and>
    scan_name 2 (obj_Quoted (NewObjectName [] ''i'')) =
      Some (filter (\<lambda>p. p \<noteq> []) [obj_schema (NewObjectName [] ''i''), obj_name (NewObjectName [] ''i'')], [])"
  by (rule Render_single_object [OF sample_drop_valid])
     (simp_all add: sample_drop_def Render_def node_Object_def IsDestructive_def)

lemma sorted_keys_perm:
  assumes "map_of m = map_of m'" shows "sorted_keys m = sorted_keys m'"
proof -
  have "set (map fst m) = set (map fst m')"
    using assms by (metis dom_map_of_conv_image_fst set_map)
  then show ?thesis
    unfolding sorted_keys_def sorted_list_of_set_sort_remdups [symmetric] by simp
qed

lemma renderStorageParam_cong: "map_of m = map_of m' \<Longrightarrow> renderStorageParam m = renderStorageParam m'"
  by (rule ext) (simp add: renderStorageParam_def)

text \<open>
  Rendering is deterministic in the content of the storage parameter map: two definitions that
  differ only in how the map is laid out render to the same SQL.
\<close>
theorem renderCreateIndex_map_order:
  assumes "map_of (def_storage_params d) = map_of sp"
  shows "renderCreateIndex (c\<lparr>cif_definition := d\<rparr>)
       = renderCreateIndex (c\<lparr>cif_definition := d\<lparr>def_storage_params := sp\<rparr>\<rparr>)"
proof -
  have "length (def_storage_params d) > 0 \<longleftrightarrow> length sp > 0"
    using assms by (metis length_greater_0_conv map_of_eq_empty_iff)
  then show ?thesis
    using sorted_keys_perm [OF assms] renderStorageParam_cong [OF assms]
    by (simp add: renderCreateIndex_def Let_def)
qed

definition sample_form :: create_index_form where
  "sample_form = \<lparr>cif_index = NewObjectName [] ''i'', cif_table = NewObjectName [] ''t'', cif_only = True,
     cif_concurrently = False, cif_definition = zero_definition\<rparr>"

theorem renderCreateIndex_map_order_witness:
  "renderCreateIndex (sample_form\<lparr>cif_definition := zero_definition\<lparr>def_storage_params :=
      [(''b'', ''2''), (''a'', ''1'')]\<rparr>\<rparr>)
   = renderCreateIndex (sample_form\<lparr>cif_definition := zero_definition\<lparr>def_storage_params :=
      [(''b'', ''2''), (''a'', ''1'')], def_storage_params := [(''a'', ''1''), (''b'', ''2'')]\<rparr>\<rparr>)"
  by (rule renderCreateIndex_map_order) (auto simp: fun_eq_iff)

end
