(* ===== verification/Canonical.thy ===== *)
theory Canonical
  imports Utf8 Errors Hashing
begin

text \<open>
  engine/protocol/canonical.go at the level of JSON values.  \<open>canonicalOf\<close> marshals a Go value and
  decodes the text again before it writes the canonical form; for the values the engine hashes
  (structs of strings, booleans, machine integers, slices and string maps) that detour changes two
  things only, and \<open>decoded\<close> is both: bytes that are not UTF-8 become the replacement character,
  and of two object members with one name the last wins.  Numbers are integers, since every
  numeric field the engine hashes is one.  \<open>canonical\<close> is the abstract value: objects
  sorted by name.
\<close>

datatype json =
    JNull | JBool bool | JInt int | JStr string | JArr "json list" | JObj "(string \<times> json) list"

definition maxCanonicalDepth :: nat where "maxCanonicalDepth = 100"

subsection \<open>Writing\<close>

fun dec_nat :: "nat \<Rightarrow> string" where
  "dec_nat n = (if n < 10 then [hex_digits ! n] else dec_nat (n div 10) @ [hex_digits ! (n mod 10)])"

declare dec_nat.simps [simp del]

definition FormatInt :: "int \<Rightarrow> string" where
  "FormatInt i = (if i < 0 then CHR ''-'' # dec_nat (nat (- i)) else dec_nat (nat i))"

definition canonical_rune :: "rune \<Rightarrow> string" where
  "canonical_rune r =
     (if r = 34 then [CHR 0x5C, CHR 0x22]
      else if r = 92 then [CHR 0x5C, CHR 0x5C]
      else if r = 8 then [CHR 0x5C, CHR ''b'']
      else if r = 12 then [CHR 0x5C, CHR ''f'']
      else if r = 10 then [CHR 0x5C, CHR ''n'']
      else if r = 13 then [CHR 0x5C, CHR ''r'']
      else if r = 9 then [CHR 0x5C, CHR ''t'']
      else if r < 32 then [CHR 0x5C] @ ''u00'' @ [hex_digits ! (r div 16), hex_digits ! (r mod 16)]
      else write_rune r)"

definition writeCanonicalString :: "string \<Rightarrow> string" where
  "writeCanonicalString s = [CHR 0x22] @ concat (map canonical_rune (runes_of s)) @ [CHR 0x22]"

function writeCanonicalValue :: "nat \<Rightarrow> json \<Rightarrow> err + string" where
  "writeCanonicalValue depth v =
     (if depth > maxCanonicalDepth then Inl (Detailf ErrInvalidPlan)
      else (case v of
        JNull \<Rightarrow> Inr ''null''
      | JBool b \<Rightarrow> Inr (if b then ''true'' else ''false'')
      | JInt i \<Rightarrow> Inr (FormatInt i)
      | JStr s \<Rightarrow> Inr (writeCanonicalString s)
      | JArr xs \<Rightarrow> rbind (rmap (\<lambda>x. writeCanonicalValue (depth + 1) x) xs)
          (\<lambda>ss. Inr (''['' @ join_strings '','' ss @ '']''))
      | JObj kvs \<Rightarrow> rbind (rmap (\<lambda>kv. rbind (writeCanonicalValue (depth + 1) (snd kv))
              (\<lambda>t. Inr (writeCanonicalString (fst kv) @ '':'' @ t))) (sort_key fst kvs))
          (\<lambda>ss. Inr (''{'' @ join_strings '','' ss @ ''}''))))"
  by pat_completeness auto

termination
  by (relation "measure (\<lambda>(depth, v). Suc maxCanonicalDepth - depth)") auto

declare writeCanonicalValue.simps [simp del]

text \<open>What the decoder makes of the encoder's output.\<close>

definition sanitize :: "string \<Rightarrow> string" where
  "sanitize s = string_of_runes (runes_of s)"

fun last_wins :: "(string \<times> 'v) list \<Rightarrow> (string \<times> 'v) list" where
  "last_wins [] = []"
| "last_wins ((k, v) # r) = (if k \<in> fst ` set r then last_wins r else (k, v) # last_wins r)"

primrec decoded :: "json \<Rightarrow> json" where
  "decoded JNull = JNull"
| "decoded (JBool b) = JBool b"
| "decoded (JInt i) = JInt i"
| "decoded (JStr s) = JStr (sanitize s)"
| "decoded (JArr xs) = JArr (map decoded xs)"
| "decoded (JObj kvs) = JObj (last_wins (map (map_prod sanitize id) (map (map_prod id decoded) kvs)))"

definition canonicalOf :: "json \<Rightarrow> err + string" where
  "canonicalOf v = writeCanonicalValue 0 (decoded v)"

subsection \<open>The value that is written\<close>

primrec canonical :: "json \<Rightarrow> json" where
  "canonical JNull = JNull"
| "canonical (JBool b) = JBool b"
| "canonical (JInt i) = JInt i"
| "canonical (JStr s) = JStr s"
| "canonical (JArr xs) = JArr (map canonical xs)"
| "canonical (JObj kvs) = JObj (sort_key fst (map (map_prod id canonical) kvs))"

primrec json_depth :: "json \<Rightarrow> nat" where
  "json_depth JNull = 0"
| "json_depth (JBool b) = 0"
| "json_depth (JInt i) = 0"
| "json_depth (JStr s) = 0"
| "json_depth (JArr xs) = Max (set (0 # map (\<lambda>x. Suc (json_depth x)) xs))"
| "json_depth (JObj kvs) = Max (set (0 # map (\<lambda>kv. Suc (snd kv)) (map (map_prod id json_depth) kvs)))"

text \<open>A writer without the depth check, on values whose objects are already sorted.\<close>

primrec text_of :: "json \<Rightarrow> string" where
  "text_of JNull = ''null''"
| "text_of (JBool b) = (if b then ''true'' else ''false'')"
| "text_of (JInt i) = FormatInt i"
| "text_of (JStr s) = writeCanonicalString s"
| "text_of (JArr xs) = ''['' @ join_strings '','' (map text_of xs) @ '']''"
| "text_of (JObj kvs) = ''{'' @ join_strings '',''
     (map (\<lambda>kv. writeCanonicalString (fst kv) @ '':'' @ snd kv) (map (map_prod id text_of) kvs)) @ ''}''"

lemma map_sort_key: "map (map_prod id f) (sort_key fst kvs) = sort_key fst (map (map_prod id f) kvs)"
proof -
  have "map (map_prod id f) (insort_key fst kv xs) = insort_key fst (map_prod id f kv) (map (map_prod id f) xs)"
    for kv :: "'a \<times> 'c" and xs
    by (induction xs) auto
  then show ?thesis by (induction kvs) simp_all
qed

lemma rmap_all_Inr: "(\<And>x. x \<in> set xs \<Longrightarrow> f x = Inr (g x)) \<Longrightarrow> rmap f xs = Inr (map g xs)"
  by (induction xs) auto

lemma json_depth_JArr: "json_depth (JArr xs) \<le> n \<longleftrightarrow> (\<forall>x \<in> set xs. Suc (json_depth x) \<le> n)"
  by simp

lemma json_depth_JObj: "json_depth (JObj kvs) \<le> n \<longleftrightarrow> (\<forall>kv \<in> set kvs. Suc (json_depth (snd kv)) \<le> n)"
  by auto

lemma writeCanonicalValue_text:
  "depth + json_depth v \<le> maxCanonicalDepth \<Longrightarrow> writeCanonicalValue depth v = Inr (text_of (canonical v))"
proof (induction v arbitrary: depth)
  case (JArr xs)
  have d: "\<forall>x \<in> set xs. Suc (json_depth x) \<le> maxCanonicalDepth - depth" "\<not> maxCanonicalDepth < depth"
    using JArr.prems unfolding json_depth_JArr [symmetric] by linarith+
  have "rmap (\<lambda>x. writeCanonicalValue (depth + 1) x) xs = Inr (map (\<lambda>x. text_of (canonical x)) xs)"
    by (rule rmap_all_Inr) (use d JArr.IH in fastforce)
  then show ?case using d by (simp add: writeCanonicalValue.simps [of depth] comp_def del: json_depth.simps)
next
  case (JObj kvs)
  have d: "\<forall>kv \<in> set kvs. Suc (json_depth (snd kv)) \<le> maxCanonicalDepth - depth"
    "\<not> maxCanonicalDepth < depth"
    using JObj.prems unfolding json_depth_JObj [symmetric] by linarith+
  have "rmap (\<lambda>kv. rbind (writeCanonicalValue (depth + 1) (snd kv))
              (\<lambda>t. Inr (writeCanonicalString (fst kv) @ '':'' @ t))) (sort_key fst kvs)
      = Inr (map (\<lambda>kv. writeCanonicalString (fst kv) @ '':'' @ text_of (canonical (snd kv))) (sort_key fst kvs))"
    by (rule rmap_all_Inr) (use d JObj.IH in \<open>fastforce simp: snds.simps\<close>)
  then show ?case using d
    by (simp add: writeCanonicalValue.simps [of depth] comp_def map_sort_key [symmetric] case_prod_unfold
        del: json_depth.simps)
qed (simp_all add: writeCanonicalValue.simps)

lemma rmap_Inr_map:
  "rmap f xs = Inr ys \<Longrightarrow> (\<And>x y. x \<in> set xs \<Longrightarrow> f x = Inr y \<Longrightarrow> y = g x) \<Longrightarrow> ys = map g xs"
  by (induction xs arbitrary: ys) (auto simp: rbind_Inr)

lemma writeCanonicalValue_Inr:
  "writeCanonicalValue depth v = Inr s \<Longrightarrow> s = text_of (canonical v)"
proof (induction v arbitrary: depth s)
  case (JArr xs)
  then obtain ss where ss: "rmap (\<lambda>x. writeCanonicalValue (depth + 1) x) xs = Inr ss"
    "s = ''['' @ join_strings '','' ss @ '']''"
    by (auto simp: writeCanonicalValue.simps [of depth] rbind_Inr split: if_splits)
  have "ss = map (\<lambda>x. text_of (canonical x)) xs"
    by (rule rmap_Inr_map [OF ss(1)]) (rule JArr.IH)
  then show ?case using ss(2) by (simp add: comp_def)
next
  case (JObj kvs)
  then obtain ss where ss: "rmap (\<lambda>kv. rbind (writeCanonicalValue (depth + 1) (snd kv))
              (\<lambda>t. Inr (writeCanonicalString (fst kv) @ '':'' @ t))) (sort_key fst kvs) = Inr ss"
    "s = ''{'' @ join_strings '','' ss @ ''}''"
    by (auto simp: writeCanonicalValue.simps [of depth] rbind_Inr split: if_splits)
  have "ss = map (\<lambda>kv. writeCanonicalString (fst kv) @ '':'' @ text_of (canonical (snd kv))) (sort_key fst kvs)"
  proof (rule rmap_Inr_map [OF ss(1)])
    fix kv y assume kv: "kv \<in> set (sort_key fst kvs)"
      "rbind (writeCanonicalValue (depth + 1) (snd kv))
         (\<lambda>t. Inr (writeCanonicalString (fst kv) @ '':'' @ t)) = Inr y"
    moreover obtain k w where "kv = (k, w)" by (cases kv)
    ultimately show "y = writeCanonicalString (fst kv) @ '':'' @ text_of (canonical (snd kv))"
      using JObj.IH [of kv w] by (auto simp: rbind_Inr)
  qed
  then show ?case using ss(2)
    by (simp add: comp_def map_sort_key [symmetric] case_prod_unfold)
qed (auto simp: writeCanonicalValue.simps split: if_splits)

subsection \<open>The canonical text determines the value\<close>

definition backslash :: char where "backslash = CHR 0x5C"

definition un_rune :: "string \<Rightarrow> (rune \<times> string) option" where
  "un_rune s = (if s = [] then None
     else if hd s \<noteq> backslash then Some (fst (decode_rune s), drop (snd (decode_rune s)) s)
     else (case tl s of [] \<Rightarrow> None | e # t \<Rightarrow>
       (if e = CHR 0x22 then Some (34, t) else if e = backslash then Some (92, t)
        else if e = CHR ''b'' then Some (8, t) else if e = CHR ''f'' then Some (12, t)
        else if e = CHR ''n'' then Some (10, t) else if e = CHR ''r'' then Some (13, t)
        else if e = CHR ''t'' then Some (9, t)
        else Some (the (map_of (zip hex_digits [0..<16]) (t ! 2)) * 16
               + the (map_of (zip hex_digits [0..<16]) (t ! 3)), drop 4 t))))"

lemma decode_rune_ascii: "(of_char c :: nat) < 128 \<Longrightarrow> decode_rune (c # s) = (of_char c, 1)"
  by (simp add: decode_rune_bytes bytes_of_def decode_bytes_def first_len_def)

lemma canonical_rune_plain:
  "r \<ge> 32 \<Longrightarrow> r \<noteq> 34 \<Longrightarrow> r \<noteq> 92 \<Longrightarrow> scalar r \<Longrightarrow> canonical_rune r = encode_rune r"
  by (simp add: canonical_rune_def write_rune_def)

lemma encode_rune_head:
  assumes "scalar r" "encode_rune r @ x = c # y" "(of_char c :: nat) < 128" shows "r = of_char c"
  using decode_rune_ascii [OF assms(3), of y] decode_rune_encode [OF assms(1), of x] assms(2) by simp

lemma canonical_rune_escapes:
  "\<forall>r \<in> set ([0..<32] @ [34, 92]). un_rune (canonical_rune r @ x) = Some (r, x) \<and>
      (\<exists>e y. canonical_rune r @ x = backslash # e # y)"
  by (simp add: canonical_rune_def un_rune_def backslash_def hex_digits_def upt_rec)

lemma un_rune_canonical: "scalar r \<Longrightarrow> un_rune (canonical_rune r @ x) = Some (r, x)"
proof (cases "r < 32 \<or> r = 34 \<or> r = 92")
  case True
  then have "r \<in> set ([0..<32] @ [34, 92])" by auto
  then show ?thesis using canonical_rune_escapes by blast
next
  case False
  assume r: "scalar r"
  with False have c: "canonical_rune r = encode_rune r" by (intro canonical_rune_plain) auto
  obtain e y where e: "encode_rune r @ x = e # y" using encode_rune_nonempty by (metis append_is_Nil_conv neq_Nil_conv)
  then have "e \<noteq> backslash"
    using encode_rune_head [OF r e] False by (auto simp: backslash_def)
  then have "un_rune (encode_rune r @ x)
      = Some (fst (decode_rune (encode_rune r @ x)), drop (snd (decode_rune (encode_rune r @ x))) (encode_rune r @ x))"
    using e by (simp add: un_rune_def)
  then show ?thesis using r by (simp add: c)
qed

lemma canonical_rune_inject:
  assumes "scalar r" "scalar r'" "canonical_rune r @ x = canonical_rune r' @ x'"
  shows "r = r' \<and> x = x'"
  by (metis assms un_rune_canonical option.inject prod.inject)

lemma canonical_rune_quote: "scalar r \<Longrightarrow> canonical_rune r @ x \<noteq> CHR 0x22 # y"
proof (cases "r < 32 \<or> r = 34 \<or> r = 92")
  case True
  then have "r \<in> set ([0..<32] @ [34, 92])" by auto
  then obtain e z where "canonical_rune r @ x = backslash # e # z" using canonical_rune_escapes by blast
  then show ?thesis by (simp add: backslash_def)
next
  case False
  assume r: "scalar r"
  with False have "canonical_rune r = encode_rune r" by (intro canonical_rune_plain) auto
  then show ?thesis using encode_rune_head [OF r, of x "CHR 0x22" y] False by auto
qed

lemma canonical_runes_inject:
  "\<forall>r \<in> set rs. scalar r \<Longrightarrow> \<forall>r \<in> set rs'. scalar r \<Longrightarrow>
     concat (map canonical_rune rs) @ CHR 0x22 # x = concat (map canonical_rune rs') @ CHR 0x22 # x' \<Longrightarrow>
     rs = rs' \<and> x = x'"
proof (induction rs arbitrary: rs')
  case Nil
  show ?case
  proof (cases rs')
    case (Cons r rs2)
    then have "canonical_rune r @ (concat (map canonical_rune rs2) @ CHR 0x22 # x') = CHR 0x22 # x"
      using Nil.prems(3) by simp
    then show ?thesis using canonical_rune_quote Nil.prems(2) Cons by (metis list.set_intros(1))
  qed (use Nil in simp)
next
  case (Cons r rs)
  obtain r' rs2 where rs': "rs' = r' # rs2"
  proof (cases rs')
    case Nil
    then have "canonical_rune r @ (concat (map canonical_rune rs) @ CHR 0x22 # x) = CHR 0x22 # x'"
      using Cons.prems(3) by simp
    then show ?thesis using canonical_rune_quote Cons.prems(1) by (metis list.set_intros(1))
  qed
  have sc: "scalar r" "scalar r'" using Cons.prems(1,2) rs' by simp_all
  have "canonical_rune r @ (concat (map canonical_rune rs) @ CHR 0x22 # x)
      = canonical_rune r' @ (concat (map canonical_rune rs2) @ CHR 0x22 # x')"
    using Cons.prems(3) rs' by simp
  from canonical_rune_inject [OF sc this] show ?case
    using Cons.IH [of rs2] Cons.prems(1,2) rs' by simp
qed

lemma writeCanonicalString_inject:
  "writeCanonicalString s @ x = writeCanonicalString t @ x' \<Longrightarrow> valid_utf8 s \<Longrightarrow> valid_utf8 t \<Longrightarrow> s = t \<and> x = x'"
  using canonical_runes_inject [of "runes_of s" "runes_of t" x x'] runes_of_scalar runes_of_inject
  by (auto simp: writeCanonicalString_def)

definition is_dec :: "char \<Rightarrow> bool" where "is_dec c \<longleftrightarrow> c \<in> set (take 10 hex_digits)"

lemma dec_digit: "n < 10 \<Longrightarrow> is_dec (hex_digits ! n)"
proof -
  assume "n < 10"
  then have "hex_digits ! n = take 10 hex_digits ! n" by (simp only: nth_take)
  moreover have "n < length (take 10 hex_digits)" using \<open>n < 10\<close> by (simp add: hex_digits_def)
  ultimately show ?thesis unfolding is_dec_def by (metis nth_mem)
qed

lemma dec_nat_digits: "\<forall>c \<in> set (dec_nat n). is_dec c"
proof (induction n rule: dec_nat.induct)
  case (1 n)
  then show ?case by (simp add: dec_nat.simps [of n] dec_digit)
qed

lemma dec_nat_nonempty: "dec_nat n \<noteq> []"
  by (simp add: dec_nat.simps [of n])

lemma hex_digits_inject: "m < 16 \<Longrightarrow> n < 16 \<Longrightarrow> hex_digits ! m = hex_digits ! n \<Longrightarrow> m = n"
  using nth_eq_iff_index_eq [of hex_digits m n] by (simp add: hex_digits_def)

lemma dec_nat_inject: "dec_nat m = dec_nat n \<Longrightarrow> m = n"
proof (induction m arbitrary: n rule: dec_nat.induct)
  case (1 m)
  show ?case
  proof (cases "m < 10 \<or> n < 10")
    case True
    then have "m < 10 \<and> n < 10"
      using "1.prems" dec_nat_nonempty by (auto simp: dec_nat.simps [of m] dec_nat.simps [of n] append_eq_Cons_conv
        Cons_eq_append_conv split: if_splits)
    then show ?thesis using "1.prems" hex_digits_inject by (simp add: dec_nat.simps [of m] dec_nat.simps [of n])
  next
    case False
    then have "m div 10 = n div 10" "m mod 10 = n mod 10"
      using "1.prems" "1.IH" hex_digits_inject [of "m mod 10" "n mod 10"]
      by (auto simp: dec_nat.simps [of m] dec_nat.simps [of n])
    then show ?thesis by (metis div_mult_mod_eq)
  qed
qed

definition ends :: "string \<Rightarrow> bool" where
  "ends x \<longleftrightarrow> x = [] \<or> hd x \<in> {CHR '','', CHR '']'', CHR ''}''}"

lemma ends_not_dec: "ends (c # x) \<Longrightarrow> \<not> is_dec c"
  by (auto simp: ends_def is_dec_def hex_digits_def)

lemma digits_span:
  assumes "\<forall>c \<in> set a. P c" "\<forall>c \<in> set b. P c" "x = [] \<or> \<not> P (hd x)" "y = [] \<or> \<not> P (hd y)"
    and "a @ x = b @ y"
  shows "a = b \<and> x = y"
proof -
  have "takeWhile P x = []" "takeWhile P y = []" using assms(3,4) by (cases x; cases y; simp)+
  then have "takeWhile P (a @ x) = a" "takeWhile P (b @ y) = b"
    using assms(1,2) by simp_all
  then have "a = b" using assms(5) by simp
  then show ?thesis using assms(5) by simp
qed

lemma ends_dec: "ends x \<Longrightarrow> x = [] \<or> \<not> is_dec (hd x)"
  using ends_not_dec by (cases x) auto

lemma dec_nat_append_inject: "dec_nat m @ x = dec_nat n @ y \<Longrightarrow> ends x \<Longrightarrow> ends y \<Longrightarrow> m = n \<and> x = y"
  using digits_span [of "dec_nat m" is_dec "dec_nat n" x y] dec_nat_digits ends_dec dec_nat_inject
  by blast

lemma dec_nat_head: "\<exists>c t. dec_nat m @ u = c # t \<and> is_dec c"
  using dec_nat_digits [of m] dec_nat_nonempty [of m] by (cases "dec_nat m") auto

lemma minus_not_dec: "\<not> is_dec (CHR ''-'')"
  by (simp add: is_dec_def hex_digits_def)

lemma dec_nat_minus: "dec_nat m @ u \<noteq> CHR ''-'' # v"
  using dec_nat_head [of m u] minus_not_dec by auto

lemma FormatInt_inject:
  assumes "FormatInt i @ x = FormatInt j @ y" "ends x" "ends y" shows "i = j \<and> x = y"
proof -
  consider "i < 0" "j < 0" | "\<not> i < 0" "\<not> j < 0" | "i < 0" "\<not> j < 0" | "\<not> i < 0" "j < 0" by blast
  then show ?thesis
  proof cases
    case 1
    then have "dec_nat (nat (- i)) @ x = dec_nat (nat (- j)) @ y"
      using assms(1) by (simp only: FormatInt_def if_True append_Cons list.inject)
    from dec_nat_append_inject [OF this assms(2,3)] show ?thesis using 1 by linarith
  next
    case 2
    then have "dec_nat (nat i) @ x = dec_nat (nat j) @ y"
      using assms(1) by (simp only: FormatInt_def if_False)
    from dec_nat_append_inject [OF this assms(2,3)] show ?thesis using 2 by linarith
  next
    case 3
    then have "dec_nat (nat j) @ y = CHR ''-'' # dec_nat (nat (- i)) @ x"
      using assms(1) by (simp only: FormatInt_def if_True if_False append_Cons)
    then show ?thesis using dec_nat_minus by blast
  next
    case 4
    then have "dec_nat (nat i) @ x = CHR ''-'' # dec_nat (nat (- j)) @ y"
      using assms(1) by (simp only: FormatInt_def if_True if_False append_Cons)
    then show ?thesis using dec_nat_minus by blast
  qed
qed

text \<open>Values whose strings are valid UTF-8, as a decoder produces them.\<close>

primrec clean :: "json \<Rightarrow> bool" where
  "clean JNull \<longleftrightarrow> True"
| "clean (JBool b) \<longleftrightarrow> True"
| "clean (JInt i) \<longleftrightarrow> True"
| "clean (JStr s) \<longleftrightarrow> valid_utf8 s"
| "clean (JArr xs) \<longleftrightarrow> list_all (\<lambda>b. b) (map clean xs)"
| "clean (JObj kvs) \<longleftrightarrow> list_all (\<lambda>kb. valid_utf8 (fst kb) \<and> snd kb) (map (map_prod id clean) kvs)"

text \<open>The text of a list body with its closing bracket, element by element.\<close>

fun body_text :: "char \<Rightarrow> string list \<Rightarrow> string" where
  "body_text c [] = [c]"
| "body_text c (s # ss) = CHR '','' # s @ body_text c ss"

lemma join_body: "join_strings '','' (s # ss) @ [c] = s @ body_text c ss"
  by (induction ss arbitrary: s) simp_all

lemma ends_body: "c \<in> {CHR '']'', CHR ''}''} \<Longrightarrow> ends (body_text c ss @ x)"
  by (cases ss) (auto simp: ends_def)

lemma body_text_inject:
  assumes "c \<in> {CHR '']'', CHR ''}''}"
    and "\<And>v w x y. v \<in> set vs \<Longrightarrow> w \<in> set ws \<Longrightarrow> f v @ x = f w @ y \<Longrightarrow> ends x \<Longrightarrow> ends y \<Longrightarrow> v = w \<and> x = y"
    and "body_text c (map f vs) @ x = body_text c (map f ws) @ y"
  shows "vs = ws \<and> x = y"
  using assms(2,3)
proof (induction vs arbitrary: ws)
  case Nil
  then show ?case using assms(1) by (cases ws) auto
next
  case (Cons v vs)
  then obtain w ws' where ws: "ws = w # ws'" using assms(1) by (cases ws) auto
  then have "f v @ (body_text c (map f vs) @ x) = f w @ (body_text c (map f ws') @ y)"
    using Cons.prems(2) by simp
  then have "v = w \<and> body_text c (map f vs) @ x = body_text c (map f ws') @ y"
    using Cons.prems(1) [of v w] ws ends_body [OF assms(1)] by simp
  then show ?case using Cons.IH [of ws'] Cons.prems(1) ws by auto
qed

lemma list_text_inject:
  assumes "c \<in> {CHR '']'', CHR ''}''}" "\<And>v. v \<in> set vs \<union> set ws \<Longrightarrow> \<exists>h t. f v = h # t \<and> h \<noteq> c"
    and "\<And>v w x y. v \<in> set vs \<Longrightarrow> w \<in> set ws \<Longrightarrow> f v @ x = f w @ y \<Longrightarrow> ends x \<Longrightarrow> ends y \<Longrightarrow> v = w \<and> x = y"
    and "join_strings '','' (map f vs) @ [c] @ x = join_strings '','' (map f ws) @ [c] @ y"
  shows "vs = ws \<and> x = y"
proof (cases vs)
  case Nil
  show ?thesis
  proof (cases ws)
    case (Cons w ws')
    then have "join_strings '','' (map f ws) @ [c] @ y = f w @ body_text c (map f ws') @ y"
      using join_body [of "f w" "map f ws'" c] by simp
    moreover have "join_strings '','' (map f vs) @ [c] @ x = c # x" using Nil by simp
    ultimately have "c # x = f w @ body_text c (map f ws') @ y" using assms(4) by (simp only:)
    then show ?thesis using assms(2) [of w] Cons by auto
  qed (use Nil assms(4) in simp)
next
  case V: (Cons v vs')
  then have l: "join_strings '','' (map f vs) @ [c] @ x = f v @ body_text c (map f vs') @ x"
    using join_body [of "f v" "map f vs'" c] by simp
  show ?thesis
  proof (cases ws)
    case Nil
    then have "join_strings '','' (map f ws) @ [c] @ y = c # y" by simp
    then have "f v @ body_text c (map f vs') @ x = c # y" using l assms(4) by (simp only:)
    then show ?thesis using assms(2) [of v] V by auto
  next
    case (Cons w ws')
    then have m: "join_strings '','' (map f ws) @ [c] @ y = f w @ body_text c (map f ws') @ y"
      using join_body [of "f w" "map f ws'" c] by simp
    have eq: "f v @ body_text c (map f vs') @ x = f w @ body_text c (map f ws') @ y"
      using assms(4) by (simp only: l m)
    have vw: "v = w \<and> body_text c (map f vs') @ x = body_text c (map f ws') @ y"
      using assms(3) [of v w] V Cons eq ends_body [OF assms(1)] by simp
    moreover have "vs' = ws' \<and> x = y"
      by (rule body_text_inject [OF assms(1) _ conjunct2 [OF vw]]) (use assms(3) V Cons in auto)
    ultimately show ?thesis using V Cons by simp
  qed
qed


definition head_class :: "char \<Rightarrow> nat" where
  "head_class c = (if c = CHR ''n'' then 0 else if c = CHR ''t'' \<or> c = CHR ''f'' then 1
     else if c = CHR ''-'' \<or> is_dec c then 2 else if c = CHR 0x22 then 3
     else if c = CHR ''['' then 4 else if c = CHR ''{'' then 5 else 6)"

primrec json_class :: "json \<Rightarrow> nat" where
  "json_class JNull = 0"
| "json_class (JBool b) = 1"
| "json_class (JInt i) = 2"
| "json_class (JStr s) = 3"
| "json_class (JArr xs) = 4"
| "json_class (JObj kvs) = 5"

lemma is_dec_class: "is_dec c \<Longrightarrow> head_class c = 2"
  by (auto simp: head_class_def is_dec_def hex_digits_def)

lemma text_head: "\<exists>h t. text_of v = h # t \<and> head_class h = json_class v"
proof (cases v)
  case (JInt i)
  have "head_class (CHR ''-'') = 2" by (simp add: head_class_def)
  moreover obtain c t where "dec_nat (nat i) = c # t" "head_class c = 2"
    using dec_nat_head [of "nat i" "[]"] is_dec_class by auto
  ultimately show ?thesis using JInt by (cases "i < 0") (simp_all add: FormatInt_def)
next
  case (JBool b)
  then show ?thesis by (cases b) (simp_all add: head_class_def)
qed (simp_all add: head_class_def writeCanonicalString_def is_dec_def hex_digits_def)

lemma text_not_closing: "\<exists>h t. text_of v = h # t \<and> h \<notin> {CHR '']'', CHR ''}''}"
proof -
  have "head_class c \<noteq> json_class v" if "c \<in> {CHR '']'', CHR ''}''}" for c
    using that by (cases v) (auto simp: head_class_def is_dec_def hex_digits_def)
  then show ?thesis using text_head by metis
qed

lemma text_not_bracket: "\<exists>h t. text_of v = h # t \<and> h \<noteq> CHR '']''"
  using text_not_closing [of v] by auto

abbreviation member_text :: "string \<times> json \<Rightarrow> string" where
  "member_text kv \<equiv> writeCanonicalString (fst kv) @ '':'' @ text_of (snd kv)"

lemma text_of_JObj: "text_of (JObj kvs) = ''{'' @ join_strings '','' (map member_text kvs) @ ''}''"
  by (simp add: comp_def case_prod_unfold)

lemma clean_JObj: "clean (JObj kvs) \<longleftrightarrow> (\<forall>kv \<in> set kvs. valid_utf8 (fst kv) \<and> clean (snd kv))"
  by (auto simp: list_all_iff)

lemma same_class:
  assumes "text_of v @ x = text_of w @ y" shows "json_class v = json_class w"
proof -
  obtain h t where "text_of v = h # t" "head_class h = json_class v" using text_head by blast
  moreover obtain h' t' where "text_of w = h' # t'" "head_class h' = json_class w" using text_head by blast
  ultimately show ?thesis using assms by simp
qed

lemma text_of_inject:
  "clean v \<Longrightarrow> clean w \<Longrightarrow> text_of v @ x = text_of w @ y \<Longrightarrow> ends x \<Longrightarrow> ends y \<Longrightarrow> v = w \<and> x = y"
proof (induction v arbitrary: w x y)
  case JNull
  have "w = JNull" using same_class [OF JNull.prems(3)] by (cases w) simp_all
  then show ?case using JNull by simp
next
  case (JBool b)
  obtain b' where w: "w = JBool b'" using same_class [OF JBool.prems(3)] by (cases w) simp_all
  show ?case using JBool w by (cases b; cases b') simp_all
next
  case (JInt i)
  obtain j where w: "w = JInt j" using same_class [OF JInt.prems(3)] by (cases w) simp_all
  show ?case using FormatInt_inject [of i x j y] JInt.prems(3-5) w by simp
next
  case (JStr s)
  obtain t where w: "w = JStr t" using same_class [OF JStr.prems(3)] by (cases w) simp_all
  show ?case using writeCanonicalString_inject [of s x t y] JStr.prems(1-3) w by simp
next
  case (JArr vs)
  obtain ws where w: "w = JArr ws" using same_class [OF JArr.prems(3)] by (cases w) simp_all
  have "vs = ws \<and> x = y"
  proof (rule list_text_inject [where f = text_of and c = "CHR '']''"])
    fix v u x y
    assume h: "v \<in> set vs" "u \<in> set ws" "text_of v @ x = text_of u @ y" "ends x" "ends y"
    moreover have "clean v" "clean u" using JArr.prems(1,2) h(1,2) w by (simp_all add: list_all_iff)
    ultimately show "v = u \<and> x = y" using JArr.IH [of v u] by blast
  next
    show "join_strings '','' (map text_of vs) @ [CHR '']''] @ x = join_strings '','' (map text_of ws) @ [CHR '']''] @ y"
      using JArr.prems(3) w by simp
  qed (use text_not_bracket in simp_all)
  then show ?case using w by simp
next
  case (JObj vs)
  obtain ws where w: "w = JObj ws" using same_class [OF JObj.prems(3)] by (cases w) simp_all
  have "vs = ws \<and> x = y"
  proof (rule list_text_inject [where f = member_text and c = "CHR ''}''"])
    fix v u x y
    assume h: "v \<in> set vs" "u \<in> set ws" "member_text v @ x = member_text u @ y" "ends x" "ends y"
    then have c: "valid_utf8 (fst v)" "valid_utf8 (fst u)" "clean (snd v)" "clean (snd u)"
      using JObj.prems(1,2) unfolding w clean_JObj by blast+
    from h(3) have "writeCanonicalString (fst v) @ ('':'' @ text_of (snd v) @ x)
        = writeCanonicalString (fst u) @ ('':'' @ text_of (snd u) @ y)" by simp
    then have k: "fst v = fst u" "text_of (snd v) @ x = text_of (snd u) @ y"
      using writeCanonicalString_inject [OF _ c(1,2)] by fastforce+
    obtain a b where v: "v = (a, b)" by (cases v)
    have "b \<in> Basic_BNFs.snds v" by (simp add: v)
    from JObj.IH [OF h(1) this, of "snd u" x y] have "snd v = snd u \<and> x = y"
      using c(3,4) k(2) h(4,5) unfolding v snd_conv by blast
    then show "v = u \<and> x = y" using k(1) by (simp add: prod_eq_iff)
  next
    show "join_strings '','' (map member_text vs) @ [CHR ''}''] @ x
        = join_strings '','' (map member_text ws) @ [CHR ''}''] @ y"
      using JObj.prems(3) by (simp only: w text_of_JObj append_Cons append_Nil append_assoc list.inject)
  qed (simp_all add: writeCanonicalString_def)
  then show ?case using w by simp
qed

lemma valid_sanitize: "valid_utf8 (sanitize s)"
  unfolding sanitize_def using runes_of_scalar by (intro valid_string_of_runes) blast

lemma sanitize_valid [simp]: "valid_utf8 s \<Longrightarrow> sanitize s = s"
  by (simp add: sanitize_def valid_utf8_string_of_runes)

lemma set_last_wins: "set (last_wins kvs) \<subseteq> set kvs"
  by (induction kvs rule: last_wins.induct) auto

lemma keys_last_wins: "fst ` set (last_wins kvs) = fst ` set kvs"
  by (induction kvs rule: last_wins.induct) auto

lemma distinct_last_wins: "distinct (map fst (last_wins kvs))"
proof (induction kvs rule: last_wins.induct)
  case (2 k v r)
  then show ?case using keys_last_wins [of r] by (cases "k \<in> fst ` set r") simp_all
qed simp

lemma last_wins_id: "distinct (map fst kvs) \<Longrightarrow> last_wins kvs = kvs"
  by (induction kvs rule: last_wins.induct) auto

lemma clean_decoded: "clean (decoded v)"
proof (induction v)
  case (JArr xs)
  then show ?case by (simp add: list_all_iff)
next
  case (JObj kvs)
  have "valid_utf8 (fst kv) \<and> clean (snd kv)"
    if kv: "kv \<in> set (map (map_prod sanitize id) (map (map_prod id decoded) kvs))" for kv
  proof -
    obtain k v where "(k, v) \<in> set kvs" "kv = (sanitize k, decoded v)" using kv by auto
    then show ?thesis using JObj.IH [of "(k, v)" v] valid_sanitize by simp
  qed
  then show ?case unfolding decoded.simps clean_JObj using set_last_wins by blast
qed (simp_all add: valid_sanitize)

lemma clean_canonical: "clean v \<Longrightarrow> clean (canonical v)"
proof (induction v)
  case (JArr xs)
  then show ?case by (simp add: list_all_iff)
next
  case (JObj kvs)
  then show ?case by (fastforce simp: list_all_iff)
qed simp_all

lemma sort_key_perm:
  assumes "distinct (map fst kvs)" "set kvs = set kvs'" "distinct (map fst kvs')"
  shows "sort_key fst kvs = sort_key fst (kvs' :: (string \<times> 'v) list)"
proof (rule map_sorted_distinct_set_unique [of fst])
  show "inj_on fst (set (sort_key fst kvs) \<union> set (sort_key fst kvs'))"
    using assms by (simp add: distinct_map)
  have "distinct (map fst (sort_key fst xs))" if "distinct (map fst xs)" for xs :: "(string \<times> 'v) list"
    using that by (simp add: distinct_map)
  then show "distinct (map fst (sort_key fst kvs))" "distinct (map fst (sort_key fst kvs'))"
    using assms by blast+
qed (use assms(2) in simp_all)

definition canon_text :: "json \<Rightarrow> string" where
  "canon_text v = text_of (canonical (decoded v))"

lemma json_depth_decoded: "json_depth (decoded v) \<le> json_depth v"
proof (induction v)
  case (JArr xs)
  have "\<forall>x \<in> set xs. Suc (json_depth x) \<le> json_depth (JArr xs)"
    by (rule iffD1 [OF json_depth_JArr order_refl])
  then have "\<forall>x \<in> set xs. Suc (json_depth (decoded x)) \<le> json_depth (JArr xs)"
    using JArr.IH by (meson Suc_le_mono order_trans)
  then show ?case unfolding decoded.simps json_depth_JArr by (simp del: json_depth.simps)
next
  case (JObj kvs)
  have d: "\<forall>kv \<in> set kvs. Suc (json_depth (snd kv)) \<le> json_depth (JObj kvs)"
    by (rule iffD1 [OF json_depth_JObj order_refl])
  have m: "Suc (json_depth (decoded w)) \<le> json_depth (JObj kvs)" if "(k, w) \<in> set kvs" for k w
  proof -
    have "json_depth (decoded w) \<le> json_depth w" using JObj.IH [OF that, of w] by simp
    moreover have "Suc (json_depth w) \<le> json_depth (JObj kvs)" using d that by (metis snd_conv)
    ultimately show ?thesis by linarith
  qed
  have "Suc (json_depth (snd kv)) \<le> json_depth (JObj kvs)"
    if kv: "kv \<in> set (map (map_prod sanitize id) (map (map_prod id decoded) kvs))" for kv
  proof -
    obtain kw where "kw \<in> set kvs" "kv = map_prod sanitize id (map_prod id decoded kw)"
      using kv unfolding set_map by (metis (no_types, lifting) imageE)
    then have "(fst kw, snd kw) \<in> set kvs" "snd kv = decoded (snd kw)" by (simp_all add: map_prod_def split_beta)
    then show ?thesis using m [of "fst kw" "snd kw"] by (simp del: json_depth.simps)
  qed
  then show ?case unfolding decoded.simps json_depth_JObj using set_last_wins by blast
qed simp_all

lemma canonicalOf_text: "json_depth v \<le> maxCanonicalDepth \<Longrightarrow> canonicalOf v = Inr (canon_text v)"
  unfolding canonicalOf_def canon_text_def using json_depth_decoded [of v]
  by (intro writeCanonicalValue_text) simp

lemma canon_text_inject:
  "canon_text v = canon_text w \<longleftrightarrow> canonical (decoded v) = canonical (decoded w)"
proof -
  have "clean (canonical (decoded v))" "clean (canonical (decoded w))"
    using clean_decoded clean_canonical by blast+
  moreover have "ends []" by (simp add: ends_def)
  ultimately show ?thesis
    using text_of_inject [of "canonical (decoded v)" "canonical (decoded w)" "[]" "[]"]
    by (auto simp: canon_text_def)
qed

text \<open>
  C37. The canonical bytes depend on the content of a value and on nothing else: two values are
  written to the same bytes exactly when they are equal as JSON values, the order of object members
  (and of Go map iteration) aside.  So a digest of the canonical bytes covers every field.
\<close>
theorem canonicalOf_content:
  assumes "canonicalOf v = Inr s" "canonicalOf w = Inr t"
  shows "s = t \<longleftrightarrow> canonical (decoded v) = canonical (decoded w)"
proof -
  have "s = canon_text v" "t = canon_text w"
    using assms writeCanonicalValue_Inr unfolding canonicalOf_def canon_text_def by blast+
  then show ?thesis by (simp add: canon_text_inject)
qed

theorem canonicalOf_content_witness:
  "canonicalOf (JObj [(''b'', JInt 1), (''a'', JNull)]) = canonicalOf (JObj [(''a'', JNull), (''b'', JInt 1)])"
proof -
  let ?v = "JObj [(''b'', JInt 1), (''a'', JNull)]" and ?w = "JObj [(''a'', JNull), (''b'', JInt 1)]"
  have "json_depth (decoded ?v) \<le> maxCanonicalDepth" "json_depth (decoded ?w) \<le> maxCanonicalDepth"
    by (simp_all add: maxCanonicalDepth_def)
  then have "canonicalOf ?v = Inr (text_of (canonical (decoded ?v)))"
    "canonicalOf ?w = Inr (text_of (canonical (decoded ?w)))"
    unfolding canonicalOf_def by (simp_all add: writeCanonicalValue_text del: decoded.simps json_depth.simps)
  moreover have "canonical (decoded ?v) = canonical (decoded ?w)"
    by (simp add: ascii_valid ascii_def)
  ultimately show ?thesis using canonicalOf_content by metis
qed

end
