(* ===== verification/Topology.thy ===== *)
theory Topology
  imports Canonical Identifiers "HOL-Library.Multiset"
begin

text \<open>
  engine/protocol/fingerprint.go: the topology a plan was computed over, its fingerprint, and the
  difference of two topologies.  OIDs are 32-bit words.  The text of a change (\<open>Detail\<close>) is a
  message and is not modelled.
\<close>

definition FingerprintPrefix :: string where "FingerprintPrefix = ''sha256:''"
definition topologyDomain :: string where "topologyDomain = ''partitionctl.topology.v1''"

datatype partition_strategy = StrategyRange | StrategyList | StrategyHash | UnknownStrategy string

fun strategy_String :: "partition_strategy \<Rightarrow> string" where
  "strategy_String StrategyRange = ''RANGE''"
| "strategy_String StrategyList = ''LIST''"
| "strategy_String StrategyHash = ''HASH''"
| "strategy_String (UnknownStrategy s) = s"

definition SupportedInV01 :: "partition_strategy \<Rightarrow> bool" where
  "SupportedInV01 s \<longleftrightarrow> s = StrategyRange \<or> s = StrategyList"

record relation_state =
  rel_oid :: "32 word"
  rel_schema :: string
  rel_name :: string
  rel_kind :: string
  rel_owner_oid :: "32 word"
  rel_parent_oid :: "32 word"
  rel_partition_bound :: string
  rel_is_default :: bool

definition rel_String :: "relation_state \<Rightarrow> string" where
  "rel_String r = obj_String \<lparr>obj_schema = rel_schema r, obj_name = rel_name r\<rparr>"

record topology_input =
  top_root :: relation_state
  top_strategy :: partition_strategy
  top_partitions :: "relation_state list"

text \<open>The duplicate check of \<open>Validate\<close>: \<open>seen\<close> maps an OID to the relation that had it.\<close>

fun topology_partitions_ok :: "(32 word \<rightharpoonup> relation_state) \<Rightarrow> relation_state list \<Rightarrow> err option" where
  "topology_partitions_ok seen [] = None"
| "topology_partitions_ok seen (p # ps) =
     (if rel_name p = [] then Some (Detailf ErrInvalidPlan)
      else case seen (rel_oid p) of
        Some prev \<Rightarrow> Some (Detailf ErrInvalidPlan)
      | None \<Rightarrow> topology_partitions_ok (seen(rel_oid p \<mapsto> p)) ps)"

definition topology_Validate :: "topology_input \<Rightarrow> err option" where
  "topology_Validate t =
     (if rel_name (top_root t) = [] then Some (Detailf ErrInvalidPlan)
      else topology_partitions_ok (\<lambda>_. None) (top_partitions t))"

text \<open>The JSON of a relation, with the fields that are omitted when empty.\<close>

definition omitempty :: "bool \<Rightarrow> string \<Rightarrow> json \<Rightarrow> (string \<times> json) list" where
  "omitempty isempty k v = (if isempty then [] else [(k, v)])"

definition relation_json :: "relation_state \<Rightarrow> json" where
  "relation_json r = JObj (
     [(''oid'', JInt (uint (rel_oid r))), (''schema'', JStr (rel_schema r)),
      (''name'', JStr (rel_name r)), (''relkind'', JStr (rel_kind r))]
     @ omitempty (rel_owner_oid r = 0) ''owner_oid'' (JInt (uint (rel_owner_oid r)))
     @ omitempty (rel_parent_oid r = 0) ''parent_oid'' (JInt (uint (rel_parent_oid r)))
     @ omitempty (rel_partition_bound r = []) ''partition_bound'' (JStr (rel_partition_bound r))
     @ omitempty (\<not> rel_is_default r) ''is_default'' (JBool (rel_is_default r)))"

definition topology_json :: "topology_input \<Rightarrow> json" where
  "topology_json t = JObj [(''root'', relation_json (top_root t)),
     (''strategy'', JStr (strategy_String (top_strategy t))),
     (''partitions'', JArr (map relation_json (top_partitions t)))]"

definition Fingerprint :: "topology_input \<Rightarrow> err + string" where
  "Fingerprint t =
     rcheck (topology_Validate t)
     (rbind (canonicalOf (relation_json (top_root t))) (\<lambda>rootCanon.
      rbind (rmap (\<lambda>p. rbind (canonicalOf (relation_json p)) (\<lambda>canon. Inr (sha256 canon)))
              (top_partitions t)) (\<lambda>elems.
      let h = writeLengthPrefixed topologyDomain
                @ writeLengthPrefixed (strategy_String (top_strategy t))
                @ sha256 rootCanon
                @ be_bytes 8 (length elems)
                @ concat (sort elems)
      in Inr (FingerprintPrefix @ hex_encode (sha256 h)))))"

subsection \<open>Differences\<close>

datatype topology_change_kind =
    TopologyRootChanged | TopologyStrategyChanged | TopologyPartitionAdded
  | TopologyPartitionRemoved | TopologyPartitionChanged

record topology_change =
  tc_change :: topology_change_kind
  tc_relation :: string
  tc_oid :: "32 word"

text \<open>The two collecting loops; a later partition with the same OID replaces an earlier one.\<close>

fun collect_planned :: "(32 word \<rightharpoonup> relation_state) \<Rightarrow> 32 word list \<Rightarrow> relation_state list
    \<Rightarrow> (32 word \<rightharpoonup> relation_state) \<times> 32 word list" where
  "collect_planned m oids [] = (m, oids)"
| "collect_planned m oids (p # ps) =
     collect_planned (m(rel_oid p \<mapsto> p))
       (case m (rel_oid p) of None \<Rightarrow> oids @ [rel_oid p] | Some _ \<Rightarrow> oids) ps"

fun collect_live :: "(32 word \<rightharpoonup> relation_state) \<Rightarrow> (32 word \<rightharpoonup> relation_state) \<Rightarrow> 32 word list
    \<Rightarrow> relation_state list \<Rightarrow> (32 word \<rightharpoonup> relation_state) \<times> 32 word list" where
  "collect_live planned m oids [] = (m, oids)"
| "collect_live planned m oids (p # ps) =
     collect_live planned (m(rel_oid p \<mapsto> p))
       (case planned (rel_oid p) of
          None \<Rightarrow> (case m (rel_oid p) of None \<Rightarrow> oids @ [rel_oid p] | Some _ \<Rightarrow> oids)
        | Some _ \<Rightarrow> oids) ps"

definition diff_oid :: "relation_state option \<Rightarrow> relation_state option \<Rightarrow> 32 word \<Rightarrow> topology_change list" where
  "diff_oid was now oid = (case (was, now) of
     (Some p, None) \<Rightarrow>
       [\<lparr>tc_change = TopologyPartitionRemoved, tc_relation = rel_String p, tc_oid = oid\<rparr>]
   | (None, Some l) \<Rightarrow>
       [\<lparr>tc_change = TopologyPartitionAdded, tc_relation = rel_String l, tc_oid = oid\<rparr>]
   | (Some p, Some l) \<Rightarrow> if p \<noteq> l then
       [\<lparr>tc_change = TopologyPartitionChanged, tc_relation = rel_String l, tc_oid = oid\<rparr>] else []
   | (None, None) \<Rightarrow> [])"

definition DiffTopology :: "topology_input \<Rightarrow> topology_input \<Rightarrow> topology_change list" where
  "DiffTopology planned live =
     (if top_root planned \<noteq> top_root live
      then [\<lparr>tc_change = TopologyRootChanged, tc_relation = rel_String (top_root live),
             tc_oid = rel_oid (top_root live)\<rparr>] else [])
     @ (if top_strategy planned \<noteq> top_strategy live
        then [\<lparr>tc_change = TopologyStrategyChanged, tc_relation = [], tc_oid = 0\<rparr>] else [])
     @ (let (plannedByOID, oids1) = collect_planned (\<lambda>_. None) [] (top_partitions planned);
            (liveByOID, oids2) = collect_live plannedByOID (\<lambda>_. None) oids1 (top_partitions live)
        in concat (map (\<lambda>oid. diff_oid (plannedByOID oid) (liveByOID oid) oid) (sort oids2)))"

subsection \<open>The fingerprint ignores the order of partitions\<close>

lemma topology_partitions_ok_None:
  "topology_partitions_ok seen ps = None \<longleftrightarrow>
     (\<forall>p \<in> set ps. rel_name p \<noteq> [] \<and> seen (rel_oid p) = None) \<and> distinct (map rel_oid ps)"
proof (induction ps arbitrary: seen)
  case (Cons p ps)
  have "(\<forall>q \<in> set ps. rel_name q \<noteq> [] \<and> (seen(rel_oid p \<mapsto> p)) (rel_oid q) = None) \<longleftrightarrow>
      (\<forall>q \<in> set ps. rel_name q \<noteq> [] \<and> seen (rel_oid q) = None) \<and> rel_oid p \<notin> rel_oid ` set ps"
    by (auto simp: image_iff split: if_splits)
  then show ?case using Cons.IH by (auto split: option.split)
qed simp

lemma topology_partitions_ok_Some:
  "topology_partitions_ok seen ps = Some e \<Longrightarrow> e = ErrInvalidPlan"
  by (induction seen ps rule: topology_partitions_ok.induct)
     (auto simp: ErrInvalidPlan_def split: if_splits option.splits)

lemma topology_Validate_None:
  "topology_Validate t = None \<longleftrightarrow> rel_name (top_root t) \<noteq> [] \<and>
     (\<forall>p \<in> set (top_partitions t). rel_name p \<noteq> []) \<and> distinct (map rel_oid (top_partitions t))"
  by (simp add: topology_Validate_def topology_partitions_ok_None)

lemma topology_Validate_perm:
  assumes "top_root t = top_root t'" "mset (top_partitions t) = mset (top_partitions t')"
  shows "topology_Validate t = topology_Validate t'"
proof -
  have s: "set (top_partitions t) = set (top_partitions t')" using assms(2) by (rule mset_eq_setD)
  have "mset (map rel_oid (top_partitions t)) = mset (map rel_oid (top_partitions t'))"
    using assms(2) by simp
  then have "distinct (map rel_oid (top_partitions t)) = distinct (map rel_oid (top_partitions t'))"
    by (rule mset_eq_imp_distinct_iff)
  then have "topology_Validate t = None \<longleftrightarrow> topology_Validate t' = None"
    using s assms(1) by (simp add: topology_Validate_None)
  moreover have "topology_Validate u = Some e \<Longrightarrow> e = ErrInvalidPlan" for u e
    by (auto simp: topology_Validate_def ErrInvalidPlan_def
        dest: topology_partitions_ok_Some [unfolded ErrInvalidPlan_def] split: if_splits)
  ultimately show ?thesis by (metis not_Some_eq)
qed

lemma json_depth_relation: "json_depth (relation_json r) \<le> maxCanonicalDepth"
proof -
  have "json_depth (relation_json r) \<le> 1"
    unfolding relation_json_def json_depth_JObj by (auto simp: omitempty_def split: if_splits)
  then show ?thesis by (simp add: maxCanonicalDepth_def)
qed

definition relation_hash :: "relation_state \<Rightarrow> string" where
  "relation_hash r = sha256 (canon_text (relation_json r))"

definition fingerprint_input :: "topology_input \<Rightarrow> string" where
  "fingerprint_input t = writeLengthPrefixed topologyDomain
     @ writeLengthPrefixed (strategy_String (top_strategy t))
     @ relation_hash (top_root t) @ be_bytes 8 (length (top_partitions t))
     @ concat (sort (map relation_hash (top_partitions t)))"

lemma Fingerprint_eq:
  "Fingerprint t = rcheck (topology_Validate t)
     (Inr (FingerprintPrefix @ hex_encode (sha256 (fingerprint_input t))))"
proof -
  have "rmap (\<lambda>p. rbind (canonicalOf (relation_json p)) (\<lambda>canon. Inr (sha256 canon))) ps
      = Inr (map relation_hash ps)" for ps
    by (rule rmap_all_Inr) (simp add: canonicalOf_text [OF json_depth_relation] relation_hash_def)
  then show ?thesis
    by (simp add: Fingerprint_def canonicalOf_text [OF json_depth_relation] fingerprint_input_def
        relation_hash_def Let_def)
qed

lemma sort_mset: "mset xs = mset ys \<Longrightarrow> sort xs = sort ys"
  by (metis sorted_list_of_multiset_mset)

text \<open>
  The fingerprint does not depend on the order in which the catalog lists the partitions.
\<close>
theorem Fingerprint_order_independent:
  assumes "top_root t = top_root t'" "top_strategy t = top_strategy t'"
    and "mset (top_partitions t) = mset (top_partitions t')"
  shows "Fingerprint t = Fingerprint t'"
proof -
  have "mset (map relation_hash (top_partitions t)) = mset (map relation_hash (top_partitions t'))"
    using assms(3) by simp
  then have "sort (map relation_hash (top_partitions t)) = sort (map relation_hash (top_partitions t'))"
    by (rule sort_mset)
  then have "fingerprint_input t = fingerprint_input t'"
    using assms mset_eq_length [OF assms(3)] by (simp add: fingerprint_input_def)
  then show ?thesis using topology_Validate_perm [OF assms(1,3)] by (simp add: Fingerprint_eq)
qed

definition sample_leaf :: "32 word \<Rightarrow> string \<Rightarrow> relation_state" where
  "sample_leaf oid name = \<lparr>rel_oid = oid, rel_schema = ''s'', rel_name = name, rel_kind = ''r'',
     rel_owner_oid = 10, rel_parent_oid = 1, rel_partition_bound = ''b'', rel_is_default = False\<rparr>"

theorem Fingerprint_order_independent_witness:
  "Fingerprint \<lparr>top_root = sample_leaf 1 ''t'', top_strategy = StrategyRange,
     top_partitions = [sample_leaf 2 ''t1'', sample_leaf 3 ''t2'']\<rparr>
   = Fingerprint \<lparr>top_root = sample_leaf 1 ''t'', top_strategy = StrategyRange,
     top_partitions = [sample_leaf 3 ''t2'', sample_leaf 2 ''t1'']\<rparr>"
  by (rule Fingerprint_order_independent) simp_all

subsection \<open>The fingerprint covers the whole topology\<close>

text \<open>A relation whose strings are valid UTF-8, as the server sends them.\<close>

definition relation_utf8 :: "relation_state \<Rightarrow> bool" where
  "relation_utf8 r \<longleftrightarrow> valid_utf8 (rel_schema r) \<and> valid_utf8 (rel_name r) \<and>
     valid_utf8 (rel_kind r) \<and> valid_utf8 (rel_partition_bound r)"

lemma map_of_sort_key: "distinct (map fst l) \<Longrightarrow> map_of (sort_key fst l) = map_of l"
  by (rule map_of_inject_set [THEN iffD2]) (simp_all add: distinct_map)

lemma canonical_JObj_members:
  assumes "distinct (map fst kvs)" "\<forall>k \<in> fst ` set kvs. valid_utf8 k"
    and "distinct (map fst kvs')" "\<forall>k \<in> fst ` set kvs'. valid_utf8 k"
    and "canonical (decoded (JObj kvs)) = canonical (decoded (JObj kvs'))"
  shows "map_option (canonical \<circ> decoded) (map_of kvs k) = map_option (canonical \<circ> decoded) (map_of kvs' k)"
proof -
  have d: "canonical (decoded (JObj l))
      = JObj (sort_key fst (map (\<lambda>(k, v). (k, (canonical \<circ> decoded) v)) l))"
    if "distinct (map fst l)" "\<forall>k \<in> fst ` set l. valid_utf8 k" for l
  proof -
    have 1: "map (map_prod sanitize id) (map (map_prod id decoded) l) = map (map_prod id decoded) l"
      using that(2) by (induction l) auto
    have 2: "last_wins (map (map_prod id decoded) l) = map (map_prod id decoded) l"
      using that(1) by (intro last_wins_id) (simp add: comp_def)
    have "canonical (decoded (JObj l))
        = JObj (sort_key fst (map (map_prod id canonical) (map (map_prod id decoded) l)))"
      by (simp only: decoded.simps canonical.simps 1 2)
    then show ?thesis by (simp add: case_prod_unfold map_prod_def comp_def)
  qed
  have m: "map_of (sort_key fst (map (\<lambda>(k, v). (k, f v)) l)) k = map_option f (map_of l k)"
    if "distinct (map fst l)" for l :: "(string \<times> json) list" and f :: "json \<Rightarrow> json"
  proof -
    let ?l = "map (\<lambda>(k, v). (k, f v)) l"
    have "map fst ?l = map fst l" by (simp add: comp_def case_prod_unfold)
    then have "distinct (map fst ?l)" using that by (simp only:)
    then have "map_of (sort_key fst ?l) = map_of ?l" by (rule map_of_sort_key)
    then show ?thesis by (simp add: map_of_map)
  qed
  have "sort_key fst (map (\<lambda>(k, v). (k, (canonical \<circ> decoded) v)) kvs)
      = sort_key fst (map (\<lambda>(k, v). (k, (canonical \<circ> decoded) v)) kvs')"
    using assms(5) unfolding d [OF assms(1,2)] d [OF assms(3,4)] json.inject .
  then show ?thesis using m [OF assms(1)] m [OF assms(3)] by metis
qed

lemma map_of_omitempty [simp]:
  "map_of (omitempty c k v @ l) x = (if \<not> c \<and> x = k then Some v else map_of l x)"
  "map_of (omitempty c k v) x = (if \<not> c \<and> x = k then Some v else None)"
  by (auto simp: omitempty_def)

lemma relation_keys_valid:
  "\<forall>k \<in> set [''oid'', ''schema'', ''name'', ''relkind'', ''owner_oid'', ''parent_oid'', ''partition_bound'',
     ''is_default'']. valid_utf8 k"
  by (simp add: ascii_valid ascii_def)

lemma relation_json_keys:
  assumes "relation_json r = JObj l"
  shows "distinct (map fst l)" and "\<forall>k \<in> fst ` set l. valid_utf8 k"
proof -
  have l: "l = [(''oid'', JInt (uint (rel_oid r))), (''schema'', JStr (rel_schema r)),
      (''name'', JStr (rel_name r)), (''relkind'', JStr (rel_kind r))]
     @ omitempty (rel_owner_oid r = 0) ''owner_oid'' (JInt (uint (rel_owner_oid r)))
     @ omitempty (rel_parent_oid r = 0) ''parent_oid'' (JInt (uint (rel_parent_oid r)))
     @ omitempty (rel_partition_bound r = []) ''partition_bound'' (JStr (rel_partition_bound r))
     @ omitempty (\<not> rel_is_default r) ''is_default'' (JBool (rel_is_default r))"
    using assms by (simp add: relation_json_def)
  have o: "map fst (omitempty c k v) = (if c then [] else [k])" for c k v by (simp add: omitempty_def)
  show "distinct (map fst l)" unfolding l map_append o by simp
  have "set (map fst l) \<subseteq> set [''oid'', ''schema'', ''name'', ''relkind'', ''owner_oid'', ''parent_oid'',
      ''partition_bound'', ''is_default'']"
    unfolding l map_append o by simp
  then show "\<forall>k \<in> fst ` set l. valid_utf8 k"
    using relation_keys_valid unfolding set_map by blast
qed

lemma relation_json_inject:
  assumes "relation_utf8 r" "relation_utf8 r'"
    and "canonical (decoded (relation_json r)) = canonical (decoded (relation_json r'))"
  shows "r = r'"
proof -
  obtain kvs kvs' where k: "relation_json r = JObj kvs" "relation_json r' = JObj kvs'"
    by (simp add: relation_json_def)
  have m: "map_option (canonical \<circ> decoded) (map_of kvs x) = map_option (canonical \<circ> decoded) (map_of kvs' x)" for x
    using assms(3) unfolding k
    by (rule canonical_JObj_members [OF relation_json_keys [OF k(1)] relation_json_keys [OF k(2)]])
  have f: "map_of kvs = map_of ([(''oid'', JInt (uint (rel_oid r))), (''schema'', JStr (rel_schema r)),
      (''name'', JStr (rel_name r)), (''relkind'', JStr (rel_kind r))]
     @ omitempty (rel_owner_oid r = 0) ''owner_oid'' (JInt (uint (rel_owner_oid r)))
     @ omitempty (rel_parent_oid r = 0) ''parent_oid'' (JInt (uint (rel_parent_oid r)))
     @ omitempty (rel_partition_bound r = []) ''partition_bound'' (JStr (rel_partition_bound r))
     @ omitempty (\<not> rel_is_default r) ''is_default'' (JBool (rel_is_default r)))"
    using k(1) by (simp add: relation_json_def)
  have f': "map_of kvs' = map_of ([(''oid'', JInt (uint (rel_oid r'))), (''schema'', JStr (rel_schema r')),
      (''name'', JStr (rel_name r')), (''relkind'', JStr (rel_kind r'))]
     @ omitempty (rel_owner_oid r' = 0) ''owner_oid'' (JInt (uint (rel_owner_oid r')))
     @ omitempty (rel_parent_oid r' = 0) ''parent_oid'' (JInt (uint (rel_parent_oid r')))
     @ omitempty (rel_partition_bound r' = []) ''partition_bound'' (JStr (rel_partition_bound r'))
     @ omitempty (\<not> rel_is_default r') ''is_default'' (JBool (rel_is_default r')))"
    using k(2) by (simp add: relation_json_def)
  have v: "sanitize (rel_schema r) = rel_schema r" "sanitize (rel_name r) = rel_name r"
    "sanitize (rel_kind r) = rel_kind r" "sanitize (rel_partition_bound r) = rel_partition_bound r"
    "sanitize (rel_schema r') = rel_schema r'" "sanitize (rel_name r') = rel_name r'"
    "sanitize (rel_kind r') = rel_kind r'" "sanitize (rel_partition_bound r') = rel_partition_bound r'"
    using assms(1,2) by (simp_all add: relation_utf8_def)
  have "rel_oid r = rel_oid r'" using m [of "''oid''"] unfolding f f' by (simp add: word_uint_eq_iff)
  moreover have "rel_schema r = rel_schema r'" using m [of "''schema''"] v unfolding f f' by simp
  moreover have "rel_name r = rel_name r'" using m [of "''name''"] v unfolding f f' by simp
  moreover have "rel_kind r = rel_kind r'" using m [of "''relkind''"] v unfolding f f' by simp
  moreover have "rel_owner_oid r = rel_owner_oid r'" using m [of "''owner_oid''"] unfolding f f'
    by (auto simp: omitempty_def word_uint_eq_iff split: if_splits)
  moreover have "rel_parent_oid r = rel_parent_oid r'" using m [of "''parent_oid''"] unfolding f f'
    by (auto simp: omitempty_def word_uint_eq_iff split: if_splits)
  moreover have "rel_partition_bound r = rel_partition_bound r'" using m [of "''partition_bound''"] v
    unfolding f f' by (simp add: map_add_def split: if_splits)
  moreover have "rel_is_default r = rel_is_default r'" using m [of "''is_default''"] unfolding f f'
    by (simp add: map_add_def split: if_splits)
  ultimately show ?thesis by simp
qed

lemma hex_pair_inject:
  assumes "(hex_digits ! (of_char c div 16), hex_digits ! (of_char c mod 16))
         = (hex_digits ! (of_char d div 16), hex_digits ! (of_char d mod 16))"
  shows "c = d"
proof -
  have lt: "(of_char x :: nat) < 256" for x
    by (metis mod_less_divisor of_char_mod_256 zero_less_numeral)
  have "of_char c div 16 = (of_char d div 16 :: nat)" "of_char c mod 16 = (of_char d mod 16 :: nat)"
    using assms lt [of c] lt [of d] by (auto intro!: hex_digits_inject simp: less_mult_imp_div_less)
  then have "(of_char c :: nat) = of_char d" by (metis div_mult_mod_eq)
  then show ?thesis by simp
qed

lemma hex_encode_inject: "hex_encode s = hex_encode t \<Longrightarrow> s = t"
proof (induction s arbitrary: t)
  case Nil
  then show ?case by (cases t) (simp_all add: hex_encode_def)
next
  case (Cons c s)
  then obtain d t' where t: "t = d # t'" by (cases t) (simp_all add: hex_encode_def)
  then have "hex_encode s = hex_encode t'" "c = d"
    using Cons.prems hex_pair_inject [of c d] by (simp_all add: hex_encode_def)
  then show ?case using Cons.IH t by simp
qed

lemma concat_blocks_inject:
  "\<forall>b \<in> set xs. length b = n \<Longrightarrow> \<forall>b \<in> set ys. length b = n \<Longrightarrow> length xs = length ys \<Longrightarrow>
     concat xs = concat ys \<Longrightarrow> xs = ys"
proof (induction xs arbitrary: ys)
  case (Cons x xs)
  obtain y ys' where ys: "ys = y # ys'" using Cons.prems(3) by (cases ys) simp_all
  have "length x = n" "length y = n" using Cons.prems(1,2) ys by (metis list.set_intros(1))+
  then have "length x = length y" by (rule trans [OF _ sym])
  moreover have "x @ concat xs = y @ concat ys'" using Cons.prems(4) ys by (simp only: concat.simps)
  ultimately have "x = y" "concat xs = concat ys'" using append_split_eq by blast+
  moreover have "\<forall>b \<in> set xs. length b = n" "\<forall>b \<in> set ys'. length b = n" "length xs = length ys'"
    using Cons.prems(1-3) ys by (simp_all only: list.set ball_simps insert_iff list.size) simp_all
  ultimately show ?case using Cons.IH [of ys'] ys by blast
qed simp

lemma mset_map_inj:
  assumes "mset (map f xs) = mset (map f ys)" "\<And>x y. x \<in> set xs \<Longrightarrow> y \<in> set ys \<Longrightarrow> f x = f y \<Longrightarrow> x = y"
  shows "mset xs = mset ys"
  using assms
proof (induction xs arbitrary: ys)
  case (Cons x xs)
  have "f x \<in> set (map f ys)" using mset_eq_setD [OF Cons.prems(1)] by auto
  then obtain y where y: "y \<in> set ys" "f x = f y" by auto
  then have xy: "x \<in> set ys" using Cons.prems(2) [of x y] by simp
  then have ys: "mset ys = add_mset x (mset (remove1 x ys))" by simp
  have "image_mset f (mset ys) = image_mset f (add_mset x (mset (remove1 x ys)))"
    by (rule arg_cong [OF ys])
  moreover have "add_mset (f x) (image_mset f (mset xs)) = image_mset f (mset ys)"
    using Cons.prems(1) by simp
  ultimately have "mset (map f xs) = mset (map f (remove1 x ys))"
    by (simp only: image_mset_add_mset mset_map add_mset_add_mset_same_iff)
  moreover have "x' = y'" if "x' \<in> set xs" "y' \<in> set (remove1 x ys)" "f x' = f y'" for x' y'
    using Cons.prems(2) [of x' y'] that set_remove1_subset by fastforce
  ultimately have "mset xs = mset (remove1 x ys)" using Cons.IH [of "remove1 x ys"] by blast
  then show ?case using ys by (metis mset.simps(2))
qed simp

text \<open>
  The pairs of byte strings whose hashes the comparison of two fingerprints compares: the
  outer inputs, the roots, and each planned with each live partition.
\<close>

definition compared_hashes :: "topology_input \<Rightarrow> topology_input \<Rightarrow> (string \<times> string) set" where
  "compared_hashes t t' = {(fingerprint_input t, fingerprint_input t'),
      (canon_text (relation_json (top_root t)), canon_text (relation_json (top_root t')))}
     \<union> {(canon_text (relation_json p), canon_text (relation_json q)) |p q.
          p \<in> set (top_partitions t) \<and> q \<in> set (top_partitions t')}"

definition collision_free :: "(string \<times> string) set \<Rightarrow> bool" where
  "collision_free ps \<longleftrightarrow> (\<forall>(x, y) \<in> ps. sha256 x = sha256 y \<longrightarrow> x = y)"

lemma collision_freeD: "collision_free S \<Longrightarrow> (x, y) \<in> S \<Longrightarrow> sha256 x = sha256 y \<Longrightarrow> x = y"
  by (auto simp only: collision_free_def)

definition topology_utf8 :: "topology_input \<Rightarrow> bool" where
  "topology_utf8 t \<longleftrightarrow> relation_utf8 (top_root t) \<and> (\<forall>p \<in> set (top_partitions t). relation_utf8 p)"

lemma strategy_String_inject_framed:
  assumes "fingerprint_input t = fingerprint_input t'"
    and "framable (strategy_String (top_strategy t))" "framable (strategy_String (top_strategy t'))"
    and "length (top_partitions t) < 256 ^ 8" "length (top_partitions t') < 256 ^ 8"
  shows "strategy_String (top_strategy t) = strategy_String (top_strategy t') \<and>
    relation_hash (top_root t) = relation_hash (top_root t') \<and>
    sort (map relation_hash (top_partitions t)) = sort (map relation_hash (top_partitions t'))"
proof -
  let ?r = "relation_hash (top_root t)" and ?r' = "relation_hash (top_root t')"
  let ?n = "be_bytes 8 (length (top_partitions t))" and ?n' = "be_bytes 8 (length (top_partitions t'))"
  let ?e = "sort (map relation_hash (top_partitions t))" and ?e' = "sort (map relation_hash (top_partitions t'))"
  have "writeLengthPrefixed (strategy_String (top_strategy t)) @ (?r @ ?n @ concat ?e)
      = writeLengthPrefixed (strategy_String (top_strategy t')) @ (?r' @ ?n' @ concat ?e')"
    using assms(1) unfolding fingerprint_input_def by (rule same_append_eq [THEN iffD1])
  from writeLengthPrefixed_append_inject [OF assms(2,3) this]
  have s: "strategy_String (top_strategy t) = strategy_String (top_strategy t')"
    and rest: "?r @ (?n @ concat ?e) = ?r' @ (?n' @ concat ?e')" by blast+
  have "length ?r = length ?r'" by (simp only: relation_hash_def length_sha256)
  from append_split_eq [OF this rest] have r: "?r = ?r'" and rest2: "?n @ concat ?e = ?n' @ concat ?e'" by blast+
  have "length ?n = length ?n'" by (simp only: length_be_bytes)
  from append_split_eq [OF this rest2] have n: "?n = ?n'" and e: "concat ?e = concat ?e'" by blast+
  have "length (top_partitions t) = length (top_partitions t')"
    using n be_bytes_inject [OF assms(4,5)] by blast
  then have "length ?e = length ?e'" by simp
  moreover have "\<forall>b \<in> set (sort (map relation_hash ps)). length b = 32" for ps
    by (auto simp: relation_hash_def)
  ultimately have "?e = ?e'" using e concat_blocks_inject by blast
  then show ?thesis using s r by blast
qed

text \<open>
  The fingerprint covers the whole topology: unless SHA-256 collides on one of the
  strings that are compared, two topologies with the same fingerprint have the same strategy, the
  same root relation and the same multiset of partitions, every catalog field included.
\<close>
theorem Fingerprint_covers:
  assumes "Fingerprint t = Inr f" "Fingerprint t' = Inr f"
    and "topology_utf8 t" "topology_utf8 t'" "collision_free (compared_hashes t t')"
    and "framable (strategy_String (top_strategy t))" "framable (strategy_String (top_strategy t'))"
    and "length (top_partitions t) < 256 ^ 8" "length (top_partitions t') < 256 ^ 8"
  shows "strategy_String (top_strategy t) = strategy_String (top_strategy t') \<and>
    top_root t = top_root t' \<and> mset (top_partitions t) = mset (top_partitions t')"
proof -
  have "hex_encode (sha256 (fingerprint_input t)) = hex_encode (sha256 (fingerprint_input t'))"
    using assms(1,2) unfolding Fingerprint_eq rcheck_Inr by (metis Inr_inject same_append_eq)
  then have "sha256 (fingerprint_input t) = sha256 (fingerprint_input t')" by (rule hex_encode_inject)
  moreover have "(fingerprint_input t, fingerprint_input t') \<in> compared_hashes t t'"
    unfolding compared_hashes_def by (rule UnI1) (rule insertI1)
  ultimately have "fingerprint_input t = fingerprint_input t'" by (rule collision_freeD [OF assms(5), rotated])
  from strategy_String_inject_framed [OF this assms(6-9)]
  have s: "strategy_String (top_strategy t) = strategy_String (top_strategy t')"
    and r: "relation_hash (top_root t) = relation_hash (top_root t')"
    and e: "sort (map relation_hash (top_partitions t)) = sort (map relation_hash (top_partitions t'))"
    by blast+
  have c: "p = q" if "(canon_text (relation_json p), canon_text (relation_json q)) \<in> compared_hashes t t'"
    "relation_hash p = relation_hash q" "relation_utf8 p" "relation_utf8 q" for p q
  proof -
    have "canon_text (relation_json p) = canon_text (relation_json q)"
      using collision_freeD [OF assms(5) that(1)] that(2) unfolding relation_hash_def by blast
    then show ?thesis using relation_json_inject [OF that(3,4)] unfolding canon_text_inject by blast
  qed
  have "top_root t = top_root t'"
    using r assms(3,4) by (intro c) (auto simp: compared_hashes_def topology_utf8_def)
  moreover have "mset (top_partitions t) = mset (top_partitions t')"
  proof (rule mset_map_inj [of relation_hash])
    show "mset (map relation_hash (top_partitions t)) = mset (map relation_hash (top_partitions t'))"
      using e by (metis mset_sort)
    fix p q assume "p \<in> set (top_partitions t)" "q \<in> set (top_partitions t')" "relation_hash p = relation_hash q"
    then show "p = q" using assms(3,4) by (intro c) (auto simp: compared_hashes_def topology_utf8_def)
  qed
  ultimately show ?thesis using s by blast
qed

definition sample_topology :: topology_input where
  "sample_topology = \<lparr>top_root = \<lparr>rel_oid = 1, rel_schema = ''s'', rel_name = ''t'', rel_kind = ''p'',
       rel_owner_oid = 10, rel_parent_oid = 0, rel_partition_bound = [], rel_is_default = False\<rparr>,
     top_strategy = StrategyRange,
     top_partitions = [\<lparr>rel_oid = 2, rel_schema = ''s'', rel_name = ''t1'', rel_kind = ''r'',
       rel_owner_oid = 10, rel_parent_oid = 1, rel_partition_bound = ''b'', rel_is_default = False\<rparr>]\<rparr>"

lemma sample_topology_valid: "topology_Validate sample_topology = None"
  by (simp add: topology_Validate_None sample_topology_def)

lemma sample_topology_utf8: "topology_utf8 sample_topology"
  by (simp add: topology_utf8_def relation_utf8_def sample_topology_def ascii_valid ascii_def)

lemma sample_topology_collision_free:
  "collision_free (compared_hashes sample_topology sample_topology)"
proof -
  have "x = y" if "(x, y) \<in> compared_hashes sample_topology sample_topology" for x y
    using that unfolding compared_hashes_def by (auto simp: sample_topology_def)
  then show ?thesis unfolding collision_free_def by blast
qed

theorem Fingerprint_covers_witness:
  "mset (top_partitions sample_topology) = mset (top_partitions sample_topology)"
proof -
  have f: "Fingerprint sample_topology
      = Inr (FingerprintPrefix @ hex_encode (sha256 (fingerprint_input sample_topology)))"
    by (simp only: Fingerprint_eq sample_topology_valid rcheck_simps)
  have fr: "framable (strategy_String (top_strategy sample_topology))"
    by (simp add: framable_def sample_topology_def)
  have l: "length (top_partitions sample_topology) < 256 ^ 8" by (simp add: sample_topology_def)
  show ?thesis
    using Fingerprint_covers [OF f f sample_topology_utf8 sample_topology_utf8
        sample_topology_collision_free fr fr l l] by blast
qed

subsection \<open>What a difference says\<close>

abbreviation by_oid :: "relation_state list \<Rightarrow> 32 word \<rightharpoonup> relation_state" where
  "by_oid ps \<equiv> map_of (map (\<lambda>p. (rel_oid p, p)) (rev ps))"

lemma collect_planned_spec:
  "collect_planned m oids ps = (m', oids') \<Longrightarrow> set oids = dom m \<Longrightarrow> distinct oids \<Longrightarrow>
     m' = m ++ by_oid ps \<and> set oids' = dom m' \<and> distinct oids'"
proof (induction m oids ps rule: collect_planned.induct)
  case (2 m oids p ps)
  let ?o = "case m (rel_oid p) of None \<Rightarrow> oids @ [rel_oid p] | Some _ \<Rightarrow> oids"
  have "set ?o = dom (m(rel_oid p \<mapsto> p))" "distinct ?o"
    using "2.prems"(2,3) by (auto simp: domIff split: option.split)
  then have "m' = m(rel_oid p \<mapsto> p) ++ by_oid ps \<and> set oids' = dom m' \<and> distinct oids'"
    by (rule "2.IH" [OF "2.prems"(1) [unfolded collect_planned.simps]])
  then show ?case by simp
qed simp

lemma collect_live_spec:
  "collect_live planned m oids ps = (m', oids') \<Longrightarrow> set oids = dom planned \<union> dom m \<Longrightarrow> distinct oids \<Longrightarrow>
     m' = m ++ by_oid ps \<and> set oids' = dom planned \<union> dom m' \<and> distinct oids'"
proof (induction planned m oids ps rule: collect_live.induct)
  case (2 planned m oids p ps)
  let ?o = "case planned (rel_oid p) of
          None \<Rightarrow> (case m (rel_oid p) of None \<Rightarrow> oids @ [rel_oid p] | Some _ \<Rightarrow> oids)
        | Some _ \<Rightarrow> oids"
  have "set ?o = dom planned \<union> dom (m(rel_oid p \<mapsto> p))" "distinct ?o"
    using "2.prems"(2,3) by (auto simp: domIff split: option.split)
  then have "m' = m(rel_oid p \<mapsto> p) ++ by_oid ps \<and> set oids' = dom planned \<union> dom m' \<and> distinct oids'"
    by (rule "2.IH" [OF "2.prems"(1) [unfolded collect_live.simps]])
  then show ?case by simp
qed simp

lemma diff_oid_Nil: "diff_oid a b oid = [] \<longleftrightarrow> a = b"
  by (auto simp: diff_oid_def split: option.splits)

lemma by_oid_distinct:
  assumes "distinct (map rel_oid ps)"
  shows "by_oid ps oid = Some p \<longleftrightarrow> p \<in> set ps \<and> rel_oid p = oid"
proof -
  have "distinct (map fst (map (\<lambda>p. (rel_oid p, p)) (rev ps)))"
    using assms by (simp add: comp_def rev_map [symmetric])
  then show ?thesis by (auto simp: map_of_eq_Some_iff simp del: distinct_map)
qed

lemma map_eqI: "(\<And>k v. m k = Some v \<longleftrightarrow> n k = Some v) \<Longrightarrow> m = n"
  by (rule ext) (metis option.exhaust)

lemma by_oid_eq:
  assumes "distinct (map rel_oid ps)" "distinct (map rel_oid qs)"
  shows "by_oid ps = by_oid qs \<longleftrightarrow> mset ps = mset qs"
proof
  assume h: "by_oid ps = by_oid qs"
  have "p \<in> set ps \<longleftrightarrow> p \<in> set qs" for p
  proof -
    have "p \<in> set ps \<longleftrightarrow> by_oid ps (rel_oid p) = Some p"
      unfolding by_oid_distinct [OF assms(1)] by simp
    also have "\<dots> \<longleftrightarrow> by_oid qs (rel_oid p) = Some p" unfolding h by (rule refl)
    also have "\<dots> \<longleftrightarrow> p \<in> set qs" unfolding by_oid_distinct [OF assms(2)] by simp
    finally show ?thesis .
  qed
  then have "set ps = set qs" by blast
  moreover have "distinct ps" "distinct qs" using assms by (simp_all add: distinct_map)
  ultimately show "mset ps = mset qs" by (simp add: set_eq_iff_mset_eq_distinct)
next
  assume "mset ps = mset qs"
  then have "set ps = set qs" by (rule mset_eq_setD)
  then have "by_oid ps oid = Some p \<longleftrightarrow> by_oid qs oid = Some p" for oid p
    using by_oid_distinct [OF assms(1)] by_oid_distinct [OF assms(2)] by simp
  then show "by_oid ps = by_oid qs" by (rule map_eqI)
qed

lemma DiffTopology_spec:
  "DiffTopology planned live =
     (if top_root planned \<noteq> top_root live
      then [\<lparr>tc_change = TopologyRootChanged, tc_relation = rel_String (top_root live),
             tc_oid = rel_oid (top_root live)\<rparr>] else [])
     @ (if top_strategy planned \<noteq> top_strategy live
        then [\<lparr>tc_change = TopologyStrategyChanged, tc_relation = [], tc_oid = 0\<rparr>] else [])
     @ concat (map (\<lambda>oid. diff_oid (by_oid (top_partitions planned) oid) (by_oid (top_partitions live) oid) oid)
         (sorted_list_of_set (rel_oid ` set (top_partitions planned) \<union> rel_oid ` set (top_partitions live))))"
proof -
  obtain m1 o1 where 1: "collect_planned (\<lambda>_. None) [] (top_partitions planned) = (m1, o1)" by (metis prod.exhaust)
  obtain m2 o2 where 2: "collect_live m1 (\<lambda>_. None) o1 (top_partitions live) = (m2, o2)" by (metis prod.exhaust)
  have m1: "m1 = by_oid (top_partitions planned)" "set o1 = dom m1" "distinct o1"
    using collect_planned_spec [OF 1] by simp_all
  have m2: "m2 = by_oid (top_partitions live)" "set o2 = dom m1 \<union> dom m2" "distinct o2"
    using collect_live_spec [OF 2] m1(2,3) by simp_all
  have "dom (by_oid ps) = rel_oid ` set ps" for ps by (auto simp: dom_map_of_conv_image_fst image_image)
  then have "set o2 = rel_oid ` set (top_partitions planned) \<union> rel_oid ` set (top_partitions live)"
    using m1(1) m2(1,2) by simp
  then have "sort o2
      = sorted_list_of_set (rel_oid ` set (top_partitions planned) \<union> rel_oid ` set (top_partitions live))"
    using m2(3) by (metis distinct_remdups_id sorted_list_of_set_sort_remdups)
  then show ?thesis
    unfolding DiffTopology_def 1 case_prod_conv Let_def 2 unfolding m1(1) m2(1) by (simp only:)
qed

text \<open>
  The named drift is exact: for two well formed topologies \<open>DiffTopology\<close> is empty if
  and only if they have the same root, strategy and partitions, and then their fingerprints agree;
  so whenever the fingerprint check refuses a plan there is at least one change to report.
\<close>
theorem DiffTopology_exact:
  assumes "topology_Validate planned = None" "topology_Validate live = None"
  shows "(DiffTopology planned live = [] \<longleftrightarrow> top_root planned = top_root live \<and>
      top_strategy planned = top_strategy live \<and>
      mset (top_partitions planned) = mset (top_partitions live)) \<and>
    (Fingerprint planned = Fingerprint live \<or> DiffTopology planned live \<noteq> [])"
proof -
  let ?P = "top_partitions planned" and ?L = "top_partitions live"
  have d: "distinct (map rel_oid ?P)" "distinct (map rel_oid ?L)"
    using assms by (simp_all add: topology_Validate_None)
  let ?ids = "rel_oid ` set ?P \<union> rel_oid ` set ?L"
  have none: "by_oid ps oid = None" if "oid \<notin> rel_oid ` set ps" for ps oid
    using that by (simp add: map_of_eq_None_iff image_image)
  have ids: "(\<forall>oid \<in> ?ids. by_oid ?P oid = by_oid ?L oid) \<longleftrightarrow> by_oid ?P = by_oid ?L"
  proof
    assume h: "\<forall>oid \<in> ?ids. by_oid ?P oid = by_oid ?L oid"
    show "by_oid ?P = by_oid ?L"
    proof
      fix oid
      show "by_oid ?P oid = by_oid ?L oid"
        using h none [of oid ?P] none [of oid ?L] by (cases "oid \<in> ?ids") auto
    qed
  qed simp
  have nil: "concat (map (\<lambda>oid. diff_oid (by_oid ?P oid) (by_oid ?L oid) oid) (sorted_list_of_set ?ids)) = []
      \<longleftrightarrow> mset ?P = mset ?L"
    unfolding by_oid_eq [OF d, symmetric] ids [symmetric] by (simp add: diff_oid_Nil del: map_map)
  have iff: "DiffTopology planned live = [] \<longleftrightarrow> top_root planned = top_root live \<and>
      top_strategy planned = top_strategy live \<and> mset ?P = mset ?L"
    unfolding DiffTopology_spec append_is_Nil_conv nil by simp
  have "Fingerprint planned = Fingerprint live"
    if "top_root planned = top_root live" "top_strategy planned = top_strategy live" "mset ?P = mset ?L"
  proof -
    have "sort (map relation_hash ?P) = sort (map relation_hash ?L)" using that(3) by (intro sort_mset) simp
    then have "fingerprint_input planned = fingerprint_input live"
      using that mset_eq_length [OF that(3)] by (simp add: fingerprint_input_def)
    then show ?thesis using assms by (simp add: Fingerprint_eq)
  qed
  then show ?thesis using iff by blast
qed

theorem DiffTopology_exact_witness: "DiffTopology sample_topology sample_topology = []"
  using DiffTopology_exact [OF sample_topology_valid sample_topology_valid] by simp

end
