(* ===== verification/Ready_Queue.thy ===== *)
theory Ready_Queue
  imports Main "HOL-Library.Multiset"
begin

text \<open>
  The ready set of the scheduler of plan.go: container/heap over \<open>intHeap\<close>.  The interface is the
  locale \<open>min_queue\<close>; the model's queue keeps the slice and takes its minimum out, which is what
  \<open>heap.Pop\<close> promises.  The scheduler's proofs use the interpretation's facts only.
\<close>

locale min_queue =
  fixes elems :: "'q \<Rightarrow> 'a::linorder multiset"
    and push :: "'a \<Rightarrow> 'q \<Rightarrow> 'q"
    and pop :: "'q \<Rightarrow> ('a \<times> 'q) option"
  assumes elems_push: "elems (push x q) = add_mset x (elems q)"
    and pop_None: "pop q = None \<longleftrightarrow> elems q = {#}"
    and pop_Some: "pop q = Some (x, q') \<Longrightarrow> elems q = add_mset x (elems q') \<and> (\<forall>y \<in># elems q'. x \<le> y)"
begin

lemma pop_min: "pop q = Some (x, q') \<Longrightarrow> x \<in># elems q \<and> (\<forall>y \<in># elems q. x \<le> y)"
  using pop_Some by (auto simp: pop_Some)

lemma pop_size: "pop q = Some (x, q') \<Longrightarrow> size (elems q) = Suc (size (elems q'))"
  using pop_Some by fastforce

lemma pop_rest: "pop q = Some (x, q') \<Longrightarrow> elems q' = elems q - {#x#}"
  using pop_Some by fastforce

end

definition heap_push :: "nat \<Rightarrow> nat list \<Rightarrow> nat list" where
  "heap_push x h = h @ [x]"

definition heap_pop :: "nat list \<Rightarrow> (nat \<times> nat list) option" where
  "heap_pop h = (if h = [] then None else Some (Min (set h), remove1 (Min (set h)) h))"

interpretation int_heap: min_queue mset heap_push heap_pop
proof unfold_locales
  fix q q' :: "nat list" and x assume "heap_pop q = Some (x, q')"
  then have h: "q \<noteq> []" "x = Min (set q)" "q' = remove1 x q"
    by (auto simp: heap_pop_def split: if_splits)
  then have x: "x \<in> set q" "\<forall>y \<in> set q. x \<le> y" by simp_all
  have "mset q = add_mset x (mset q')" using h(3) x(1) by simp
  moreover have "\<forall>y \<in># mset q'. x \<le> y"
    using x(2) set_remove1_subset [of x q] h(3) by (auto dest: in_diffD)
  ultimately show "mset q = add_mset x (mset q') \<and> (\<forall>y \<in># mset q'. x \<le> y)" by blast
qed (simp_all add: heap_push_def heap_pop_def)

end
