(* ===== verification/Plan.thy ===== *)
theory Plan
  imports Node Topology Ready_Queue
begin

text \<open>
  engine/protocol/plan.go and version.go: the plan artifact, its structural validation, and the
  canonical topological order.  A plan is valid only if its dependency graph is acyclic; the order
  is then the greedy one that always schedules the ready node that comes first in the file.
\<close>

subsection \<open>The artifact\<close>

datatype operation = OpCreateIndex | OpReindexIndex | OpDropIndex | UnknownOperation string

definition operation_Valid :: "operation \<Rightarrow> bool" where
  "operation_Valid p = (case p of UnknownOperation _ \<Rightarrow> False | _ \<Rightarrow> True)"

fun operation_String :: "operation \<Rightarrow> string" where
  "operation_String OpCreateIndex = ''create-index''"
| "operation_String OpReindexIndex = ''reindex-index''"
| "operation_String OpDropIndex = ''drop-index''"
| "operation_String (UnknownOperation s) = s"

record target =
  tgt_database :: string
  tgt_table :: object_name
  tgt_index :: "object_name option"

definition target_Validate :: "target \<Rightarrow> err option" where
  "target_Validate t = then_check (validateObject (tgt_table t)) (validateOptionalObject (tgt_index t))"

text \<open>An instant, in nanoseconds.\<close>

type_synonym timestamp = int

record confirmation =
  conf_flag :: string
  conf_actor :: string
  conf_at :: timestamp
  conf_note :: string

record plan =
  p_format_version :: int
  p_plan_id :: string
  p_operation :: operation
  p_target :: target
  p_created_at :: timestamp
  p_confirmations :: "confirmation list"
  p_nodes :: "node list"
  p_topology_fingerprint :: string
  p_topology :: "topology_input option"
  p_digest :: string

definition PlanFormatVersion :: int where "PlanFormatVersion = 2"

definition supportedFormatVersions :: "int list" where "supportedFormatVersions = [1, 2]"

fun is_supported :: "int list \<Rightarrow> int \<Rightarrow> bool" where
  "is_supported [] v = False"
| "is_supported (s # ss) v = (if s = v then True else is_supported ss v)"

definition IsSupportedFormatVersion :: "int \<Rightarrow> bool" where
  "IsSupportedFormatVersion v = is_supported supportedFormatVersions v"

definition CheckFormatVersion :: "int \<Rightarrow> err option" where
  "CheckFormatVersion v =
     (if IsSupportedFormatVersion v then None else Some (Detailf ErrUnsupportedFormatVersion))"

fun confirmed_in :: "confirmation list \<Rightarrow> string \<Rightarrow> bool" where
  "confirmed_in [] flag = False"
| "confirmed_in (c # cs) flag = (if conf_flag c = flag then True else confirmed_in cs flag)"

definition Confirmed :: "plan \<Rightarrow> string \<Rightarrow> bool" where
  "Confirmed p flag = confirmed_in (p_confirmations p) flag"

fun find_node :: "node list \<Rightarrow> node_id \<Rightarrow> node option" where
  "find_node [] i = None"
| "find_node (n # ns) i = (if n_id n = i then Some n else find_node ns i)"

definition NodeByID :: "plan \<Rightarrow> node_id \<Rightarrow> node option" where
  "NodeByID p i = find_node (p_nodes p) i"

text \<open>\<open>int\<close> is 64 bits wide, and addition wraps.\<close>

definition wrap_int64 :: "int \<Rightarrow> int" where
  "wrap_int64 x = (x + 2 ^ 63) mod 2 ^ 64 - 2 ^ 63"

definition TotalEstimatedSeconds :: "plan \<Rightarrow> int" where
  "TotalEstimatedSeconds p = foldl (\<lambda>total n. wrap_int64 (total + n_estimated_seconds n)) 0 (p_nodes p)"

subsection \<open>Topological order\<close>

text \<open>The node index; a later node with the same id replaces an earlier one.\<close>

definition node_index :: "node list \<Rightarrow> node_id \<rightharpoonup> nat" where
  "node_index ns = map_of (rev (zip (map n_id ns) [0..<length ns]))"

text \<open>The edge loop: indegrees and dependents by position, or the error for an unknown dependency.\<close>

fun add_edges :: "(node_id \<rightharpoonup> nat) \<Rightarrow> nat \<Rightarrow> node_id list \<Rightarrow> int list \<times> nat list list
    \<Rightarrow> err + (int list \<times> nat list list)" where
  "add_edges index i [] g = Inr g"
| "add_edges index i (d # ds) (indegree, dependents) = (case index d of
     None \<Rightarrow> Inl (Detailf ErrInvalidPlan)
   | Some j \<Rightarrow> add_edges index i ds
       (indegree[i := indegree ! i + 1], dependents[j := dependents ! j @ [i]]))"

fun build_graph :: "(node_id \<rightharpoonup> nat) \<Rightarrow> nat \<Rightarrow> node list \<Rightarrow> int list \<times> nat list list
    \<Rightarrow> err + (int list \<times> nat list list)" where
  "build_graph index i [] g = Inr g"
| "build_graph index i (n # ns) g =
     rbind (add_edges index i (n_depends_on n) g) (\<lambda>g'. build_graph index (i + 1) ns g')"

text \<open>
  The inner loop over the dependents of a scheduled node.  The positions are in range in every
  graph the edge loop builds; the guard stands for the slice bounds check.
\<close>

fun relax :: "nat list \<Rightarrow> int list \<Rightarrow> nat list \<Rightarrow> int list \<times> nat list" where
  "relax [] indegree ready = (indegree, ready)"
| "relax (j # js) indegree ready =
     (if j < length indegree then
        (let indegree' = indegree[j := indegree ! j - 1] in
         relax js indegree' (if indegree' ! j = 0 then heap_push j ready else ready))
      else relax js indegree ready)"

definition blocked :: "int list \<Rightarrow> nat" where
  "blocked indegree = length (filter (\<lambda>x. x > 0) indegree)"

lemma blocked_update:
  "j < length deg \<Longrightarrow>
     (if deg ! j - 1 = 0 then 1 else 0) + blocked (deg[j := deg ! j - 1]) \<le> blocked deg"
proof (induction deg arbitrary: j)
  case (Cons x xs)
  then show ?case by (cases j) (auto simp: blocked_def)
qed simp

lemma relax_blocked:
  "relax js deg ready = (deg', ready') \<Longrightarrow> length ready' + blocked deg' \<le> length ready + blocked deg"
proof (induction js deg ready rule: relax.induct)
  case (2 j js deg ready)
  show ?case
  proof (cases "j < length deg")
    case True
    have "length ready' + blocked deg'
        \<le> length (if deg[j := deg ! j - 1] ! j = 0 then heap_push j ready else ready)
          + blocked (deg[j := deg ! j - 1])"
      using "2.IH"(1) [OF True refl] "2.prems" True by (simp add: Let_def)
    also have "\<dots> \<le> length ready + blocked deg"
      using blocked_update [OF True] True by (simp add: heap_push_def split: if_splits)
    finally show ?thesis .
  qed (use 2 in simp)
qed simp

function schedule :: "nat list list \<Rightarrow> int list \<Rightarrow> nat list \<Rightarrow> nat list \<Rightarrow> nat list \<times> int list" where
  "schedule dependents indegree ready order = (case heap_pop ready of
     None \<Rightarrow> (order, indegree)
   | Some (i, ready1) \<Rightarrow>
       (case relax (dependents ! i) indegree ready1 of (indegree', ready') \<Rightarrow>
          schedule dependents indegree' ready' (order @ [i])))"
  by pat_completeness auto
termination
  by (relation "measure (\<lambda>(dependents, indegree, ready, order). length ready + blocked indegree)")
     (auto dest!: int_heap.pop_size relax_blocked [OF sym])

declare schedule.simps [simp del]

definition TopologicalOrder :: "plan \<Rightarrow> err + node_id list" where
  "TopologicalOrder p =
     (let ns = p_nodes p; n = length ns in
      rbind (build_graph (node_index ns) 0 ns (replicate n 0, replicate n []))
        (\<lambda>(indegree, dependents).
          let ready = filter (\<lambda>i. indegree ! i = 0) [0..<n];
              (order, _) = schedule dependents indegree ready []
          in if length order \<noteq> n then Inl (Detailf ErrInvalidPlan)
             else Inr (map (\<lambda>i. n_id (ns ! i)) order)))"

subsection \<open>Validation\<close>

text \<open>The first node loop: node validity, duplicate ids, and the count of partitioned drops.\<close>

fun check_nodes :: "node_id set \<Rightarrow> nat \<Rightarrow> node list \<Rightarrow> err + (node_id set \<times> nat)" where
  "check_nodes byID dropPartitioned [] = Inr (byID, dropPartitioned)"
| "check_nodes byID dropPartitioned (n # ns) =
     rcheck (node_Validate n)
     (if n_id n \<in> byID then Inl (Detailf ErrInvalidPlan)
      else check_nodes (insert (n_id n) byID)
             (if n_kind n = KindIndexDropPartitioned then dropPartitioned + 1 else dropPartitioned) ns)"

definition check_sole_drop :: "node \<Rightarrow> err option" where
  "check_sole_drop n =
     (if \<not> IsDestructive (n_kind n) \<or> n_kind n = KindIndexDropPartitioned then None
      else if n_kind n \<noteq> KindIndexDropConcurrently then Some (Detailf ErrInvalidPlan) else None)"

fun check_deps :: "node_id \<Rightarrow> node_id set \<Rightarrow> node_id set \<Rightarrow> node_id list \<Rightarrow> err option" where
  "check_deps self byID seen [] = None"
| "check_deps self byID seen (d # ds) =
     (if d = self then Some (Detailf ErrInvalidPlan)
      else if d \<in> seen then Some (Detailf ErrInvalidPlan)
      else if d \<notin> byID then Some (Detailf ErrInvalidPlan)
      else check_deps self byID (insert d seen) ds)"

definition plan_Validate :: "plan \<Rightarrow> err option" where
  "plan_Validate p =
     then_check (CheckFormatVersion (p_format_version p))
     (then_check (if p_plan_id p = [] then Some (Detailf ErrInvalidPlan) else None)
     (then_check (if operation_Valid (p_operation p) then None else Some (Detailf ErrInvalidPlan))
     (then_check (if target_Validate (p_target p) \<noteq> None then Some (Detailf ErrInvalidPlan) else None)
     (then_check (if p_topology_fingerprint p = [] then Some (Detailf ErrInvalidPlan) else None)
     (then_check (if \<not> has_prefix (p_topology_fingerprint p) FingerprintPrefix
                  then Some (Detailf ErrInvalidPlan) else None)
     (then_check (if p_nodes p = [] then Some (Detailf ErrInvalidPlan) else None)
     (then_check (each_check (\<lambda>c. if conf_flag c = [] then Some (Detailf ErrInvalidPlan) else None)
                    (p_confirmations p))
     (case check_nodes {} 0 (p_nodes p) of
        Inl e \<Rightarrow> Some e
      | Inr (byID, dropPartitioned) \<Rightarrow>
          then_check (if dropPartitioned > 1 then Some (Detailf ErrInvalidPlan) else None)
          (then_check (if dropPartitioned = 1 then each_check check_sole_drop (p_nodes p) else None)
          (then_check (if dropPartitioned = 1 \<and> \<not> Confirmed p ConfirmExclusiveLock
                       then Some (Detailf ErrInvalidPlan) else None)
          (then_check (each_check (\<lambda>n. check_deps (n_id n) byID {} (n_depends_on n)) (p_nodes p))
             (case TopologicalOrder p of Inl e \<Rightarrow> Some e | Inr _ \<Rightarrow> None))))))))))))"

subsection \<open>Against the database (fingerprint.go)\<close>

definition VerifyTopology :: "plan \<Rightarrow> topology_input \<Rightarrow> err option" where
  "VerifyTopology p live =
     (if p_topology_fingerprint p = [] then Some (Detailf ErrTopologyDrift)
      else (case Fingerprint live of
        Inl e \<Rightarrow> Some e
      | Inr got \<Rightarrow> if got \<noteq> p_topology_fingerprint p then Some (Detailf ErrTopologyDrift) else None))"

subsection \<open>The edge loops\<close>

lemma node_index_Some: "node_index ns d = Some j \<Longrightarrow> j < length ns \<and> n_id (ns ! j) = d"
  unfolding node_index_def by (auto dest!: map_of_SomeD simp: set_zip)

lemma node_index_known: "node_index ns d \<noteq> None \<longleftrightarrow> d \<in> n_id ` set ns"
proof -
  have "fst ` set (rev (zip (map n_id ns) [0..<length ns])) = n_id ` set ns"
    by (metis length_map length_upt map_fst_zip minus_nat.diff_0 set_map set_rev)
  then show ?thesis by (simp add: node_index_def map_of_eq_None_iff)
qed

lemma node_index_distinct:
  assumes "distinct (map n_id ns)" "j < length ns" shows "node_index ns (n_id (ns ! j)) = Some j"
proof -
  obtain i where i: "node_index ns (n_id (ns ! j)) = Some i"
    using node_index_known [of ns "n_id (ns ! j)"] assms(2) by fastforce
  from node_index_Some [OF this] have "i = j"
    using assms nth_eq_iff_index_eq [OF assms(1), of i j] by simp
  then show ?thesis using i by simp
qed

lemma count_list_replicate [simp]: "count_list (replicate m x) y = (if x = y then m else 0)"
  by (induction m) auto

lemma add_edges_Inr:
  "add_edges index i ds (deg, dep) = Inr (deg', dep') \<Longrightarrow> i < length deg \<Longrightarrow>
     (\<forall>d j. index d = Some j \<longrightarrow> j < length dep) \<Longrightarrow>
     (\<forall>d \<in> set ds. index d \<noteq> None) \<and> length deg' = length deg \<and> length dep' = length dep \<and>
     (\<forall>k < length deg. deg' ! k = deg ! k + (if k = i then int (length ds) else 0)) \<and>
     (\<forall>j < length dep. dep' ! j = dep ! j @ replicate (count_list (map (the \<circ> index) ds) j) i)"
proof (induction ds arbitrary: deg dep)
  case (Cons d ds)
  then obtain j where j: "index d = Some j" "j < length dep"
    by (auto split: option.splits)
  have "add_edges index i ds (deg[i := deg ! i + 1], dep[j := dep ! j @ [i]]) = Inr (deg', dep')"
    using Cons.prems(1) j by simp
  note ih = Cons.IH [OF this]
  have "\<forall>k < length dep. (dep[j := dep ! j @ [i]]) ! k @ replicate (count_list (map (the \<circ> index) ds) k) i
      = dep ! k @ replicate (count_list (map (the \<circ> index) (d # ds)) k) i"
    using j by (auto simp: nth_list_update replicate_app_Cons_same)
  then show ?case using ih Cons.prems j by (auto simp: nth_list_update)
qed simp

lemma add_edges_total:
  "(\<forall>d \<in> set ds. index d \<noteq> None) \<Longrightarrow> \<exists>g'. add_edges index i ds g = Inr g'"
  by (induction ds arbitrary: g) (force split: option.splits)+

lemma build_graph_total:
  "(\<forall>n \<in> set ns. \<forall>d \<in> set (n_depends_on n). index d \<noteq> None) \<Longrightarrow> \<exists>g'. build_graph index i ns g = Inr g'"
proof (induction ns arbitrary: i g)
  case (Cons n ns)
  obtain g' where "add_edges index i (n_depends_on n) g = Inr g'"
    using add_edges_total [of "n_depends_on n" index i g] Cons.prems by auto
  then show ?case using Cons.IH [of "i + 1" g'] Cons.prems by simp
qed simp

lemma build_graph_Inr:
  "build_graph index i ns (deg, dep) = Inr (deg', dep') \<Longrightarrow> i + length ns \<le> length deg \<Longrightarrow>
     (\<forall>d j. index d = Some j \<longrightarrow> j < length dep) \<Longrightarrow>
     (\<forall>n \<in> set ns. \<forall>d \<in> set (n_depends_on n). index d \<noteq> None) \<and>
     length deg' = length deg \<and> length dep' = length dep \<and>
     (\<forall>k < length deg. deg' ! k = deg ! k
        + (if i \<le> k \<and> k < i + length ns then int (length (n_depends_on (ns ! (k - i)))) else 0)) \<and>
     (\<forall>j < length dep. \<forall>k. count_list (dep' ! j) k = count_list (dep ! j) k
        + (if i \<le> k \<and> k < i + length ns
           then count_list (map (the \<circ> index) (n_depends_on (ns ! (k - i)))) j else 0))"
proof (induction ns arbitrary: i deg dep)
  case (Cons n ns)
  obtain deg1 dep1 where 1: "add_edges index i (n_depends_on n) (deg, dep) = Inr (deg1, dep1)"
    "build_graph index (i + 1) ns (deg1, dep1) = Inr (deg', dep')"
    using Cons.prems(1) by (auto simp: rbind_Inr)
  note a = add_edges_Inr [OF 1(1)]
  have a': "length deg1 = length deg" "length dep1 = length dep"
    "\<forall>d \<in> set (n_depends_on n). index d \<noteq> None"
    "\<forall>k < length deg. deg1 ! k = deg ! k + (if k = i then int (length (n_depends_on n)) else 0)"
    "\<forall>j < length dep. dep1 ! j = dep ! j @ replicate (count_list (map (the \<circ> index) (n_depends_on n)) j) i"
    using a Cons.prems by auto
  note b = Cons.IH [OF 1(2)]
  have b': "\<forall>n \<in> set ns. \<forall>d \<in> set (n_depends_on n). index d \<noteq> None" "length deg' = length deg"
    "length dep' = length dep"
    "\<forall>k < length deg. deg' ! k = deg1 ! k
        + (if i + 1 \<le> k \<and> k < i + 1 + length ns then int (length (n_depends_on (ns ! (k - (i + 1))))) else 0)"
    "\<forall>j < length dep. \<forall>k. count_list (dep' ! j) k = count_list (dep1 ! j) k
        + (if i + 1 \<le> k \<and> k < i + 1 + length ns
           then count_list (map (the \<circ> index) (n_depends_on (ns ! (k - (i + 1))))) j else 0)"
    using b a'(1,2) Cons.prems by auto
  have "deg' ! k = deg ! k + (if i \<le> k \<and> k < i + length (n # ns)
      then int (length (n_depends_on ((n # ns) ! (k - i)))) else 0)" if "k < length deg" for k
  proof (cases k i rule: linorder_cases)
    case greater
    then have "k - i = Suc (k - (i + 1))" by simp
    then show ?thesis using b'(4) a'(4) that greater by simp
  qed (use b'(4) a'(4) that in auto)
  moreover have "count_list (dep' ! j) k = count_list (dep ! j) k + (if i \<le> k \<and> k < i + length (n # ns)
      then count_list (map (the \<circ> index) (n_depends_on ((n # ns) ! (k - i)))) j else 0)"
    if "j < length dep" for j k
  proof (cases k i rule: linorder_cases)
    case greater
    then have "k - i = Suc (k - (i + 1))" by simp
    then show ?thesis using b'(5) a'(5) that greater by simp
  qed (use b'(5) a'(5) that in auto)
  ultimately show ?case using a'(3) b'(1-3) by simp
qed auto

subsection \<open>The inner loop\<close>

lemma relax_spec:
  "relax js deg ready = (deg', ready') \<Longrightarrow> (\<forall>j \<in> set js. j < length deg) \<Longrightarrow>
     (\<forall>k < length deg. int (count_list js k) \<le> deg ! k) \<Longrightarrow>
     length deg' = length deg \<and> (\<forall>k < length deg. deg' ! k = deg ! k - int (count_list js k)) \<and>
     (\<exists>extra. ready' = ready @ extra \<and> distinct extra \<and> set extra = {k \<in> set js. deg' ! k = 0})"
proof (induction js arbitrary: deg ready)
  case (Cons j js)
  let ?deg = "deg[j := deg ! j - 1]"
  let ?ready = "if ?deg ! j = 0 then heap_push j ready else ready"
  have j: "j < length deg" using Cons.prems(2) by simp
  have r: "relax js ?deg ?ready = (deg', ready')" using Cons.prems(1) j by (simp add: Let_def)
  have c: "int (count_list js k) \<le> ?deg ! k" if "k < length ?deg" for k
    using Cons.prems(3) [rule_format, of k] that by (cases "k = j") auto
  obtain extra where ih: "length deg' = length deg"
    "\<forall>k < length deg. deg' ! k = ?deg ! k - int (count_list js k)"
    "ready' = ?ready @ extra" "distinct extra" "set extra = {k \<in> set js. deg' ! k = 0}"
    using Cons.IH [OF r] Cons.prems(2) c by auto
  have d: "\<forall>k < length deg. deg' ! k = deg ! k - int (count_list (j # js) k)"
    using ih(2) by (auto simp: nth_list_update)
  show ?case
  proof (cases "?deg ! j = 0")
    case True
    then have "count_list js j = 0" using c [of j] j by simp
    then have nj: "j \<notin> set js" by (simp add: count_list_0_iff)
    then have "deg' ! j = 0" using d True j by (simp add: count_notin)
    then have "set (j # extra) = {k \<in> set (j # js). deg' ! k = 0}" using ih(5) by auto
    moreover have "distinct (j # extra)" using ih(4,5) nj by simp
    moreover have "ready' = ready @ (j # extra)" using ih(3) True by (simp add: heap_push_def)
    ultimately show ?thesis using ih(1) d by blast
  next
    case False
    then have "j \<notin> set js \<Longrightarrow> deg' ! j \<noteq> 0" using ih(2) j by (simp add: count_notin)
    then have "set extra = {k \<in> set (j # js). deg' ! k = 0}" using ih(5) by auto
    moreover have "ready' = ready @ extra" using ih(3) False by simp
    ultimately show ?thesis using ih(1,4) d by blast
  qed
qed simp

subsection \<open>The outer loop\<close>

text \<open>\<open>D i\<close> lists the positions node \<open>i\<close> depends on, one entry per edge.\<close>

definition available :: "nat \<Rightarrow> (nat \<Rightarrow> nat list) \<Rightarrow> nat list \<Rightarrow> nat set" where
  "available n D order = {i. i < n \<and> i \<notin> set order \<and> set (D i) \<subseteq> set order}"

definition greedy :: "nat \<Rightarrow> (nat \<Rightarrow> nat list) \<Rightarrow> nat list \<Rightarrow> bool" where
  "greedy n D order \<longleftrightarrow> (\<forall>k < length order.
     order ! k \<in> available n D (take k order) \<and> (\<forall>i \<in> available n D (take k order). order ! k \<le> i))"

definition graph_ok :: "nat \<Rightarrow> (nat \<Rightarrow> nat list) \<Rightarrow> nat list list \<Rightarrow> bool" where
  "graph_ok n D dependents \<longleftrightarrow> (\<forall>j < n. \<forall>k. count_list (dependents ! j) k = (if k < n then count_list (D k) j else 0))
     \<and> (\<forall>i < n. \<forall>d \<in> set (D i). d < n)"

definition sched_inv :: "nat \<Rightarrow> (nat \<Rightarrow> nat list) \<Rightarrow> int list \<Rightarrow> nat list \<Rightarrow> nat list \<Rightarrow> bool" where
  "sched_inv n D deg ready order \<longleftrightarrow> length deg = n \<and> greedy n D order \<and>
     (\<forall>i < n. deg ! i = int (length (filter (\<lambda>d. d \<notin> set order) (D i)))) \<and>
     distinct ready \<and> set ready = available n D order"

lemma greedy_closed:
  assumes "greedy n D order" "i \<in> set order" shows "set (D i) \<subseteq> set order \<and> i < n"
proof -
  obtain k where k: "k < length order" "order ! k = i" using assms(2) by (metis in_set_conv_nth)
  then have "i \<in> available n D (take k order)" using assms(1) by (auto simp: greedy_def)
  then show ?thesis using set_take_subset [of k order] by (auto simp: available_def)
qed

lemma greedy_snoc:
  assumes "greedy n D order" "i \<in> available n D order" "\<forall>j \<in> available n D order. i \<le> j"
  shows "greedy n D (order @ [i])"
  using assms by (auto simp: greedy_def nth_append less_Suc_eq)

lemma length_filter_remove:
  assumes "i \<notin> A" shows "length (filter (\<lambda>d. d \<notin> A) xs)
    = count_list xs i + length (filter (\<lambda>d. d \<notin> insert i A) xs)"
  using assms by (induction xs) auto

lemma sched_step:
  assumes inv: "sched_inv n D deg ready order" and g: "graph_ok n D dependents"
    and pop: "heap_pop ready = Some (i, ready1)" and rel: "relax (dependents ! i) deg ready1 = (deg', ready')"
  shows "sched_inv n D deg' ready' (order @ [i])"
proof -
  have I: "length deg = n" "greedy n D order" "distinct ready" "set ready = available n D order"
    and deg: "\<And>k. k < n \<Longrightarrow> deg ! k = int (length (filter (\<lambda>d. d \<notin> set order) (D k)))"
    using inv by (auto simp: sched_inv_def)
  have i: "i \<in> set ready" "\<forall>j \<in> set ready. i \<le> j" using int_heap.pop_min [OF pop] by simp_all
  have "mset ready1 = mset ready - {#i#}" by (rule int_heap.pop_rest [OF pop])
  then have r1: "mset ready1 = mset (remove1 i ready)" by simp
  have r1s: "set ready1 = set ready - {i}" "distinct ready1"
    using mset_eq_setD [OF r1] mset_eq_imp_distinct_iff [OF r1] I(3) by simp_all
  have ia: "i < n" "i \<notin> set order" "set (D i) \<subseteq> set order" using i(1) I(4) by (auto simp: available_def)
  have cnt: "count_list (dependents ! i) k = (if k < n then count_list (D k) i else 0)" for k
    using g ia(1) by (simp add: graph_ok_def)
  have dep: "k \<in> set (dependents ! i) \<longleftrightarrow> k < n \<and> i \<in> set (D k)" for k
    using cnt [of k] by (metis count_list_0_iff)
  have deg2: "deg ! k = int (count_list (D k) i) + int (length (filter (\<lambda>d. d \<notin> set (order @ [i])) (D k)))"
    if "k < n" for k
    using deg [OF that] length_filter_remove [OF ia(2), of "D k"] by simp
  have pre: "\<forall>j \<in> set (dependents ! i). j < length deg"
    "\<forall>k < length deg. int (count_list (dependents ! i) k) \<le> deg ! k"
    using dep I(1) cnt deg2 by auto
  obtain extra where R: "length deg' = n"
    "\<forall>k < n. deg' ! k = deg ! k - int (count_list (dependents ! i) k)"
    "ready' = ready1 @ extra" "distinct extra" "set extra = {k \<in> set (dependents ! i). deg' ! k = 0}"
    using relax_spec [OF rel pre] I(1) by auto
  have deg': "deg' ! k = int (length (filter (\<lambda>d. d \<notin> set (order @ [i])) (D k)))" if "k < n" for k
    using R(2) that cnt [of k] deg2 [OF that] by simp
  have zero: "deg' ! k = 0 \<longleftrightarrow> set (D k) \<subseteq> set (order @ [i])" if "k < n" for k
    unfolding deg' [OF that] by (auto simp: filter_empty_conv)
  have notin: "i \<notin> set (D k)" if "k \<in> set order \<or> k = i \<or> set (D k) \<subseteq> set order" for k
    using that ia(2,3) greedy_closed [OF I(2)] by auto
  have "set ready' = available n D (order @ [i])"
  proof
    show "set ready' \<subseteq> available n D (order @ [i])"
    proof
      fix k assume "k \<in> set ready'"
      then consider "k \<in> set ready" "k \<noteq> i" | "k \<in> set (dependents ! i)" "deg' ! k = 0"
        using R(3,5) r1s(1) by auto
      then show "k \<in> available n D (order @ [i])"
      proof cases
        case 1
        then show ?thesis using I(4) by (auto simp: available_def)
      next
        case 2
        then show ?thesis using dep zero notin [of k] by (auto simp: available_def)
      qed
    qed
    show "available n D (order @ [i]) \<subseteq> set ready'"
    proof
      fix k assume k: "k \<in> available n D (order @ [i])"
      show "k \<in> set ready'"
      proof (cases "i \<in> set (D k)")
        case True
        then show ?thesis using k R(3,5) dep zero by (auto simp: available_def)
      next
        case False
        then have "k \<in> available n D order" "k \<noteq> i" using k by (auto simp: available_def)
        then show ?thesis using R(3) r1s(1) I(4) by simp
      qed
    qed
  qed
  moreover have "distinct ready'"
  proof -
    have "k \<notin> set (dependents ! i)" if "k \<in> set ready1" for k
      using that r1s(1) I(4) dep notin [of k] by (auto simp: available_def)
    then show ?thesis using R(3,4,5) r1s(2) by auto
  qed
  moreover have "greedy n D (order @ [i])"
    using greedy_snoc [OF I(2)] i I(4) by simp
  ultimately show ?thesis using R(1) deg' by (simp add: sched_inv_def)
qed

lemma schedule_inv:
  "schedule dependents deg ready order = (order', deg') \<Longrightarrow> graph_ok n D dependents \<Longrightarrow>
     sched_inv n D deg ready order \<Longrightarrow> sched_inv n D deg' [] order'"
proof (induction dependents deg ready order rule: schedule.induct)
  case (1 dependents deg ready order)
  show ?case
  proof (cases "heap_pop ready")
    case None
    then have "ready = []" using int_heap.pop_None [of ready] by simp
    then show ?thesis using 1(2,4) None by (simp add: schedule.simps [of dependents deg])
  next
    case (Some ir)
    obtain i ready1 where p: "heap_pop ready = Some (i, ready1)" using Some by (cases ir) simp
    obtain d2 r2 where r: "relax (dependents ! i) deg ready1 = (d2, r2)" by (cases "relax (dependents ! i) deg ready1")
    have s: "schedule dependents d2 r2 (order @ [i]) = (order', deg')"
      using 1(2) by (simp add: schedule.simps [of dependents deg] p r)
    show ?thesis
      by (rule "1.IH" [OF p refl r [symmetric] s 1(3) sched_step [OF 1(4,3) p r]])
  qed
qed


subsection \<open>The canonical order\<close>

definition dep_positions :: "node list \<Rightarrow> nat \<Rightarrow> nat list" where
  "dep_positions ns i = map (the \<circ> node_index ns) (n_depends_on (ns ! i))"

definition deps_known :: "node list \<Rightarrow> bool" where
  "deps_known ns \<longleftrightarrow> (\<forall>n \<in> set ns. set (n_depends_on n) \<subseteq> n_id ` set ns)"

definition depends :: "node list \<Rightarrow> (node_id \<times> node_id) set" where
  "depends ns = {(d, n_id n) |d n. n \<in> set ns \<and> d \<in> set (n_depends_on n)}"

lemma build_graph_ok:
  assumes "build_graph (node_index ns) 0 ns (replicate (length ns) 0, replicate (length ns) []) = Inr (deg, dep)"
  shows "deps_known ns" and "graph_ok (length ns) (dep_positions ns) dep"
    and "sched_inv (length ns) (dep_positions ns) deg (filter (\<lambda>i. deg ! i = 0) [0..<length ns]) []"
proof -
  let ?n = "length ns"
  have pre: "\<forall>d j. node_index ns d = Some j \<longrightarrow> j < length (replicate ?n ([] :: nat list))"
    using node_index_Some by auto
  note b = build_graph_Inr [OF assms _ pre]
  have b': "\<forall>n \<in> set ns. \<forall>d \<in> set (n_depends_on n). node_index ns d \<noteq> None" "length deg = ?n"
    "\<forall>k < ?n. deg ! k = int (length (n_depends_on (ns ! k)))"
    "\<forall>j < ?n. \<forall>k. count_list (dep ! j) k = (if k < ?n then count_list (dep_positions ns k) j else 0)"
    using b by (auto simp: dep_positions_def)
  show "deps_known ns" using b'(1) node_index_known by (auto simp: deps_known_def simp del: not_None_eq)
  have lt: "d < ?n" if i: "i < ?n" and d: "d \<in> set (dep_positions ns i)" for i d
  proof -
    obtain x where x: "x \<in> set (n_depends_on (ns ! i))" "d = the (node_index ns x)"
      using d by (auto simp: dep_positions_def)
    moreover obtain j where "node_index ns x = Some j" using b'(1) i x(1) by fastforce
    ultimately show ?thesis using node_index_Some x(2) by simp
  qed
  then show "graph_ok ?n (dep_positions ns) dep" using b'(4) by (simp add: graph_ok_def)
  have z: "deg ! i = 0 \<longleftrightarrow> dep_positions ns i = []" if "i < ?n" for i
    using b'(3) that by (simp add: dep_positions_def)
  show "sched_inv ?n (dep_positions ns) deg (filter (\<lambda>i. deg ! i = 0) [0..<?n]) []"
    using b'(2,3) z by (auto simp: sched_inv_def greedy_def available_def dep_positions_def)
qed

lemma greedy_distinct: "greedy n D order \<Longrightarrow> distinct order"
proof -
  assume g: "greedy n D order"
  have "order ! i \<noteq> order ! j" if "i < j" "j < length order" for i j
  proof
    assume eq: "order ! i = order ! j"
    have "order ! i = take j order ! i" "i < length (take j order)" using that by simp_all
    then have "order ! j \<in> set (take j order)" using eq by (metis nth_mem)
    then show False using g that(2) by (auto simp: greedy_def available_def)
  qed
  then show ?thesis by (metis distinct_conv_nth nat_neq_iff)
qed

lemma wf_positions:
  assumes "\<And>d x. (d, x) \<in> R \<Longrightarrow> \<exists>k < length ord. ord ! k = x \<and> d \<in> set (take k ord)" "distinct ord"
  shows "wf R"
proof -
  let ?pos = "\<lambda>x. length (takeWhile (\<lambda>y. y \<noteq> x) ord)"
  have pos: "?pos (ord ! k) = k" if "k < length ord" for k
  proof -
    have "takeWhile (\<lambda>y. y \<noteq> ord ! k) ord = take k ord"
      by (rule takeWhile_eq_take_P_nth) (use assms(2) that in \<open>auto simp: nth_eq_iff_index_eq\<close>)
    then show ?thesis using that by simp
  qed
  have "R \<subseteq> measure ?pos"
  proof
    fix e assume "e \<in> R"
    then obtain d x k where e: "e = (d, x)" "k < length ord" "ord ! k = x" "d \<in> set (take k ord)"
      using assms(1) by (cases e) blast
    then obtain j where "j < k" "ord ! j = d" by (auto simp: in_set_conv_nth)
    then show "e \<in> measure ?pos" using pos e by fastforce
  qed
  then show ?thesis using wf_subset [OF wf_measure] by blast
qed

text \<open>The order over positions: complete exactly when the graph has no cycle.\<close>

lemma greedy_complete:
  assumes g: "greedy n D order" and none: "available n D order = {}"
    and lt: "\<And>i d. i < n \<Longrightarrow> d \<in> set (D i) \<Longrightarrow> d < n"
  shows "length order = n \<longleftrightarrow> acyclic {(d, i). i < n \<and> d \<in> set (D i)}" (is "_ \<longleftrightarrow> acyclic ?R")
proof -
  have sub: "set order \<subseteq> {..<n}" using greedy_closed [OF g] by blast
  have card: "length order = n \<longleftrightarrow> set order = {..<n}"
    using sub distinct_card [OF greedy_distinct [OF g]] card_subset_eq [OF finite_lessThan sub] by auto
  have fin: "finite ?R" by (rule finite_subset [of _ "{..<n} \<times> {..<n}"]) (use lt in auto)
  show ?thesis
  proof
    assume "length order = n"
    then have full: "set order = {..<n}" using card by blast
    have "wf ?R"
    proof (rule wf_positions [OF _ greedy_distinct [OF g]])
      fix d x assume "(d, x) \<in> ?R"
      then have x: "x \<in> set order" "d \<in> set (D x)" using full by auto
      then obtain k where k: "k < length order" "order ! k = x" by (metis in_set_conv_nth)
      then have "x \<in> available n D (take k order)" using g by (auto simp: greedy_def)
      then have "d \<in> set (take k order)" using x(2) by (auto simp: available_def)
      then show "\<exists>k < length order. order ! k = x \<and> d \<in> set (take k order)" using k by blast
    qed
    then show "acyclic ?R" by (rule wf_acyclic)
  next
    assume "acyclic ?R"
    then have wf: "wf ?R" using fin finite_acyclic_wf by blast
    have "{..<n} - set order = {}"
    proof (rule ccontr)
      assume "{..<n} - set order \<noteq> {}"
      then obtain z0 where "z0 \<in> {..<n} - set order" by blast
      then obtain z where z: "z \<in> {..<n} - set order" "\<And>y. (y, z) \<in> ?R \<Longrightarrow> y \<notin> {..<n} - set order"
        by (rule wfE_min [OF wf]) blast
      then have "set (D z) \<subseteq> set order" using lt by fastforce
      then show False using z(1) none by (auto simp: available_def)
    qed
    then show "length order = n" using card sub by blast
  qed
qed


definition canonical_order :: "node list \<Rightarrow> node_id list \<Rightarrow> bool" where
  "canonical_order ns ord \<longleftrightarrow> distinct ord \<and> set ord = n_id ` set ns \<and>
     (\<forall>k < length ord. \<exists>i < length ns. ord ! k = n_id (ns ! i) \<and>
        set (n_depends_on (ns ! i)) \<subseteq> set (take k ord) \<and>
        (\<forall>i' < i. n_id (ns ! i') \<in> set (take k ord) \<or>
           \<not> set (n_depends_on (ns ! i')) \<subseteq> set (take k ord)))"

lemma depends_on_image:
  assumes "deps_known ns" "i < length ns"
  shows "set (n_depends_on (ns ! i)) = (\<lambda>j. n_id (ns ! j)) ` set (dep_positions ns i)"
proof -
  have "n_id (ns ! the (node_index ns d)) = d" if "d \<in> set (n_depends_on (ns ! i))" for d
  proof -
    have "d \<in> n_id ` set ns" using assms that nth_mem by (fastforce simp: deps_known_def)
    then obtain j where "node_index ns d = Some j" using node_index_known by blast
    then show ?thesis using node_index_Some by simp
  qed
  then show ?thesis by (force simp: dep_positions_def image_iff)
qed

lemma canonical_order_positions:
  assumes "distinct (map n_id ns)" "deps_known ns" "greedy (length ns) (dep_positions ns) order"
    and "set order = {..<length ns}" and lt: "\<And>i d. i < length ns \<Longrightarrow> d \<in> set (dep_positions ns i) \<Longrightarrow> d < length ns"
  shows "canonical_order ns (map (\<lambda>i. n_id (ns ! i)) order)"
proof -
  let ?f = "\<lambda>i. n_id (ns ! i)"
  have inj: "inj_on ?f {..<length ns}"
    using assms(1) by (auto simp: inj_on_def distinct_map dest: nth_eq_iff_index_eq)
  have mem: "?f i \<in> ?f ` B \<longleftrightarrow> i \<in> B" if "i < length ns" "B \<subseteq> {..<length ns}" for i B
    using inj_on_image_mem_iff [OF inj _ that(2)] that(1) by simp
  have sub: "?f ` A \<subseteq> ?f ` B \<longleftrightarrow> A \<subseteq> B" if "A \<subseteq> {..<length ns}" "B \<subseteq> {..<length ns}" for A B
    unfolding image_subset_iff using mem that by (meson lessThan_iff subsetD subsetI)
  have tk: "set (take k (map ?f order)) = ?f ` set (take k order)" "set (take k order) \<subseteq> {..<length ns}" for k
    using assms(4) set_take_subset [of k order] by (auto simp: take_map)
  have deps: "set (n_depends_on (ns ! i)) \<subseteq> ?f ` B \<longleftrightarrow> set (dep_positions ns i) \<subseteq> B"
    if "i < length ns" "B \<subseteq> {..<length ns}" for i B
    unfolding depends_on_image [OF assms(2) that(1)] by (rule sub) (use that lt in auto)
  have "?f ` {..<length ns} = n_id ` set ns"
    by (auto simp: set_conv_nth image_iff)
  moreover have "distinct (map ?f order)"
    using greedy_distinct [OF assms(3)] inj assms(4) by (simp add: distinct_map)
  moreover have "\<exists>i < length ns. map ?f order ! k = ?f i \<and>
      set (n_depends_on (ns ! i)) \<subseteq> set (take k (map ?f order)) \<and>
      (\<forall>i' < i. ?f i' \<in> set (take k (map ?f order)) \<or>
         \<not> set (n_depends_on (ns ! i')) \<subseteq> set (take k (map ?f order)))" if "k < length order" for k
  proof -
    let ?i = "order ! k" and ?T = "set (take k order)"
    have a: "?i \<in> available (length ns) (dep_positions ns) (take k order)"
      "\<forall>i \<in> available (length ns) (dep_positions ns) (take k order). ?i \<le> i"
      using assms(3) that by (auto simp: greedy_def)
    then have i: "?i < length ns" "set (dep_positions ns ?i) \<subseteq> ?T" by (simp_all add: available_def)
    have "i' \<in> ?T \<or> \<not> set (dep_positions ns i') \<subseteq> ?T" if "i' < ?i" for i'
    proof (rule ccontr)
      assume "\<not> (i' \<in> ?T \<or> \<not> set (dep_positions ns i') \<subseteq> ?T)"
      then have "i' \<in> available (length ns) (dep_positions ns) (take k order)"
        using that i(1) by (simp add: available_def)
      then show False using a(2) that by fastforce
    qed
    then have "?f i' \<in> ?f ` ?T \<or> \<not> set (n_depends_on (ns ! i')) \<subseteq> ?f ` ?T" if "i' < ?i" for i'
      using that i(1) deps [OF _ tk(2)] mem [OF _ tk(2)] by (metis order.strict_trans)
    moreover have "set (n_depends_on (ns ! ?i)) \<subseteq> ?f ` ?T" using deps [OF i(1) tk(2)] i(2) by blast
    ultimately show ?thesis using i(1) that unfolding tk(1) by (intro exI [of _ ?i]) simp
  qed
  ultimately show ?thesis using assms(4) by (simp add: canonical_order_def)
qed

lemma canonical_order_acyclic:
  assumes "distinct (map n_id ns)" "canonical_order ns ord" shows "acyclic (depends ns)"
proof -
  have "wf (depends ns)"
  proof (rule wf_positions [where ord = ord])
    fix d x assume "(d, x) \<in> depends ns"
    then obtain n where n: "n \<in> set ns" "x = n_id n" "d \<in> set (n_depends_on n)"
      by (auto simp: depends_def)
    then have "x \<in> set ord" using assms(2) by (simp add: canonical_order_def)
    then obtain k where k: "k < length ord" "ord ! k = x" by (metis in_set_conv_nth)
    then obtain i where i: "i < length ns" "x = n_id (ns ! i)" "set (n_depends_on (ns ! i)) \<subseteq> set (take k ord)"
      using assms(2) by (auto simp: canonical_order_def)
    have "inj_on n_id (set ns)" using assms(1) by (simp add: distinct_map)
    then have "ns ! i = n" using n(1,2) i(1,2) by (metis inj_onD nth_mem)
    then show "\<exists>k < length ord. ord ! k = x \<and> d \<in> set (take k ord)" using i(3) n(3) k by blast
  qed (use assms(2) in \<open>simp add: canonical_order_def\<close>)
  then show ?thesis by (rule wf_acyclic)
qed

lemma finite_depends: "finite (depends ns)"
proof -
  have "depends ns \<subseteq> (\<Union>n \<in> set ns. set (n_depends_on n) \<times> {n_id n})" by (auto simp: depends_def)
  then show ?thesis by (rule finite_subset) simp
qed

lemma acyclic_positions:
  assumes "acyclic (depends ns)" "deps_known ns"
  shows "acyclic {(d, i). i < length ns \<and> d \<in> set (dep_positions ns i)}"
proof -
  let ?f = "\<lambda>i. n_id (ns ! i)"
  have "wf (depends ns)" using assms(1) finite_depends finite_acyclic_wf by blast
  then have "wf (inv_image (depends ns) ?f)" by simp
  moreover have "{(d, i). i < length ns \<and> d \<in> set (dep_positions ns i)} \<subseteq> inv_image (depends ns) ?f"
  proof clarify
    fix d i assume "i < length ns" "d \<in> set (dep_positions ns i)"
    then have "?f d \<in> set (n_depends_on (ns ! i))" "ns ! i \<in> set ns"
      using depends_on_image [OF assms(2)] by simp_all
    then show "(d, i) \<in> inv_image (depends ns) ?f" by (auto simp: depends_def)
  qed
  ultimately show ?thesis using wf_subset wf_acyclic by blast
qed

lemma TopologicalOrder_cases:
  assumes "distinct (map n_id (p_nodes p))"
  shows "case TopologicalOrder p of
     Inr ord \<Rightarrow> canonical_order (p_nodes p) ord \<and> deps_known (p_nodes p) \<and> acyclic (depends (p_nodes p))
   | Inl e \<Rightarrow> \<not> (deps_known (p_nodes p) \<and> acyclic (depends (p_nodes p)))"
proof -
  let ?ns = "p_nodes p" and ?n = "length (p_nodes p)"
  let ?b = "build_graph (node_index ?ns) 0 ?ns (replicate ?n 0, replicate ?n [])"
  show ?thesis
  proof (cases ?b)
    case (Inl e)
    have "\<not> deps_known ?ns"
    proof
      assume "deps_known ?ns"
      then have "\<forall>n \<in> set ?ns. \<forall>d \<in> set (n_depends_on n). node_index ?ns d \<noteq> None"
        using node_index_known [of ?ns] unfolding deps_known_def by blast
      from build_graph_total [OF this] Inl show False by (metis Inr_not_Inl)
    qed
    then show ?thesis using Inl by (simp add: TopologicalOrder_def Let_def)
  next
    case (Inr g)
    obtain deg dep where g: "?b = Inr (deg, dep)" using Inr by (cases g) simp
    note ok = build_graph_ok [OF g]
    obtain order deg' where s:
      "schedule dep deg (filter (\<lambda>i. deg ! i = 0) [0..<?n]) [] = (order, deg')" by (metis prod.exhaust)
    have inv: "sched_inv ?n (dep_positions ?ns) deg' [] order"
      by (rule schedule_inv [OF s ok(2,3)])
    then have gr: "greedy ?n (dep_positions ?ns) order" "available ?n (dep_positions ?ns) order = {}"
      by (simp_all add: sched_inv_def)
    have lt: "\<And>i d. i < ?n \<Longrightarrow> d \<in> set (dep_positions ?ns i) \<Longrightarrow> d < ?n"
      using ok(2) by (simp add: graph_ok_def)
    have len: "length order = ?n \<longleftrightarrow> acyclic {(d, i). i < ?n \<and> d \<in> set (dep_positions ?ns i)}"
      by (rule greedy_complete [OF gr lt])
    have t: "TopologicalOrder p = (if length order \<noteq> ?n then Inl (Detailf ErrInvalidPlan)
        else Inr (map (\<lambda>i. n_id (?ns ! i)) order))"
      unfolding TopologicalOrder_def Let_def g rbind_simps case_prod_conv s by (rule refl)
    show ?thesis
    proof (cases "length order = ?n")
      case True
      have "set order \<subseteq> {..<?n}" using greedy_closed [OF gr(1)] by blast
      then have "set order = {..<?n}"
        using True distinct_card [OF greedy_distinct [OF gr(1)]] by (intro card_subset_eq) auto
      then have "canonical_order ?ns (map (\<lambda>i. n_id (?ns ! i)) order)"
        by (intro canonical_order_positions [OF assms ok(1) gr(1) _ lt])
      then show ?thesis using True ok(1) canonical_order_acyclic [OF assms] by (simp add: t)
    next
      case False
      then show ?thesis using len acyclic_positions ok(1) by (auto simp: t)
    qed
  qed
qed


text \<open>
  C17. Topological order: on a graph with distinct node ids the scheduler either returns the
  canonical order (every node once, every dependency earlier, and at each step the ready node that
  comes first in the file) or an error, and it returns the error exactly when a dependency is
  unknown or the graph has a cycle.
\<close>
theorem TopologicalOrder_correct:
  assumes "distinct (map n_id (p_nodes p))"
  shows "case TopologicalOrder p of
     Inr ord \<Rightarrow> canonical_order (p_nodes p) ord \<and> deps_known (p_nodes p) \<and> acyclic (depends (p_nodes p))
   | Inl e \<Rightarrow> \<not> (deps_known (p_nodes p) \<and> acyclic (depends (p_nodes p)))"
  using assms by (rule TopologicalOrder_cases)

definition wait_node :: "node_id \<Rightarrow> node_id list \<Rightarrow> node" where
  "wait_node i ds = \<lparr>n_id = i, n_kind = KindWait,
     n_params = Some (WaitParams \<lparr>wait_seconds = 1, wait_reason = []\<rparr>),
     n_depends_on = ds, n_rendered_sql = [], n_estimated_seconds = 0, n_authorization = None\<rparr>"

definition sample_plan :: plan where
  "sample_plan = \<lparr>p_format_version = 2, p_plan_id = ''p'', p_operation = OpDropIndex,
     p_target = \<lparr>tgt_database = [], tgt_table = NewObjectName [] ''t'', tgt_index = None\<rparr>,
     p_created_at = 0,
     p_confirmations = [\<lparr>conf_flag = ConfirmExclusiveLock, conf_actor = [], conf_at = 0, conf_note = []\<rparr>],
     p_nodes = [sample_drop\<lparr>n_depends_on := [''b'']\<rparr>, wait_node ''b'' []],
     p_topology_fingerprint = ''sha256:00'', p_topology = None, p_digest = []\<rparr>"

lemma sample_plan_order: "TopologicalOrder sample_plan = Inr [''b'', ''d'']"
  by code_simp

theorem TopologicalOrder_correct_witness:
  "canonical_order (p_nodes sample_plan) [''b'', ''d'']"
proof -
  have "distinct (map n_id (p_nodes sample_plan))"
    by (simp add: sample_plan_def sample_drop_def wait_node_def)
  from TopologicalOrder_correct [OF this] show ?thesis by (simp add: sample_plan_order)
qed

subsection \<open>Valid plans\<close>

lemma check_nodes_Inr:
  "check_nodes byID c ns = Inr (b, c') \<Longrightarrow>
     (\<forall>n \<in> set ns. node_Validate n = None) \<and> distinct (map n_id ns) \<and> n_id ` set ns \<inter> byID = {} \<and>
     b = byID \<union> n_id ` set ns \<and> c' = c + length (filter (\<lambda>n. n_kind n = KindIndexDropPartitioned) ns)"
proof (induction byID c ns rule: check_nodes.induct)
  case (2 byID c n ns)
  then have "node_Validate n = None" "n_id n \<notin> byID"
    by (auto simp: rcheck_Inr split: if_splits)
  then show ?case using "2.IH" "2.prems" by (auto split: if_splits)
qed simp

lemma plan_Validate_None:
  assumes "plan_Validate p = None"
  obtains c where "check_nodes {} 0 (p_nodes p) = Inr (n_id ` set (p_nodes p), c)" "c \<le> 1"
    "c = 1 \<longrightarrow> Confirmed p ConfirmExclusiveLock" "\<exists>ord. TopologicalOrder p = Inr ord"
    "p_nodes p \<noteq> []" "CheckFormatVersion (p_format_version p) = None"
    "has_prefix (p_topology_fingerprint p) FingerprintPrefix"
proof (cases "check_nodes {} 0 (p_nodes p)")
  case (Inl e)
  then show ?thesis using assms by (simp add: plan_Validate_def then_check_None)
next
  case (Inr bc)
  then obtain b c where bc: "check_nodes {} 0 (p_nodes p) = Inr (b, c)" by (cases bc) simp
  then have "b = n_id ` set (p_nodes p)" using check_nodes_Inr [OF bc] by simp
  then show ?thesis using that [of c] bc assms
    by (auto simp: plan_Validate_def then_check_None split: if_splits sum.splits)
qed

lemma confirmed_in_iff: "confirmed_in cs flag \<longleftrightarrow> (\<exists>c \<in> set cs. conf_flag c = flag)"
  by (induction cs) auto

text \<open>
  C16. What validation establishes: a valid plan has valid nodes with distinct ids, an acyclic
  graph over known nodes, hence a canonical order; every destructive node carries an authorization;
  and it holds at most one partitioned drop, which its confirmations acknowledge.
\<close>
theorem plan_Validate_sound:
  assumes "plan_Validate p = None"
  shows "distinct (map n_id (p_nodes p)) \<and> (\<forall>n \<in> set (p_nodes p). node_Validate n = None) \<and>
    (\<forall>n \<in> set (p_nodes p). IsDestructive (n_kind n) \<longleftrightarrow> n_authorization n \<noteq> None) \<and>
    acyclic (depends (p_nodes p)) \<and> deps_known (p_nodes p) \<and>
    (\<exists>ord. TopologicalOrder p = Inr ord \<and> canonical_order (p_nodes p) ord) \<and>
    length (filter (\<lambda>n. n_kind n = KindIndexDropPartitioned) (p_nodes p)) \<le> 1 \<and>
    ((\<exists>n \<in> set (p_nodes p). n_kind n = KindIndexDropPartitioned) \<longrightarrow>
       (\<exists>c \<in> set (p_confirmations p). conf_flag c = ConfirmExclusiveLock))"
proof (rule plan_Validate_None [OF assms])
  fix c assume h: "check_nodes {} 0 (p_nodes p) = Inr (n_id ` set (p_nodes p), c)" "c \<le> 1"
    "c = 1 \<longrightarrow> Confirmed p ConfirmExclusiveLock" "\<exists>ord. TopologicalOrder p = Inr ord"
  have n: "\<forall>n \<in> set (p_nodes p). node_Validate n = None" "distinct (map n_id (p_nodes p))"
    "c = length (filter (\<lambda>n. n_kind n = KindIndexDropPartitioned) (p_nodes p))"
    using check_nodes_Inr [OF h(1)] by simp_all
  have "c = 1" if "\<exists>n \<in> set (p_nodes p). n_kind n = KindIndexDropPartitioned"
  proof -
    have "filter (\<lambda>n. n_kind n = KindIndexDropPartitioned) (p_nodes p) \<noteq> []"
      using that by (simp add: filter_empty_conv)
    then show ?thesis using h(2) n(3) by (cases c) simp_all
  qed
  moreover have "\<forall>n \<in> set (p_nodes p). IsDestructive (n_kind n) \<longleftrightarrow> n_authorization n \<noteq> None"
    using n(1) by (simp add: node_Validate_None)
  moreover obtain ord where "TopologicalOrder p = Inr ord" using h(4) by blast
  ultimately show ?thesis
    using n h(2,3) TopologicalOrder_cases [OF n(2)] by (auto simp: Confirmed_def confirmed_in_iff)
qed

lemma sample_plan_valid: "plan_Validate sample_plan = None"
  by code_simp

theorem plan_Validate_sound_witness: "acyclic (depends (p_nodes sample_plan))"
  using plan_Validate_sound [OF sample_plan_valid] by blast

text \<open>
  Drift detection: the topology check passes exactly when the live fingerprint can be computed
  and equals the recorded one, and every other outcome is an error; a mismatch, or a missing
  fingerprint, has the exit code of topology drift.
\<close>
theorem VerifyTopology_exact:
  "(VerifyTopology p live = None \<longleftrightarrow>
      p_topology_fingerprint p \<noteq> [] \<and> Fingerprint live = Inr (p_topology_fingerprint p)) \<and>
   (case Fingerprint live of
      Inr f \<Rightarrow> f = p_topology_fingerprint p \<or> ExitCodeFor (VerifyTopology p live) = ExitTopologyDrift
    | Inl e \<Rightarrow> p_topology_fingerprint p = [] \<or> VerifyTopology p live = Some e)"
  by (auto simp: VerifyTopology_def ErrTopologyDrift_def ExitCodeFor_def split: sum.splits)

end
