(* ===== verification/Digest.thy ===== *)
theory Digest
  imports Plan
begin

text \<open>
  engine/protocol/digest.go and the JSON form of a plan (the struct tags of plan.go, node.go,
  params.go, authorization.go, types.go): the canonical body, the digest, sealing and verification.
  An empty slice is written as the empty array.
\<close>

subsection \<open>Timestamps (types.go)\<close>

definition pad_dec :: "nat \<Rightarrow> nat \<Rightarrow> string" where
  "pad_dec w n = (let s = dec_nat n in replicate (w - length s) (CHR ''0'') @ s)"

text \<open>The civil date of a day number counted from 1970-01-01, in the proleptic Gregorian calendar.\<close>

definition civil_date :: "int \<Rightarrow> int \<times> int \<times> int" where
  "civil_date days =
     (let z = days + 719468;
          era = z div 146097; doe = z mod 146097;
          yoe = (doe - doe div 1460 + doe div 36524 - doe div 146096) div 365;
          doy = doe - (365 * yoe + yoe div 4 - yoe div 100);
          mp = (5 * doy + 2) div 153;
          d = doy - (153 * mp + 2) div 5 + 1;
          m = (if mp < 10 then mp + 3 else mp - 9);
          y = yoe + era * 400 + (if m \<le> 2 then 1 else 0)
      in (y, m, d))"

definition fraction_text :: "nat \<Rightarrow> string" where
  "fraction_text nanos = (if nanos = 0 then [] else ''.'' @ trim_right (\<lambda>c. c = CHR ''0'') (pad_dec 9 nanos))"

text \<open>The date and time of an instant in UTC, given in seconds.\<close>

definition utc_text :: "int \<Rightarrow> string" where
  "utc_text secs =
     (let days = secs div 86400; s = nat (secs mod 86400);
          (y, m, d) = civil_date days
      in (if y < 0 then ''-'' else []) @ pad_dec 4 (nat \<bar>y\<bar>) @ ''-'' @ pad_dec 2 (nat m) @ ''-''
         @ pad_dec 2 (nat d) @ ''T'' @ pad_dec 2 (s div 3600) @ '':'' @ pad_dec 2 (s div 60 mod 60)
         @ '':'' @ pad_dec 2 (s mod 60))"

text \<open>\<open>Canonical\<close>: RFC 3339 with nanoseconds, in UTC.\<close>

definition ts_Canonical :: "timestamp \<Rightarrow> string" where
  "ts_Canonical t = utc_text (t div 1000000000) @ fraction_text (nat (t mod 1000000000)) @ ''Z''"

subsection \<open>The JSON of a plan\<close>

definition object_json :: "object_name \<Rightarrow> json" where
  "object_json o1 = JObj (omitempty (obj_schema o1 = []) ''schema'' (JStr (obj_schema o1))
     @ [(''name'', JStr (obj_name o1))])"

definition omitnil :: "string \<Rightarrow> ('a \<Rightarrow> json) \<Rightarrow> 'a option \<Rightarrow> (string \<times> json) list" where
  "omitnil k f x = (case x of None \<Rightarrow> [] | Some v \<Rightarrow> [(k, f v)])"

definition omitstr :: "string \<Rightarrow> string \<Rightarrow> (string \<times> json) list" where
  "omitstr k s = omitempty (s = []) k (JStr s)"

definition omitint :: "string \<Rightarrow> int \<Rightarrow> (string \<times> json) list" where
  "omitint k i = omitempty (i = 0) k (JInt i)"

definition omitbool :: "string \<Rightarrow> bool \<Rightarrow> (string \<times> json) list" where
  "omitbool k b = omitempty (\<not> b) k (JBool b)"

definition omitstrs :: "string \<Rightarrow> string list \<Rightarrow> (string \<times> json) list" where
  "omitstrs k ss = omitempty (ss = []) k (JArr (map JStr ss))"

definition column_json :: "index_column \<Rightarrow> json" where
  "column_json c = JObj (omitstr ''name'' (col_name c) @ omitstr ''expression'' (col_expression c)
     @ omitstr ''collation'' (col_collation c) @ omitstr ''opclass'' (col_opclass c)
     @ omitbool ''descending'' (col_descending c) @ omitnil ''nulls_first'' JBool (col_nulls_first c))"

definition definition_json :: "index_definition \<Rightarrow> json" where
  "definition_json d = JObj (omitstr ''method'' (def_method d)
     @ [(''columns'', JArr (map column_json (def_columns d)))]
     @ omitbool ''unique'' (def_unique d) @ omitstrs ''include'' (def_include d)
     @ omitstr ''where'' (def_where d) @ omitstr ''tablespace'' (def_tablespace d)
     @ omitempty (def_storage_params d = []) ''storage_params''
         (JObj (map (\<lambda>(k, v). (k, JStr v)) (def_storage_params d))))"

fun mode_String :: "authorization_mode \<Rightarrow> string" where
  "mode_String AuthProvenance = ''provenance''"
| "mode_String AuthLeftover = ''leftover''"
| "mode_String AuthExplicit = ''explicit''"
| "mode_String (UnknownMode s) = s"

definition authorization_json :: "authorization \<Rightarrow> json" where
  "authorization_json a = JObj ([(''mode'', JStr (mode_String (auth_mode a))),
       (''object'', object_json (auth_object a))]
     @ omitnil ''relation'' object_json (auth_relation a)
     @ omitstr ''required_confirmation'' (auth_required_confirmation a)
     @ omitstr ''note'' (auth_note a))"

fun assertion_String :: "assertion_kind \<Rightarrow> string" where
  "assertion_String AssertRelationIsPartitioned = ''relation_is_partitioned''"
| "assertion_String AssertPartitionStrategy = ''partition_strategy''"
| "assertion_String AssertPartitionDepth = ''partition_depth''"
| "assertion_String AssertNoDefaultPartition = ''no_default_partition''"
| "assertion_String AssertRoleMembership = ''role_membership''"
| "assertion_String AssertIndexNameAvailable = ''index_name_available''"
| "assertion_String AssertIndexExists = ''index_exists''"
| "assertion_String AssertIndexIsPartitioned = ''index_is_partitioned''"
| "assertion_String AssertIndexNotConstraintBacked = ''index_not_constraint_backed''"
| "assertion_String AssertLeavesAttached = ''leaves_attached''"
| "assertion_String (UnknownAssertion s) = s"

definition assertion_json :: "assertion \<Rightarrow> json" where
  "assertion_json a = JObj ([(''assertion'', JStr (assertion_String (asrt_kind a)))]
     @ omitnil ''relation'' object_json (asrt_relation a) @ omitnil ''index'' object_json (asrt_index a)
     @ omitstr ''role'' (asrt_role a) @ omitstrs ''expected'' (asrt_expected a)
     @ omitint ''failure_code'' (asrt_failure_code a) @ omitstr ''message'' (asrt_message a))"

fun check_String :: "verify_check_kind \<Rightarrow> string" where
  "check_String CheckIndexValid = ''index_valid''"
| "check_String CheckIndexAttached = ''index_attached''"
| "check_String CheckParentIndexValid = ''parent_index_valid''"
| "check_String CheckLeafIndexCount = ''leaf_index_count''"
| "check_String CheckIndexAbsent = ''index_absent''"
| "check_String CheckNoLeftoverIndexes = ''no_leftover_indexes''"
| "check_String (UnknownCheck s) = s"

definition check_json :: "verify_check \<Rightarrow> json" where
  "check_json c = JObj ([(''check'', JStr (check_String (vc_check c)))]
     @ omitnil ''index'' object_json (vc_index c) @ omitnil ''parent_index'' object_json (vc_parent_index c)
     @ omitnil ''relation'' object_json (vc_relation c) @ omitnil ''expected_count'' JInt (vc_expected_count c)
     @ omitstr ''message'' (vc_message c))"

fun reason_String :: "drop_reason \<Rightarrow> string" where
  "reason_String DropReasonNone = []"
| "reason_String DropInvalidBuild = ''invalid_build''"
| "reason_String DropCCNew = ''cc_new''"
| "reason_String DropCCOld = ''cc_old''"
| "reason_String DropUnattachedOrphan = ''unattached_orphan''"
| "reason_String (UnknownDropReason s) = s"

fun params_json :: "node_params \<Rightarrow> json" where
  "params_json (CatalogAssertParams as) = JObj [(''assertions'', JArr (map assertion_json as))]"
| "params_json (CreateParentInvalidParams p) = JObj [(''parent'', object_json (cpi_parent p)),
     (''index'', object_json (cpi_index p)), (''definition'', definition_json (cpi_definition p))]"
| "params_json (CreateConcurrentlyParams p) = JObj ([(''partition'', object_json (ccp_partition p)),
     (''index'', object_json (ccp_index p)), (''definition'', definition_json (ccp_definition p))]
     @ omitnil ''parent_index'' object_json (ccp_parent_index p))"
| "params_json (AttachParams p) = JObj [(''parent_index'', object_json (att_parent_index p)),
     (''child_index'', object_json (att_child_index p))]"
| "params_json (VerifyParams cs) = JObj [(''checks'', JArr (map check_json cs))]"
| "params_json (WaitParams p) = JObj ([(''seconds'', JInt (wait_seconds p))]
     @ omitstr ''reason'' (wait_reason p))"
| "params_json (DropConcurrentlyParams p) = JObj ([(''index'', object_json (dcp_index p))]
     @ omitnil ''relation'' object_json (dcp_relation p) @ omitstr ''reason'' (reason_String (dcp_reason p)))"
| "params_json (ReindexConcurrentlyParams p) = JObj ([(''index'', object_json (rcp_index p))]
     @ omitnil ''relation'' object_json (rcp_relation p)
     @ omitnil ''parent_index'' object_json (rcp_parent_index p)
     @ omitint ''estimated_peak_bytes'' (rcp_estimated_peak_bytes p))"
| "params_json (DropPartitionedParams p) = JObj ([(''parent'', object_json (dpp_parent p)),
     (''index'', object_json (dpp_index p))] @ omitint ''leaf_count'' (dpp_leaf_count p))"

text \<open>\<open>MarshalJSON\<close> of a node; the kind must match the parameters.\<close>

definition node_json :: "node \<Rightarrow> err + json" where
  "node_json n =
     (let rest = (\<lambda>pj. Inr (JObj ([(''id'', JStr (n_id n)), (''kind'', JStr (kind_String (n_kind n))),
         (''params'', pj)]
         @ omitstrs ''depends_on'' (n_depends_on n) @ omitstr ''rendered_sql'' (n_rendered_sql n)
         @ omitint ''estimated_seconds'' (n_estimated_seconds n)
         @ omitnil ''authorization'' authorization_json (n_authorization n))))
      in case n_params n of
           None \<Rightarrow> rest JNull
         | Some p \<Rightarrow> if params_Kind p \<noteq> n_kind n then Inl (Detailf ErrInvalidPlan) else rest (params_json p))"

definition target_json :: "target \<Rightarrow> json" where
  "target_json t = JObj (omitstr ''database'' (tgt_database t) @ [(''table'', object_json (tgt_table t))]
     @ omitnil ''index'' object_json (tgt_index t))"

definition confirmation_json :: "confirmation \<Rightarrow> json" where
  "confirmation_json c = JObj ([(''flag'', JStr (conf_flag c))] @ omitstr ''actor'' (conf_actor c)
     @ [(''at'', JStr (ts_Canonical (conf_at c)))] @ omitstr ''note'' (conf_note c))"

definition plan_json :: "plan \<Rightarrow> err + json" where
  "plan_json p = rbind (rmap node_json (p_nodes p)) (\<lambda>ns. Inr (JObj (
     [(''format_version'', JInt (p_format_version p)), (''plan_id'', JStr (p_plan_id p)),
      (''operation'', JStr (operation_String (p_operation p))), (''target'', target_json (p_target p)),
      (''created_at'', JStr (ts_Canonical (p_created_at p)))]
     @ omitempty (p_confirmations p = []) ''confirmations'' (JArr (map confirmation_json (p_confirmations p)))
     @ [(''nodes'', JArr ns)]
     @ omitstr ''topology_fingerprint'' (p_topology_fingerprint p)
     @ omitnil ''topology'' topology_json (p_topology p)
     @ omitstr ''digest'' (p_digest p))))"

subsection \<open>Digest (digest.go)\<close>

definition DigestPrefix :: string where "DigestPrefix = ''sha256:''"

text \<open>The digest field is cleared before marshalling; the canonicalizer drops the key as well.\<close>

definition drop_key :: "string \<Rightarrow> json \<Rightarrow> json" where
  "drop_key k v = (case v of JObj kvs \<Rightarrow> JObj (filter (\<lambda>kv. fst kv \<noteq> k) kvs) | _ \<Rightarrow> v)"

definition CanonicalBody :: "plan \<Rightarrow> err + string" where
  "CanonicalBody p =
     (case plan_json (p\<lparr>p_digest := []\<rparr>) of
        Inl e \<Rightarrow> Inl (Detailf ErrInvalidPlan)
      | Inr v \<Rightarrow> writeCanonicalValue 0 (drop_key ''digest'' (decoded v)))"

definition ComputeDigest :: "plan \<Rightarrow> err + string" where
  "ComputeDigest p = rbind (CanonicalBody p) (\<lambda>body. Inr (DigestPrefix @ hex_encode (sha256 body)))"

definition Seal :: "plan \<Rightarrow> err + plan" where
  "Seal p = rbind (ComputeDigest p) (\<lambda>d. Inr (p\<lparr>p_digest := d\<rparr>))"

definition VerifyDigest :: "plan \<Rightarrow> err option" where
  "VerifyDigest p =
     (if p_digest p = [] then Some (Detailf ErrDigestMismatch)
      else (case ComputeDigest p of
        Inl e \<Rightarrow> Some e
      | Inr want \<Rightarrow> if want \<noteq> p_digest p then Some (Detailf ErrDigestMismatch) else None))"

subsection \<open>Sealing and verification\<close>

text \<open>The content of a plan: its JSON value without the digest, members sorted.\<close>

definition plan_content :: "plan \<Rightarrow> err + json" where
  "plan_content p = (case plan_json (p\<lparr>p_digest := []\<rparr>) of Inl e \<Rightarrow> Inl e
     | Inr v \<Rightarrow> Inr (canonical (drop_key ''digest'' (decoded v))))"

lemma CanonicalBody_digest [simp]: "CanonicalBody (p\<lparr>p_digest := d\<rparr>) = CanonicalBody p"
  by (simp add: CanonicalBody_def)

lemma clean_drop_key: "clean v \<Longrightarrow> clean (drop_key k v)"
  by (cases v) (auto simp: drop_key_def list_all_iff)

lemma CanonicalBody_text:
  assumes "CanonicalBody p = Inr b"
  shows "\<exists>v. plan_content p = Inr v \<and> b = text_of v \<and> clean v"
  using assms writeCanonicalValue_Inr clean_canonical [OF clean_drop_key [OF clean_decoded]]
  by (auto simp: CanonicalBody_def plan_content_def split: sum.splits)

lemma CanonicalBody_content:
  assumes "CanonicalBody p = Inr b" "CanonicalBody q = Inr c"
  shows "b = c \<longleftrightarrow> plan_content p = plan_content q"
proof -
  obtain v where v: "plan_content p = Inr v" "b = text_of v" "clean v"
    using CanonicalBody_text [OF assms(1)] by blast
  obtain w where w: "plan_content q = Inr w" "c = text_of w" "clean w"
    using CanonicalBody_text [OF assms(2)] by blast
  have "ends []" by (simp add: ends_def)
  then show ?thesis using text_of_inject [OF v(3) w(3), of "[]" "[]"] v w by auto
qed

lemma ComputeDigest_nonempty: "ComputeDigest p = Inr d \<Longrightarrow> d \<noteq> []"
  by (auto simp: ComputeDigest_def rbind_Inr DigestPrefix_def)

lemma VerifyDigest_None: "VerifyDigest p = None \<longleftrightarrow> ComputeDigest p = Inr (p_digest p)"
  using ComputeDigest_nonempty [of p "[]"] by (auto simp: VerifyDigest_def split: sum.splits)

text \<open>
  Seal then verify: a sealed plan always passes the digest check, and sealing changes nothing
  but the digest field.
\<close>
theorem Seal_VerifyDigest:
  assumes "Seal p = Inr q"
  shows "VerifyDigest q = None \<and> q = p\<lparr>p_digest := p_digest q\<rparr> \<and> plan_content q = plan_content p"
proof -
  obtain d where d: "ComputeDigest p = Inr d" "q = p\<lparr>p_digest := d\<rparr>"
    using assms by (auto simp: Seal_def rbind_Inr)
  then have "ComputeDigest q = Inr d" by (simp add: ComputeDigest_def)
  then show ?thesis using d by (simp add: VerifyDigest_None plan_content_def)
qed


lemma sample_plan_body: "\<exists>b. CanonicalBody sample_plan = Inr b"
proof -
  have "case plan_json (sample_plan\<lparr>p_digest := []\<rparr>) of Inl e \<Rightarrow> False
      | Inr v \<Rightarrow> json_depth (drop_key ''digest'' (decoded v)) \<le> maxCanonicalDepth"
    by code_simp
  then show ?thesis
    using writeCanonicalValue_text [of 0] by (fastforce simp: CanonicalBody_def split: sum.splits)
qed

lemma sample_plan_seals: "\<exists>q. Seal sample_plan = Inr q"
  using sample_plan_body by (auto simp: Seal_def ComputeDigest_def)

theorem Seal_VerifyDigest_witness: "\<exists>q. Seal sample_plan = Inr q \<and> VerifyDigest q = None"
  using sample_plan_seals Seal_VerifyDigest by blast


end
