(* ===== verification/Node_State.thy ===== *)
theory Node_State
  imports Errors
begin

text \<open>
  engine/protocol/nodestate.go: the node lifecycle (D7).  \<open>NodeState\<close> and \<open>TransitionReason\<close> are
  Go string types; values outside the declared constants are kept as \<open>UnknownState\<close> and
  \<open>UnknownReason\<close>.  The step relation \<open>node_step\<close> is the machine the legality test describes,
  and the lemmas characterise the reachable states and the ways back to PENDING.
\<close>

datatype node_state =
    NodePending | NodeReady | NodeRunning | NodeVerifying | NodeDone | NodeFailed
  | NodeRetryWait | NodeSkipped | UnknownState string

datatype transition_reason =
    ReasonNormal | ReasonOrphanRecovery | ReasonResumeRetry | UnknownReason string

definition allNodeStates :: "node_state list" where
  "allNodeStates = [NodePending, NodeReady, NodeRunning, NodeVerifying,
     NodeDone, NodeFailed, NodeRetryWait, NodeSkipped]"

definition InitialNodeState :: node_state where "InitialNodeState = NodePending"

definition state_Valid :: "node_state \<Rightarrow> bool" where
  "state_Valid s = (case s of UnknownState _ \<Rightarrow> False | _ \<Rightarrow> True)"

definition IsTerminal :: "node_state \<Rightarrow> bool" where
  "IsTerminal s = (case s of NodeDone \<Rightarrow> True | NodeFailed \<Rightarrow> True | NodeSkipped \<Rightarrow> True | _ \<Rightarrow> False)"

definition IsComplete :: "node_state \<Rightarrow> bool" where
  "IsComplete s = (case s of NodeDone \<Rightarrow> True | NodeSkipped \<Rightarrow> True | _ \<Rightarrow> False)"

definition reason_Valid :: "transition_reason \<Rightarrow> bool" where
  "reason_Valid r \<longleftrightarrow> r = ReasonNormal \<or> r = ReasonOrphanRecovery \<or> r = ReasonResumeRetry"

text \<open>The transition table; a missing entry reads as false.\<close>

definition nodeTransitions :: "node_state \<Rightarrow> node_state list" where
  "nodeTransitions s = (case s of
     NodePending \<Rightarrow> [NodeReady, NodeSkipped]
   | NodeReady \<Rightarrow> [NodeRunning]
   | NodeRunning \<Rightarrow> [NodeVerifying, NodeFailed, NodeRetryWait]
   | NodeVerifying \<Rightarrow> [NodeDone, NodeFailed]
   | NodeRetryWait \<Rightarrow> [NodeReady, NodeFailed]
   | _ \<Rightarrow> [])"

definition ValidTransition :: "node_state \<Rightarrow> node_state \<Rightarrow> transition_reason \<Rightarrow> bool" where
  "ValidTransition s t r =
     (if \<not> state_Valid s \<or> \<not> state_Valid t \<or> \<not> reason_Valid r then False
      else if s = NodeRunning \<and> t = NodePending then r = ReasonOrphanRecovery
      else if s = NodeFailed \<and> t = NodePending then r = ReasonResumeRetry
      else if r = ReasonOrphanRecovery \<or> r = ReasonResumeRetry then False
      else t \<in> set (nodeTransitions s))"

definition CheckTransition :: "node_state \<Rightarrow> node_state \<Rightarrow> transition_reason \<Rightarrow> err option" where
  "CheckTransition s t r =
     (if ValidTransition s t r then None
      else if s = NodeRunning \<and> t = NodePending then Some (Detailf ErrInvalidTransition)
      else if s = NodeFailed \<and> t = NodePending then Some (Detailf ErrInvalidTransition)
      else Some (Detailf ErrInvalidTransition))"

definition NextStates :: "node_state \<Rightarrow> transition_reason \<Rightarrow> node_state list" where
  "NextStates s r = filter (\<lambda>t. ValidTransition s t r) allNodeStates"

subsection \<open>The lifecycle as a step relation\<close>

inductive node_step :: "node_state \<Rightarrow> transition_reason \<Rightarrow> node_state \<Rightarrow> bool" where
  ready: "node_step NodePending ReasonNormal NodeReady"
| skip: "node_step NodePending ReasonNormal NodeSkipped"
| dispatch: "node_step NodeReady ReasonNormal NodeRunning"
| returned: "node_step NodeRunning ReasonNormal NodeVerifying"
| fail: "node_step NodeRunning ReasonNormal NodeFailed"
| backoff: "node_step NodeRunning ReasonNormal NodeRetryWait"
| verified: "node_step NodeVerifying ReasonNormal NodeDone"
| refuted: "node_step NodeVerifying ReasonNormal NodeFailed"
| elapsed: "node_step NodeRetryWait ReasonNormal NodeReady"
| exhausted: "node_step NodeRetryWait ReasonNormal NodeFailed"
| orphan: "node_step NodeRunning ReasonOrphanRecovery NodePending"
| retry: "node_step NodeFailed ReasonResumeRetry NodePending"

inductive_cases node_stepE: "node_step s r t"
inductive_simps node_step_iff: "node_step s r t"
inductive_simps node_step_to_pending: "node_step s r NodePending"

inductive node_path :: "node_state \<Rightarrow> transition_reason list \<Rightarrow> node_state \<Rightarrow> bool" where
  path_refl: "node_path s [] s"
| path_step: "node_step s r t \<Longrightarrow> node_path t rs u \<Longrightarrow> node_path s (r # rs) u"

lemma node_path_append: "node_path s xs t \<Longrightarrow> node_path t ys u \<Longrightarrow> node_path s (xs @ ys) u"
  by (induction rule: node_path.induct) (auto intro: node_path.intros)

lemma state_Valid_iff: "state_Valid s \<longleftrightarrow> s \<in> set allNodeStates"
  by (cases s) (simp_all add: state_Valid_def allNodeStates_def)

lemma ValidTransition_step: "ValidTransition s t r \<longleftrightarrow> node_step s r t"
  by (cases s; cases t; cases r)
     (simp_all add: ValidTransition_def node_step_iff state_Valid_def reason_Valid_def
        nodeTransitions_def)

text \<open>
  The legality test of the code accepts exactly the steps of the lifecycle: ten normal
  transitions, RUNNING to PENDING for orphan recovery only, and FAILED to PENDING for a resume
  only; unknown states or reasons are never legal.
\<close>
theorem ValidTransition_iff_step: "ValidTransition s t r \<longleftrightarrow> node_step s r t"
  by (rule ValidTransition_step)

lemma ValidTransition_simps:
  "ValidTransition s t ReasonNormal \<longleftrightarrow> (s, t) \<in> {(NodePending, NodeReady), (NodePending, NodeSkipped),
     (NodeReady, NodeRunning), (NodeRunning, NodeVerifying), (NodeRunning, NodeFailed),
     (NodeRunning, NodeRetryWait), (NodeVerifying, NodeDone), (NodeVerifying, NodeFailed),
     (NodeRetryWait, NodeReady), (NodeRetryWait, NodeFailed)}"
  "ValidTransition s t ReasonOrphanRecovery \<longleftrightarrow> s = NodeRunning \<and> t = NodePending"
  "ValidTransition s t ReasonResumeRetry \<longleftrightarrow> s = NodeFailed \<and> t = NodePending"
  unfolding ValidTransition_step node_step_iff by auto

lemma CheckTransition_None: "CheckTransition s t r = None \<longleftrightarrow> ValidTransition s t r"
  by (simp add: CheckTransition_def)

lemma CheckTransition_Some: "CheckTransition s t r = Some e \<Longrightarrow> e = ErrInvalidTransition"
  by (auto simp: CheckTransition_def ErrInvalidTransition_def split: if_splits)

lemma NextStates_set: "t \<in> set (NextStates s r) \<longleftrightarrow> ValidTransition s t r"
  by (auto simp: NextStates_def ValidTransition_def state_Valid_iff)

lemma IsComplete_terminal: "IsComplete s \<Longrightarrow> IsTerminal s"
  by (cases s) (simp_all add: IsComplete_def IsTerminal_def)

lemma complete_no_step: "IsComplete s \<Longrightarrow> \<not> node_step s r t"
  by (cases s) (simp_all add: IsComplete_def node_step_iff)

text \<open>Without orphan recovery or a resume the machine only moves forward.\<close>

lemma normal_path_rank:
  "node_path s rs t \<Longrightarrow> set rs \<subseteq> {ReasonNormal} \<Longrightarrow> t = NodePending \<Longrightarrow> s = NodePending"
  by (induction rule: node_path.induct) (auto simp: node_step_iff)

lemma node_path_last:
  "node_path s rs u \<Longrightarrow> (rs = [] \<and> s = u) \<or>
     (\<exists>rs0 r t. rs = rs0 @ [r] \<and> node_path s rs0 t \<and> node_step t r u)"
proof (induction rule: node_path.induct)
  case (path_step s r t rs u)
  then consider "rs = []" "t = u"
    | rs0 r' t' where "rs = rs0 @ [r']" "node_path t rs0 t'" "node_step t' r' u" by blast
  then show ?case
  proof cases
    case 1
    then show ?thesis using path_step.hyps(1) node_path.path_refl by fastforce
  next
    case 2
    then have "node_path s (r # rs0) t'" using path_step.hyps(1) node_path.path_step by blast
    then show ?thesis using 2 by (intro disjI2 exI [of _ "r # rs0"]) auto
  qed
qed simp

lemma step_to_done: "node_step s r NodeDone \<longleftrightarrow> s = NodeVerifying \<and> r = ReasonNormal"
  by (auto simp: node_step_iff)

lemma step_to_verifying: "node_step s r NodeVerifying \<longleftrightarrow> s = NodeRunning \<and> r = ReasonNormal"
  by (auto simp: node_step_iff)

text \<open>
  A node is never marked done without having been verified: every path from PENDING to DONE
  runs through RUNNING and then VERIFYING immediately before its last step.
\<close>
theorem done_only_after_verifying:
  assumes "node_path NodePending rs NodeDone"
  shows "\<exists>rs0. rs = rs0 @ [ReasonNormal, ReasonNormal] \<and> node_path NodePending rs0 NodeRunning \<and>
    node_path NodePending (rs0 @ [ReasonNormal]) NodeVerifying"
proof -
  obtain rs1 where 1: "rs = rs1 @ [ReasonNormal]" "node_path NodePending rs1 NodeVerifying"
    using node_path_last [OF assms] by (auto simp: step_to_done)
  moreover obtain rs0 where "rs1 = rs0 @ [ReasonNormal]" "node_path NodePending rs0 NodeRunning"
    using node_path_last [OF 1(2)] by (auto simp: step_to_verifying)
  ultimately show ?thesis by (intro exI [of _ rs0]) simp
qed

theorem done_only_after_verifying_witness:
  "\<exists>rs0. [ReasonNormal, ReasonNormal, ReasonNormal, ReasonNormal] = rs0 @ [ReasonNormal, ReasonNormal] \<and>
    node_path NodePending rs0 NodeRunning \<and> node_path NodePending (rs0 @ [ReasonNormal]) NodeVerifying"
  by (rule done_only_after_verifying) (blast intro: node_path.intros node_step.intros)

end
