(* ===== verification/Engine_Errors.thy ===== *)
theory Engine_Errors
  imports Errors
begin

text \<open>
  The error classes of engine/state/errors.go and engine/executor/errors.go, which extend the
  protocol's by name, and the sentinels that carry them.
\<close>

subsection \<open>State store\<close>

definition KindNotFound :: error_kind where "KindNotFound = OtherKind ''state_not_found''"
definition KindConflict :: error_kind where "KindConflict = OtherKind ''state_conflict''"
definition KindImmutable :: error_kind where "KindImmutable = OtherKind ''state_immutable''"
definition KindLeaseLost :: error_kind where "KindLeaseLost = OtherKind ''lease_lost''"
definition KindStoreIO :: error_kind where "KindStoreIO = OtherKind ''state_io''"
definition KindGuardNotRecorded :: error_kind where "KindGuardNotRecorded = OtherKind ''guard_not_recorded''"

definition ErrNotFound :: err where "ErrNotFound = PErr KindNotFound ExitFailure None"
definition ErrConflict :: err where "ErrConflict = PErr KindConflict ExitFailure None"
definition ErrImmutable :: err where "ErrImmutable = PErr KindImmutable ExitFailure None"
definition ErrLeaseLost :: err where "ErrLeaseLost = PErr KindLeaseLost ExitFailure None"
definition ErrStoreIO :: err where "ErrStoreIO = PErr KindStoreIO ExitFailure None"
definition ErrAuthorizationNotRecorded :: err where
  "ErrAuthorizationNotRecorded = PErr KindGuardNotRecorded ExitAuthorizationUnsatisfied None"

definition ioErr :: "err option \<Rightarrow> err option" where
  "ioErr cause = (case cause of None \<Rightarrow> None | Some c \<Rightarrow> Some (Wrap (Detailf ErrStoreIO) c))"

lemmas state_kind_defs = KindNotFound_def KindConflict_def KindImmutable_def KindLeaseLost_def
  KindStoreIO_def KindGuardNotRecorded_def

lemmas state_error_defs = ErrNotFound_def ErrConflict_def ErrImmutable_def ErrLeaseLost_def
  ErrStoreIO_def ErrAuthorizationNotRecorded_def

subsection \<open>Executor\<close>

definition KindUnsupportedNodeKind :: error_kind where
  "KindUnsupportedNodeKind = OtherKind ''unsupported_node_kind''"
definition KindMissingPort :: error_kind where "KindMissingPort = OtherKind ''missing_port''"
definition KindCheckpointFailed :: error_kind where "KindCheckpointFailed = OtherKind ''checkpoint_failed''"
definition KindNodePreviouslyFailed :: error_kind where
  "KindNodePreviouslyFailed = OtherKind ''node_previously_failed''"
definition KindInvalidRun :: error_kind where "KindInvalidRun = OtherKind ''invalid_run''"
definition KindDependencyNotComplete :: error_kind where
  "KindDependencyNotComplete = OtherKind ''dependency_not_complete''"

definition ErrUnsupportedNodeKind :: err where
  "ErrUnsupportedNodeKind = PErr KindUnsupportedNodeKind ExitFailure None"
definition ErrMissingPort :: err where "ErrMissingPort = PErr KindMissingPort ExitFailure None"
definition ErrCheckpointFailed :: err where "ErrCheckpointFailed = PErr KindCheckpointFailed ExitFailure None"
definition ErrNodePreviouslyFailed :: err where
  "ErrNodePreviouslyFailed = PErr KindNodePreviouslyFailed ExitFailure None"
definition ErrInvalidRun :: err where "ErrInvalidRun = PErr KindInvalidRun ExitFailure None"
definition ErrDependencyNotComplete :: err where
  "ErrDependencyNotComplete = PErr KindDependencyNotComplete ExitFailure None"
definition ErrFenced :: err where "ErrFenced = PErr KindLockHeld ExitLockHeld None"

text \<open>The two signals that never leave the run loop; they carry no typed error.\<close>

definition errStopped :: err where "errStopped = ForeignErr (Signal ''stopped'')"
definition errUnsafeRetry :: err where "errUnsafeRetry = ForeignErr (Signal ''unsafe_retry'')"

definition errorForExitCode :: "exit_code \<Rightarrow> err" where
  "errorForExitCode c =
     (if c = ExitDigestMismatch then ErrDigestMismatch
      else if c = ExitTopologyDrift then ErrTopologyDrift
      else if c = ExitLockHeld then ErrLockHeld
      else if c = ExitAuthorizationUnsatisfied then ErrAuthorizationUnsatisfied
      else if c = ExitUnsupportedTopology then ErrUnsupportedTopology
      else if c = ExitInsufficientPrivilege then ErrInsufficientPrivilege
      else if c = ExitFailure then ErrFailure
      else ErrVerificationFailed)"

lemma ExitCodeFor_errorForExitCode:
  "c \<in> set AllExitCodes - {ExitSuccess} \<Longrightarrow> ExitCodeFor (Some (errorForExitCode c)) = c"
  by (auto simp: AllExitCodes_def errorForExitCode_def ExitCodeFor_def sentinel_defs)

end
