(* ===== verification/State_Records.thy ===== *)
theory State_Records
  imports Digest Naming Node_State Engine_Errors
begin

text \<open>
  The records of the state store and their pure operations: engine/state/run.go, node.go, lease.go,
  lock.go, authorization.go and audit.go.  A time is in nanoseconds since 1970 and Go's zero time is
  \<open>zero_time\<close>.  Where a record keeps the text of an error, the model keeps the error.
\<close>

definition zero_time :: timestamp where "zero_time = -62135596800000000000"

subsection \<open>Runs (run.go)\<close>

datatype run_status =
    RunRunning | RunCompleted | RunFailed | RunOrphaned | RunInterrupted | RunCancelled | OtherStatus string

fun run_status_String :: "run_status \<Rightarrow> string" where
  "run_status_String RunRunning = ''RUNNING''"
| "run_status_String RunCompleted = ''COMPLETED''"
| "run_status_String RunFailed = ''FAILED''"
| "run_status_String RunOrphaned = ''ORPHANED''"
| "run_status_String RunInterrupted = ''INTERRUPTED''"
| "run_status_String RunCancelled = ''CANCELLED''"
| "run_status_String (OtherStatus s) = s"

definition allRunStatuses :: "run_status list" where
  "allRunStatuses = [RunRunning, RunCompleted, RunFailed, RunOrphaned, RunInterrupted, RunCancelled]"

definition run_Valid :: "run_status \<Rightarrow> bool" where
  "run_Valid s \<longleftrightarrow> s \<in> set allRunStatuses"

definition run_IsTerminal :: "run_status \<Rightarrow> bool" where
  "run_IsTerminal s \<longleftrightarrow> s = RunCompleted \<or> s = RunCancelled"

definition IsResumable :: "run_status \<Rightarrow> bool" where
  "IsResumable s \<longleftrightarrow> s \<in> {RunFailed, RunOrphaned, RunInterrupted}"

definition IsIncomplete :: "run_status \<Rightarrow> bool" where
  "IsIncomplete s \<longleftrightarrow> s \<in> {RunRunning, RunFailed, RunOrphaned, RunInterrupted}"

definition runTransitions :: "run_status \<Rightarrow> run_status list" where
  "runTransitions s = (case s of
     RunRunning \<Rightarrow> [RunCompleted, RunFailed, RunOrphaned, RunInterrupted, RunCancelled]
   | RunOrphaned \<Rightarrow> [RunRunning, RunCancelled]
   | RunFailed \<Rightarrow> [RunRunning, RunCancelled]
   | RunInterrupted \<Rightarrow> [RunRunning, RunCancelled]
   | _ \<Rightarrow> [])"

definition ValidRunTransition :: "run_status \<Rightarrow> run_status \<Rightarrow> bool" where
  "ValidRunTransition s t = (if \<not> run_Valid s \<or> \<not> run_Valid t then False else t \<in> set (runTransitions s))"

definition CheckRunTransition :: "run_status \<Rightarrow> run_status \<Rightarrow> err option" where
  "CheckRunTransition s t = (if ValidRunTransition s t then None else Some (Detailf ErrInvalidTransition))"

type_synonym run_id = string

record run =
  r_id :: run_id
  r_plan_id :: string
  r_operation :: operation
  r_target :: target
  r_plan_digest :: string
  r_actor :: string
  r_status :: run_status
  r_node_count :: nat
  r_started_at :: timestamp
  r_updated_at :: timestamp
  r_finished_at :: "timestamp option"
  r_cancel_requested :: bool
  r_cancel_requested_at :: "timestamp option"
  r_cancel_actor :: string
  r_cancel_note :: string
  r_last_error :: string

record new_run =
  nr_plan :: "plan option"
  nr_id :: run_id
  nr_actor :: string
  nr_started_at :: timestamp

fun new_run_nodes :: "node_id set \<Rightarrow> node list \<Rightarrow> err option" where
  "new_run_nodes seen [] = None"
| "new_run_nodes seen (n # ns) =
     (if n_id n = [] then Some (Detailf ErrInvalidPlan)
      else if \<not> kind_Valid (n_kind n) then Some (Detailf ErrUnknownNodeKind)
      else if n_id n \<in> seen then Some (Detailf ErrInvalidPlan)
      else new_run_nodes (insert (n_id n) seen) ns)"

definition new_run_validate :: "new_run \<Rightarrow> err option" where
  "new_run_validate req = (case nr_plan req of
     None \<Rightarrow> Some (Detailf ErrInvalidPlan)
   | Some p \<Rightarrow>
       if p_digest p = [] then Some (Detailf ErrDigestMismatch)
       else if \<not> has_prefix (p_digest p) DigestPrefix then Some (Detailf ErrDigestMismatch)
       else if p_plan_id p = [] then Some (Detailf ErrInvalidPlan)
       else if \<not> operation_Valid (p_operation p) then Some (Detailf ErrInvalidPlan)
       else if target_Validate (p_target p) \<noteq> None then Some (Detailf ErrInvalidPlan)
       else if p_nodes p = [] then Some (Detailf ErrInvalidPlan)
       else new_run_nodes {} (p_nodes p))"

record run_status_update =
  ru_run :: run_id
  ru_from :: run_status
  ru_to :: run_status
  ru_error :: string
  ru_clear_cancel :: bool
  ru_at :: timestamp

record run_query =
  q_run :: run_id
  q_digest :: string
  q_database :: string
  q_table :: "object_name option"
  q_index :: "object_name option"
  q_operation :: string
  q_statuses :: "run_status list"
  q_finished_since :: timestamp
  q_limit :: int

definition any_query :: run_query where
  "any_query = \<lparr>q_run = [], q_digest = [], q_database = [], q_table = None, q_index = None,
     q_operation = [], q_statuses = [], q_finished_since = zero_time, q_limit = 0\<rparr>"

definition query_matches :: "run_query \<Rightarrow> run \<Rightarrow> bool" where
  "query_matches q r =
     (if q_run q \<noteq> [] \<and> r_id r \<noteq> q_run q then False
      else if q_digest q \<noteq> [] \<and> r_plan_digest r \<noteq> q_digest q then False
      else if q_database q \<noteq> [] \<and> tgt_database (r_target r) \<noteq> q_database q then False
      else if (case q_table q of None \<Rightarrow> False | Some t \<Rightarrow> tgt_table (r_target r) \<noteq> t) then False
      else if (case q_index q of None \<Rightarrow> False | Some i \<Rightarrow> tgt_index (r_target r) \<noteq> Some i) then False
      else if q_operation q \<noteq> [] \<and> operation_String (r_operation r) \<noteq> q_operation q then False
      else if q_statuses q \<noteq> [] \<and> r_status r \<notin> set (q_statuses q) then False
      else if q_finished_since q \<noteq> zero_time \<and>
          (case r_finished_at r of None \<Rightarrow> True | Some t \<Rightarrow> t < q_finished_since q) then False
      else True)"

text \<open>The eight random bytes of a run id are an argument.\<close>

definition compact_time :: "timestamp \<Rightarrow> string" where
  "compact_time t =
     (let secs = t div 1000000000; s = nat (secs mod 86400); (y, m, d) = civil_date (secs div 86400)
      in (if y < 0 then ''-'' else []) @ pad_dec 4 (nat \<bar>y\<bar>) @ pad_dec 2 (nat m) @ pad_dec 2 (nat d) @ ''T''
         @ pad_dec 2 (s div 3600) @ pad_dec 2 (s div 60 mod 60) @ pad_dec 2 (s mod 60) @ ''Z'')"

definition NewRunID :: "timestamp \<Rightarrow> string \<Rightarrow> run_id" where
  "NewRunID now b = ''run-'' @ compact_time now @ ''-'' @ hex_encode b"

subsection \<open>Node records (node.go)\<close>

record node_record =
  nd_run :: run_id
  nd_id :: node_id
  nd_kind :: node_kind
  nd_state :: node_state
  nd_object :: object_name
  nd_attempts :: int
  nd_last_error :: "err option"
  nd_started_at :: "timestamp option"
  nd_updated_at :: timestamp

record node_transition =
  nt_run :: run_id
  nt_node :: node_id
  nt_from :: node_state
  nt_to :: node_state
  nt_reason :: transition_reason
  nt_increment :: bool
  nt_err :: "err option"
  nt_at :: timestamp

text \<open>An empty reason means the normal one.\<close>

definition nt_reason_of :: "node_transition \<Rightarrow> transition_reason" where
  "nt_reason_of t = (if nt_reason t = UnknownReason [] then ReasonNormal else nt_reason t)"

definition nt_validate :: "node_transition \<Rightarrow> err option" where
  "nt_validate t =
     (if nt_run t = [] then Some (Detailf ErrNotFound)
      else if nt_node t = [] then Some (Detailf ErrNotFound)
      else CheckTransition (nt_from t) (nt_to t) (nt_reason_of t))"

record node_counts =
  nc_total :: nat
  nc_by_state :: "node_state \<Rightarrow> nat"
  nc_complete :: nat
  nc_remaining :: nat
  nc_failed :: nat
  nc_in_flight :: nat

definition count_node :: "node_counts \<Rightarrow> node_record \<Rightarrow> node_counts" where
  "count_node c r =
     (let c = c\<lparr>nc_by_state := (nc_by_state c)(nd_state r := nc_by_state c (nd_state r) + 1)\<rparr>;
          c = (if IsComplete (nd_state r) then c\<lparr>nc_complete := nc_complete c + 1\<rparr>
               else if nd_state r = NodeFailed then c\<lparr>nc_failed := nc_failed c + 1\<rparr>
               else c\<lparr>nc_remaining := nc_remaining c + 1\<rparr>)
      in if nd_state r = NodeRunning \<or> nd_state r = NodeVerifying
         then c\<lparr>nc_in_flight := nc_in_flight c + 1\<rparr> else c)"

definition CountNodes :: "node_record list \<Rightarrow> node_counts" where
  "CountNodes recs = foldl count_node \<lparr>nc_total = length recs, nc_by_state = (\<lambda>_. 0), nc_complete = 0,
     nc_remaining = 0, nc_failed = 0, nc_in_flight = 0\<rparr> recs"

subsection \<open>Leases (lease.go)\<close>

record lease =
  l_run :: run_id
  l_holder :: string
  l_acquired_at :: timestamp
  l_heartbeat_at :: timestamp
  l_ttl_seconds :: int

definition second_ns :: int where "second_ns = 1000000000"
definition DefaultLeaseTTL :: int where "DefaultLeaseTTL = 60 * second_ns"

definition TTL :: "lease \<Rightarrow> int" where "TTL l = wrap_int64 (l_ttl_seconds l * second_ns)"
definition ExpiresAt :: "lease \<Rightarrow> timestamp" where "ExpiresAt l = l_heartbeat_at l + TTL l"

definition Expired :: "lease \<Rightarrow> timestamp \<Rightarrow> bool" where
  "Expired l now = (if l_ttl_seconds l \<le> 0 then True else \<not> now < ExpiresAt l)"

definition normalizeTTL :: "int \<Rightarrow> err + int" where
  "normalizeTTL ttl =
     (let ttl = (if ttl \<le> 0 then DefaultLeaseTTL else ttl); secs = ttl div second_ns
      in if secs \<le> 0 then Inl (Detailf ErrFailure) else Inr secs)"

subsection \<open>Advisory locks (lock.go)\<close>

record lock_key =
  lk_database :: string
  lk_table :: object_name

definition run_LockKey :: "run \<Rightarrow> lock_key" where
  "run_LockKey r = \<lparr>lk_database = tgt_database (r_target r), lk_table = tgt_table (r_target r)\<rparr>"

definition lock_String :: "lock_key \<Rightarrow> string" where
  "lock_String k = (if lk_database k = [] then obj_String (lk_table k)
     else lk_database k @ ''/'' @ obj_String (lk_table k))"

definition lock_Validate :: "lock_key \<Rightarrow> err option" where
  "lock_Validate k = (if obj_IsZero (lk_table k) then Some (Detailf ErrInvalidIdentifier)
     else obj_Validate (lk_table k))"

definition advisoryClassID :: "32 word" where "advisoryClassID = 0x50435431"
definition lockKeyDomain :: string where "lockKeyDomain = ''partitionctl.advisorylock.v1''"

definition lock_frames :: "lock_key \<Rightarrow> string" where
  "lock_frames k = frames [lockKeyDomain, lk_database k, obj_schema (lk_table k), obj_name (lk_table k)]"

definition AdvisoryKeys :: "lock_key \<Rightarrow> 32 word \<times> 32 word" where
  "AdvisoryKeys k = (advisoryClassID,
     foldl (\<lambda>w c. w * 256 + of_nat (of_char c)) 0 (take 4 (sha256 (lock_frames k))))"

subsection \<open>Authorization records (authorization.go)\<close>

record authorization_record =
  ar_id :: string
  ar_run :: run_id
  ar_node :: node_id
  ar_mode :: authorization_mode
  ar_object :: object_name
  ar_relation :: "object_name option"
  ar_database :: string
  ar_confirmation :: string
  ar_evidence :: "(string \<times> string) list"
  ar_granted_at :: timestamp

definition RequiredEvidence :: "authorization_mode \<Rightarrow> string list" where
  "RequiredEvidence m = (case m of
     AuthProvenance \<Rightarrow> [''mode'', ''object'', ''source'']
   | AuthLeftover \<Rightarrow> [''mode'', ''object'', ''leftover_class'', ''base_index'']
   | AuthExplicit \<Rightarrow> [''mode'', ''object'', ''confirmation'']
   | UnknownMode _ \<Rightarrow> [])"

text \<open>A missing map entry reads as the empty string.\<close>

definition evidence_at :: "(string \<times> string) list \<Rightarrow> string \<Rightarrow> string" where
  "evidence_at ev k = (case map_of ev k of Some v \<Rightarrow> v | None \<Rightarrow> [])"

definition unsatisfied :: "bool \<Rightarrow> err option" where
  "unsatisfied b = (if b then Some (Detailf ErrAuthorizationUnsatisfied) else None)"

definition auth_record_Validate :: "authorization_record option \<Rightarrow> err option" where
  "auth_record_Validate x = (case x of None \<Rightarrow> unsatisfied True | Some a \<Rightarrow>
     then_check (unsatisfied (ar_run a = []))
    (then_check (unsatisfied (ar_node a = []))
    (then_check (unsatisfied (\<not> mode_Valid (ar_mode a)))
    (then_check (unsatisfied (obj_Validate (ar_object a) \<noteq> None))
    (then_check (case ar_relation a of None \<Rightarrow> None | Some r \<Rightarrow> unsatisfied (obj_Validate r \<noteq> None))
    (then_check (if ar_mode a = AuthLeftover then
        then_check (unsatisfied (ar_relation a = None))
          (unsatisfied (fst (ClassifyLeftover (obj_name (ar_object a))) = LeftoverNone)) else None)
    (then_check (unsatisfied (ar_mode a = AuthExplicit \<and> ar_confirmation a = []))
    (then_check (each_check (\<lambda>k. unsatisfied (evidence_at (ar_evidence a) k = [])) (RequiredEvidence (ar_mode a)))
      (if ar_mode a = AuthProvenance then
         (if evidence_at (ar_evidence a) ''source'' = ''marker''
          then unsatisfied (evidence_at (ar_evidence a) ''marker_run'' = [])
          else if evidence_at (ar_evidence a) ''source'' = ''claim''
          then unsatisfied (evidence_at (ar_evidence a) ''claim_run'' = [])
          else unsatisfied True)
       else None)))))))))"

subsection \<open>Audit events (audit.go)\<close>

datatype audit_type =
    EventRunOpened | EventRunStatusChanged | EventRunAdopted | EventRunOrphaned | EventCancelRequested
  | EventLeaseAcquired | EventLeaseReleased | EventNodeTransition | EventObjectCreated
  | EventObjectCreateFailed | EventAuthorizationRecorded | EventDestructiveExecuted
  | EventDestructiveFailed | OtherEvent string

text \<open>The entries \<open>error\<close> and \<open>error_kind\<close> of the detail are kept as the error itself.\<close>

record audit_event =
  ev_id :: string
  ev_seq :: nat
  ev_run :: run_id
  ev_node :: node_id
  ev_type :: audit_type
  ev_detail :: "(string \<times> string) list"
  ev_error :: "err option"
  ev_occurred_at :: timestamp
  ev_at :: timestamp

definition ev_validate :: "audit_event option \<Rightarrow> err option" where
  "ev_validate x = (case x of None \<Rightarrow> Some (Detailf ErrFailure)
     | Some e \<Rightarrow> if ev_run e = [] then Some (Detailf ErrFailure)
         else if ev_type e = OtherEvent [] then Some (Detailf ErrFailure) else None)"

text \<open>Pairs with an empty key or value are left out, and a later pair replaces an earlier one.\<close>

definition auditDetail :: "(string \<times> string) list \<Rightarrow> (string \<times> string) list" where
  "auditDetail kvs = last_wins (filter (\<lambda>kv. fst kv \<noteq> [] \<and> snd kv \<noteq> []) kvs)"

definition new_event :: "run_id \<Rightarrow> node_id \<Rightarrow> audit_type \<Rightarrow> timestamp \<Rightarrow> (string \<times> string) list \<Rightarrow> audit_event" where
  "new_event r n t at d = \<lparr>ev_id = [], ev_seq = 0, ev_run = r, ev_node = n, ev_type = t,
     ev_detail = auditDetail d, ev_error = None, ev_occurred_at = zero_time, ev_at = at\<rparr>"

end
