(* ===== verification/Store_Monad.thy ===== *)
theory Store_Monad
  imports State_Records "HOL-Library.AList" "HOL-Library.Product_Lexorder"
begin

text \<open>
  The disk of the file-backed state store and the file operations of engine/state/atomic.go, as
  state passing with an error result.  Every operation on the disk consumes one outcome of a script,
  so that each failure and each crash the medium can produce is an execution of the model: a crash is
  an outcome after which the operation returns an error, because every caller then returns at once.
  Reads decode what the store itself wrote, so decoding does not fail, except in the audit trail,
  which appends can tear.
\<close>

subsection \<open>The disk\<close>

text \<open>
  A line of a trail is a complete record, the beginning of one that an interrupted append left, or
  bytes of another origin; the last line may lack its newline.
\<close>

datatype trail_line = EventLine audit_event | TornLine | GarbageLine

record trail =
  tr_lines :: "trail_line list"
  tr_open :: bool

text \<open>
  \<open>None\<close> for a directory that does not exist.  A run directory without a run record is invisible.
\<close>

record run_dir =
  rd_run :: "run option"
  rd_lease :: "lease option"
  rd_nodes :: "(string \<times> node_record) list option"
  rd_auth :: "(nat \<times> authorization_record) list option"
  rd_trail :: trail

definition empty_dir :: run_dir where
  "empty_dir = \<lparr>rd_run = None, rd_lease = None, rd_nodes = None, rd_auth = None,
     rd_trail = \<lparr>tr_lines = [], tr_open = False\<rparr>\<rparr>"

record lock_file =
  lf_key :: lock_key
  lf_holder :: string
  lf_token :: string
  lf_acquired :: timestamp
  lf_refreshed :: timestamp
  lf_ttl_seconds :: int

record disk =
  dk_runs :: "(string \<times> run_dir) list"
  dk_locks :: "(string \<times> lock_file) list"

text \<open>File names (atomic.go): a readable part and eight bytes of a hash.\<close>

definition segmentSafe :: "char \<Rightarrow> bool" where
  "segmentSafe c \<longleftrightarrow> (let b = of_char c :: nat in
     (97 \<le> b \<and> b \<le> 122) \<or> (65 \<le> b \<and> b \<le> 90) \<or> (48 \<le> b \<and> b \<le> 57) \<or>
     c = CHR ''-'' \<or> c = CHR ''_'' \<or> c = CHR ''.'')"

definition segmentReadableMax :: nat where "segmentReadableMax = 48"

definition encodeSegment :: "string \<Rightarrow> string" where
  "encodeSegment i =
     (case take segmentReadableMax i of
        [] \<Rightarrow> []
      | c # r \<Rightarrow> (if segmentSafe c \<and> c \<noteq> CHR ''.'' then c else CHR ''_'')
                 # map (\<lambda>c. if segmentSafe c then c else CHR ''_'') r)
     @ ''-'' @ hex_encode (take 8 (sha256 i))"

definition run_dir_of :: "disk \<Rightarrow> run_id \<Rightarrow> run_dir" where
  "run_dir_of d i = (case map_of (dk_runs d) (encodeSegment i) of Some r \<Rightarrow> r | None \<Rightarrow> empty_dir)"

definition update_run_dir :: "run_id \<Rightarrow> (run_dir \<Rightarrow> run_dir) \<Rightarrow> disk \<Rightarrow> disk" where
  "update_run_dir i f d = d\<lparr>dk_runs := AList.update (encodeSegment i) (f (run_dir_of d i)) (dk_runs d)\<rparr>"

definition put_run :: "run_id \<Rightarrow> run \<Rightarrow> disk \<Rightarrow> disk" where
  "put_run i r = update_run_dir i (\<lambda>x. x\<lparr>rd_run := Some r\<rparr>)"

definition put_lease :: "run_id \<Rightarrow> lease option \<Rightarrow> disk \<Rightarrow> disk" where
  "put_lease i l = update_run_dir i (\<lambda>x. x\<lparr>rd_lease := l\<rparr>)"

definition dir_entries :: "'a list option \<Rightarrow> 'a list" where
  "dir_entries x = (case x of Some ns \<Rightarrow> ns | None \<Rightarrow> [])"

definition make_nodes_dir :: "run_id \<Rightarrow> disk \<Rightarrow> disk" where
  "make_nodes_dir i = update_run_dir i (\<lambda>x. x\<lparr>rd_nodes := Some (dir_entries (rd_nodes x))\<rparr>)"

definition put_node :: "run_id \<Rightarrow> node_id \<Rightarrow> node_record \<Rightarrow> disk \<Rightarrow> disk" where
  "put_node i n r = update_run_dir i (\<lambda>x. x\<lparr>rd_nodes :=
     Some (AList.update (encodeSegment n) r (dir_entries (rd_nodes x)))\<rparr>)"

definition make_auth_dir :: "run_id \<Rightarrow> disk \<Rightarrow> disk" where
  "make_auth_dir i = update_run_dir i (\<lambda>x. x\<lparr>rd_auth := Some (dir_entries (rd_auth x))\<rparr>)"

definition put_auth :: "run_id \<Rightarrow> nat \<Rightarrow> authorization_record \<Rightarrow> disk \<Rightarrow> disk" where
  "put_auth i n r = update_run_dir i (\<lambda>x. x\<lparr>rd_auth :=
     Some (AList.update n r (dir_entries (rd_auth x)))\<rparr>)"

definition node_at :: "disk \<Rightarrow> run_id \<Rightarrow> node_id \<Rightarrow> node_record option" where
  "node_at d i n = (case rd_nodes (run_dir_of d i) of None \<Rightarrow> None | Some ns \<Rightarrow> map_of ns (encodeSegment n))"

subsection \<open>The store and its operations\<close>

text \<open>
  \<open>IoStop\<close> is a write that took effect although the process then failed or died; \<open>IoTorn\<close>,
  \<open>IoWhole\<close> and \<open>IoSeparator\<close> are appends that were interrupted within the record, before its
  newline, and after the separating newline; \<open>IoStatFailed\<close> is a failed \<open>stat\<close>.
\<close>

datatype io = IoOk | IoNoDir | IoLost | IoStop | IoTorn | IoWhole | IoSeparator | IoStatFailed

record guarded_effect =
  ge_run :: run_id
  ge_node :: node_id
  ge_object :: object_name

record store =
  st_disk :: disk
  st_cache :: "run_id \<Rightarrow> (nat \<times> nat) option"
  st_script :: "io list"
  st_executed :: "guarded_effect list"

type_synonym ('s, 'a) sop = "'s \<Rightarrow> (err + 'a) \<times> 's"
type_synonym 'a op = "(store, 'a) sop"

definition sreturn :: "'a \<Rightarrow> ('s, 'a) sop" where "sreturn x s = (Inr x, s)"
definition sfail :: "err \<Rightarrow> ('s, 'a) sop" where "sfail e s = (Inl e, s)"

definition sbind :: "('s, 'a) sop \<Rightarrow> ('a \<Rightarrow> ('s, 'b) sop) \<Rightarrow> ('s, 'b) sop" where
  "sbind m f s = (case m s of (Inl e, s') \<Rightarrow> (Inl e, s') | (Inr x, s') \<Rightarrow> f x s')"

text \<open>Go on with the result whatever it is, and turn a failed check into a failure.\<close>

definition stry :: "('s, 'a) sop \<Rightarrow> (err + 'a \<Rightarrow> ('s, 'b) sop) \<Rightarrow> ('s, 'b) sop" where
  "stry m f s = (case m s of (r, s') \<Rightarrow> f r s')"

definition scheck :: "err option \<Rightarrow> ('s, 'a) sop \<Rightarrow> ('s, 'a) sop" where
  "scheck c m = (case c of Some e \<Rightarrow> sfail e | None \<Rightarrow> m)"

definition lift_result :: "err + 'a \<Rightarrow> ('s, 'a) sop" where "lift_result r s = (r, s)"

primrec smap :: "('a \<Rightarrow> ('s, 'b) sop) \<Rightarrow> 'a list \<Rightarrow> ('s, 'b list) sop" where
  "smap f [] = sreturn []"
| "smap f (x # xs) = sbind (f x) (\<lambda>y. sbind (smap f xs) (\<lambda>ys. sreturn (y # ys)))"

definition next_io :: "store \<Rightarrow> io \<times> store" where
  "next_io s = (case st_script s of [] \<Rightarrow> (IoOk, s) | o1 # r \<Rightarrow> (o1, s\<lparr>st_script := r\<rparr>))"

definition io_error :: err where
  "io_error = Wrap (Detailf ErrStoreIO) (ForeignErr UnknownError)"

text \<open>\<open>readJSON\<close>: a missing file is \<open>ErrNotFound\<close>.\<close>

definition read_file :: "(disk \<Rightarrow> 'a option) \<Rightarrow> 'a op" where
  "read_file get s = (case next_io s of (o1, s') \<Rightarrow>
     (if o1 \<noteq> IoOk then Inl io_error
      else (case get (st_disk s') of None \<Rightarrow> Inl (Detailf ErrNotFound) | Some x \<Rightarrow> Inr x), s'))"

text \<open>Listing a directory, which cannot tell a missing one from an empty one here.\<close>

definition read_dir :: "(disk \<Rightarrow> 'a) \<Rightarrow> 'a op" where
  "read_dir get s = (case next_io s of (o1, s') \<Rightarrow>
     (if o1 \<noteq> IoOk then Inl io_error else Inr (get (st_disk s')), s'))"

text \<open>\<open>os.Stat\<close> used as a test for existence: a failure reads as absence.\<close>

definition file_exists :: "(disk \<Rightarrow> 'a option) \<Rightarrow> bool op" where
  "file_exists get s = (case next_io s of (o1, s') \<Rightarrow>
     (Inr (o1 \<noteq> IoStatFailed \<and> get (st_disk s') \<noteq> None), s'))"

text \<open>
  \<open>writeFile\<close>: the directory is made first, and the record is replaced by a rename, which either
  happened or not.
\<close>

definition write_file :: "(disk \<Rightarrow> disk) \<Rightarrow> (disk \<Rightarrow> disk) \<Rightarrow> unit op" where
  "write_file mkdir put s = (case next_io s of (o1, s') \<Rightarrow>
     (if o1 = IoOk then (Inr (), s'\<lparr>st_disk := put (mkdir (st_disk s'))\<rparr>)
      else if o1 = IoStop then (Inl io_error, s'\<lparr>st_disk := put (mkdir (st_disk s'))\<rparr>)
      else if o1 = IoNoDir then (Inl io_error, s')
      else (Inl io_error, s'\<lparr>st_disk := mkdir (st_disk s')\<rparr>)))"

definition remove_file :: "(disk \<Rightarrow> disk) \<Rightarrow> unit op" where
  "remove_file del s = (case next_io s of (o1, s') \<Rightarrow>
     (if o1 = IoOk then (Inr (), s'\<lparr>st_disk := del (st_disk s')\<rparr>)
      else if o1 = IoStop then (Inl io_error, s'\<lparr>st_disk := del (st_disk s')\<rparr>)
      else (Inl io_error, s')))"

text \<open>\<open>errors.Is(err, ErrNotFound)\<close>\<close>

definition not_found :: "err \<Rightarrow> bool" where
  "not_found e \<longleftrightarrow> err_is e KindNotFound"

end
