(* ===== verification/File_Store.thy ===== *)
theory File_Store
  imports Store_Monad
begin

text \<open>
  engine/state/file.go: the operations of the file-backed store, each one the whole method under the
  store's mutex.  The clock's reading is an argument, as are the random bytes of a run id.
\<close>

definition store_now :: "timestamp \<Rightarrow> timestamp \<Rightarrow> timestamp" where
  "store_now clk at = (if at \<noteq> zero_time then at else clk)"

subsection \<open>The audit trail\<close>

fun read_lines :: "bool \<Rightarrow> trail_line list \<Rightarrow> err + audit_event list" where
  "read_lines opn [] = Inr []"
| "read_lines opn (EventLine e # r) = rbind (read_lines opn r) (\<lambda>es. Inr (e # es))"
| "read_lines opn (TornLine # r) = (if r = [] \<and> opn then Inr [] else read_lines opn r)"
| "read_lines opn (GarbageLine # r) = (if r = [] \<and> opn then Inr [] else Inl io_error)"

definition trail_of :: "disk \<Rightarrow> run_id \<Rightarrow> trail" where
  "trail_of d i = rd_trail (run_dir_of d i)"

definition readAudit :: "run_id \<Rightarrow> audit_event list op" where
  "readAudit i = sbind (read_dir (\<lambda>d. trail_of d i)) (\<lambda>t. lift_result (read_lines (tr_open t) (tr_lines t)))"

text \<open>
  The size of the trail, which is only compared with an earlier size of the same trail.  A trail
  only grows, so any measure that every write increases serves; this one counts a newline and the
  bytes before it as one each.
\<close>

definition trail_size :: "trail \<Rightarrow> nat" where
  "trail_size t = (if tr_lines t = [] then 0 else 2 * length (tr_lines t) - (if tr_open t then 1 else 0))"

definition last_seq :: "audit_event list \<Rightarrow> nat" where
  "last_seq evs = (if evs = [] then 0 else ev_seq (last evs))"

text \<open>What an append leaves on the disk: a separator first when the trail ends within a line.\<close>

definition append_trail :: "io \<Rightarrow> audit_event \<Rightarrow> trail \<Rightarrow> trail" where
  "append_trail o1 e t = (case o1 of
     IoLost \<Rightarrow> t
   | IoSeparator \<Rightarrow> t\<lparr>tr_open := False\<rparr>
   | IoTorn \<Rightarrow> \<lparr>tr_lines = tr_lines t @ [TornLine], tr_open = True\<rparr>
   | IoWhole \<Rightarrow> \<lparr>tr_lines = tr_lines t @ [EventLine e], tr_open = True\<rparr>
   | _ \<Rightarrow> \<lparr>tr_lines = tr_lines t @ [EventLine e], tr_open = False\<rparr>)"

definition write_trail :: "run_id \<Rightarrow> nat \<Rightarrow> audit_event \<Rightarrow> audit_event op" where
  "write_trail i sq e s = (case next_io s of (o1, s') \<Rightarrow>
     (let d' = update_run_dir i (\<lambda>x. x\<lparr>rd_trail := append_trail o1 e (rd_trail x)\<rparr>) (st_disk s');
          s'' = s'\<lparr>st_disk := d'\<rparr>
      in if o1 = IoNoDir then (Inl io_error, s')
         else if o1 = IoOk
         then (Inr e, s''\<lparr>st_cache := (st_cache s'')(i \<mapsto> (sq, trail_size (trail_of d' i)))\<rparr>)
         else if o1 = IoStatFailed
         then (Inr e, s''\<lparr>st_cache := (st_cache s'')(i := None)\<rparr>)
         else (Inl io_error, s'')))"

definition event_id :: "run_id \<Rightarrow> string \<Rightarrow> nat \<Rightarrow> string" where
  "event_id i tag n = i @ '':'' @ tag @ '':'' @ pad_dec 8 n"

definition get_cache :: "run_id \<Rightarrow> (nat \<times> nat) option op" where
  "get_cache i s = (Inr (st_cache s i), s)"

definition appendAudit :: "timestamp \<Rightarrow> audit_event \<Rightarrow> audit_event op" where
  "appendAudit clk ev = scheck (ev_validate (Some ev))
    (sbind (read_dir (\<lambda>d. trail_size (trail_of d (ev_run ev)))) (\<lambda>size.
     sbind (get_cache (ev_run ev)) (\<lambda>cur.
     sbind (case cur of
          Some (sq, sz) \<Rightarrow> if sz = size then sreturn sq
            else sbind (readAudit (ev_run ev)) (\<lambda>evs. sreturn (last_seq evs))
        | None \<Rightarrow> sbind (readAudit (ev_run ev)) (\<lambda>evs. sreturn (last_seq evs))) (\<lambda>sq.
     write_trail (ev_run ev) (sq + 1) (ev\<lparr>ev_seq := sq + 1, ev_id := event_id (ev_run ev) ''evt'' (sq + 1),
       ev_occurred_at := store_now clk (ev_at ev), ev_at := zero_time\<rparr>)))))"

definition ListAudit :: "run_id \<Rightarrow> int \<Rightarrow> audit_event list op" where
  "ListAudit i afterSeq = sbind (readAudit i) (\<lambda>evs. sreturn (filter (\<lambda>e. int (ev_seq e) > afterSeq) evs))"

subsection \<open>Runs\<close>

definition opened_run :: "timestamp \<Rightarrow> run_id \<Rightarrow> string \<Rightarrow> plan \<Rightarrow> run" where
  "opened_run now i actor p = \<lparr>r_id = i, r_plan_id = p_plan_id p, r_operation = p_operation p,
     r_target = p_target p, r_plan_digest = p_digest p, r_actor = actor, r_status = RunRunning,
     r_node_count = length (p_nodes p), r_started_at = now, r_updated_at = now, r_finished_at = None,
     r_cancel_requested = False, r_cancel_requested_at = None, r_cancel_actor = [], r_cancel_note = [],
     r_last_error = []\<rparr>"

definition opened_node :: "timestamp \<Rightarrow> run_id \<Rightarrow> node \<Rightarrow> node_record" where
  "opened_node now i n = \<lparr>nd_run = i, nd_id = n_id n, nd_kind = n_kind n, nd_state = InitialNodeState,
     nd_object = (case node_Object n of (o1, ok) \<Rightarrow> if ok then o1 else NewObjectName [] []),
     nd_attempts = 0, nd_last_error = None, nd_started_at = None, nd_updated_at = now\<rparr>"

definition write_node :: "run_id \<Rightarrow> node_id \<Rightarrow> node_record \<Rightarrow> unit op" where
  "write_node i n rec = write_file (make_nodes_dir i) (put_node i n rec)"

definition write_run :: "run_id \<Rightarrow> run \<Rightarrow> unit op" where
  "write_run i r = write_file (update_run_dir i (\<lambda>x. x)) (put_run i r)"

definition stored_run :: "disk \<Rightarrow> run_id \<Rightarrow> run option" where
  "stored_run d i = rd_run (run_dir_of d i)"

definition run_opened_event :: "run_id \<Rightarrow> timestamp \<Rightarrow> run \<Rightarrow> audit_event" where
  "run_opened_event i now run = new_event i [] EventRunOpened now
     [(''plan_id'', r_plan_id run), (''plan_digest'', r_plan_digest run),
      (''operation'', operation_String (r_operation run)),
      (''target'', obj_String (tgt_table (r_target run))), (''actor'', r_actor run),
      (''nodes'', dec_nat (r_node_count run))]"

definition CreateRun :: "timestamp \<Rightarrow> string \<Rightarrow> new_run \<Rightarrow> run op" where
  "CreateRun clk random req = scheck (new_run_validate req) (case nr_plan req of None \<Rightarrow> sfail ErrInvalidPlan | Some p \<Rightarrow>
     (let now = store_now clk (nr_started_at req);
          i = (if nr_id req = [] then NewRunID now random else nr_id req);
          run = opened_run now i (nr_actor req) p
      in sbind (file_exists (\<lambda>d. stored_run d i)) (\<lambda>found.
         if found then sfail (Detailf ErrConflict)
         else sbind (smap (\<lambda>n. write_node i (n_id n) (opened_node now i n)) (p_nodes p)) (\<lambda>_.
              sbind (write_run i run) (\<lambda>_.
              sbind (appendAudit clk (run_opened_event i now run)) (\<lambda>_. sreturn run))))))"

definition GetRun :: "run_id \<Rightarrow> run op" where
  "GetRun i = (if i = [] then sfail (Detailf ErrNotFound)
     else stry (read_file (\<lambda>d. stored_run d i)) (\<lambda>r. case r of
         Inl e \<Rightarrow> if not_found e then sfail (Detailf ErrNotFound) else sfail e
       | Inr run \<Rightarrow> if r_id run \<noteq> i then sfail io_error else sreturn run))"

definition sortRuns :: "run list \<Rightarrow> run list" where
  "sortRuns rs = sort_key (\<lambda>r. (r_started_at r, r_id r)) rs"

definition run_entries :: "disk \<Rightarrow> run_dir list" where
  "run_entries d = map snd (sort_key fst (dk_runs d))"

text \<open>The run records of all directories in name order; a directory without one is skipped.\<close>

definition read_runs :: "run_dir list \<Rightarrow> run list op" where
  "read_runs ds = sbind (smap (\<lambda>x. stry (read_file (\<lambda>_. rd_run x)) (\<lambda>r. case r of
       Inl e \<Rightarrow> if not_found e then sreturn None else sfail e | Inr run \<Rightarrow> sreturn (Some run))) ds)
     (\<lambda>rs. sreturn (map the (filter (\<lambda>r. r \<noteq> None) rs)))"

definition FindRuns :: "run_query \<Rightarrow> run list op" where
  "FindRuns q = (if q_run q \<noteq> [] then
       stry (GetRun (q_run q)) (\<lambda>r. case r of
           Inl e \<Rightarrow> if not_found e then sreturn [] else sfail e
         | Inr run \<Rightarrow> if query_matches q run then sreturn [run] else sreturn [])
     else sbind (read_dir run_entries) (\<lambda>ds. sbind (read_runs ds) (\<lambda>rs.
       (let out = sortRuns (filter (query_matches q) rs)
        in sreturn (if q_limit q > 0 \<and> int (length out) > q_limit q then take (nat (q_limit q)) out else out)))))"

definition updated_run :: "timestamp \<Rightarrow> run_status_update \<Rightarrow> run \<Rightarrow> run" where
  "updated_run now u run =
     (let run = run\<lparr>r_status := ru_to u, r_updated_at := now\<rparr>;
          run = (if ru_error u \<noteq> [] then run\<lparr>r_last_error := ru_error u\<rparr> else run);
          run = (if ru_clear_cancel u then run\<lparr>r_cancel_requested := False, r_cancel_requested_at := None,
                   r_cancel_actor := [], r_cancel_note := []\<rparr> else run)
      in run\<lparr>r_finished_at := (if run_IsTerminal (ru_to u) \<or> IsResumable (ru_to u) then Some now else None)\<rparr>)"

definition SetRunStatus :: "timestamp \<Rightarrow> run_status_update \<Rightarrow> run op" where
  "SetRunStatus clk u = sbind (GetRun (ru_run u)) (\<lambda>run.
     if r_status run \<noteq> ru_from u then sfail (Detailf ErrConflict)
     else scheck (CheckRunTransition (ru_from u) (ru_to u))
       (let now = store_now clk (ru_at u); run' = updated_run now u run
        in sbind (write_run (r_id run) run') (\<lambda>_.
           sbind (appendAudit clk (new_event (r_id run) [] EventRunStatusChanged now
             [(''from'', run_status_String (r_status run)), (''to'', run_status_String (ru_to u)),
              (''error'', ru_error u)])) (\<lambda>_. sreturn run'))))"

subsection \<open>Nodes\<close>

definition GetNode :: "run_id \<Rightarrow> node_id \<Rightarrow> node_record op" where
  "GetNode i n = stry (read_file (\<lambda>d. node_at d i n)) (\<lambda>r. case r of
      Inl e \<Rightarrow> if not_found e then sfail (Detailf ErrNotFound) else sfail e
    | Inr rec \<Rightarrow> if nd_id rec \<noteq> n \<or> nd_run rec \<noteq> i then sfail io_error else sreturn rec)"

definition ListNodes :: "run_id \<Rightarrow> node_record list op" where
  "ListNodes i = sbind (read_dir (\<lambda>d. rd_nodes (run_dir_of d i))) (\<lambda>entries. case entries of
      None \<Rightarrow> sbind (GetRun i) (\<lambda>_. sreturn [])
    | Some ns \<Rightarrow> sbind (smap (\<lambda>rec. read_file (\<lambda>_. Some rec)) (map snd (sort_key fst ns)))
        (\<lambda>out. sreturn (sort_key nd_id out)))"

definition applyTransition :: "node_record \<Rightarrow> node_transition \<Rightarrow> timestamp \<Rightarrow> node_record" where
  "applyTransition rec t now =
     (let rec = rec\<lparr>nd_state := nt_to t, nd_updated_at := now\<rparr>;
          rec = (if nt_increment t then rec\<lparr>nd_attempts := nd_attempts rec + 1\<rparr> else rec);
          rec = (if nt_to t = NodeRunning \<and> nd_started_at rec = None then rec\<lparr>nd_started_at := Some now\<rparr> else rec);
          rec = (if nt_err t \<noteq> None then rec\<lparr>nd_last_error := nt_err t\<rparr>
                 else if nt_to t = NodeDone \<or> nt_to t = NodeSkipped then rec\<lparr>nd_last_error := None\<rparr> else rec)
      in if nt_reason t = ReasonOrphanRecovery then rec\<lparr>nd_last_error := None\<rparr> else rec)"

fun state_String :: "node_state \<Rightarrow> string" where
  "state_String NodePending = ''PENDING''"
| "state_String NodeReady = ''READY''"
| "state_String NodeRunning = ''RUNNING''"
| "state_String NodeVerifying = ''VERIFYING''"
| "state_String NodeDone = ''DONE''"
| "state_String NodeFailed = ''FAILED''"
| "state_String NodeRetryWait = ''RETRY_WAIT''"
| "state_String NodeSkipped = ''SKIPPED''"
| "state_String (UnknownState s) = s"

fun transition_reason_String :: "transition_reason \<Rightarrow> string" where
  "transition_reason_String ReasonNormal = ''normal''"
| "transition_reason_String ReasonOrphanRecovery = ''orphan_recovery''"
| "transition_reason_String ReasonResumeRetry = ''resume_retry''"
| "transition_reason_String (UnknownReason s) = s"

definition nodeTransitionEvent :: "node_transition \<Rightarrow> node_record \<Rightarrow> timestamp \<Rightarrow> audit_event" where
  "nodeTransitionEvent t rec now = (new_event (nt_run t) (nt_node t) EventNodeTransition now
     [(''from'', state_String (nt_from t)), (''to'', state_String (nt_to t)), (''kind'', kind_String (nd_kind rec)),
      (''reason'', transition_reason_String (nt_reason_of t)), (''attempts'', FormatInt (nd_attempts rec))])
     \<lparr>ev_error := nt_err t\<rparr>"

definition TransitionNode :: "timestamp \<Rightarrow> node_transition \<Rightarrow> node_record op" where
  "TransitionNode clk t = scheck (nt_validate t)
    (sbind (GetNode (nt_run t) (nt_node t)) (\<lambda>rec.
      if nd_state rec \<noteq> nt_from t then sfail (Detailf ErrConflict)
      else (let now = store_now clk (nt_at t); rec' = applyTransition rec t now
            in sbind (write_node (nt_run t) (nt_node t) rec') (\<lambda>_.
               sbind (appendAudit clk (nodeTransitionEvent t rec' now)) (\<lambda>_. sreturn rec')))))"

subsection \<open>Authorizations and guarded actions\<close>

text \<open>
  A guarded action is the error its call returns, or \<open>None\<close> for a nil function; that it was called
  is recorded in \<open>st_executed\<close>.
\<close>

definition execute :: "guarded_effect \<Rightarrow> err option \<Rightarrow> (err option) op" where
  "execute g r s = (Inr r, s\<lparr>st_executed := st_executed s @ [g]\<rparr>)"

definition runGuarded ::
    "timestamp \<Rightarrow> run_id \<Rightarrow> node_id \<Rightarrow> object_name \<Rightarrow> err option option \<Rightarrow> audit_type \<Rightarrow> audit_type \<Rightarrow> unit op" where
  "runGuarded clk i n o1 action okEvent failEvent = (case action of
     None \<Rightarrow> sreturn ()
   | Some r \<Rightarrow> sbind (execute \<lparr>ge_run = i, ge_node = n, ge_object = o1\<rparr> r) (\<lambda>actionErr.
       stry (appendAudit clk ((new_event i n (if actionErr = None then okEvent else failEvent) clk
               [(''object'', obj_String o1)])\<lparr>ev_error := actionErr\<rparr>))
         (\<lambda>w. case actionErr of
             Some e \<Rightarrow> sfail e
           | None \<Rightarrow> (case w of Inl e \<Rightarrow> sfail e | Inr _ \<Rightarrow> sreturn ()))))"

definition authorizationEvent :: "authorization_record \<Rightarrow> timestamp \<Rightarrow> audit_event" where
  "authorizationEvent rec now =
     (let ev = new_event (ar_run rec) (ar_node rec) EventAuthorizationRecorded now
         [(''authorization_id'', ar_id rec), (''mode'', mode_String (ar_mode rec)),
          (''object'', obj_String (ar_object rec)), (''confirmation'', ar_confirmation rec)]
      in ev\<lparr>ev_detail := last_wins (ev_detail ev
           @ (case ar_relation rec of None \<Rightarrow> [] | Some r \<Rightarrow> [(''relation'', obj_String r)])
           @ map (\<lambda>(k, v). (''evidence.'' @ k, v)) (ar_evidence rec))\<rparr>)"

definition auth_entries :: "disk \<Rightarrow> run_id \<Rightarrow> (nat \<times> authorization_record) list option" where
  "auth_entries d i = rd_auth (run_dir_of d i)"

text \<open>One past the highest number in the directory.\<close>

definition nextSeq :: "(nat \<times> authorization_record) list option \<Rightarrow> nat" where
  "nextSeq entries = (case entries of None \<Rightarrow> 1 | Some ns \<Rightarrow> Max (set (0 # map fst ns)) + 1)"

definition not_recorded :: "'a op \<Rightarrow> 'a op" where
  "not_recorded m = stry m (\<lambda>r. case r of
     Inl e \<Rightarrow> sfail (Wrap ErrAuthorizationNotRecorded e) | Inr x \<Rightarrow> sreturn x)"

text \<open>What the caller left out is filled in.\<close>

definition granted :: "timestamp \<Rightarrow> run \<Rightarrow> authorization_record \<Rightarrow> authorization_record" where
  "granted now run rec =
     (let rec = (if ar_granted_at rec = zero_time then rec\<lparr>ar_granted_at := now\<rparr> else rec)
      in if ar_database rec = [] then rec\<lparr>ar_database := tgt_database (r_target run)\<rparr> else rec)"

text \<open>The part under the mutex, then the guarded action.\<close>

definition commit_authorization :: "timestamp \<Rightarrow> authorization_record \<Rightarrow> authorization_record op" where
  "commit_authorization clk rec = sbind (GetRun (ar_run rec)) (\<lambda>run.
     (let now = store_now clk zero_time;
          rec = granted now run rec
      in sbind (read_dir (\<lambda>d. nextSeq (auth_entries d (ar_run rec)))) (\<lambda>sq.
         (let rec = rec\<lparr>ar_id := event_id (ar_run rec) ''auth'' sq\<rparr>
          in sbind (write_file (make_auth_dir (ar_run rec)) (put_auth (ar_run rec) sq rec)) (\<lambda>_.
             sbind (appendAudit clk (authorizationEvent rec now)) (\<lambda>_. sreturn rec))))))"

definition RecordAuthorization ::
    "timestamp \<Rightarrow> authorization_record \<Rightarrow> err option option \<Rightarrow> authorization_record op" where
  "RecordAuthorization clk rec action =
     sbind (not_recorded (scheck (auth_record_Validate (Some rec)) (commit_authorization clk rec))) (\<lambda>rec.
     sbind (runGuarded clk (ar_run rec) (ar_node rec) (ar_object rec) action
              EventDestructiveExecuted EventDestructiveFailed) (\<lambda>_. sreturn rec))"

definition ListAuthorizations :: "run_id \<Rightarrow> authorization_record list op" where
  "ListAuthorizations i = sbind (read_dir (\<lambda>d. auth_entries d i)) (\<lambda>entries. case entries of
      None \<Rightarrow> sbind (GetRun i) (\<lambda>_. sreturn [])
    | Some ns \<Rightarrow> smap (\<lambda>rec. read_file (\<lambda>_. Some rec)) (map snd (sort_key fst ns)))"

subsection \<open>Leases\<close>

definition stored_lease :: "disk \<Rightarrow> run_id \<Rightarrow> lease option" where
  "stored_lease d i = rd_lease (run_dir_of d i)"

definition GetLease :: "run_id \<Rightarrow> lease op" where
  "GetLease i = stry (read_file (\<lambda>d. stored_lease d i)) (\<lambda>r. case r of
      Inl e \<Rightarrow> if not_found e then sfail (Detailf ErrNotFound) else sfail e | Inr l \<Rightarrow> sreturn l)"

definition write_lease :: "run_id \<Rightarrow> lease \<Rightarrow> unit op" where
  "write_lease i l = write_file (update_run_dir i (\<lambda>x. x)) (put_lease i (Some l))"

text \<open>The holder argument is already resolved: the store's own when the caller gave none.\<close>

definition AcquireLease :: "timestamp \<Rightarrow> run_id \<Rightarrow> string \<Rightarrow> int \<Rightarrow> lease op" where
  "AcquireLease clk i holder ttl = sbind (lift_result (normalizeTTL ttl)) (\<lambda>secs.
     sbind (GetRun i) (\<lambda>_.
     (let now = store_now clk zero_time in
      stry (GetLease i) (\<lambda>r.
        sbind (case r of
            Inl e \<Rightarrow> if not_found e then sreturn None else sfail e
          | Inr l \<Rightarrow> if l_holder l \<noteq> holder \<and> \<not> Expired l now then sfail (Detailf ErrLeaseLost)
                    else sreturn (Some l)) (\<lambda>existing.
        (let new = \<lparr>l_run = i, l_holder = holder, l_acquired_at =
               (case existing of
                  Some l \<Rightarrow> if l_holder l = holder \<and> l_acquired_at l \<noteq> zero_time then l_acquired_at l else now
                | None \<Rightarrow> now),
              l_heartbeat_at = now, l_ttl_seconds = secs\<rparr>
         in sbind (write_lease i new) (\<lambda>_.
            sbind (appendAudit clk (new_event i [] EventLeaseAcquired now
              [(''holder'', holder), (''ttl_seconds'', FormatInt secs)])) (\<lambda>_. sreturn new))))))))"

definition Heartbeat :: "timestamp \<Rightarrow> run_id \<Rightarrow> string \<Rightarrow> lease op" where
  "Heartbeat clk i holder = sbind (GetLease i) (\<lambda>l.
     if l_holder l \<noteq> holder then sfail (Detailf ErrLeaseLost)
     else (let l' = l\<lparr>l_heartbeat_at := store_now clk zero_time\<rparr>
           in sbind (write_lease i l') (\<lambda>_. sreturn l')))"

definition ReleaseLease :: "timestamp \<Rightarrow> run_id \<Rightarrow> string \<Rightarrow> unit op" where
  "ReleaseLease clk i holder = stry (GetLease i) (\<lambda>r. case r of
      Inl e \<Rightarrow> if not_found e then sreturn () else sfail e
    | Inr l \<Rightarrow> if l_holder l \<noteq> holder then sfail (Detailf ErrLeaseLost)
        else sbind (remove_file (put_lease i None)) (\<lambda>_.
             sbind (appendAudit clk (new_event i [] EventLeaseReleased clk [(''holder'', holder)])) (\<lambda>_. sreturn ())))"

subsection \<open>Cancellation\<close>

definition RequestCancel :: "timestamp \<Rightarrow> run_id \<Rightarrow> string \<Rightarrow> string \<Rightarrow> run op" where
  "RequestCancel clk i actor note = sbind (GetRun i) (\<lambda>run.
     (let now = store_now clk zero_time in
      if run_IsTerminal (r_status run) then sreturn run
      else sbind (if r_status run = RunRunning
                  then stry (GetLease i) (\<lambda>r. case r of
                      Inl e \<Rightarrow> if not_found e then sreturn False else sfail e
                    | Inr l \<Rightarrow> sreturn (\<not> Expired l now))
                  else sreturn False) (\<lambda>live.
        (let run = run\<lparr>r_cancel_requested := True, r_cancel_requested_at := Some now,
               r_cancel_actor := actor, r_cancel_note := note, r_updated_at := now\<rparr>
         in sbind (write_run i run) (\<lambda>_.
            sbind (appendAudit clk (new_event i [] EventCancelRequested now
              [(''actor'', actor), (''note'', note), (''live'', if live then ''true'' else ''false'')])) (\<lambda>_.
            if live then sreturn run
            else SetRunStatus clk \<lparr>ru_run = i, ru_from = r_status run, ru_to = RunCancelled, ru_error = [],
                   ru_clear_cancel = False, ru_at = now\<rparr>))))))"

definition CancellationRequested :: "run_id \<Rightarrow> bool op" where
  "CancellationRequested i = sbind (GetRun i) (\<lambda>run.
     sreturn (r_cancel_requested run \<or> r_status run = RunCancelled))"

end
