(* ===== verification/Store_Steps.thy ===== *)
theory Store_Steps
  imports File_Store
begin

text \<open>
  The abstract specification of the store: the single steps its disk may take.  Every operation of
  \<open>File_Store\<close>, whatever fails in it and wherever it is cut off, is a sequence of these steps
  (theory \<open>Store_Refinement\<close>), so what every step keeps holds after any crash.
\<close>

subsection \<open>Weakest preconditions\<close>

definition wp :: "('s, 'a) sop \<Rightarrow> ('a \<Rightarrow> 's \<Rightarrow> bool) \<Rightarrow> (err \<Rightarrow> 's \<Rightarrow> bool) \<Rightarrow> 's \<Rightarrow> bool" where
  "wp m Q E s = (case m s of (Inl e, s') \<Rightarrow> E e s' | (Inr x, s') \<Rightarrow> Q x s')"

named_theorems wp_rules \<open>backward rules for the operations on the store\<close>

lemma wp_simps [simp]:
  "wp (sreturn x) Q E = Q x"
  "wp (sfail e) Q E = E e"
  "wp (sbind m f) Q E = wp m (\<lambda>x. wp (f x) Q E) E"
  "wp (stry n g) Q E = wp n (\<lambda>x. wp (g (Inr x)) Q E) (\<lambda>e. wp (g (Inl e)) Q E)"
  "wp (scheck c p) Q E = (case c of None \<Rightarrow> wp p Q E | Some e \<Rightarrow> E e)"
  "wp (lift_result r) Q E = (case r of Inl e \<Rightarrow> E e | Inr x \<Rightarrow> Q x)"
  "wp (get_cache i) Q1 E1 = (\<lambda>s. Q1 (st_cache s i) s)"
  "wp (execute a b) Q2 E1 = (\<lambda>s. Q2 b (s\<lparr>st_executed := st_executed s @ [a]\<rparr>))"
  by (auto simp: fun_eq_iff wp_def sreturn_def sfail_def sbind_def stry_def scheck_def lift_result_def
      get_cache_def execute_def split: prod.splits sum.splits option.splits)

lemma wp_mono:
  "wp m Q E s \<Longrightarrow> (\<And>x s'. Q x s' \<Longrightarrow> Q' x s') \<Longrightarrow> (\<And>e s'. E e s' \<Longrightarrow> E' e s') \<Longrightarrow> wp m Q' E' s"
  by (auto simp: wp_def split: prod.splits sum.splits)

lemma wp_result: "wp m Q E s \<Longrightarrow> m s = (r, s') \<Longrightarrow> (case r of Inl e \<Rightarrow> E e s' | Inr x \<Rightarrow> Q x s')"
  by (simp add: wp_def split: sum.splits)

text \<open>
  \<open>quiet s s'\<close>: nothing but the script was touched.  \<open>no_stat s\<close>: no existence test fails.
\<close>

definition quiet :: "store \<Rightarrow> store \<Rightarrow> bool" where
  "quiet s s' \<longleftrightarrow> st_disk s' = st_disk s \<and> st_cache s' = st_cache s \<and> st_executed s' = st_executed s \<and>
     set (st_script s') \<subseteq> set (st_script s)"

lemma quiet_refl [simp]: "quiet s s" by (simp add: quiet_def)

lemma quiet_trans: "quiet s s' \<Longrightarrow> quiet s' s'' \<Longrightarrow> quiet s s''"
  by (auto simp: quiet_def)

lemma quiet_simps:
  "quiet s s' \<Longrightarrow> st_disk s' = st_disk s" "quiet s s' \<Longrightarrow> st_cache s' = st_cache s"
  "quiet s s' \<Longrightarrow> st_executed s' = st_executed s"
  by (simp_all add: quiet_def)

lemma next_io_quiet: "next_io s = (o1, s') \<Longrightarrow> quiet s s'"
  by (auto simp: next_io_def quiet_def split: list.splits)

lemma not_found_simps [simp]: "not_found (Detailf ErrNotFound)" "\<not> not_found io_error"
  by (simp_all add: not_found_def io_error_def state_error_defs state_kind_defs)

lemma wp_read_file [wp_rules]:
  assumes "\<And>x s'. quiet s s' \<Longrightarrow> get (st_disk s) = Some x \<Longrightarrow> Q x s'"
    and "\<And>e s'. quiet s s' \<Longrightarrow> not_found e \<longrightarrow> get (st_disk s) = None \<Longrightarrow> E e s'"
  shows "wp (read_file get) Q E s"
proof -
  obtain o1 s' where n: "next_io s = (o1, s')" by (cases "next_io s")
  have "quiet s s'" using next_io_quiet [OF n] .
  then show ?thesis using assms [of s'] n
    by (auto simp: wp_def read_file_def quiet_simps split: option.splits)
qed

lemma wp_read_dir [wp_rules]:
  assumes "\<And>s'. quiet s s' \<Longrightarrow> Q (get (st_disk s)) s'" "\<And>s'. quiet s s' \<Longrightarrow> E io_error s'"
  shows "wp (read_dir get) Q E s"
proof -
  obtain o1 s' where n: "next_io s = (o1, s')" by (cases "next_io s")
  have "quiet s s'" using next_io_quiet [OF n] .
  then show ?thesis using assms [of s'] n by (auto simp: wp_def read_dir_def quiet_simps)
qed

text \<open>A step of the script that leaves the disk \<open>d'\<close>.\<close>

definition wrote :: "disk \<Rightarrow> store \<Rightarrow> store \<Rightarrow> bool" where
  "wrote d' s s' \<longleftrightarrow> st_disk s' = d' \<and> st_cache s' = st_cache s \<and> st_executed s' = st_executed s \<and>
     set (st_script s') \<subseteq> set (st_script s)"

lemma wp_write_file [wp_rules]:
  assumes "\<And>s'. wrote (put (mkdir (st_disk s))) s s' \<Longrightarrow> Q () s'"
    and "\<And>d' s'. d' \<in> {st_disk s, mkdir (st_disk s), put (mkdir (st_disk s))} \<Longrightarrow> wrote d' s s' \<Longrightarrow> E io_error s'"
  shows "wp (write_file mkdir put) Q E s"
proof -
  obtain o1 s' where n: "next_io s = (o1, s')" by (cases "next_io s")
  have "quiet s s'" using next_io_quiet [OF n] .
  then show ?thesis using assms n
    by (auto simp: wp_def write_file_def wrote_def quiet_def)
qed

lemma wp_remove_file [wp_rules]:
  assumes "\<And>s'. wrote (del (st_disk s)) s s' \<Longrightarrow> Q () s'"
    and "\<And>d' s'. d' \<in> {st_disk s, del (st_disk s)} \<Longrightarrow> wrote d' s s' \<Longrightarrow> E io_error s'"
  shows "wp (remove_file del) Q E s"
proof -
  obtain o1 s' where n: "next_io s = (o1, s')" by (cases "next_io s")
  have "quiet s s'" using next_io_quiet [OF n] .
  then show ?thesis using assms n
    by (auto simp: wp_def remove_file_def wrote_def quiet_def)
qed

lemma wp_file_exists:
  assumes "IoStatFailed \<notin> set (st_script s)" "\<And>s'. quiet s s' \<Longrightarrow> Q (get (st_disk s) \<noteq> None) s'"
  shows "wp (file_exists get) Q E s"
proof -
  obtain o1 s' where n: "next_io s = (o1, s')" by (cases "next_io s")
  have "quiet s s'" using next_io_quiet [OF n] .
  moreover have "o1 \<noteq> IoStatFailed"
    using n assms(1) by (cases "st_script s") (auto simp: next_io_def)
  ultimately show ?thesis using assms(2) [of s'] n by (auto simp: wp_def file_exists_def quiet_simps)
qed

lemma wp_smap:
  assumes "I [] s" "\<And>pre x rest s'. xs = pre @ x # rest \<Longrightarrow> I pre s' \<Longrightarrow> wp (f x) (\<lambda>_. I (pre @ [x])) E s'"
    and "\<And>ys s'. I xs s' \<Longrightarrow> Q ys s'"
  shows "wp (smap f xs) Q E s"
proof -
  have "wp (smap f rest) Q' E s'"
    if "xs = pre @ rest" "I pre s'" "\<And>ys s'. I xs s' \<Longrightarrow> Q' ys s'" for pre rest s' Q'
    using that
  proof (induction rest arbitrary: pre s' Q')
    case (Cons x rest)
    have "wp (f x) (\<lambda>_. I (pre @ [x])) E s'" using Cons.prems assms(2) by blast
    then show ?case
      by (simp, elim wp_mono) (use Cons in auto)
  qed simp
  then show ?thesis using assms(1,3) by (metis append_Nil)
qed

text \<open>Operations that only read.\<close>

definition quiet_op :: "'a op \<Rightarrow> bool" where
  "quiet_op m \<longleftrightarrow> (\<forall>s. quiet s (snd (m s)))"

lemma wp_quiet:
  assumes "quiet_op m" "\<And>x s'. quiet s s' \<Longrightarrow> Q x s'" "\<And>e s'. quiet s s' \<Longrightarrow> E e s'"
  shows "wp m Q E s"
proof -
  have "quiet s (snd (m s))" using assms(1) by (simp add: quiet_op_def)
  then show ?thesis using assms(2,3) by (auto simp: wp_def split: prod.splits sum.splits)
qed

named_theorems quiet_ops \<open>the operations that only read\<close>

lemma quiet_op_basic [quiet_ops, intro!]:
  "quiet_op (sreturn x)" "quiet_op (sfail e)" "quiet_op (lift_result r)" "quiet_op (get_cache i)"
  by (simp_all add: quiet_op_def sreturn_def sfail_def lift_result_def get_cache_def)

lemma quiet_op_read [quiet_ops, intro!]:
  "quiet_op (read_file get)" "quiet_op (read_dir get')" "quiet_op (file_exists get)"
  by (auto simp: quiet_op_def read_file_def read_dir_def file_exists_def next_io_quiet split: prod.splits)

lemma quiet_op_sbind [intro!]: "quiet_op m \<Longrightarrow> (\<And>x. quiet_op (f x)) \<Longrightarrow> quiet_op (sbind m f)"
  unfolding quiet_op_def sbind_def
  by (auto split: prod.splits sum.splits) (metis quiet_trans snd_conv)+

lemma quiet_op_stry [intro!]: "quiet_op m \<Longrightarrow> (\<And>x. quiet_op (f x)) \<Longrightarrow> quiet_op (stry m f)"
  unfolding quiet_op_def stry_def by (auto split: prod.splits) (metis quiet_trans snd_conv)

lemma quiet_op_smap [intro!]: "(\<And>x. quiet_op (f x)) \<Longrightarrow> quiet_op (smap f xs)"
  by (induction xs) auto

end
