(* ===== verification/Store_Spec.thy ===== *)
theory Store_Spec
  imports Store_Steps
begin

text \<open>
  What the store promises, as a transition system on its disk: the steps a run's directory may take,
  each with the condition under which the protocol allows it, and the invariants those steps keep.
  Theory \<open>Store_Refinement\<close> shows that the operations take no other steps.
\<close>

subsection \<open>Directories\<close>

lemma run_dir_of_update [simp]:
  "run_dir_of (update_run_dir i f d) j =
     (if encodeSegment j = encodeSegment i then f (run_dir_of d j) else run_dir_of d j)"
  by (simp add: run_dir_of_def update_run_dir_def update_conv')

lemma run_dir_of_cong: "encodeSegment j = encodeSegment i \<Longrightarrow> run_dir_of d j = run_dir_of d i"
  by (simp add: run_dir_of_def)

lemma update_run_dir_const: "update_run_dir i f d = update_run_dir i (\<lambda>_. f (run_dir_of d i)) d"
  by (simp add: update_run_dir_def)

definition dir_node :: "run_dir \<Rightarrow> node_id \<Rightarrow> node_record option" where
  "dir_node x n = map_of (dir_entries (rd_nodes x)) (encodeSegment n)"

lemma node_at_dir: "node_at d i n = dir_node (run_dir_of d i) n"
  by (simp add: node_at_def dir_node_def dir_entries_def split: option.splits)

definition put_dir_node :: "node_id \<Rightarrow> node_record \<Rightarrow> run_dir \<Rightarrow> run_dir" where
  "put_dir_node n r x = x\<lparr>rd_nodes := Some (AList.update (encodeSegment n) r (dir_entries (rd_nodes x)))\<rparr>"

lemma dir_node_put [simp]:
  "dir_node (put_dir_node n r x) m = (if encodeSegment m = encodeSegment n then Some r else dir_node x m)"
  by (simp add: dir_node_def put_dir_node_def dir_entries_def update_conv')

lemma put_dir_node_sel [simp]:
  "rd_run (put_dir_node n r x) = rd_run x" "rd_lease (put_dir_node n r x) = rd_lease x"
  "rd_auth (put_dir_node n r x) = rd_auth x" "rd_trail (put_dir_node n r x) = rd_trail x"
  by (simp_all add: put_dir_node_def)

lemma dir_node_cong [simp]:
  "dir_node (x\<lparr>rd_run := a\<rparr>) n = dir_node x n" "dir_node (x\<lparr>rd_lease := l\<rparr>) n = dir_node x n"
  "dir_node (x\<lparr>rd_auth := u\<rparr>) n = dir_node x n" "dir_node (x\<lparr>rd_trail := t\<rparr>) n = dir_node x n"
  "dir_node (x\<lparr>rd_nodes := Some (dir_entries (rd_nodes x))\<rparr>) n = dir_node x n"
  by (simp_all add: dir_node_def dir_entries_def)

text \<open>The complete records of a trail.\<close>

fun complete :: "trail_line list \<Rightarrow> audit_event list" where
  "complete [] = []"
| "complete (EventLine e # r) = e # complete r"
| "complete (_ # r) = complete r"

lemma complete_append [simp]: "complete (xs @ ys) = complete xs @ complete ys"
  by (induction xs rule: complete.induct) auto

lemma read_lines_complete: "read_lines opn ls = Inr evs \<Longrightarrow> evs = complete ls"
proof (induction opn ls arbitrary: evs rule: read_lines.induct)
  case (2 opn e r)
  then show ?case by (cases "read_lines opn r") auto
qed (auto split: if_splits)

lemma read_lines_total: "GarbageLine \<notin> set ls \<Longrightarrow> read_lines opn ls = Inr (complete ls)"
  by (induction opn ls rule: read_lines.induct) auto

definition dir_events :: "run_dir \<Rightarrow> audit_event list" where
  "dir_events x = complete (tr_lines (rd_trail x))"

subsection \<open>The steps\<close>

text \<open>What identifies a run and never changes.\<close>

definition same_identity :: "run \<Rightarrow> run \<Rightarrow> bool" where
  "same_identity r r' \<longleftrightarrow> r_id r' = r_id r \<and> r_plan_id r' = r_plan_id r \<and> r_operation r' = r_operation r \<and>
     r_target r' = r_target r \<and> r_plan_digest r' = r_plan_digest r \<and> r_actor r' = r_actor r \<and>
     r_node_count r' = r_node_count r \<and> r_started_at r' = r_started_at r"

text \<open>
  The record of every node of the plan is on the disk; nodes whose ids have the same file name share
  one, which needs two ids that agree in their first 48 bytes and in eight bytes of SHA-256.
\<close>

definition nodes_recorded :: "run_id \<Rightarrow> plan \<Rightarrow> run_dir \<Rightarrow> bool" where
  "nodes_recorded i p x \<longleftrightarrow> (\<forall>n \<in> set (p_nodes p). \<exists>n' \<in> set (p_nodes p). \<exists>rec.
     encodeSegment (n_id n') = encodeSegment (n_id n) \<and> dir_node x (n_id n) = Some rec \<and>
     nd_run rec = i \<and> nd_id rec = n_id n' \<and> nd_kind rec = n_kind n' \<and> nd_state rec = InitialNodeState \<and>
     nd_attempts rec = 0)"

inductive dir_step :: "run_id \<Rightarrow> run_dir \<Rightarrow> run_dir \<Rightarrow> bool" for i where
  make_dir: "dir_step i x x"
| make_nodes: "dir_step i x (x\<lparr>rd_nodes := Some (dir_entries (rd_nodes x))\<rparr>)"
| make_auth: "dir_step i x (x\<lparr>rd_auth := Some (dir_entries (rd_auth x))\<rparr>)"
| new_node: "rd_run x = None \<Longrightarrow> dir_step i x (put_dir_node (n_id n) (opened_node now i n) x)"
| open_run:
    "rd_run x = None \<Longrightarrow> nr_plan req = Some p \<Longrightarrow> new_run_validate req = None \<Longrightarrow> nodes_recorded i p x \<Longrightarrow>
     dir_step i x (x\<lparr>rd_run := Some (opened_run now i (nr_actor req) p)\<rparr>)"
| change_run:
    "rd_run x = Some r \<Longrightarrow> r_id r = i \<Longrightarrow> same_identity r r' \<Longrightarrow> \<not> run_IsTerminal (r_status r) \<Longrightarrow>
     r_status r' = r_status r \<or> ValidRunTransition (r_status r) (r_status r') \<Longrightarrow>
     dir_step i x (x\<lparr>rd_run := Some r'\<rparr>)"
| change_node:
    "dir_node x n = Some rec \<Longrightarrow> nd_run rec = i \<Longrightarrow> nd_id rec = n \<Longrightarrow> nd_state rec = nt_from t \<Longrightarrow>
     nt_validate t = None \<Longrightarrow> dir_step i x (put_dir_node n (applyTransition rec t now) x)"
| authorize:
    "rd_run x = Some r \<Longrightarrow> r_id r = i \<Longrightarrow> auth_record_Validate (Some rec) = None \<Longrightarrow> ar_run rec = i \<Longrightarrow>
     sq = nextSeq (rd_auth x) \<Longrightarrow> ar_id rec = event_id i ''auth'' sq \<Longrightarrow>
     dir_step i x (x\<lparr>rd_auth := Some (AList.update sq rec (dir_entries (rd_auth x)))\<rparr>)"
| take_lease:
    "(\<And>l. rd_lease x = Some l \<Longrightarrow> l_holder l' = l_holder l \<or> Expired l (l_heartbeat_at l')) \<Longrightarrow>
     dir_step i x (x\<lparr>rd_lease := Some l'\<rparr>)"
| release_lease: "rd_lease x = Some l \<Longrightarrow> dir_step i x (x\<lparr>rd_lease := None\<rparr>)"
| append:
    "ev_run e = i \<Longrightarrow> ev_seq e = last_seq (dir_events x) + 1 \<Longrightarrow> ev_id e = event_id i ''evt'' (ev_seq e) \<Longrightarrow>
     dir_step i x (x\<lparr>rd_trail := append_trail o1 e (rd_trail x)\<rparr>)"

text \<open>
  A guarded statement runs only when a validated record that names its run, node and object is on the
  disk, and the trail says so.
\<close>

definition authorized :: "run_dir \<Rightarrow> guarded_effect \<Rightarrow> bool" where
  "authorized x g \<longleftrightarrow> (\<exists>rec \<in> set (map snd (dir_entries (rd_auth x))). auth_record_Validate (Some rec) = None \<and>
     ar_run rec = ge_run g \<and> ar_node rec = ge_node g \<and> ar_object rec = ge_object g \<and>
     (\<exists>e \<in> set (dir_events x). ev_type e = EventAuthorizationRecorded \<and> ev_node e = ge_node g \<and>
        map_of (ev_detail e) ''authorization_id'' = Some (ar_id rec)))"

type_synonym system = "disk \<times> guarded_effect list"

inductive sys_step :: "system \<Rightarrow> system \<Rightarrow> bool" where
  on_disk: "dir_step i (run_dir_of d i) x \<Longrightarrow> sys_step (d, ex) (update_run_dir i (\<lambda>_. x) d, ex)"
| on_database: "authorized (run_dir_of d (ge_run g)) g \<Longrightarrow> sys_step (d, ex) (d, ex @ [g])"

abbreviation sys_steps :: "system \<Rightarrow> system \<Rightarrow> bool" where "sys_steps \<equiv> sys_step\<^sup>*\<^sup>*"

subsection \<open>What every step keeps\<close>

text \<open>Every entry of the first map is still in the second, changed as \<open>E\<close> allows.\<close>

definition carried :: "('a \<Rightarrow> 'a \<Rightarrow> bool) \<Rightarrow> ('k \<Rightarrow> 'a option) \<Rightarrow> ('k \<Rightarrow> 'a option) \<Rightarrow> bool" where
  "carried E m m' \<longleftrightarrow> (\<forall>k a. m k = Some a \<longrightarrow> (\<exists>b. m' k = Some b \<and> E a b))"

lemma carried_refl: "(\<And>a. E a a) \<Longrightarrow> carried E m m" by (simp add: carried_def)

lemma carried_trans:
  assumes "transp E" "carried E m1 m2" "carried E m2 m3"
  shows "carried E m1 m3"
  unfolding carried_def
proof (intro allI impI)
  fix k a assume "m1 k = Some a"
  then obtain b where b: "m2 k = Some b" "E a b" using assms(2) by (auto simp: carried_def)
  then obtain c where "m3 k = Some c" "E b c" using assms(3) by (auto simp: carried_def)
  then show "\<exists>b. m3 k = Some b \<and> E a b" using transpD [OF assms(1) b(2)] by blast
qed

lemma same_identity_refl [simp]: "same_identity r r" by (simp add: same_identity_def)

lemma same_identity_trans: "same_identity a b \<Longrightarrow> same_identity b c \<Longrightarrow> same_identity a c"
  by (simp add: same_identity_def)

inductive_cases sys_stepE: "sys_step (d, ex) (d', ex')"

text \<open>A property of a directory's change that every step has, every sequence of steps has.\<close>

lemma steps_dir:
  assumes "sys_steps (d, ex) (d', ex')"
    and "\<And>i x x'. dir_step i x x' \<Longrightarrow> R x x'" "\<And>x. R x x" "\<And>x y z. R x y \<Longrightarrow> R y z \<Longrightarrow> R x z"
  shows "R (run_dir_of d j) (run_dir_of d' j)"
  using assms(1)
proof (induction "(d', ex')" arbitrary: d' ex')
  case base
  then show ?case using assms(3) by simp
next
  case (step s)
  obtain d1 ex1 where s: "s = (d1, ex1)" by (cases s)
  have "R (run_dir_of d1 j) (run_dir_of d' j)"
  proof (cases rule: sys_stepE [OF step(2) [unfolded s]])
    case (1 i x)
    then show ?thesis using run_dir_of_cong [of j i d1] assms(2,3) by auto
  qed (use assms(3) in auto)
  then show ?case using step(3) s assms(4) by blast
qed

lemma dir_invariant:
  assumes "sys_steps (d, ex) (d', ex')" "P (run_dir_of d j)" "\<And>i x x'. dir_step i x x' \<Longrightarrow> P x \<Longrightarrow> P x'"
  shows "P (run_dir_of d' j)"
  using steps_dir [OF assms(1), of "\<lambda>x x'. P x \<longrightarrow> P x'" j] assms(2,3) by blast

subsection \<open>Runs\<close>

definition run_evolves :: "run \<Rightarrow> run \<Rightarrow> bool" where
  "run_evolves r r' \<longleftrightarrow> same_identity r r' \<and> (run_IsTerminal (r_status r) \<longrightarrow> r' = r) \<and>
     (\<lambda>a b. ValidRunTransition a b)\<^sup>*\<^sup>* (r_status r) (r_status r')"

lemma run_evolves_refl [simp]: "run_evolves r r" by (simp add: run_evolves_def)

lemma run_evolves_trans: "run_evolves a b \<Longrightarrow> run_evolves b c \<Longrightarrow> run_evolves a c"
  unfolding run_evolves_def by (auto intro: same_identity_trans)

lemma transp_run_evolves: "transp run_evolves"
  by (rule transpI) (rule run_evolves_trans)

lemma dir_step_run:
  "dir_step i x x' \<Longrightarrow> rd_run x = Some r \<Longrightarrow> \<exists>r'. rd_run x' = Some r' \<and> run_evolves r r'"
  by (induction rule: dir_step.induct) (auto simp: run_evolves_def)

lemma steps_run:
  assumes "sys_steps (d, ex) (d', ex')" "stored_run d i = Some r"
  shows "\<exists>r'. stored_run d' i = Some r' \<and> run_evolves r r'"
proof -
  have "carried run_evolves (\<lambda>_. rd_run (run_dir_of d i)) (\<lambda>_. rd_run (run_dir_of d' i))"
  proof (rule steps_dir [OF assms(1)])
    show "carried run_evolves (\<lambda>_. rd_run x) (\<lambda>_. rd_run x')" if "dir_step i x x'" for i x x'
      using dir_step_run [OF that] by (simp add: carried_def)
  qed (auto simp: carried_refl intro: carried_trans [OF transp_run_evolves])
  then show ?thesis using assms(2) by (simp add: carried_def stored_run_def)
qed

subsection \<open>Nodes of a visible run\<close>

definition node_evolves :: "node_record \<Rightarrow> node_record \<Rightarrow> bool" where
  "node_evolves a b \<longleftrightarrow> nd_run b = nd_run a \<and> nd_id b = nd_id a \<and> nd_kind b = nd_kind a \<and>
     nd_object b = nd_object a \<and> nd_attempts a \<le> nd_attempts b \<and> (IsComplete (nd_state a) \<longrightarrow> b = a) \<and>
     (\<exists>rs. node_path (nd_state a) rs (nd_state b))"

lemma node_evolves_refl [simp]: "node_evolves r r"
  unfolding node_evolves_def using node_path.path_refl by fastforce

lemma node_evolves_trans:
  assumes "node_evolves a b" "node_evolves b c"
  shows "node_evolves a c"
proof -
  have "\<exists>rs. node_path (nd_state a) rs (nd_state c)"
    using assms node_path_append unfolding node_evolves_def by blast
  moreover have "IsComplete (nd_state a) \<Longrightarrow> c = a" using assms by (auto simp: node_evolves_def)
  ultimately show ?thesis using assms by (simp add: node_evolves_def)
qed

lemma applyTransition_sel [simp]:
  "nd_run (applyTransition rec t now) = nd_run rec" "nd_id (applyTransition rec t now) = nd_id rec"
  "nd_kind (applyTransition rec t now) = nd_kind rec" "nd_object (applyTransition rec t now) = nd_object rec"
  "nd_state (applyTransition rec t now) = nt_to t"
  "nd_attempts (applyTransition rec t now) = nd_attempts rec + (if nt_increment t then 1 else 0)"
  by (simp_all add: applyTransition_def Let_def)

lemma nt_validate_step: "nt_validate t = None \<Longrightarrow> node_step (nt_from t) (nt_reason_of t) (nt_to t)"
  by (simp add: nt_validate_def CheckTransition_None ValidTransition_step split: if_splits)

lemma applyTransition_evolves:
  assumes "nd_state rec = nt_from t" "nt_validate t = None"
  shows "node_evolves rec (applyTransition rec t now)"
proof -
  have s: "node_step (nd_state rec) (nt_reason_of t) (nt_to t)"
    using nt_validate_step [OF assms(2)] assms(1) by simp
  then have "\<not> IsComplete (nd_state rec)" using complete_no_step by blast
  moreover have "\<exists>rs. node_path (nd_state rec) rs (nt_to t)"
    using s node_path.intros by blast
  ultimately show ?thesis by (simp add: node_evolves_def)
qed

lemma dir_node_segment: "encodeSegment m = encodeSegment n \<Longrightarrow> dir_node x m = dir_node x n"
  by (simp add: dir_node_def)

definition nodes_evolve :: "run_dir \<Rightarrow> run_dir \<Rightarrow> bool" where
  "nodes_evolve x x' \<longleftrightarrow> rd_run x \<noteq> None \<longrightarrow> rd_run x' \<noteq> None \<and>
     carried node_evolves (dir_node x) (dir_node x')"

lemma carried_put_dir_node:
  assumes "dir_node x n = Some a" "node_evolves a b"
  shows "carried node_evolves (dir_node x) (dir_node (put_dir_node n b x))"
  unfolding carried_def
proof (intro allI impI)
  fix m c assume c: "dir_node x m = Some c"
  show "\<exists>d. dir_node (put_dir_node n b x) m = Some d \<and> node_evolves c d"
  proof (cases "encodeSegment m = encodeSegment n")
    case True
    then have "c = a" using c assms(1) dir_node_segment [OF True, of x] by simp
    then show ?thesis using True assms(2) by simp
  qed (use c in simp)
qed

lemma dir_step_nodes: "dir_step i x x' \<Longrightarrow> nodes_evolve x x'"
proof (induction rule: dir_step.induct)
  case (change_node x n rec t now)
  then have "node_evolves rec (applyTransition rec t now)" using applyTransition_evolves by simp
  then show ?case using carried_put_dir_node [OF change_node(1)] by (simp add: nodes_evolve_def)
qed (simp_all add: nodes_evolve_def carried_def)

lemma transp_node_evolves: "transp node_evolves"
  by (rule transpI) (rule node_evolves_trans)

lemmas carried_nodes_trans = carried_trans [OF transp_node_evolves]

lemma nodes_evolve_trans: "nodes_evolve x y \<Longrightarrow> nodes_evolve y z \<Longrightarrow> nodes_evolve x z"
  unfolding nodes_evolve_def using carried_nodes_trans by blast

lemma steps_nodes:
  assumes "sys_steps (d, ex) (d', ex')" "stored_run d i \<noteq> None" "node_at d i n = Some rec"
  shows "\<exists>rec'. node_at d' i n = Some rec' \<and> node_evolves rec rec'"
proof -
  have "nodes_evolve (run_dir_of d i) (run_dir_of d' i)"
    by (rule steps_dir [OF assms(1) dir_step_nodes])
       (auto simp: nodes_evolve_def carried_refl intro: carried_nodes_trans)
  then show ?thesis using assms(2,3) by (simp add: nodes_evolve_def carried_def stored_run_def node_at_dir)
qed

text \<open>A run that can be seen has its whole plan on the disk.\<close>

definition plan_recorded :: "run_dir \<Rightarrow> bool" where
  "plan_recorded x \<longleftrightarrow> (\<forall>r. rd_run x = Some r \<longrightarrow> (\<exists>req p now. nr_plan req = Some p \<and> new_run_validate req = None \<and>
     same_identity (opened_run now (r_id r) (nr_actor req) p) r \<and>
     (\<forall>n \<in> set (p_nodes p). \<exists>n' \<in> set (p_nodes p). \<exists>rec.
        encodeSegment (n_id n') = encodeSegment (n_id n) \<and> dir_node x (n_id n) = Some rec \<and>
        nd_run rec = r_id r \<and> nd_id rec = n_id n' \<and> nd_kind rec = n_kind n')))"

lemma opened_plan_recorded:
  assumes "nr_plan req = Some p" "new_run_validate req = None" "nodes_recorded i p x"
  shows "plan_recorded (x\<lparr>rd_run := Some (opened_run now i (nr_actor req) p)\<rparr>)"
proof -
  have i: "r_id (opened_run now i (nr_actor req) p) = i" by (simp add: opened_run_def)
  then show ?thesis using assms unfolding plan_recorded_def nodes_recorded_def
    by (simp add: exI [of _ req] exI [of _ now]) (metis same_identity_refl)
qed

lemma plan_recorded_step:
  assumes "dir_step i x x'" "plan_recorded x"
  shows "plan_recorded x'"
proof (cases "rd_run x")
  case None
  show ?thesis
  proof (cases rule: dir_step.cases [OF assms(1)])
    case (5 req p now)
    then show ?thesis using opened_plan_recorded by blast
  qed (use None in \<open>auto simp: plan_recorded_def\<close>)
next
  case (Some r)
  obtain r' where r': "rd_run x' = Some r'" "same_identity r r'"
    using dir_step_run [OF assms(1) Some] by (auto simp: run_evolves_def)
  then have i: "r_id r' = r_id r" by (simp add: same_identity_def)
  obtain req p now where p: "nr_plan req = Some p" "new_run_validate req = None"
     "same_identity (opened_run now (r_id r) (nr_actor req) p) r" and
    n: "\<forall>n \<in> set (p_nodes p). \<exists>n' \<in> set (p_nodes p). \<exists>rec.
        encodeSegment (n_id n') = encodeSegment (n_id n) \<and> dir_node x (n_id n) = Some rec \<and>
        nd_run rec = r_id r \<and> nd_id rec = n_id n' \<and> nd_kind rec = n_kind n'"
    using assms(2) Some unfolding plan_recorded_def by blast
  have e: "\<exists>rec'. dir_node x' m = Some rec' \<and> node_evolves rec rec'" if "dir_node x m = Some rec" for m rec
    using dir_step_nodes [OF assms(1)] Some that by (simp add: nodes_evolve_def carried_def)
  have "\<forall>n \<in> set (p_nodes p). \<exists>n' \<in> set (p_nodes p). \<exists>rec.
        encodeSegment (n_id n') = encodeSegment (n_id n) \<and> dir_node x' (n_id n) = Some rec \<and>
        nd_run rec = r_id r \<and> nd_id rec = n_id n' \<and> nd_kind rec = n_kind n'"
    using n e by (fastforce simp: node_evolves_def)
  then show ?thesis using p r' i same_identity_trans [OF p(3) r'(2)] unfolding plan_recorded_def by auto
qed

subsection \<open>The trail\<close>

lemma append_trail_lines:
  "tr_lines (append_trail o1 e t) \<in> {tr_lines t, tr_lines t @ [TornLine], tr_lines t @ [EventLine e]}"
  by (cases o1) (simp_all add: append_trail_def)

definition trail_extends :: "run_dir \<Rightarrow> run_dir \<Rightarrow> bool" where
  "trail_extends x x' \<longleftrightarrow> (\<exists>new. tr_lines (rd_trail x') = tr_lines (rd_trail x) @ new)"

lemma dir_step_trail: "dir_step i x x' \<Longrightarrow> trail_extends x x'"
proof (induction rule: dir_step.induct)
  case (append e x o1)
  then show ?case using append_trail_lines [of o1 e "rd_trail x"] by (auto simp: trail_extends_def)
qed (auto simp: trail_extends_def)

lemma trail_extends_trans: "trail_extends x y \<Longrightarrow> trail_extends y z \<Longrightarrow> trail_extends x z"
  by (auto simp: trail_extends_def)

lemma steps_trail: "sys_steps (d, ex) (d', ex') \<Longrightarrow> trail_extends (run_dir_of d i) (run_dir_of d' i)"
  by (erule steps_dir [OF _ dir_step_trail]) (auto simp: trail_extends_def)

lemma trail_extends_events: "trail_extends x x' \<Longrightarrow> \<exists>new. dir_events x' = dir_events x @ new"
  by (auto simp: trail_extends_def dir_events_def)

text \<open>The records are numbered from one without a gap.\<close>

definition numbered :: "run_dir \<Rightarrow> bool" where
  "numbered x \<longleftrightarrow> GarbageLine \<notin> set (tr_lines (rd_trail x)) \<and>
     map ev_seq (dir_events x) = [1..<Suc (length (dir_events x))]"

lemma last_seq_numbered: "map ev_seq evs = [1..<Suc (length evs)] \<Longrightarrow> last_seq evs = length evs"
  by (cases evs rule: rev_cases) (auto simp: last_seq_def)

lemma numbered_step: "dir_step i x x' \<Longrightarrow> numbered x \<Longrightarrow> numbered x'"
proof (induction rule: dir_step.induct)
  case (append e x o1)
  then have e: "ev_seq e = Suc (length (dir_events x))"
    using append last_seq_numbered by (simp add: numbered_def)
  show ?case using append_trail_lines [of o1 e "rd_trail x"] append(4) e
    by (auto simp: numbered_def dir_events_def)
qed (simp_all add: numbered_def dir_events_def)

subsection \<open>Authorizations\<close>

lemma nextSeq_fresh: "nextSeq es \<notin> set (map fst (dir_entries es))"
proof (cases es)
  case (Some ns)
  have "k \<le> Max (set (0 # map fst ns))" if "k \<in> set (map fst ns)" for k
    using that by (intro Max_ge) auto
  then have "Suc (Max (set (0 # map fst ns))) \<notin> set (map fst ns)" using Suc_n_not_le_n by blast
  then show ?thesis using Some by (simp only: nextSeq_def dir_entries_def option.case Suc_eq_plus1 not_False_eq_True)
qed (simp add: nextSeq_def dir_entries_def)

lemma update_fresh: "k \<notin> set (map fst al) \<Longrightarrow> AList.update k v al = al @ [(k, v)]"
  by (induction al) auto

definition auth_extends :: "run_dir \<Rightarrow> run_dir \<Rightarrow> bool" where
  "auth_extends x x' \<longleftrightarrow> (\<exists>new. dir_entries (rd_auth x') = dir_entries (rd_auth x) @ new)"

lemma dir_step_auth: "dir_step i x x' \<Longrightarrow> auth_extends x x'"
proof (induction rule: dir_step.induct)
  case (authorize x r rec sq)
  then show ?case using update_fresh [OF nextSeq_fresh, of "rd_auth x" rec]
    by (simp add: auth_extends_def dir_entries_def)
qed (simp_all add: auth_extends_def dir_entries_def)

lemma auth_extends_trans: "auth_extends x y \<Longrightarrow> auth_extends y z \<Longrightarrow> auth_extends x z"
  by (auto simp: auth_extends_def)

lemma steps_auth: "sys_steps (d, ex) (d', ex') \<Longrightarrow> auth_extends (run_dir_of d i) (run_dir_of d' i)"
  by (erule steps_dir [OF _ dir_step_auth]) (auto simp: auth_extends_def)

lemma authorized_extends:
  "authorized x g \<Longrightarrow> auth_extends x x' \<Longrightarrow> trail_extends x x' \<Longrightarrow> authorized x' g"
  unfolding authorized_def using trail_extends_events [of x x'] by (fastforce simp: auth_extends_def)

lemma steps_executed:
  assumes "sys_steps (d, ex) (d', ex')"
  shows "\<exists>new. ex' = ex @ new \<and> (\<forall>g \<in> set new. authorized (run_dir_of d' (ge_run g)) g)"
  using assms
proof (induction "(d', ex')" arbitrary: d' ex')
  case (step s)
  obtain d1 ex1 where s: "s = (d1, ex1)" by (cases s)
  obtain new where new: "ex1 = ex @ new" "\<forall>g \<in> set new. authorized (run_dir_of d1 (ge_run g)) g"
    using step(3) s by blast
  have "sys_steps (d1, ex1) (d', ex')" using step(2) s by simp
  then have "\<forall>g \<in> set new. authorized (run_dir_of d' (ge_run g)) g"
    using new(2) authorized_extends steps_auth steps_trail by blast
  then show ?case
    by (cases rule: sys_stepE [OF step(2) [unfolded s]]) (use new in auto)
qed auto

end
