(* ===== verification/Store_Refinement.thy ===== *)
theory Store_Refinement
  imports Store_Spec
begin

text \<open>
  Every operation of the file store takes only steps of the specification, under every script of
  outcomes in which no existence test fails: wherever an operation is cut off, the disk it leaves is
  one the specification reaches.
\<close>

subsection \<open>The simulation relation\<close>

definition sys_of :: "store \<Rightarrow> system" where "sys_of s = (st_disk s, st_executed s)"

text \<open>A cached cursor that has the trail's size is the trail's last number.\<close>

definition cache_ok :: "(run_id \<Rightarrow> (nat \<times> nat) option) \<Rightarrow> disk \<Rightarrow> bool" where
  "cache_ok c d \<longleftrightarrow> (\<forall>i sq sz. c i = Some (sq, sz) \<longrightarrow>
     (let t = trail_of d i in sz \<le> trail_size t \<and>
       (sz = trail_size t \<longrightarrow> last_seq (complete (tr_lines t)) = sq)))"

definition good :: "store \<Rightarrow> bool" where
  "good s \<longleftrightarrow> cache_ok (st_cache s) (st_disk s) \<and> IoStatFailed \<notin> set (st_script s)"

definition reach :: "store \<Rightarrow> store \<Rightarrow> bool" where
  "reach s s' \<longleftrightarrow> good s' \<and> sys_steps (sys_of s) (sys_of s')"

lemma reach_refl: "good s \<Longrightarrow> reach s s" by (simp add: reach_def)

lemma append_trail_size:
  "trail_size t < trail_size (append_trail o1 e t) \<or>
     trail_size t = trail_size (append_trail o1 e t) \<and> tr_lines (append_trail o1 e t) = tr_lines t"
  by (cases o1; cases "tr_open t") (auto simp: append_trail_def trail_size_def)

lemma cache_ok_append:
  assumes "cache_ok c d"
  shows "cache_ok c (update_run_dir i (\<lambda>_. (run_dir_of d i)\<lparr>rd_trail := append_trail o1 e (rd_trail (run_dir_of d i))\<rparr>) d)"
  unfolding cache_ok_def
proof (intro allI impI)
  fix j sq sz assume c: "c j = Some (sq, sz)"
  define t where "t = trail_of d j"
  have t: "sz \<le> trail_size t" "sz = trail_size t \<Longrightarrow> last_seq (complete (tr_lines t)) = sq"
    using assms c by (auto simp: cache_ok_def t_def Let_def)
  show "let t = trail_of (update_run_dir i (\<lambda>_. (run_dir_of d i)\<lparr>rd_trail := append_trail o1 e (rd_trail (run_dir_of d i))\<rparr>) d) j
     in sz \<le> trail_size t \<and> (sz = trail_size t \<longrightarrow> last_seq (complete (tr_lines t)) = sq)"
  proof (cases "encodeSegment j = encodeSegment i")
    case True
    then have "rd_trail (run_dir_of d i) = t" by (simp add: t_def trail_of_def run_dir_of_def)
    then show ?thesis using True t append_trail_size [of t o1 e]
      by (auto simp: trail_of_def Let_def)
  next
    case False
    then show ?thesis using t by (simp add: trail_of_def t_def Let_def)
  qed
qed

lemma cache_ok_same_trail:
  assumes "cache_ok c d" "rd_trail x = rd_trail (run_dir_of d i)"
  shows "cache_ok c (update_run_dir i (\<lambda>_. x) d)"
proof -
  have "trail_of (update_run_dir i (\<lambda>_. x) d) j = trail_of d j" for j
    using assms(2) run_dir_of_cong [of j i d] by (auto simp: trail_of_def)
  then show ?thesis using assms(1) by (simp add: cache_ok_def)
qed

lemma cache_ok_dir_step: "dir_step i (run_dir_of d i) x \<Longrightarrow> cache_ok c d \<Longrightarrow> cache_ok c (update_run_dir i (\<lambda>_. x) d)"
  by (cases rule: dir_step.cases) (auto intro: cache_ok_append cache_ok_same_trail)

lemma cache_ok_sys_step: "sys_step (d, ex) (d', ex') \<Longrightarrow> cache_ok c d \<Longrightarrow> cache_ok c d'"
  by (cases rule: sys_stepE) (auto intro: cache_ok_dir_step)

lemma cache_ok_sys_steps:
  assumes "sys_steps (d, ex) (d', ex')" "cache_ok c d"
  shows "cache_ok c d'"
  using assms(1)
proof (induction "(d', ex')" arbitrary: d' ex')
  case (step s)
  then show ?case using cache_ok_sys_step by (cases s) blast
qed (use assms(2) in auto)

lemma reach_quiet: "reach s0 s \<Longrightarrow> quiet s s' \<Longrightarrow> reach s0 s'"
  by (auto simp: reach_def good_def quiet_def sys_of_def)

lemma reach_wrote:
  assumes "reach s0 s" "wrote d' s s'" "sys_steps (st_disk s, st_executed s) (d', st_executed s)"
  shows "reach s0 s'"
  using assms cache_ok_sys_steps [OF assms(3), of "st_cache s"]
  by (auto simp: reach_def good_def wrote_def sys_of_def)

lemma dir_step_sys:
  "dir_step i (run_dir_of d i) (f (run_dir_of d i)) \<Longrightarrow> sys_step (d, ex) (update_run_dir i f d, ex)"
  using on_disk [of i d "f (run_dir_of d i)" ex] by (simp add: update_run_dir_const [of i f])

lemma reach_write:
  assumes "reach s0 s" "wrote d' s s'"
    and "dir_step i (run_dir_of (st_disk s) i) (f (run_dir_of (st_disk s) i))"
    and "dir_step i (f (run_dir_of (st_disk s) i)) (g (f (run_dir_of (st_disk s) i)))"
    and "d' \<in> {st_disk s, update_run_dir i f (st_disk s), update_run_dir i g (update_run_dir i f (st_disk s))}"
  shows "reach s0 s'"
proof -
  have 1: "sys_step (st_disk s, st_executed s) (update_run_dir i f (st_disk s), st_executed s)"
    using assms(3) by (rule dir_step_sys)
  have "sys_step (update_run_dir i f (st_disk s), st_executed s) (update_run_dir i g (update_run_dir i f (st_disk s)), st_executed s)"
    by (rule dir_step_sys) (use assms(4) in simp)
  then have "sys_steps (st_disk s, st_executed s) (d', st_executed s)"
    using 1 assms(5) by (auto intro: rtranclp.rtrancl_into_rtrancl)
  then show ?thesis using reach_wrote assms(1,2) by blast
qed

lemma wp_write:
  assumes "reach s0 s"
    and "dir_step i (run_dir_of (st_disk s) i) (f (run_dir_of (st_disk s) i))"
    and "dir_step i (f (run_dir_of (st_disk s) i)) (g (f (run_dir_of (st_disk s) i)))"
    and "\<And>s'. reach s0 s' \<Longrightarrow> st_disk s' = update_run_dir i g (update_run_dir i f (st_disk s)) \<Longrightarrow> Q () s'"
    and "\<And>s'. reach s0 s' \<Longrightarrow> E io_error s'"
  shows "wp (write_file (update_run_dir i f) (update_run_dir i g)) Q E s"
proof (rule wp_write_file)
  fix s' assume w: "wrote (update_run_dir i g (update_run_dir i f (st_disk s))) s s'"
  have "reach s0 s'" by (rule reach_write [where f = f and g = g, OF assms(1) w assms(2,3)]) simp
  then show "Q () s'" using assms(4) w by (simp add: wrote_def)
next
  fix d' s' assume w: "d' \<in> {st_disk s, update_run_dir i f (st_disk s), update_run_dir i g (update_run_dir i f (st_disk s))}"
    "wrote d' s s'"
  show "E io_error s'" using reach_write [where f = f and g = g, OF assms(1) w(2) assms(2,3) w(1)] assms(5) by blast
qed

subsection \<open>Reading\<close>

lemma wp_GetRun:
  assumes "\<And>r s'. quiet s s' \<Longrightarrow> stored_run (st_disk s) i = Some r \<Longrightarrow> r_id r = i \<Longrightarrow> Q r s'"
    and "\<And>e s'. quiet s s' \<Longrightarrow> E e s'"
  shows "wp (GetRun i) Q E s"
  using assms by (auto simp: GetRun_def intro!: wp_read_file)

lemma wp_GetNode:
  assumes "\<And>r s'. quiet s s' \<Longrightarrow> node_at (st_disk s) i n = Some r \<Longrightarrow> nd_id r = n \<Longrightarrow> nd_run r = i \<Longrightarrow> Q r s'"
    and "\<And>e s'. quiet s s' \<Longrightarrow> E e s'"
  shows "wp (GetNode i n) Q E s"
  using assms by (auto simp: GetNode_def intro!: wp_read_file)

lemma wp_GetLease:
  assumes "\<And>l s'. quiet s s' \<Longrightarrow> stored_lease (st_disk s) i = Some l \<Longrightarrow> Q l s'"
    and "\<And>e s'. quiet s s' \<Longrightarrow> not_found e \<longrightarrow> stored_lease (st_disk s) i = None \<Longrightarrow> E e s'"
  shows "wp (GetLease i) Q E s"
  using assms by (auto simp: GetLease_def intro!: wp_read_file)

lemma quiet_op_GetRun [intro!]: "quiet_op (GetRun i)"
  by (auto simp: GetRun_def split: sum.splits)

lemma quiet_op_GetNode [intro!]: "quiet_op (GetNode i n)"
  by (auto simp: GetNode_def split: sum.splits)

lemma quiet_op_GetLease [intro!]: "quiet_op (GetLease i)"
  by (auto simp: GetLease_def split: sum.splits)

lemma quiet_op_readAudit [intro!]: "quiet_op (readAudit i)"
  by (auto simp: readAudit_def)

lemma quiet_op_ListAudit [intro!]: "quiet_op (ListAudit i n)"
  by (auto simp: ListAudit_def)

lemma quiet_op_ListNodes [intro!]: "quiet_op (ListNodes i)"
  by (auto simp: ListNodes_def split: option.splits)

lemma quiet_op_ListAuthorizations [intro!]: "quiet_op (ListAuthorizations i)"
  by (auto simp: ListAuthorizations_def split: option.splits)

lemma quiet_op_FindRuns [intro!]: "quiet_op (FindRuns q)"
  by (auto simp: FindRuns_def read_runs_def Let_def split: sum.splits)

lemma quiet_op_CancellationRequested [intro!]: "quiet_op (CancellationRequested i)"
  by (auto simp: CancellationRequested_def)

lemma wp_readAudit:
  assumes "\<And>s'. quiet s s' \<Longrightarrow> Q (complete (tr_lines (trail_of (st_disk s) i))) s'"
    and "\<And>e s'. quiet s s' \<Longrightarrow> E e s'"
  shows "wp (readAudit i) Q E s"
  using assms by (auto simp: readAudit_def intro!: wp_read_dir dest!: read_lines_complete split: sum.splits)

subsection \<open>Appending to the trail\<close>

definition appended :: "run_id \<Rightarrow> audit_event \<Rightarrow> store \<Rightarrow> store \<Rightarrow> bool" where
  "appended i e s s' \<longleftrightarrow> st_executed s' = st_executed s \<and>
     st_disk s' = update_run_dir i (\<lambda>x. x\<lparr>rd_trail := append_trail IoOk e (rd_trail x)\<rparr>) (st_disk s)"

definition next_event :: "run_id \<Rightarrow> audit_event \<Rightarrow> store \<Rightarrow> bool" where
  "next_event i e s \<longleftrightarrow> ev_run e = i \<and> ev_seq e = last_seq (dir_events (run_dir_of (st_disk s) i)) + 1 \<and>
     ev_id e = event_id i ''evt'' (ev_seq e)"

lemma next_event_step:
  assumes "next_event i e s"
  shows "sys_step (st_disk s, ex)
    (update_run_dir i (\<lambda>x. x\<lparr>rd_trail := append_trail o1 e (rd_trail x)\<rparr>) (st_disk s), ex)"
  using assms by (intro dir_step_sys dir_step.append) (simp_all add: next_event_def)

lemma complete_append_ok: "complete (tr_lines (append_trail IoOk e t)) = complete (tr_lines t) @ [e]"
  by (simp add: append_trail_def)

lemma cache_ok_cursor:
  "cache_ok c d \<Longrightarrow> complete (tr_lines (trail_of d i)) = evs @ [e] \<Longrightarrow>
   cache_ok (c(i \<mapsto> (ev_seq e, trail_size (trail_of d i)))) d"
  by (auto simp: cache_ok_def Let_def last_seq_def)

lemma wp_write_trail:
  assumes r: "reach s0 s" and e: "next_event i e s"
    and Q: "\<And>s'. reach s0 s' \<Longrightarrow> appended i e s s' \<Longrightarrow> Q e s'" and E: "\<And>s'. reach s0 s' \<Longrightarrow> E io_error s'"
  shows "wp (write_trail i (ev_seq e) e) Q E s"
proof -
  obtain o1 s1 where n: "next_io s = (o1, s1)" by (cases "next_io s")
  define d' where "d' = update_run_dir i (\<lambda>x. x\<lparr>rd_trail := append_trail o1 e (rd_trail x)\<rparr>) (st_disk s1)"
  have q: "quiet s s1" using next_io_quiet [OF n] .
  then have r1: "reach s0 s1" using r reach_quiet by blast
  have o1: "o1 \<noteq> IoStatFailed" using r n by (cases "st_script s") (auto simp: next_io_def reach_def good_def)
  have step: "sys_step (st_disk s1, st_executed s1) (d', st_executed s1)"
    unfolding d'_def using next_event_step [of i e s] e q by (simp add: quiet_simps)
  have r2: "reach s0 (s1\<lparr>st_disk := d'\<rparr>)"
    by (rule reach_wrote [OF r1, of d']) (use step in \<open>auto simp: wrote_def\<close>)
  show ?thesis
  proof (cases "o1 = IoOk")
    case True
    have c: "complete (tr_lines (trail_of d' i)) = complete (tr_lines (trail_of (st_disk s1) i)) @ [e]"
      using True complete_append_ok by (simp add: d'_def trail_of_def)
    have "cache_ok ((st_cache s1)(i \<mapsto> (ev_seq e, trail_size (trail_of d' i)))) d'"
      by (rule cache_ok_cursor [OF _ c]) (use r2 in \<open>simp add: reach_def good_def\<close>)
    then have "reach s0 (s1\<lparr>st_disk := d', st_cache := (st_cache s1)(i \<mapsto> (ev_seq e, trail_size (trail_of d' i)))\<rparr>)"
      using r2 by (simp add: reach_def good_def sys_of_def)
    then show ?thesis
      using Q True n q by (auto simp: wp_def write_trail_def appended_def Let_def d'_def quiet_simps)
  next
    case False
    then show ?thesis using E [OF r1] E [OF r2] o1 n by (auto simp: wp_def write_trail_def Let_def d'_def)
  qed
qed

text \<open>The event an append stores.\<close>

definition stored_event :: "timestamp \<Rightarrow> audit_event \<Rightarrow> nat \<Rightarrow> audit_event" where
  "stored_event clk ev sq = ev\<lparr>ev_seq := sq, ev_id := event_id (ev_run ev) ''evt'' sq,
     ev_occurred_at := store_now clk (ev_at ev), ev_at := zero_time\<rparr>"

lemma wp_appendAudit:
  assumes r: "reach s0 s"
    and Q: "\<And>sq s'. reach s0 s' \<Longrightarrow> appended (ev_run ev) (stored_event clk ev sq) s s' \<Longrightarrow> Q (stored_event clk ev sq) s'"
    and E: "\<And>e s'. reach s0 s' \<Longrightarrow> E e s'"
  shows "wp (appendAudit clk ev) Q E s"
proof -
  let ?i = "ev_run ev" and ?last = "last_seq (complete (tr_lines (trail_of (st_disk s) (ev_run ev))))"
  have wr: "wp (write_trail ?i (?last + 1) (stored_event clk ev (?last + 1))) Q E s'" if q: "quiet s s'" for s'
  proof -
    have n: "next_event ?i (stored_event clk ev (?last + 1)) s'"
      using q by (simp add: next_event_def stored_event_def dir_events_def trail_of_def quiet_simps)
    have "wp (write_trail ?i (ev_seq (stored_event clk ev (?last + 1))) (stored_event clk ev (?last + 1))) Q E s'"
      by (rule wp_write_trail [OF reach_quiet [OF r q] n])
         (use Q E q in \<open>auto simp: appended_def quiet_simps\<close>)
    then show ?thesis by (simp add: stored_event_def)
  qed
  have rd: "wp (readAudit ?i) (\<lambda>evs. wp (write_trail ?i (last_seq evs + 1) (stored_event clk ev (last_seq evs + 1))) Q E) E s'"
    if q: "quiet s s'" for s'
    using wr E q reach_quiet [OF r] quiet_trans [OF q]
    by (intro wp_readAudit) (auto simp: quiet_simps(1) [OF q])
  have cached: "sq = ?last" if "quiet s s'" "st_cache s' ?i = Some (sq, trail_size (trail_of (st_disk s) ?i))" for s' sq
    using r that by (auto simp: reach_def good_def cache_ok_def quiet_simps Let_def)
  have cursor: "wp (case st_cache s' ?i of
        Some (sq, sz) \<Rightarrow> if sz = trail_size (trail_of (st_disk s) ?i) then sreturn sq
          else sbind (readAudit ?i) (\<lambda>evs. sreturn (last_seq evs))
      | None \<Rightarrow> sbind (readAudit ?i) (\<lambda>evs. sreturn (last_seq evs)))
    (\<lambda>sq. wp (write_trail ?i (sq + 1) (stored_event clk ev (sq + 1))) Q E) E s'" if q: "quiet s s'" for s'
    using rd [OF q] wr [OF q] cached [OF q] by (auto split: option.splits)
  show ?thesis
  proof (cases "ev_validate (Some ev)")
    case None
    have "wp (appendAudit clk ev) Q E s =
      wp (read_dir (\<lambda>d. trail_size (trail_of d ?i))) (\<lambda>size s'. wp (case st_cache s' ?i of
        Some (sq, sz) \<Rightarrow> if sz = size then sreturn sq else sbind (readAudit ?i) (\<lambda>evs. sreturn (last_seq evs))
      | None \<Rightarrow> sbind (readAudit ?i) (\<lambda>evs. sreturn (last_seq evs)))
        (\<lambda>sq. wp (write_trail ?i (sq + 1) (stored_event clk ev (sq + 1))) Q E) E s') E s"
      using None by (simp add: appendAudit_def stored_event_def)
    moreover have "\<dots>" by (rule wp_read_dir) (use cursor E reach_quiet [OF r] in auto)
    ultimately show ?thesis by simp
  qed (use E r in \<open>simp add: appendAudit_def\<close>)
qed

subsection \<open>Safe operations\<close>

text \<open>Whatever its outcome, the operation has only taken steps of the specification.\<close>

definition safe :: "'a op \<Rightarrow> bool" where
  "safe m \<longleftrightarrow> (\<forall>s0 s. reach s0 s \<longrightarrow> wp m (\<lambda>_. reach s0) (\<lambda>_. reach s0) s)"

lemma safeI: "(\<And>s0 s. reach s0 s \<Longrightarrow> wp m (\<lambda>_. reach s0) (\<lambda>_. reach s0) s) \<Longrightarrow> safe m"
  by (simp add: safe_def)

lemma safeD: "safe m \<Longrightarrow> reach s0 s \<Longrightarrow> wp m (\<lambda>_. reach s0) (\<lambda>_. reach s0) s"
  by (simp add: safe_def)

lemma safe_quiet: "quiet_op m \<Longrightarrow> safe m"
  by (auto simp: safe_def intro!: wp_quiet intro: reach_quiet)

lemma wp_safe:
  assumes "safe m" "reach s0 s" "\<And>x s'. reach s0 s' \<Longrightarrow> Q x s'" "\<And>e s'. reach s0 s' \<Longrightarrow> E e s'"
  shows "wp m Q E s"
  using wp_mono [OF safeD [OF assms(1,2)]] assms(3,4) by blast

lemma safe_appendAudit: "safe (appendAudit clk ev)"
  by (rule safeI) (rule wp_appendAudit)

lemma wp_append_safe:
  "reach s0 s \<Longrightarrow> (\<And>x s'. reach s0 s' \<Longrightarrow> Q x s') \<Longrightarrow> (\<And>e s'. reach s0 s' \<Longrightarrow> E e s') \<Longrightarrow>
   wp (appendAudit clk ev) Q E s"
  by (rule wp_safe [OF safe_appendAudit])

subsection \<open>The operations\<close>

lemma put_run_eq: "put_run i r = update_run_dir i (\<lambda>x. x\<lparr>rd_run := Some r\<rparr>)" by (simp add: put_run_def)
lemma put_node_eq: "put_node i n r = update_run_dir i (put_dir_node n r)"
  by (simp add: put_node_def put_dir_node_def fun_eq_iff update_run_dir_def)

lemma wp_write_run:
  assumes "reach s0 s" "stored_run (st_disk s) i = Some r" "r_id r = i" "same_identity r r'"
    "\<not> run_IsTerminal (r_status r)" "r_status r' = r_status r \<or> ValidRunTransition (r_status r) (r_status r')"
    and "\<And>s'. reach s0 s' \<Longrightarrow> stored_run (st_disk s') i = Some r' \<Longrightarrow> Q () s'" "\<And>s'. reach s0 s' \<Longrightarrow> E io_error s'"
  shows "wp (write_run i r') Q E s"
  unfolding write_run_def put_run_eq
  by (rule wp_write [OF assms(1)]) (use assms dir_step.change_run dir_step.make_dir in \<open>auto simp: stored_run_def\<close>)

lemma ValidRunTransition_not_terminal: "ValidRunTransition a b \<Longrightarrow> \<not> run_IsTerminal a"
  by (auto simp: ValidRunTransition_def runTransitions_def run_IsTerminal_def split: if_splits)

lemma updated_run_identity [simp]: "same_identity r (updated_run now u r)" "r_status (updated_run now u r) = ru_to u"
    "r_id (updated_run now u r) = r_id r"
  by (simp_all add: updated_run_def same_identity_def Let_def)

lemma safe_SetRunStatus: "safe (SetRunStatus clk u)"
proof (rule safeI)
  fix s0 s assume r: "reach s0 s"
  show "wp (SetRunStatus clk u) (\<lambda>_. reach s0) (\<lambda>_. reach s0) s"
    unfolding SetRunStatus_def wp_simps
  proof (rule wp_GetRun)
    fix run s' assume run: "quiet s s'" "stored_run (st_disk s) (ru_run u) = Some run" "r_id run = ru_run u"
    have r': "reach s0 s'" using r run(1) reach_quiet by blast
    have "wp (write_run (r_id run) (updated_run now u run)) (\<lambda>_. wp (appendAudit clk ev) (\<lambda>_. reach s0) (\<lambda>_. reach s0)) (\<lambda>_. reach s0) s'"
      if "ValidRunTransition (r_status run) (ru_to u)" for now ev
      by (rule wp_write_run [OF r'])
         (use run that ValidRunTransition_not_terminal in \<open>auto simp: quiet_simps intro: safeD [OF safe_appendAudit]\<close>)
    then show "wp (if r_status run \<noteq> ru_from u then sfail (Detailf ErrConflict)
     else scheck (CheckRunTransition (ru_from u) (ru_to u))
       (let now = store_now clk (ru_at u); run' = updated_run now u run
        in sbind (write_run (r_id run) run') (\<lambda>_.
           sbind (appendAudit clk (new_event (r_id run) [] EventRunStatusChanged now
             [(''from'', run_status_String (r_status run)), (''to'', run_status_String (ru_to u)),
              (''error'', ru_error u)])) (\<lambda>_. sreturn run')))) (\<lambda>_. reach s0) (\<lambda>_. reach s0) s'"
      using r' by (simp add: CheckRunTransition_def Let_def)
  qed (use r reach_quiet in blast)
qed

lemma wp_put_node:
  assumes "reach s0 s" "dir_step i (x\<lparr>rd_nodes := Some (dir_entries (rd_nodes x))\<rparr>) (put_dir_node n rec (x\<lparr>rd_nodes := Some (dir_entries (rd_nodes x))\<rparr>))"
    and "x = run_dir_of (st_disk s) i"
    and "\<And>s'. reach s0 s' \<Longrightarrow> run_dir_of (st_disk s') i = put_dir_node n rec (x\<lparr>rd_nodes := Some (dir_entries (rd_nodes x))\<rparr>) \<Longrightarrow> Q () s'"
    and "\<And>s'. reach s0 s' \<Longrightarrow> E io_error s'"
  shows "wp (write_node i n rec) Q E s"
  unfolding write_node_def make_nodes_dir_def put_node_eq
  by (rule wp_write [OF assms(1)]) (use assms dir_step.make_nodes in auto)

lemma safe_TransitionNode: "safe (TransitionNode clk t)"
proof (rule safeI)
  fix s0 s assume r: "reach s0 s"
  show "wp (TransitionNode clk t) (\<lambda>_. reach s0) (\<lambda>_. reach s0) s"
  proof (cases "nt_validate t")
    case None
    show ?thesis
      unfolding TransitionNode_def wp_simps None option.case
    proof (rule wp_GetNode)
      fix rec s' assume rec: "quiet s s'" "node_at (st_disk s) (nt_run t) (nt_node t) = Some rec"
        "nd_id rec = nt_node t" "nd_run rec = nt_run t"
      have r': "reach s0 s'" using r rec(1) reach_quiet by blast
      have "wp (write_node (nt_run t) (nt_node t) (applyTransition rec t now))
          (\<lambda>_. wp (appendAudit clk ev) (\<lambda>_. reach s0) (\<lambda>_. reach s0)) (\<lambda>_. reach s0) s'"
        if "nd_state rec = nt_from t" for now ev
        by (rule wp_put_node [OF r' _ refl])
           (use rec that None in \<open>auto simp: quiet_simps node_at_dir intro: safeD [OF safe_appendAudit] dir_step.change_node\<close>)
      then show "wp (if nd_state rec \<noteq> nt_from t then sfail (Detailf ErrConflict)
        else (let now = store_now clk (nt_at t); rec' = applyTransition rec t now
            in sbind (write_node (nt_run t) (nt_node t) rec') (\<lambda>_.
               sbind (appendAudit clk (nodeTransitionEvent t rec' now)) (\<lambda>_. sreturn rec')))) (\<lambda>_. reach s0) (\<lambda>_. reach s0) s'"
        using r' by (simp add: Let_def)
    qed (use r reach_quiet in blast)
  qed (use r in \<open>simp add: TransitionNode_def\<close>)
qed

subsubsection \<open>Opening a run\<close>

definition opened_upto :: "timestamp \<Rightarrow> run_id \<Rightarrow> node list \<Rightarrow> run_dir \<Rightarrow> bool" where
  "opened_upto now i ns x \<longleftrightarrow> rd_run x = None \<and> (\<forall>n \<in> set ns. \<exists>n' \<in> set ns.
     encodeSegment (n_id n') = encodeSegment (n_id n) \<and> dir_node x (n_id n) = Some (opened_node now i n'))"

lemma opened_upto_put:
  assumes "opened_upto now i ns x"
  shows "opened_upto now i (ns @ [n]) (put_dir_node (n_id n) (opened_node now i n) x)"
  using assms unfolding opened_upto_def by (auto split: if_splits)

lemma opened_upto_nodes_dir [simp]:
  "opened_upto now i ns (x\<lparr>rd_nodes := Some (dir_entries (rd_nodes x))\<rparr>) = opened_upto now i ns x"
  by (simp add: opened_upto_def)

lemma opened_node_sel [simp]:
  "nd_run (opened_node now i n) = i" "nd_id (opened_node now i n) = n_id n" "nd_kind (opened_node now i n) = n_kind n"
  "nd_state (opened_node now i n) = InitialNodeState" "nd_attempts (opened_node now i n) = 0"
  by (simp_all add: opened_node_def)

lemma opened_upto_recorded: "opened_upto now i (p_nodes p) x \<Longrightarrow> nodes_recorded i p x"
  unfolding opened_upto_def nodes_recorded_def by fastforce

lemma wp_write_opened:
  assumes "reach s0 s" "opened_upto now i ns (run_dir_of (st_disk s) i)"
  shows "wp (write_node i (n_id n) (opened_node now i n))
    (\<lambda>_ s'. reach s0 s' \<and> opened_upto now i (ns @ [n]) (run_dir_of (st_disk s') i)) (\<lambda>_. reach s0) s"
proof (rule wp_put_node [OF assms(1) _ refl])
  show "dir_step i ((run_dir_of (st_disk s) i)\<lparr>rd_nodes := Some (dir_entries (rd_nodes (run_dir_of (st_disk s) i)))\<rparr>)
     (put_dir_node (n_id n) (opened_node now i n) ((run_dir_of (st_disk s) i)\<lparr>rd_nodes := Some (dir_entries (rd_nodes (run_dir_of (st_disk s) i)))\<rparr>))"
    by (rule dir_step.new_node) (use assms(2) in \<open>simp add: opened_upto_def\<close>)
qed (simp_all add: opened_upto_put assms(2))

lemma wp_open_run:
  assumes "reach s0 s" "opened_upto now i (p_nodes p) (run_dir_of (st_disk s) i)"
    and "nr_plan req = Some p" "new_run_validate req = None"
    and "\<And>s'. reach s0 s' \<Longrightarrow> Q () s'" "\<And>s'. reach s0 s' \<Longrightarrow> E io_error s'"
  shows "wp (write_run i (opened_run now i (nr_actor req) p)) Q E s"
  unfolding write_run_def put_run_eq
proof (rule wp_write [OF assms(1)])
  show "dir_step i (run_dir_of (st_disk s) i) ((run_dir_of (st_disk s) i)\<lparr>rd_run := Some (opened_run now i (nr_actor req) p)\<rparr>)"
    by (rule dir_step.open_run) (use assms opened_upto_recorded in \<open>auto simp: opened_upto_def\<close>)
qed (use assms dir_step.make_dir in auto)

lemma safe_CreateRun: "safe (CreateRun clk random req)"
proof (rule safeI)
  fix s0 s assume r: "reach s0 s"
  show "wp (CreateRun clk random req) (\<lambda>_. reach s0) (\<lambda>_. reach s0) s"
  proof (cases "new_run_validate req = None")
    case valid: True
    then obtain p where p: "nr_plan req = Some p" by (cases "nr_plan req") (simp_all add: new_run_validate_def)
    define now where "now = store_now clk (nr_started_at req)"
    define i where "i = (if nr_id req = [] then NewRunID now random else nr_id req)"
    let ?run = "opened_run now i (nr_actor req) p"
    define opn where "opn s1 \<longleftrightarrow> wp (smap (\<lambda>n. write_node i (n_id n) (opened_node now i n)) (p_nodes p))
      (\<lambda>_. wp (write_run i ?run) (\<lambda>_. wp (appendAudit clk (run_opened_event i now ?run)) (\<lambda>_. reach s0) (\<lambda>_. reach s0))
        (\<lambda>_. reach s0)) (\<lambda>_. reach s0) s1" for s1
    have o1: "opn s1" if "quiet s s1" "stored_run (st_disk s) i = None" for s1
      unfolding opn_def
    proof (rule wp_smap [where I = "\<lambda>ns s'. reach s0 s' \<and> opened_upto now i ns (run_dir_of (st_disk s') i)"])
      show "reach s0 s1 \<and> opened_upto now i [] (run_dir_of (st_disk s1) i)"
        using r that reach_quiet by (auto simp: opened_upto_def stored_run_def quiet_simps)
    next
      fix pre n rest s'
      assume "reach s0 s' \<and> opened_upto now i pre (run_dir_of (st_disk s') i)"
      then show "wp (write_node i (n_id n) (opened_node now i n))
        (\<lambda>_ s'. reach s0 s' \<and> opened_upto now i (pre @ [n]) (run_dir_of (st_disk s') i)) (\<lambda>_. reach s0) s'"
        using wp_write_opened by simp
    next
      fix s' assume I: "reach s0 s' \<and> opened_upto now i (p_nodes p) (run_dir_of (st_disk s') i)"
      show "wp (write_run i ?run)
        (\<lambda>_. wp (appendAudit clk (run_opened_event i now ?run)) (\<lambda>_. reach s0) (\<lambda>_. reach s0)) (\<lambda>_. reach s0) s'"
        by (rule wp_open_run [OF conjunct1 [OF I] conjunct2 [OF I] p valid]) (simp_all add: safeD [OF safe_appendAudit])
    qed
    have "wp (file_exists (\<lambda>d. stored_run d i)) (\<lambda>found s1. if found then reach s0 s1 else opn s1) (\<lambda>_. reach s0) s"
    proof (rule wp_file_exists)
      show "IoStatFailed \<notin> set (st_script s)" using r by (simp add: reach_def good_def)
      show "if stored_run (st_disk s) i \<noteq> None then reach s0 s' else opn s'" if "quiet s s'" for s'
        using reach_quiet [OF r that] o1 [OF that] by (cases "stored_run (st_disk s) i") simp_all
    qed
    moreover have "wp (CreateRun clk random req) (\<lambda>_. reach s0) (\<lambda>_. reach s0) s =
       wp (file_exists (\<lambda>d. stored_run d i))
         (\<lambda>found. wp (if found then sfail (Detailf ErrConflict)
            else sbind (smap (\<lambda>n. write_node i (n_id n) (opened_node now i n)) (p_nodes p)) (\<lambda>_.
              sbind (write_run i ?run) (\<lambda>_. sbind (appendAudit clk (run_opened_event i now ?run)) (\<lambda>_. sreturn ?run))))
           (\<lambda>_. reach s0) (\<lambda>_. reach s0)) (\<lambda>_. reach s0) s"
      by (simp only: CreateRun_def valid p option.case Let_def now_def [symmetric] i_def [symmetric] wp_simps)
    moreover have "wp (if found then sfail (Detailf ErrConflict)
            else sbind (smap (\<lambda>n. write_node i (n_id n) (opened_node now i n)) (p_nodes p)) (\<lambda>_.
              sbind (write_run i ?run) (\<lambda>_. sbind (appendAudit clk (run_opened_event i now ?run)) (\<lambda>_. sreturn ?run))))
           (\<lambda>_. reach s0) (\<lambda>_. reach s0) = (\<lambda>s1. if found then reach s0 s1 else opn s1)" for found
      by (simp add: opn_def fun_eq_iff)
    ultimately show ?thesis by simp
  next
    case False
    then show ?thesis using r by (auto simp: CreateRun_def)
  qed
qed

subsubsection \<open>Leases and cancellation\<close>

lemma wp_put_lease:
  assumes "reach s0 s" "\<And>l. stored_lease (st_disk s) i = Some l \<Longrightarrow> l_holder l' = l_holder l \<or> Expired l (l_heartbeat_at l')"
    and "\<And>s'. reach s0 s' \<Longrightarrow> Q () s'" "\<And>s'. reach s0 s' \<Longrightarrow> E io_error s'"
  shows "wp (write_lease i l') Q E s"
  unfolding write_lease_def put_lease_def
  by (rule wp_write [OF assms(1)]) (use assms in \<open>auto simp: stored_lease_def intro: dir_step.make_dir dir_step.take_lease\<close>)

lemma safe_Heartbeat: "safe (Heartbeat clk i holder)"
proof (rule safeI)
  fix s0 s assume r: "reach s0 s"
  show "wp (Heartbeat clk i holder) (\<lambda>_. reach s0) (\<lambda>_. reach s0) s"
    unfolding Heartbeat_def wp_simps
  proof (rule wp_GetLease)
    fix l s' assume l: "quiet s s'" "stored_lease (st_disk s) i = Some l"
    have r': "reach s0 s'" using r l(1) reach_quiet by blast
    have "wp (write_lease i (l\<lparr>l_heartbeat_at := now\<rparr>)) (\<lambda>_. reach s0) (\<lambda>_. reach s0) s'" for now
      by (rule wp_put_lease [OF r']) (use l in \<open>auto simp: quiet_simps\<close>)
    then show "wp (if l_holder l \<noteq> holder then sfail (Detailf ErrLeaseLost)
      else (let l' = l\<lparr>l_heartbeat_at := store_now clk zero_time\<rparr>
           in sbind (write_lease i l') (\<lambda>_. sreturn l'))) (\<lambda>_. reach s0) (\<lambda>_. reach s0) s'"
      using r' by (simp add: Let_def)
  qed (use r reach_quiet in blast)
qed

lemma safe_AcquireLease: "safe (AcquireLease clk i holder ttl)"
proof (rule safeI)
  fix s0 s assume r: "reach s0 s"
  define now where "now = store_now clk zero_time"
  have w: "wp (write_lease i l') (\<lambda>_. wp (appendAudit clk ev) (\<lambda>_. reach s0) (\<lambda>_. reach s0)) (\<lambda>_. reach s0) s'"
    if "quiet s s'" "\<And>l. stored_lease (st_disk s) i = Some l \<Longrightarrow> l_holder l = holder \<or> Expired l now"
       "l_holder l' = holder" "l_heartbeat_at l' = now" for s' l' ev
    by (rule wp_put_lease [OF reach_quiet [OF r that(1)]]) (use that in \<open>auto simp: quiet_simps intro: safeD [OF safe_appendAudit]\<close>)
  show "wp (AcquireLease clk i holder ttl) (\<lambda>_. reach s0) (\<lambda>_. reach s0) s"
  proof (cases "normalizeTTL ttl")
    case (Inr secs)
    show ?thesis
      unfolding AcquireLease_def wp_simps Inr sum.case Let_def now_def [symmetric]
    proof (rule wp_GetRun, rule wp_GetLease)
      fix l s1 s2 assume "quiet s s1" "quiet s1 s2" "stored_lease (st_disk s1) i = Some l"
      then show "wp (if l_holder l \<noteq> holder \<and> \<not> Expired l now then sfail (Detailf ErrLeaseLost) else sreturn (Some l))
         (\<lambda>x. wp (write_lease i
               \<lparr>l_run = i, l_holder = holder, l_acquired_at =
                  case x of None \<Rightarrow> now | Some l \<Rightarrow> if l_holder l = holder \<and> l_acquired_at l \<noteq> zero_time then l_acquired_at l else now,
                  l_heartbeat_at = now, l_ttl_seconds = secs\<rparr>)
             (\<lambda>_. wp (appendAudit clk (new_event i [] EventLeaseAcquired now [(''holder'', holder), (''ttl_seconds'', FormatInt secs)]))
                (\<lambda>_. reach s0) (\<lambda>_. reach s0)) (\<lambda>_. reach s0)) (\<lambda>_. reach s0) s2"
        using r by (auto simp: quiet_simps intro!: w intro: quiet_trans reach_quiet)
    next
      fix e s1 s2 assume "quiet s s1" "quiet s1 s2" "not_found e \<longrightarrow> stored_lease (st_disk s1) i = None"
      then show "wp (if not_found e then sreturn None else sfail e)
         (\<lambda>x. wp (write_lease i
               \<lparr>l_run = i, l_holder = holder, l_acquired_at =
                  case x of None \<Rightarrow> now | Some l \<Rightarrow> if l_holder l = holder \<and> l_acquired_at l \<noteq> zero_time then l_acquired_at l else now,
                  l_heartbeat_at = now, l_ttl_seconds = secs\<rparr>)
             (\<lambda>_. wp (appendAudit clk (new_event i [] EventLeaseAcquired now [(''holder'', holder), (''ttl_seconds'', FormatInt secs)]))
                (\<lambda>_. reach s0) (\<lambda>_. reach s0)) (\<lambda>_. reach s0)) (\<lambda>_. reach s0) s2"
        using r by (auto simp: quiet_simps intro!: w intro: quiet_trans reach_quiet)
    qed (use r reach_quiet in blast)
  qed (use r in \<open>simp add: AcquireLease_def\<close>)
qed

lemma wp_remove_lease:
  assumes "reach s0 s" "stored_lease (st_disk s) i = Some l"
    and "\<And>s'. reach s0 s' \<Longrightarrow> Q () s'" "\<And>s'. reach s0 s' \<Longrightarrow> E io_error s'"
  shows "wp (remove_file (put_lease i None)) Q E s"
proof -
  have "sys_step (st_disk s, st_executed s) (put_lease i None (st_disk s), st_executed s)"
    unfolding put_lease_def by (rule dir_step_sys, rule dir_step.release_lease [of _ l])
      (use assms(2) in \<open>simp add: stored_lease_def\<close>)
  then show ?thesis using reach_wrote [OF assms(1)] assms(3,4)
    by (intro wp_remove_file) auto
qed

lemma safe_ReleaseLease: "safe (ReleaseLease clk i holder)"
proof (rule safeI)
  fix s0 s assume r: "reach s0 s"
  show "wp (ReleaseLease clk i holder) (\<lambda>_. reach s0) (\<lambda>_. reach s0) s"
    unfolding ReleaseLease_def wp_simps
  proof (rule wp_GetLease)
    fix l s' assume l: "quiet s s'" "stored_lease (st_disk s) i = Some l"
    have "wp (remove_file (put_lease i None)) (\<lambda>_. wp (appendAudit clk ev) (\<lambda>_. reach s0) (\<lambda>_. reach s0)) (\<lambda>_. reach s0) s'" for ev
      by (rule wp_remove_lease [OF reach_quiet [OF r l(1)]]) (use l in \<open>auto simp: quiet_simps intro: safeD [OF safe_appendAudit]\<close>)
    then show "wp (case Inr l of Inl e \<Rightarrow> if not_found e then sreturn () else sfail e
      | Inr l \<Rightarrow> if l_holder l \<noteq> holder then sfail (Detailf ErrLeaseLost)
        else sbind (remove_file (put_lease i None)) (\<lambda>_.
             sbind (appendAudit clk (new_event i [] EventLeaseReleased clk [(''holder'', holder)])) (\<lambda>_. sreturn ())))
      (\<lambda>_. reach s0) (\<lambda>_. reach s0) s'"
      using reach_quiet [OF r l(1)] by simp
  qed (use r reach_quiet in auto)
qed

lemma quiet_op_live:
  "quiet_op (if c then stry (GetLease i) (\<lambda>r. case r of
      Inl e \<Rightarrow> if not_found e then sreturn False else sfail e | Inr l \<Rightarrow> sreturn (b l)) else sreturn False)"
  by (auto split: sum.splits)

lemma safe_RequestCancel: "safe (RequestCancel clk i actor note1)"
proof (rule safeI)
  fix s0 s assume r: "reach s0 s"
  define now where "now = store_now clk zero_time"
  show "wp (RequestCancel clk i actor note1) (\<lambda>_. reach s0) (\<lambda>_. reach s0) s"
    unfolding RequestCancel_def wp_simps Let_def now_def [symmetric]
  proof (rule wp_GetRun)
    fix run s' assume run: "quiet s s'" "stored_run (st_disk s) i = Some run" "r_id run = i"
    define run' where "run' = run\<lparr>r_cancel_requested := True, r_cancel_requested_at := Some now,
               r_cancel_actor := actor, r_cancel_note := note1, r_updated_at := now\<rparr>"
    have w: "wp (write_run i run') (\<lambda>_. wp (appendAudit clk ev) (\<lambda>_. K) (\<lambda>_. reach s0)) (\<lambda>_. reach s0) s1"
      if "\<not> run_IsTerminal (r_status run)" "quiet s' s1" "\<And>s2. reach s0 s2 \<Longrightarrow> K s2" for s1 ev K
      by (rule wp_write_run [of _ _ _ run])
         (use run that r in \<open>auto simp: run'_def same_identity_def quiet_simps intro: reach_quiet intro!: wp_append_safe\<close>)
    show "wp (if run_IsTerminal (r_status run) then sreturn run
      else sbind (if r_status run = RunRunning
                  then stry (GetLease i) (\<lambda>r. case r of
                      Inl e \<Rightarrow> if not_found e then sreturn False else sfail e
                    | Inr l \<Rightarrow> sreturn (\<not> Expired l now))
                  else sreturn False) (\<lambda>live.
        sbind (write_run i run') (\<lambda>_.
            sbind (appendAudit clk (new_event i [] EventCancelRequested now
              [(''actor'', actor), (''note'', note1), (''live'', if live then ''true'' else ''false'')])) (\<lambda>_.
            if live then sreturn run'
            else SetRunStatus clk \<lparr>ru_run = i, ru_from = r_status run', ru_to = RunCancelled, ru_error = [],
                   ru_clear_cancel = False, ru_at = now\<rparr>)))) (\<lambda>_. reach s0) (\<lambda>_. reach s0) s'"
    proof (cases "run_IsTerminal (r_status run)")
      case False
      then show ?thesis
        by (simp only: if_False wp_simps, intro wp_quiet [OF quiet_op_live])
           (use reach_quiet [OF r] quiet_trans [OF run(1)] safeD [OF safe_SetRunStatus] in
             \<open>auto intro!: w [OF False] split: if_splits\<close>)
    qed (use reach_quiet [OF r run(1)] in simp)
  qed (use r reach_quiet in auto)
qed

subsubsection \<open>Authorizations\<close>

lemma auth_record_Validate_fields [simp]:
  "auth_record_Validate (Some (rec\<lparr>ar_id := a\<rparr>)) = auth_record_Validate (Some rec)"
  "auth_record_Validate (Some (rec\<lparr>ar_granted_at := g\<rparr>)) = auth_record_Validate (Some rec)"
  "auth_record_Validate (Some (rec\<lparr>ar_database := b\<rparr>)) = auth_record_Validate (Some rec)"
  by (simp_all add: auth_record_Validate_def)

lemma map_of_last_wins: "map_of (last_wins kvs) k = map_of (rev kvs) k"
proof (induction kvs rule: last_wins.induct)
  case (2 k' v r)
  have "map_of (rev r) k' = None \<longleftrightarrow> k' \<notin> fst ` set r" by (simp add: map_of_eq_None_iff)
  moreover have "map_of (last_wins r) k' = None \<longleftrightarrow> k' \<notin> fst ` set r"
    using keys_last_wins [of r] by (simp add: map_of_eq_None_iff)
  ultimately show ?case using 2 by (cases "k = k'") (auto simp: map_add_def split: option.splits)
qed simp

lemma authorizationEvent_detail:
  assumes "ar_id rec \<noteq> []"
  shows "map_of (ev_detail (authorizationEvent rec now)) ''authorization_id'' = Some (ar_id rec)"
proof -
  have e: "map_of (rev (map (\<lambda>(k, v). (''evidence.'' @ k, v)) ev)) ''authorization_id'' = None" for ev :: "(string \<times> string) list"
    by (auto simp: map_of_eq_None_iff)
  have r: "map_of (rev (case ar_relation rec of None \<Rightarrow> [] | Some r \<Rightarrow> [(''relation'', obj_String r)])) ''authorization_id'' = None"
    by (simp split: option.splits)
  show ?thesis
    using assms e r
    by (simp add: authorizationEvent_def Let_def map_of_last_wins new_event_def auditDetail_def map_add_def del: rev_map)
qed

lemma authorizationEvent_sel [simp]:
  "ev_run (authorizationEvent rec now) = ar_run rec" "ev_node (authorizationEvent rec now) = ar_node rec"
  "ev_type (authorizationEvent rec now) = EventAuthorizationRecorded"
  by (simp_all add: authorizationEvent_def new_event_def Let_def)

lemma stored_event_sel [simp]:
  "ev_run (stored_event clk ev sq) = ev_run ev" "ev_node (stored_event clk ev sq) = ev_node ev"
  "ev_type (stored_event clk ev sq) = ev_type ev" "ev_detail (stored_event clk ev sq) = ev_detail ev"
  by (simp_all add: stored_event_def)

definition effect_of :: "authorization_record \<Rightarrow> guarded_effect" where
  "effect_of rec = \<lparr>ge_run = ar_run rec, ge_node = ar_node rec, ge_object = ar_object rec\<rparr>"

lemma appended_authorized:
  assumes "auth_record_Validate (Some rec) = None" "ar_id rec \<noteq> []"
    and "rd_auth (run_dir_of (st_disk s) (ar_run rec)) = Some (AList.update sq rec al)"
    and "appended (ar_run rec) (stored_event clk (authorizationEvent rec now) n) s s'"
  shows "authorized (run_dir_of (st_disk s') (ar_run rec)) (effect_of rec)"
proof -
  let ?x = "run_dir_of (st_disk s') (ar_run rec)"
  have "map_of (AList.update sq rec al) sq = Some rec" by (simp add: update_conv')
  then have "(sq, rec) \<in> set (AList.update sq rec al)" by (rule map_of_SomeD)
  then have "rec \<in> set (map snd (dir_entries (rd_auth ?x)))"
    using assms(3,4) by (force simp: appended_def dir_entries_def)
  moreover have "stored_event clk (authorizationEvent rec now) n \<in> set (dir_events ?x)"
    using assms(4) by (simp add: appended_def dir_events_def complete_append_ok)
  ultimately show ?thesis
    using assms(1,2) unfolding authorized_def effect_of_def
    by (intro bexI [of _ rec] conjI bexI [of _ "stored_event clk (authorizationEvent rec now) n"])
       (simp_all add: authorizationEvent_detail)
qed

lemma nextSeq_entries [simp]: "nextSeq (Some (dir_entries es)) = nextSeq es"
  by (simp add: nextSeq_def dir_entries_def split: option.splits)

lemma event_id_nonempty [simp]: "event_id i tag n \<noteq> []" by (simp add: event_id_def)

lemma put_auth_eq: "put_auth i sq r = update_run_dir i (\<lambda>x. x\<lparr>rd_auth := Some (AList.update sq r (dir_entries (rd_auth x)))\<rparr>)"
  by (simp add: put_auth_def)

lemma dir_entries_Some [simp]: "dir_entries (Some x) = x" by (simp add: dir_entries_def)

text \<open>The record and its event are on the disk when the commit returns.\<close>

lemma wp_put_auth:
  assumes "reach s0 s" "stored_run (st_disk s) i = Some r" "r_id r = i" "auth_record_Validate (Some rec) = None"
    "ar_run rec = i" "sq = nextSeq (auth_entries (st_disk s) i)" "ar_id rec = event_id i ''auth'' sq"
    and "\<And>s'. reach s0 s' \<Longrightarrow> (\<exists>al. rd_auth (run_dir_of (st_disk s') i) = Some (AList.update sq rec al)) \<Longrightarrow> Q () s'"
    and "\<And>s'. reach s0 s' \<Longrightarrow> E io_error s'"
  shows "wp (write_file (make_auth_dir i) (put_auth i sq rec)) Q E s"
  unfolding make_auth_dir_def put_auth_eq
proof (rule wp_write [OF assms(1)])
  let ?x = "(run_dir_of (st_disk s) i)\<lparr>rd_auth := Some (dir_entries (rd_auth (run_dir_of (st_disk s) i)))\<rparr>"
  show "dir_step i ?x (?x\<lparr>rd_auth := Some (AList.update sq rec (dir_entries (rd_auth ?x)))\<rparr>)"
    by (rule dir_step.authorize [of _ r]) (use assms in \<open>simp_all add: stored_run_def auth_entries_def\<close>)
next
  fix s' assume "reach s0 s'" "st_disk s' = update_run_dir i (\<lambda>x. x\<lparr>rd_auth := Some (AList.update sq rec (dir_entries (rd_auth x)))\<rparr>)
    (update_run_dir i (\<lambda>x. x\<lparr>rd_auth := Some (dir_entries (rd_auth x))\<rparr>) (st_disk s))"
  then show "Q () s'" by (intro assms(8)) auto
qed (use assms(9) dir_step.make_auth in auto)

lemma granted_simps [simp]:
  "ar_run (granted now run rec) = ar_run rec"
  "auth_record_Validate (Some (granted now run rec)) = auth_record_Validate (Some rec)"
  by (simp_all add: granted_def Let_def)

definition committed :: "store \<Rightarrow> authorization_record \<Rightarrow> store \<Rightarrow> bool" where
  "committed s0 rec s \<longleftrightarrow> reach s0 s \<and> authorized (run_dir_of (st_disk s) (ar_run rec)) (effect_of rec)"

lemma wp_commit_authorization:
  assumes r: "reach s0 s" and v: "auth_record_Validate (Some rec0) = None"
  shows "wp (commit_authorization clk rec0) (committed s0) (\<lambda>_. reach s0) s"
  unfolding commit_authorization_def wp_simps
proof (rule wp_GetRun)
  fix run s' assume run: "quiet s s'" "stored_run (st_disk s) (ar_run rec0) = Some run" "r_id run = ar_run rec0"
  define now where "now = store_now clk zero_time"
  define rec2 where "rec2 = granted now run rec0"
  have v2: "auth_record_Validate (Some rec2) = None" "ar_run rec2 = ar_run rec0"
    using v by (simp_all add: rec2_def)
  have r': "reach s0 s'" using r run(1) reach_quiet by blast
  have "wp (read_dir (\<lambda>d. nextSeq (auth_entries d (ar_run rec2))))
     (\<lambda>sq. wp (write_file (make_auth_dir (ar_run rec2)) (put_auth (ar_run rec2) sq (rec2\<lparr>ar_id := event_id (ar_run rec2) ''auth'' sq\<rparr>)))
        (\<lambda>_. wp (appendAudit clk (authorizationEvent (rec2\<lparr>ar_id := event_id (ar_run rec2) ''auth'' sq\<rparr>) now))
           (\<lambda>_. committed s0 (rec2\<lparr>ar_id := event_id (ar_run rec2) ''auth'' sq\<rparr>)) (\<lambda>_. reach s0)) (\<lambda>_. reach s0)) (\<lambda>_. reach s0) s'"
  proof (rule wp_read_dir)
    fix s1 assume q: "quiet s' s1"
    define sq where "sq = nextSeq (auth_entries (st_disk s') (ar_run rec2))"
    define rec where "rec = rec2\<lparr>ar_id := event_id (ar_run rec2) ''auth'' sq\<rparr>"
    have rec: "auth_record_Validate (Some rec) = None" "ar_id rec \<noteq> []" "ar_run rec = ar_run rec2"
       "ar_id rec = event_id (ar_run rec2) ''auth'' sq"
      using v2 by (simp_all add: rec_def)
    have "wp (write_file (make_auth_dir (ar_run rec2)) (put_auth (ar_run rec2) sq rec))
        (\<lambda>_. wp (appendAudit clk (authorizationEvent rec now)) (\<lambda>_. committed s0 rec) (\<lambda>_. reach s0)) (\<lambda>_. reach s0) s1"
    proof (rule wp_put_auth [of s0 s1 "ar_run rec2" run])
      fix s2 assume s2: "reach s0 s2" "\<exists>al. rd_auth (run_dir_of (st_disk s2) (ar_run rec2)) = Some (AList.update sq rec al)"
      show "wp (appendAudit clk (authorizationEvent rec now)) (\<lambda>_. committed s0 rec) (\<lambda>_. reach s0) s2"
        by (rule wp_appendAudit [OF s2(1)])
           (use s2(2) rec appended_authorized [OF rec(1,2), of s2] in \<open>auto simp: committed_def\<close>)
    qed (use reach_quiet [OF r' q] run q rec v2 in \<open>auto simp: quiet_simps sq_def\<close>)
    then show "wp (write_file (make_auth_dir (ar_run rec2)) (put_auth (ar_run rec2) (nextSeq (auth_entries (st_disk s') (ar_run rec2)))
          (rec2\<lparr>ar_id := event_id (ar_run rec2) ''auth'' (nextSeq (auth_entries (st_disk s') (ar_run rec2)))\<rparr>)))
        (\<lambda>_. wp (appendAudit clk (authorizationEvent (rec2\<lparr>ar_id := event_id (ar_run rec2) ''auth'' (nextSeq (auth_entries (st_disk s') (ar_run rec2)))\<rparr>) now))
           (\<lambda>_. committed s0 (rec2\<lparr>ar_id := event_id (ar_run rec2) ''auth'' (nextSeq (auth_entries (st_disk s') (ar_run rec2)))\<rparr>)) (\<lambda>_. reach s0))
        (\<lambda>_. reach s0) s1"
      by (simp add: rec_def sq_def)
  qed (use reach_quiet [OF r'] in auto)
  then show "wp (let now = store_now clk zero_time; rec = granted now run rec0
      in sbind (read_dir (\<lambda>d. nextSeq (auth_entries d (ar_run rec)))) (\<lambda>sq.
         (let rec = rec\<lparr>ar_id := event_id (ar_run rec) ''auth'' sq\<rparr>
          in sbind (write_file (make_auth_dir (ar_run rec)) (put_auth (ar_run rec) sq rec)) (\<lambda>_.
             sbind (appendAudit clk (authorizationEvent rec now)) (\<lambda>_. sreturn rec))))) (committed s0) (\<lambda>_. reach s0) s'"
    by (simp add: Let_def rec2_def now_def)
qed (use r reach_quiet in auto)

lemma wp_runGuarded:
  assumes "reach s0 s" "authorized (run_dir_of (st_disk s) i) \<lparr>ge_run = i, ge_node = n, ge_object = o1\<rparr>"
  shows "wp (runGuarded clk i n o1 action ok failed) (\<lambda>_. reach s0) (\<lambda>_. reach s0) s"
proof (cases action)
  case (Some res)
  let ?g = "\<lparr>ge_run = i, ge_node = n, ge_object = o1\<rparr>"
  have "sys_step (sys_of s) (sys_of (s\<lparr>st_executed := st_executed s @ [?g]\<rparr>))"
    using on_database [of "st_disk s" ?g] assms(2) by (simp add: sys_of_def)
  then have "reach s0 (s\<lparr>st_executed := st_executed s @ [?g]\<rparr>)"
    using assms(1) by (auto simp: reach_def good_def intro: rtranclp.rtrancl_into_rtrancl)
  then show ?thesis
    by (auto simp: runGuarded_def Some split: option.splits intro: wp_append_safe)
qed (use assms in \<open>simp add: runGuarded_def\<close>)

lemma safe_RecordAuthorization: "safe (RecordAuthorization clk rec action)"
proof (rule safeI)
  fix s0 s assume r: "reach s0 s"
  have c: "wp (not_recorded (scheck (auth_record_Validate (Some rec)) (commit_authorization clk rec))) (committed s0) (\<lambda>_. reach s0) s"
    using wp_commit_authorization [OF r] r by (auto simp: not_recorded_def split: option.splits)
  show "wp (RecordAuthorization clk rec action) (\<lambda>_. reach s0) (\<lambda>_. reach s0) s"
    unfolding RecordAuthorization_def
    by (simp, rule wp_mono [OF c]) (auto simp: committed_def effect_of_def intro: wp_runGuarded)
qed

end
