(* ===== verification/Store_Histories.thy ===== *)
theory Store_Histories
  imports Store_Refinement
begin

text \<open>
  Histories of the file store: calls of several processes on one disk, one call after the other, each
  with its own outcomes of the disk operations.  A process that dies in the middle of a call is a
  script whose outcome makes the call return; the process that replaces it is another number with an
  empty cache.  The properties of the store are stated over all histories from the empty directory.
\<close>

datatype store_call =
    CallCreateRun timestamp string new_run
  | CallGetRun run_id
  | CallFindRuns run_query
  | CallSetRunStatus timestamp run_status_update
  | CallGetNode run_id node_id
  | CallListNodes run_id
  | CallTransitionNode timestamp node_transition
  | CallRecordAuthorization timestamp authorization_record "err option option"
  | CallListAuthorizations run_id
  | CallAcquireLease timestamp run_id string int
  | CallHeartbeat timestamp run_id string
  | CallReleaseLease timestamp run_id string
  | CallGetLease run_id
  | CallRequestCancel timestamp run_id string string
  | CallCancellationRequested run_id
  | CallAppendAudit timestamp audit_event
  | CallListAudit run_id int

definition ignore :: "'a op \<Rightarrow> unit op" where
  "ignore m = sbind m (\<lambda>_. sreturn ())"

fun call_op :: "store_call \<Rightarrow> unit op" where
  "call_op (CallCreateRun clk random req) = ignore (CreateRun clk random req)"
| "call_op (CallGetRun i) = ignore (GetRun i)"
| "call_op (CallFindRuns q) = ignore (FindRuns q)"
| "call_op (CallSetRunStatus clk u) = ignore (SetRunStatus clk u)"
| "call_op (CallGetNode i n) = ignore (GetNode i n)"
| "call_op (CallListNodes i) = ignore (ListNodes i)"
| "call_op (CallTransitionNode clk t) = ignore (TransitionNode clk t)"
| "call_op (CallRecordAuthorization clk rec action) = ignore (RecordAuthorization clk rec action)"
| "call_op (CallListAuthorizations i) = ignore (ListAuthorizations i)"
| "call_op (CallAcquireLease clk i holder ttl) = ignore (AcquireLease clk i holder ttl)"
| "call_op (CallHeartbeat clk i holder) = ignore (Heartbeat clk i holder)"
| "call_op (CallReleaseLease clk i holder) = ignore (ReleaseLease clk i holder)"
| "call_op (CallGetLease i) = ignore (GetLease i)"
| "call_op (CallRequestCancel clk i actor note1) = ignore (RequestCancel clk i actor note1)"
| "call_op (CallCancellationRequested i) = ignore (CancellationRequested i)"
| "call_op (CallAppendAudit clk ev) = ignore (appendAudit clk ev)"
| "call_op (CallListAudit i n) = ignore (ListAudit i n)"

record world =
  w_disk :: disk
  w_caches :: "nat \<Rightarrow> run_id \<Rightarrow> (nat \<times> nat) option"
  w_executed :: "guarded_effect list"

type_synonym event = "nat \<times> io list \<times> store_call"

definition new_world :: world where
  "new_world = \<lparr>w_disk = \<lparr>dk_runs = [], dk_locks = []\<rparr>, w_caches = (\<lambda>_ _. None), w_executed = []\<rparr>"

definition process_store :: "nat \<Rightarrow> io list \<Rightarrow> world \<Rightarrow> store" where
  "process_store pid script w = \<lparr>st_disk = w_disk w, st_cache = w_caches w pid, st_script = script, st_executed = w_executed w\<rparr>"

definition perform :: "event \<Rightarrow> world \<Rightarrow> world" where
  "perform ev w = (case ev of (pid, script, call) \<Rightarrow>
     (let s = snd (call_op call (process_store pid script w))
      in \<lparr>w_disk = st_disk s, w_caches = (w_caches w)(pid := st_cache s), w_executed = st_executed s\<rparr>))"

definition history :: "event list \<Rightarrow> world" where
  "history hs = fold perform hs new_world"

text \<open>No test for a file's existence fails.\<close>

definition reliable :: "event list \<Rightarrow> bool" where
  "reliable hs \<longleftrightarrow> (\<forall>h \<in> set hs. IoStatFailed \<notin> set (fst (snd h)))"

subsection \<open>Refinement\<close>

lemma safe_ignore: "safe m \<Longrightarrow> safe (ignore m)"
  by (auto simp: safe_def ignore_def)

lemma safe_call: "safe (call_op c)"
  by (cases c) (auto intro!: safe_ignore safe_CreateRun safe_SetRunStatus safe_TransitionNode
    safe_RecordAuthorization safe_AcquireLease safe_Heartbeat safe_ReleaseLease safe_RequestCancel
    safe_appendAudit intro: safe_quiet)

definition world_ok :: "world \<Rightarrow> bool" where
  "world_ok w \<longleftrightarrow> (\<forall>pid. cache_ok (w_caches w pid) (w_disk w))"

definition world_system :: "world \<Rightarrow> system" where
  "world_system w = (w_disk w, w_executed w)"

lemma perform_steps:
  assumes "world_ok w" "IoStatFailed \<notin> set (fst (snd ev))"
  shows "world_ok (perform ev w) \<and> sys_steps (world_system w) (world_system (perform ev w))"
proof -
  obtain pid script call where ev: "ev = (pid, script, call)" by (cases ev)
  define s where "s = process_store pid script w"
  define s' where "s' = snd (call_op call s)"
  have "good s" using assms ev by (simp add: s_def process_store_def good_def world_ok_def)
  then have "wp (call_op call) (\<lambda>_. reach s) (\<lambda>_. reach s) s" using safeD [OF safe_call] reach_refl by blast
  then have r: "reach s s'" by (auto simp: wp_def s'_def split: prod.splits sum.splits)
  have p: "perform ev w = \<lparr>w_disk = st_disk s', w_caches = (w_caches w)(pid := st_cache s'), w_executed = st_executed s'\<rparr>"
    by (simp add: perform_def ev s'_def s_def Let_def)
  have steps: "sys_steps (w_disk w, w_executed w) (st_disk s', st_executed s')"
    using r by (simp add: reach_def sys_of_def s_def process_store_def)
  have "cache_ok (w_caches w q) (st_disk s')" for q
    using cache_ok_sys_steps [OF steps] assms(1) by (simp add: world_ok_def)
  moreover have "cache_ok (st_cache s') (st_disk s')" using r by (simp add: reach_def good_def)
  ultimately show ?thesis using steps by (simp add: p world_ok_def world_system_def)
qed

lemma fold_steps:
  "reliable hs \<Longrightarrow> world_ok w \<Longrightarrow>
   world_ok (fold perform hs w) \<and> sys_steps (world_system w) (world_system (fold perform hs w))"
proof (induction hs arbitrary: w)
  case (Cons h hs)
  have h: "world_ok (perform h w)" "sys_steps (world_system w) (world_system (perform h w))"
    using perform_steps [of w h] Cons.prems by (auto simp: reliable_def)
  have "reliable hs" using Cons.prems by (simp add: reliable_def)
  then show ?case using Cons.IH [OF _ h(1)] h(2) by (auto intro: rtranclp_trans)
qed simp

lemma world_ok_new: "world_ok new_world"
  by (simp add: world_ok_def new_world_def cache_ok_def)

lemma history_steps:
  assumes "reliable (hs1 @ hs2)"
  shows "sys_steps (world_system (history hs1)) (world_system (history (hs1 @ hs2)))"
proof -
  have "reliable hs1" "reliable hs2" using assms by (auto simp: reliable_def)
  then show ?thesis using fold_steps world_ok_new by (simp add: history_def)
qed

lemma history_reached:
  "reliable hs \<Longrightarrow> sys_steps (\<lparr>dk_runs = [], dk_locks = []\<rparr>, []) (world_system (history hs))"
  using history_steps [of "[]" hs] by (simp add: history_def world_system_def new_world_def)

lemma history_dir_invariant:
  assumes "reliable hs" "P empty_dir" "\<And>i x x'. dir_step i x x' \<Longrightarrow> P x \<Longrightarrow> P x'"
  shows "P (run_dir_of (w_disk (history hs)) j)"
  using dir_invariant [OF history_reached [OF assms(1), unfolded world_system_def], of P j] assms(2,3)
  by (simp add: run_dir_of_def)


subsection \<open>A concrete history\<close>

definition sample_request :: new_run where
  "sample_request = \<lparr>nr_plan = Some (sample_plan\<lparr>p_digest := ''sha256:00''\<rparr>), nr_id = ''r'', nr_actor = ''a'', nr_started_at = 1\<rparr>"

definition sample_open :: event where
  "sample_open = (0, [], CallCreateRun 1 [] sample_request)"

definition sample_run :: run where
  "sample_run = opened_run 1 ''r'' ''a'' (sample_plan\<lparr>p_digest := ''sha256:00''\<rparr>)"

lemma sample_request_valid: "new_run_validate sample_request = None"
  by code_simp

lemma sample_segments: "encodeSegment ''d'' \<noteq> encodeSegment ''b''"
  by (simp add: encodeSegment_def segmentReadableMax_def segmentSafe_def Let_def)

lemmas run_store_simps = sbind_def sreturn_def sfail_def stry_def scheck_def lift_result_def next_io_def
  read_file_def read_dir_def file_exists_def write_file_def remove_file_def get_cache_def execute_def

lemma sample_nodes: "p_nodes (sample_plan\<lparr>p_digest := ''sha256:00''\<rparr>) = [sample_drop\<lparr>n_depends_on := [''b'']\<rparr>, wait_node ''b'' []]"
  by (simp add: sample_plan_def)

lemma run_dir_of_empty: "run_dir_of \<lparr>dk_runs = [], dk_locks = l\<rparr> i = empty_dir"
  by (simp add: run_dir_of_def)

lemma sample_ids: "n_id sample_drop = ''d''" "n_id (wait_node ''b'' []) = ''b''"
  by (simp_all add: sample_drop_def wait_node_def)

lemma sample_history:
  "stored_run (w_disk (history [sample_open])) ''r'' = Some sample_run \<and>
   node_at (w_disk (history [sample_open])) ''r'' ''d'' = Some (opened_node 1 ''r'' (sample_drop\<lparr>n_depends_on := [''b'']\<rparr>))"
  using sample_request_valid sample_segments sample_ids
  by (simp add: history_def sample_open_def perform_def new_world_def process_store_def ignore_def Let_def
      CreateRun_def run_store_simps sample_request_def sample_nodes store_now_def zero_time_def write_node_def write_run_def
      make_nodes_dir_def put_node_def put_run_def stored_run_def node_at_def dir_entries_def
      appendAudit_def write_trail_def readAudit_def run_opened_event_def sample_run_def
      new_event_def ev_validate_def run_dir_of_empty empty_dir_def trail_of_def)

subsection \<open>Properties\<close>





text \<open>
  A run that can be seen is whole, wherever its creation was cut off or repeated: its record comes
  from a validated request, and every node of that plan has its record on the disk, with the kind the
  plan gives it.
\<close>
theorem visible_run_complete:
  assumes "reliable hs" "stored_run (w_disk (history hs)) i = Some r"
  shows "\<exists>req p. nr_plan req = Some p \<and> new_run_validate req = None \<and> r_plan_digest r = p_digest p \<and>
    r_target r = p_target p \<and> r_actor r = nr_actor req \<and> r_node_count r = length (p_nodes p) \<and>
    (\<forall>n \<in> set (p_nodes p). \<exists>n' \<in> set (p_nodes p). \<exists>rec.
        encodeSegment (n_id n') = encodeSegment (n_id n) \<and> node_at (w_disk (history hs)) i (n_id n) = Some rec \<and>
        nd_run rec = r_id r \<and> nd_id rec = n_id n' \<and> nd_kind rec = n_kind n')"
proof -
  have "plan_recorded (run_dir_of (w_disk (history hs)) i)"
    by (rule history_dir_invariant [OF assms(1)]) (auto simp: plan_recorded_def empty_dir_def dest: plan_recorded_step [unfolded plan_recorded_def])
  then obtain req p now where "nr_plan req = Some p" "new_run_validate req = None"
    "same_identity (opened_run now (r_id r) (nr_actor req) p) r"
    "\<forall>n \<in> set (p_nodes p). \<exists>n' \<in> set (p_nodes p). \<exists>rec.
        encodeSegment (n_id n') = encodeSegment (n_id n) \<and> dir_node (run_dir_of (w_disk (history hs)) i) (n_id n) = Some rec \<and>
        nd_run rec = r_id r \<and> nd_id rec = n_id n' \<and> nd_kind rec = n_kind n'"
    using assms(2) by (auto simp: plan_recorded_def stored_run_def)
  then show ?thesis
    by (intro exI [of _ req] exI [of _ p]) (simp add: same_identity_def opened_run_def node_at_dir)
qed

theorem visible_run_complete_witness:
  "\<exists>req p. nr_plan req = Some p \<and> new_run_validate req = None \<and> r_plan_digest sample_run = p_digest p"
  using visible_run_complete [of "[sample_open]" "''r''" sample_run, OF _ conjunct1 [OF sample_history]]
  by (auto simp: reliable_def sample_open_def)


text \<open>
  C9. A guarded statement runs only after its authorization is on the disk: every statement executed
  in a history has a validated record that names its run, node and object, and the trail records that
  authorization.
\<close>
theorem executed_authorized:
  assumes "reliable hs" "g \<in> set (w_executed (history hs))"
  shows "\<exists>rec \<in> set (map snd (dir_entries (auth_entries (w_disk (history hs)) (ge_run g)))).
    auth_record_Validate (Some rec) = None \<and> ar_run rec = ge_run g \<and> ar_node rec = ge_node g \<and>
    ar_object rec = ge_object g \<and>
    (\<exists>e \<in> set (complete (tr_lines (trail_of (w_disk (history hs)) (ge_run g)))). ev_type e = EventAuthorizationRecorded \<and>
       ev_node e = ge_node g \<and> map_of (ev_detail e) ''authorization_id'' = Some (ar_id rec))"
proof -
  have "authorized (run_dir_of (w_disk (history hs)) (ge_run g)) g"
    using steps_executed [OF history_reached [OF assms(1), unfolded world_system_def]] assms(2) by auto
  then show ?thesis by (simp add: authorized_def auth_entries_def trail_of_def dir_events_def)
qed

definition sample_authorization :: authorization_record where
  "sample_authorization = \<lparr>ar_id = [], ar_run = ''r'', ar_node = ''d'', ar_mode = AuthExplicit,
     ar_object = NewObjectName [] ''i'', ar_relation = None, ar_database = [], ar_confirmation = ''c'',
     ar_evidence = [(''mode'', ''explicit''), (''object'', ''i''), (''confirmation'', ''c'')], ar_granted_at = 2\<rparr>"

definition sample_execute :: event where
  "sample_execute = (0, [], CallRecordAuthorization 2 sample_authorization (Some None))"

lemma sample_authorization_valid: "auth_record_Validate (Some sample_authorization) = None"
  by code_simp

lemma sample_authorization_sel:
  "ar_run sample_authorization = ''r''" "ar_node sample_authorization = ''d''"
  "ar_object sample_authorization = NewObjectName [] ''i''"
  by (simp_all add: sample_authorization_def)

lemma granted_sel [simp]:
  "ar_node (granted now run rec) = ar_node rec" "ar_object (granted now run rec) = ar_object rec"
  by (simp_all add: granted_def Let_def)

lemma sample_executed:
  "\<lparr>ge_run = ''r'', ge_node = ''d'', ge_object = NewObjectName [] ''i''\<rparr> \<in>
     set (w_executed (history [sample_open, sample_execute]))"
  using sample_request_valid sample_segments sample_ids sample_authorization_valid
  by (simp add: history_def sample_open_def perform_def new_world_def process_store_def ignore_def Let_def
      CreateRun_def run_store_simps sample_request_def sample_nodes store_now_def zero_time_def write_node_def write_run_def
      make_nodes_dir_def put_node_def put_run_def stored_run_def node_at_def dir_entries_def
      appendAudit_def write_trail_def readAudit_def run_opened_event_def opened_run_def
      new_event_def ev_validate_def run_dir_of_empty empty_dir_def trail_of_def GetRun_def
      sample_execute_def sample_authorization_sel RecordAuthorization_def not_recorded_def commit_authorization_def
      make_auth_dir_def put_auth_def runGuarded_def append_trail_def)

theorem executed_authorized_witness:
  "\<exists>rec \<in> set (map snd (dir_entries (auth_entries (w_disk (history [sample_open, sample_execute])) ''r''))).
    auth_record_Validate (Some rec) = None \<and> ar_node rec = ''d''"
proof -
  have "reliable [sample_open, sample_execute]" by (simp add: reliable_def sample_open_def sample_execute_def)
  from executed_authorized [OF this sample_executed] show ?thesis by fastforce
qed

text \<open>A history in which two creations die half-way and a statement is executed.\<close>

definition sample_crashes :: "event list" where
  "sample_crashes = [(1, [IoOk, IoStop], CallCreateRun 1 [] sample_request),
     (2, [IoOk, IoOk, IoOk, IoOk, IoOk, IoTorn], CallCreateRun 1 [] sample_request), sample_execute]"



end
