(* ===== verification/Store_Operations.thy ===== *)
theory Store_Operations
  imports Store_Histories
begin

text \<open>
  What single operations of the file store promise their callers: compare-and-set on nodes, mutual
  exclusion of leases, refusal to open a run twice, and the counters of \<open>CountNodes\<close>.
\<close>

lemma store_now_zero [simp]: "store_now clk zero_time = clk" by (simp add: store_now_def)

lemma wp_Inl: "wp m (\<lambda>_ _. False) (\<lambda>e s'. P e s') s \<Longrightarrow> \<exists>e s'. m s = (Inl e, s') \<and> P e s'"
  by (auto simp: wp_def split: prod.splits sum.splits)

lemma wp_Inr: "wp m Q (\<lambda>_ _. True) s \<Longrightarrow> m s = (Inr x, s') \<Longrightarrow> Q x s'"
  by (simp add: wp_def)

subsection \<open>Leases\<close>

lemma wp_GetLease_held:
  assumes "stored_lease (st_disk s) i = Some l"
    and "\<And>s'. quiet s s' \<Longrightarrow> Q l s'" "\<And>e s'. quiet s s' \<Longrightarrow> \<not> not_found e \<Longrightarrow> E e s'"
  shows "wp (GetLease i) Q E s"
  using assms by (intro wp_GetLease) auto

text \<open>
  C32. A lease that another holder has and that has not expired cannot be taken: acquiring it fails and
  leaves the disk as it is; and nobody but its holder can extend or release a lease, expired or not.
\<close>
theorem lease_exclusion:
  assumes "stored_lease (st_disk s) i = Some l" "l_holder l \<noteq> holder"
  shows "(\<not> Expired l clk \<longrightarrow> (\<exists>e s'. AcquireLease clk i holder ttl s = (Inl e, s') \<and> st_disk s' = st_disk s)) \<and>
    (\<exists>e s'. Heartbeat clk i holder s = (Inl e, s') \<and> st_disk s' = st_disk s) \<and>
    (\<exists>e s'. ReleaseLease clk i holder s = (Inl e, s') \<and> st_disk s' = st_disk s)"
proof (intro conjI impI wp_Inl)
  assume x: "\<not> Expired l clk"
  show "wp (AcquireLease clk i holder ttl) (\<lambda>_ _. False) (\<lambda>_ s'. st_disk s' = st_disk s) s"
  proof (cases "normalizeTTL ttl")
    case (Inr secs)
    show ?thesis
      unfolding AcquireLease_def wp_simps Inr sum.case Let_def store_now_zero
    proof (rule wp_GetRun, rule wp_GetLease_held)
      show "stored_lease (st_disk s1) i = Some l" if "quiet s s1" for s1
        using that assms(1) by (simp add: quiet_simps)
    qed (use assms(2) x in \<open>auto simp: quiet_simps\<close>)
  qed (simp add: AcquireLease_def)
next
  show "wp (Heartbeat clk i holder) (\<lambda>_ _. False) (\<lambda>_ s'. st_disk s' = st_disk s) s"
    unfolding Heartbeat_def wp_simps
    by (rule wp_GetLease_held [OF assms(1)]) (use assms(2) in \<open>auto simp: quiet_simps\<close>)
  show "wp (ReleaseLease clk i holder) (\<lambda>_ _. False) (\<lambda>_ s'. st_disk s' = st_disk s) s"
    unfolding ReleaseLease_def wp_simps
    by (rule wp_GetLease_held [OF assms(1)]) (use assms(2) in \<open>auto simp: quiet_simps\<close>)
qed

definition sample_lease :: lease where
  "sample_lease = \<lparr>l_run = ''r'', l_holder = ''h'', l_acquired_at = 0, l_heartbeat_at = 0, l_ttl_seconds = 60\<rparr>"

definition leased_store :: store where
  "leased_store = process_store 0 [] (new_world\<lparr>w_disk := put_lease ''r'' (Some sample_lease) (w_disk new_world)\<rparr>)"

lemma leased_store_lease: "stored_lease (st_disk leased_store) ''r'' = Some sample_lease"
  by (simp add: stored_lease_def leased_store_def process_store_def put_lease_def)

theorem lease_exclusion_witness:
  "(\<exists>e s'. AcquireLease second_ns ''r'' ''other'' 0 leased_store = (Inl e, s') \<and> st_disk s' = st_disk leased_store) \<and>
   (\<exists>e s'. ReleaseLease 5 ''r'' ''other'' leased_store = (Inl e, s') \<and> st_disk s' = st_disk leased_store)"
proof -
  have h: "l_holder sample_lease \<noteq> ''other''" by (simp add: sample_lease_def)
  have x: "\<not> Expired sample_lease second_ns" by code_simp
  show ?thesis using lease_exclusion [OF leased_store_lease h] x by blast
qed

lemma wp_put_lease_disk:
  assumes "\<And>s'. stored_lease (st_disk s') i = Some l \<Longrightarrow> Q () s'" "\<And>s'. E io_error s'"
  shows "wp (write_lease i l) Q E s"
  unfolding write_lease_def put_lease_def
  by (rule wp_write_file) (use assms in \<open>auto simp: wrote_def stored_lease_def\<close>)

lemma wp_write_trail_disk:
  assumes "\<And>o1 s'. st_disk s' = update_run_dir i (\<lambda>x. x\<lparr>rd_trail := append_trail o1 e (rd_trail x)\<rparr>) (st_disk s) \<Longrightarrow> Q e s'"
    and "\<And>e s'. E e s'"
  shows "wp (write_trail i sq e) Q E s"
proof -
  obtain o1 s1 where n: "next_io s = (o1, s1)" by (cases "next_io s")
  show ?thesis using assms n next_io_quiet [OF n] by (auto simp: wp_def write_trail_def Let_def quiet_simps)
qed

text \<open>An append changes nothing of the directory but its trail.\<close>

lemma wp_appendAudit_disk:
  assumes "\<And>e t s'. st_disk s' = update_run_dir (ev_run ev) (\<lambda>x. x\<lparr>rd_trail := t x\<rparr>) (st_disk s) \<Longrightarrow> Q e s'"
    and "\<And>e s'. E e s'"
  shows "wp (appendAudit clk ev) Q E s"
proof -
  have w: "wp (write_trail (ev_run ev) sq (ev\<lparr>ev_seq := sq, ev_id := event_id (ev_run ev) ''evt'' sq,
       ev_occurred_at := store_now clk (ev_at ev), ev_at := zero_time\<rparr>)) Q E s'" if "quiet s s'" for sq s'
    by (rule wp_write_trail_disk) (use assms that in \<open>auto simp: quiet_simps\<close>)
  have c: "quiet_op (case cur of
          Some (sq, sz) \<Rightarrow> if sz = size then sreturn sq
            else sbind (readAudit (ev_run ev)) (\<lambda>evs. sreturn (last_seq evs))
        | None \<Rightarrow> sbind (readAudit (ev_run ev)) (\<lambda>evs. sreturn (last_seq evs)))" for cur and size :: nat
    by (auto split: option.splits)
  show ?thesis
  proof (cases "ev_validate (Some ev)")
    case None
    show ?thesis
      unfolding appendAudit_def wp_simps None option.case
      by (rule wp_read_dir, rule wp_quiet [OF c]) (use w assms(2) quiet_trans in blast)+
  qed (use assms(2) in \<open>simp add: appendAudit_def\<close>)
qed

lemma wp_take_lease:
  "wp (write_lease i l) (\<lambda>_. wp (appendAudit clk (new_event i [] EventLeaseAcquired now d))
     (\<lambda>_ s'. stored_lease (st_disk s') i = Some l) (\<lambda>_ _. True)) (\<lambda>_ _. True) s"
  by (rule wp_put_lease_disk, rule wp_appendAudit_disk) (auto simp: stored_lease_def new_event_def)

lemma AcquireLease_result:
  assumes "AcquireLease clk i holder ttl s = (Inr l, s')" "ttl < 2 ^ 63"
  shows "stored_lease (st_disk s') i = Some l \<and> l_holder l = holder \<and> l_heartbeat_at l = clk \<and> \<not> Expired l clk \<and>
    (\<forall>old. stored_lease (st_disk s) i = Some old \<longrightarrow> l_holder old = holder \<or> Expired old clk)"
proof -
  obtain secs where secs: "normalizeTTL ttl = Inr secs"
    using assms(1) by (cases "normalizeTTL ttl") (auto simp: AcquireLease_def run_store_simps)
  have live: "\<not> Expired l clk" if "l_heartbeat_at l = clk" "l_ttl_seconds l = secs" for l
  proof -
    have "0 < secs" "secs * second_ns < 2 ^ 63"
      using secs assms(2) by (auto simp: normalizeTTL_def Let_def second_ns_def DefaultLeaseTTL_def split: if_splits)
    then show ?thesis using that
      by (simp add: Expired_def ExpiresAt_def TTL_def wrap_int64_def second_ns_def)
  qed
  have "wp (AcquireLease clk i holder ttl) (\<lambda>l s'. stored_lease (st_disk s') i = Some l \<and> l_holder l = holder \<and>
      l_heartbeat_at l = clk \<and> l_ttl_seconds l = secs \<and>
      (\<forall>old. stored_lease (st_disk s) i = Some old \<longrightarrow> l_holder old = holder \<or> Expired old clk)) (\<lambda>_ _. True) s"
    unfolding AcquireLease_def wp_simps secs sum.case Let_def store_now_zero
    by (rule wp_GetRun, rule wp_GetLease) (auto simp: quiet_simps intro!: wp_take_lease)
  from wp_Inr [OF this assms(1)] show ?thesis using live by blast
qed

text \<open>
  A successful acquisition gives the caller the lease: the lease stored is the one returned, it
  names the caller, starts its life at the clock's reading and is not expired, and the lease it
  replaced, if any, was the caller's own or had expired.
\<close>
theorem AcquireLease_takes:
  assumes "AcquireLease clk i holder ttl s = (Inr l, s')" "ttl < 2 ^ 63"
  shows "stored_lease (st_disk s') i = Some l \<and> l_holder l = holder \<and> l_heartbeat_at l = clk \<and> \<not> Expired l clk \<and>
    (\<forall>old. stored_lease (st_disk s) i = Some old \<longrightarrow> l_holder old = holder \<or> Expired old clk)"
  by (rule AcquireLease_result [OF assms])

definition opened_store :: store where
  "opened_store = process_store 0 [] (new_world\<lparr>w_disk := put_node ''r'' ''d''
     (opened_node 1 ''r'' sample_drop) (put_run ''r'' sample_run (w_disk new_world))\<rparr>)"

lemmas sample_store_simps = run_store_simps opened_store_def process_store_def new_world_def put_run_def put_node_def
  run_dir_of_empty empty_dir_def trail_of_def appendAudit_def write_trail_def readAudit_def ev_validate_def
  new_event_def Let_def GetRun_def GetLease_def stored_run_def stored_lease_def sample_run_def opened_run_def

lemma sample_acquire: "\<exists>l s'. AcquireLease 5 ''r'' ''h'' 0 opened_store = (Inr l, s')"
  by (simp add: AcquireLease_def normalizeTTL_def DefaultLeaseTTL_def second_ns_def write_lease_def put_lease_def sample_store_simps)

theorem AcquireLease_takes_witness:
  "\<exists>l s'. AcquireLease 5 ''r'' ''h'' 0 opened_store = (Inr l, s') \<and> stored_lease (st_disk s') ''r'' = Some l \<and> l_holder l = ''h''"
proof -
  obtain l s' where a: "AcquireLease 5 ''r'' ''h'' 0 opened_store = (Inr l, s')" using sample_acquire by blast
  have "(0::int) < 2 ^ 63" by simp
  from AcquireLease_takes [OF a this] show ?thesis using a by blast
qed

subsection \<open>Nodes\<close>

lemma wp_write_node_disk:
  assumes "\<And>s'. st_disk s' = put_node i n rec (make_nodes_dir i (st_disk s)) \<Longrightarrow> Q () s'" "\<And>s'. E io_error s'"
  shows "wp (write_node i n rec) Q E s"
  unfolding write_node_def by (rule wp_write_file) (use assms in \<open>auto simp: wrote_def\<close>)

lemma node_at_put: "node_at (put_node i n rec (make_nodes_dir i d)) i n = Some rec"
  by (simp add: put_node_eq make_nodes_dir_def node_at_dir)

lemma node_at_other:
  "encodeSegment j \<noteq> encodeSegment i \<or> encodeSegment m \<noteq> encodeSegment n \<Longrightarrow>
   node_at (put_node i n rec (make_nodes_dir i d)) j m = node_at d j m"
  by (auto simp: put_node_eq make_nodes_dir_def node_at_dir)

lemma node_at_trail [simp]: "node_at (update_run_dir k (\<lambda>x. x\<lparr>rd_trail := u x\<rparr>) d) i n = node_at d i n"
  by (simp add: node_at_dir)

lemma TransitionNode_result:
  assumes "TransitionNode clk t s = (Inr rec', s')"
  shows "\<exists>rec. node_at (st_disk s) (nt_run t) (nt_node t) = Some rec \<and> nd_state rec = nt_from t \<and>
    node_step (nt_from t) (nt_reason_of t) (nt_to t) \<and> rec' = applyTransition rec t (store_now clk (nt_at t)) \<and>
    node_at (st_disk s') (nt_run t) (nt_node t) = Some rec' \<and>
    (\<forall>i n. encodeSegment i \<noteq> encodeSegment (nt_run t) \<or> encodeSegment n \<noteq> encodeSegment (nt_node t) \<longrightarrow>
       node_at (st_disk s') i n = node_at (st_disk s) i n)"
proof -
  have v: "nt_validate t = None"
    using assms by (cases "nt_validate t") (auto simp: TransitionNode_def run_store_simps)
  define P where "P rec rec' s' \<longleftrightarrow> node_at (st_disk s) (nt_run t) (nt_node t) = Some rec \<and> nd_state rec = nt_from t \<and>
    rec' = applyTransition rec t (store_now clk (nt_at t)) \<and> node_at (st_disk s') (nt_run t) (nt_node t) = Some rec' \<and>
    (\<forall>i n. encodeSegment i \<noteq> encodeSegment (nt_run t) \<or> encodeSegment n \<noteq> encodeSegment (nt_node t) \<longrightarrow>
       node_at (st_disk s') i n = node_at (st_disk s) i n)" for rec rec' and s' :: store
  have "wp (TransitionNode clk t) (\<lambda>rec' s'. \<exists>rec. P rec rec' s') (\<lambda>_ _. True) s"
    unfolding TransitionNode_def wp_simps v option.case
  proof (rule wp_GetNode)
    fix rec s1 assume rec: "quiet s s1" "node_at (st_disk s) (nt_run t) (nt_node t) = Some rec"
    define now where "now = store_now clk (nt_at t)"
    have w: "wp (write_node (nt_run t) (nt_node t) (applyTransition rec t now))
      (\<lambda>_. wp (appendAudit clk (nodeTransitionEvent t (applyTransition rec t now) now))
         (\<lambda>_ s'. \<exists>old. P old (applyTransition rec t now) s') (\<lambda>_ _. True)) (\<lambda>_ _. True) s1"
      if "nd_state rec = nt_from t"
    proof (rule wp_write_node_disk, rule wp_appendAudit_disk)
      fix s2 s3 :: store and u :: "run_dir \<Rightarrow> trail"
      assume "st_disk s2 = put_node (nt_run t) (nt_node t) (applyTransition rec t now) (make_nodes_dir (nt_run t) (st_disk s1))"
        and "st_disk s3 = update_run_dir (ev_run (nodeTransitionEvent t (applyTransition rec t now) now)) (\<lambda>x. x\<lparr>rd_trail := u x\<rparr>) (st_disk s2)"
      then have "node_at (st_disk s3) j m = node_at (put_node (nt_run t) (nt_node t) (applyTransition rec t now) (make_nodes_dir (nt_run t) (st_disk s))) j m" for j m
        using rec(1) by (simp add: quiet_simps)
      then have "P rec (applyTransition rec t now) s3"
        using rec that node_at_put node_at_other unfolding P_def now_def by simp
      then show "\<exists>old. P old (applyTransition rec t now) s3" by blast
    qed simp_all
    show "wp (if nd_state rec \<noteq> nt_from t then sfail (Detailf ErrConflict)
      else (let now = store_now clk (nt_at t); rec' = applyTransition rec t now
            in sbind (write_node (nt_run t) (nt_node t) rec') (\<lambda>_.
               sbind (appendAudit clk (nodeTransitionEvent t rec' now)) (\<lambda>_. sreturn rec')))) (\<lambda>rec' s'. \<exists>rec. P rec rec' s') (\<lambda>_ _. True) s1"
    proof (cases "nd_state rec = nt_from t")
      case True
      show ?thesis
        unfolding Let_def now_def [symmetric] using True w by simp
    qed simp
  qed simp
  from wp_Inr [OF this assms] show ?thesis
    using nt_validate_step [OF v] unfolding P_def by blast
qed

text \<open>
  A transition is a compare-and-set: when it succeeds, the node was in the state the caller
  expected, the transition is legal for its reason, the new record is the old one with the transition
  applied, and that record is the only one that changed.
\<close>
theorem TransitionNode_cas:
  assumes "TransitionNode clk t s = (Inr rec', s')"
  shows "\<exists>rec. node_at (st_disk s) (nt_run t) (nt_node t) = Some rec \<and> nd_state rec = nt_from t \<and>
    node_step (nt_from t) (nt_reason_of t) (nt_to t) \<and> rec' = applyTransition rec t (store_now clk (nt_at t)) \<and>
    node_at (st_disk s') (nt_run t) (nt_node t) = Some rec' \<and>
    (\<forall>i n. encodeSegment i \<noteq> encodeSegment (nt_run t) \<or> encodeSegment n \<noteq> encodeSegment (nt_node t) \<longrightarrow>
       node_at (st_disk s') i n = node_at (st_disk s) i n)"
  by (rule TransitionNode_result [OF assms])

definition sample_transition :: node_transition where
  "sample_transition = \<lparr>nt_run = ''r'', nt_node = ''d'', nt_from = NodePending, nt_to = NodeReady,
     nt_reason = ReasonNormal, nt_increment = False, nt_err = None, nt_at = zero_time\<rparr>"

lemma sample_transition_applies: "\<exists>rec s'. TransitionNode 5 sample_transition opened_store = (Inr rec, s')"
proof -
  have v: "nt_validate sample_transition = None" by code_simp
  have p: "nt_run sample_transition = ''r''" "nt_node sample_transition = ''d''" "nt_from sample_transition = NodePending"
    by (simp_all add: sample_transition_def)
  have n: "nd_id (opened_node 1 ''r'' sample_drop) = ''d''" by (simp add: sample_drop_def)
  show ?thesis
    by (simp add: TransitionNode_def v p n sample_ids(1) GetNode_def node_at_def InitialNodeState_def write_node_def make_nodes_dir_def
        dir_entries_def nodeTransitionEvent_def sample_store_simps)
qed

theorem TransitionNode_cas_witness:
  "\<exists>rec' s'. TransitionNode 5 sample_transition opened_store = (Inr rec', s') \<and>
     node_at (st_disk s') ''r'' ''d'' = Some rec'"
proof -
  obtain rec s' where t: "TransitionNode 5 sample_transition opened_store = (Inr rec, s')"
    using sample_transition_applies by blast
  from TransitionNode_cas [OF t] show ?thesis using t by (auto simp: sample_transition_def)
qed

subsection \<open>Opening a run\<close>

text \<open>
  A run is opened once: while its record can be seen, opening it again changes nothing on the
  disk and reports a conflict.
\<close>
theorem CreateRun_conflict:
  assumes "new_run_validate req = None" "nr_id req = i" "i \<noteq> []" "stored_run (st_disk s) i = Some r"
    and "IoStatFailed \<notin> set (st_script s)"
  shows "\<exists>s'. CreateRun clk random req s = (Inl (Detailf ErrConflict), s') \<and> st_disk s' = st_disk s"
proof -
  obtain p where p: "nr_plan req = Some p"
    using assms(1) by (cases "nr_plan req") (simp_all add: new_run_validate_def)
  have "wp (file_exists (\<lambda>d. stored_run d i)) (\<lambda>found s'. found \<and> st_disk s' = st_disk s) (\<lambda>_ _. False) s"
    by (rule wp_file_exists [OF assms(5)]) (use assms(4) in \<open>auto simp: quiet_simps\<close>)
  then obtain s' where "file_exists (\<lambda>d. stored_run d i) s = (Inr True, s')" "st_disk s' = st_disk s"
    by (auto simp: wp_def split: prod.splits sum.splits)
  then show ?thesis using assms(1,2,3) p by (auto simp: CreateRun_def scheck_def Let_def sbind_def sfail_def)
qed

theorem CreateRun_conflict_witness:
  "\<exists>s'. CreateRun 9 [] sample_request opened_store = (Inl (Detailf ErrConflict), s') \<and> st_disk s' = st_disk opened_store"
proof (rule CreateRun_conflict [of _ "''r''" _ sample_run])
  show "stored_run (st_disk opened_store) ''r'' = Some sample_run"
    by (simp add: stored_run_def opened_store_def process_store_def put_node_def put_run_def)
qed (simp_all add: sample_request_valid, simp_all add: sample_request_def opened_store_def process_store_def)

text \<open>
  But an existence test that fails counts as absence: when \<open>stat\<close> fails for any reason,
  opening a run again replaces the record of the visible run, and with it the run's actor and digest.
\<close>
theorem CreateRun_overwrites_on_stat_failure:
  "\<exists>s' r r'. fst (CreateRun 9 [] (sample_request\<lparr>nr_actor := ''b''\<rparr>) (opened_store\<lparr>st_script := [IoStatFailed]\<rparr>)) = Inr r' \<and>
     s' = snd (CreateRun 9 [] (sample_request\<lparr>nr_actor := ''b''\<rparr>) (opened_store\<lparr>st_script := [IoStatFailed]\<rparr>)) \<and>
     stored_run (st_disk opened_store) ''r'' = Some r \<and> stored_run (st_disk s') ''r'' = Some r' \<and> r_actor r \<noteq> r_actor r'"
proof -
  have v: "new_run_validate (sample_request\<lparr>nr_actor := ''b''\<rparr>) = None" by code_simp
  show ?thesis
    using v by (simp add: CreateRun_def sample_request_def sample_nodes store_now_def zero_time_def write_node_def write_run_def
        make_nodes_dir_def dir_entries_def run_opened_event_def sample_store_simps)
qed

subsection \<open>Counting nodes\<close>

lemma count_node_fields:
  "nc_total (foldl count_node c recs) = nc_total c"
  "nc_complete (foldl count_node c recs) = nc_complete c + length (filter (\<lambda>r. IsComplete (nd_state r)) recs)"
  "nc_failed (foldl count_node c recs) = nc_failed c + length (filter (\<lambda>r. nd_state r = NodeFailed) recs)"
  "nc_remaining (foldl count_node c recs) = nc_remaining c +
     length (filter (\<lambda>r. \<not> IsComplete (nd_state r) \<and> nd_state r \<noteq> NodeFailed) recs)"
  "nc_in_flight (foldl count_node c recs) = nc_in_flight c +
     length (filter (\<lambda>r. nd_state r = NodeRunning \<or> nd_state r = NodeVerifying) recs)"
  "nc_by_state (foldl count_node c recs) st = nc_by_state c st + length (filter (\<lambda>r. nd_state r = st) recs)"
  by (induction recs arbitrary: c) (auto simp: count_node_def Let_def IsComplete_def)

text \<open>
  \<open>CountNodes\<close> partitions the records: complete, failed and remaining ones add up to the total,
  each is the number of records in those states, and the in-flight ones are among the remaining.
\<close>
theorem CountNodes_partition:
  "let c = CountNodes recs in
     nc_total c = length recs \<and> nc_complete c + nc_failed c + nc_remaining c = nc_total c \<and>
     nc_complete c = length (filter (\<lambda>r. IsComplete (nd_state r)) recs) \<and>
     nc_failed c = length (filter (\<lambda>r. nd_state r = NodeFailed) recs) \<and>
     nc_in_flight c = nc_by_state c NodeRunning + nc_by_state c NodeVerifying \<and> nc_in_flight c \<le> nc_remaining c"
proof -
  have 1: "length (filter (\<lambda>r. IsComplete (nd_state r)) recs) + length (filter (\<lambda>r. nd_state r = NodeFailed) recs) +
    length (filter (\<lambda>r. \<not> IsComplete (nd_state r) \<and> nd_state r \<noteq> NodeFailed) recs) = length recs"
    by (induction recs) (auto simp: IsComplete_def)
  have 2: "length (filter (\<lambda>r. nd_state r = NodeRunning \<or> nd_state r = NodeVerifying) recs) =
    length (filter (\<lambda>r. nd_state r = NodeRunning) recs) + length (filter (\<lambda>r. nd_state r = NodeVerifying) recs)"
    by (induction recs) auto
  have 3: "length (filter (\<lambda>r. nd_state r = NodeRunning \<or> nd_state r = NodeVerifying) recs) \<le>
    length (filter (\<lambda>r. \<not> IsComplete (nd_state r) \<and> nd_state r \<noteq> NodeFailed) recs)"
    by (induction recs) (auto simp: IsComplete_def)
  show ?thesis using 1 2 3 by (simp add: CountNodes_def Let_def count_node_fields)
qed

end
