(* ===== verification/Orphans.thy ===== *)
theory Orphans
  imports Store_Operations
begin

text \<open>
  engine/state/orphan.go and engine/state/claim.go: recovery of abandoned runs and the question whose
  object an unmarked index is.  The code is written against the port \<open>StateStore\<close>; the model is
  written against the record of its operations, over any state, and the laws it relies on are a locale
  that the file store satisfies.
\<close>

subsection \<open>The ports\<close>

record 's state_store =
  ss_GetRun :: "run_id \<Rightarrow> ('s, run) sop"
  ss_FindRuns :: "run_query \<Rightarrow> ('s, run list) sop"
  ss_SetRunStatus :: "run_status_update \<Rightarrow> ('s, run) sop"
  ss_ListNodes :: "run_id \<Rightarrow> ('s, node_record list) sop"
  ss_TransitionNode :: "node_transition \<Rightarrow> ('s, node_record) sop"
  ss_AcquireLease :: "run_id \<Rightarrow> string \<Rightarrow> int \<Rightarrow> ('s, lease) sop"
  ss_GetLease :: "run_id \<Rightarrow> ('s, lease) sop"
  ss_AppendAudit :: "audit_event \<Rightarrow> ('s, audit_event) sop"

text \<open>A held lock (lock.go); a nil one is \<open>None\<close>.\<close>

record 's lock_handle =
  lh_key :: lock_key
  lh_Held :: "('s, bool) sop"

definition checkLock :: "'s lock_handle option \<Rightarrow> lock_key \<Rightarrow> ('s, unit) sop" where
  "checkLock lock key = (case lock of
     None \<Rightarrow> sfail (Detailf ErrLockHeld)
   | Some l \<Rightarrow> if lh_key l \<noteq> key then sfail (Detailf ErrLockHeld)
       else sbind (lh_Held l) (\<lambda>held. if \<not> held then sfail (Detailf ErrLockHeld) else sreturn ()))"

subsection \<open>Orphans\<close>

text \<open>No lease at all, or an expired one.\<close>

definition abandoned :: "'s state_store \<Rightarrow> timestamp \<Rightarrow> run_id \<Rightarrow> ('s, bool) sop" where
  "abandoned S now i = stry (ss_GetLease S i) (\<lambda>r. case r of
     Inl e \<Rightarrow> if not_found e then sreturn True else sfail e
   | Inr l \<Rightarrow> sreturn (Expired l now))"

primrec sfilter :: "('a \<Rightarrow> ('s, bool) sop) \<Rightarrow> 'a list \<Rightarrow> ('s, 'a list) sop" where
  "sfilter p [] = sreturn []"
| "sfilter p (x # xs) = sbind (p x) (\<lambda>b. sbind (sfilter p xs) (\<lambda>ys. sreturn (if b then x # ys else ys)))"

definition FindOrphans :: "'s state_store \<Rightarrow> 's lock_handle option \<Rightarrow> timestamp \<Rightarrow> ('s, run list) sop" where
  "FindOrphans S lock now = (case lock of
     None \<Rightarrow> sfail (Detailf ErrLockHeld)
   | Some l \<Rightarrow> sbind (checkLock lock (lh_key l)) (\<lambda>_.
       sbind (ss_FindRuns S (any_query\<lparr>q_database := lk_database (lh_key l), q_table := Some (lk_table (lh_key l)),
                q_statuses := [RunRunning]\<rparr>)) (\<lambda>candidates.
       sbind (sfilter (\<lambda>r. abandoned S now (r_id r)) candidates) (\<lambda>orphans. sreturn (sortRuns orphans)))))"

primrec sfold_count :: "('a \<Rightarrow> ('s, bool) sop) \<Rightarrow> 'a list \<Rightarrow> ('s, nat) sop" where
  "sfold_count f [] = sreturn 0"
| "sfold_count f (x # xs) = sbind (f x) (\<lambda>b. sbind (sfold_count f xs) (\<lambda>n. sreturn (if b then Suc n else n)))"

text \<open>The records in a state go back to PENDING for a reason; the number of them is returned.\<close>

definition rewind_transition :: "run_id \<Rightarrow> node_id \<Rightarrow> node_state \<Rightarrow> transition_reason \<Rightarrow> timestamp \<Rightarrow> node_transition" where
  "rewind_transition i n from reason now = \<lparr>nt_run = i, nt_node = n, nt_from = from, nt_to = NodePending,
     nt_reason = reason, nt_increment = False, nt_err = None, nt_at = now\<rparr>"

definition rewind_nodes :: "'s state_store \<Rightarrow> run_id \<Rightarrow> node_state \<Rightarrow> transition_reason \<Rightarrow> timestamp
     \<Rightarrow> node_record list \<Rightarrow> ('s, nat) sop" where
  "rewind_nodes S i from reason now nodes = sfold_count (\<lambda>n.
     if nd_state n \<noteq> from then sreturn False
     else sbind (ss_TransitionNode S (rewind_transition i (nd_id n) from reason now)) (\<lambda>_. sreturn True)) nodes"

text \<open>The part of \<open>MarkOrphaned\<close> after its checks.\<close>

definition orphan_run :: "'s state_store \<Rightarrow> run_id \<Rightarrow> timestamp \<Rightarrow> ('s, run) sop" where
  "orphan_run S i now = sbind (ss_SetRunStatus S \<lparr>ru_run = i, ru_from = RunRunning, ru_to = RunOrphaned, ru_error = [],
       ru_clear_cancel = False, ru_at = now\<rparr>) (\<lambda>run.
     sbind (ss_ListNodes S i) (\<lambda>nodes.
     sbind (rewind_nodes S i NodeRunning ReasonOrphanRecovery now nodes) (\<lambda>rewound.
     sbind (ss_AppendAudit S (new_event i [] EventRunOrphaned now
              [(''reason'', ''lease expired, advisory lock unheld (INV-4)''), (''rewound_nodes'', dec_nat rewound)]))
       (\<lambda>_. sreturn run))))"

definition MarkOrphaned :: "'s state_store \<Rightarrow> 's lock_handle option \<Rightarrow> run_id \<Rightarrow> timestamp \<Rightarrow> ('s, run) sop" where
  "MarkOrphaned S lock i now = sbind (ss_GetRun S i) (\<lambda>run.
     sbind (checkLock lock (run_LockKey run)) (\<lambda>_.
     if r_status run \<noteq> RunRunning then sfail (Detailf ErrConflict)
     else sbind (abandoned S now i) (\<lambda>dead. if \<not> dead then sfail (Detailf ErrConflict) else orphan_run S i now)))"

definition rewindFailedNodes :: "'s state_store \<Rightarrow> run_id \<Rightarrow> timestamp \<Rightarrow> ('s, nat) sop" where
  "rewindFailedNodes S i now = sbind (ss_ListNodes S i) (\<lambda>nodes.
     rewind_nodes S i NodeFailed ReasonResumeRetry now nodes)"

text \<open>The part of \<open>AdoptOrphan\<close> after its checks.\<close>

definition adopt_run :: "'s state_store \<Rightarrow> run_id \<Rightarrow> run_status \<Rightarrow> string \<Rightarrow> string \<Rightarrow> int \<Rightarrow> timestamp \<Rightarrow> ('s, run) sop" where
  "adopt_run S i from holder actor ttl now =
     sbind (ss_SetRunStatus S \<lparr>ru_run = i, ru_from = from, ru_to = RunRunning, ru_error = [],
              ru_clear_cancel = True, ru_at = now\<rparr>) (\<lambda>adopted.
     sbind (ss_AcquireLease S i holder ttl) (\<lambda>_.
     sbind (rewindFailedNodes S i now) (\<lambda>rewound.
     sbind (ss_AppendAudit S (new_event i [] EventRunAdopted now
              [(''from_status'', run_status_String from), (''holder'', holder), (''actor'', actor),
               (''rewound_failed_nodes'', dec_nat rewound)])) (\<lambda>_. sreturn adopted))))"

definition AdoptOrphan :: "'s state_store \<Rightarrow> 's lock_handle option \<Rightarrow> run_id \<Rightarrow> string \<Rightarrow> string \<Rightarrow> int \<Rightarrow> timestamp
     \<Rightarrow> ('s, run) sop" where
  "AdoptOrphan S lock i holder actor ttl now = sbind (ss_GetRun S i) (\<lambda>run.
     sbind (checkLock lock (run_LockKey run)) (\<lambda>_.
     if r_status run = RunCancelled then sfail (Detailf ErrConflict)
     else if \<not> IsResumable (r_status run) then sfail (Detailf ErrConflict)
     else adopt_run S i (r_status run) holder actor ttl now))"

text \<open>\<open>RecoverOrphans\<close> returns the runs marked so far also on an error, which no caller uses.\<close>

definition RecoverOrphans :: "'s state_store \<Rightarrow> 's lock_handle option \<Rightarrow> timestamp \<Rightarrow> ('s, run list) sop" where
  "RecoverOrphans S lock now = sbind (FindOrphans S lock now) (\<lambda>orphans.
     smap (\<lambda>o1. MarkOrphaned S lock (r_id o1) now) orphans)"

definition IncompleteRunsForPlan :: "'s state_store \<Rightarrow> string \<Rightarrow> ('s, run list) sop" where
  "IncompleteRunsForPlan S digest = ss_FindRuns S (any_query\<lparr>q_digest := digest,
     q_statuses := [RunRunning, RunFailed, RunOrphaned, RunInterrupted]\<rparr>)"

subsection \<open>Claims (claim.go)\<close>

definition claimingNode :: "node_record \<Rightarrow> bool" where
  "claimingNode n = (if \<not> ClaimsOwnership (nd_kind n) then False
     else (case nd_state n of
         NodeRunning \<Rightarrow> True | NodeRetryWait \<Rightarrow> True | NodeVerifying \<Rightarrow> True
       | NodeReady \<Rightarrow> nd_attempts n > 0 | NodePending \<Rightarrow> nd_attempts n > 0
       | _ \<Rightarrow> False))"

definition claimingRunStatuses :: "run_status list" where
  "claimingRunStatuses = [RunRunning, RunOrphaned, RunFailed, RunInterrupted]"

definition claims :: "object_name \<Rightarrow> node_record list \<Rightarrow> bool" where
  "claims o1 nodes \<longleftrightarrow> (\<exists>n \<in> set nodes. claimingNode n \<and> obj_schema (nd_object n) = obj_schema o1 \<and> obj_name (nd_object n) = obj_name o1)"

fun latest_claim :: "'s state_store \<Rightarrow> object_name \<Rightarrow> run option \<Rightarrow> run list \<Rightarrow> ('s, run option) sop" where
  "latest_claim S o1 best [] = sreturn best"
| "latest_claim S o1 best (r # rs) = sbind (ss_ListNodes S (r_id r)) (\<lambda>nodes.
     latest_claim S o1 (if claims o1 nodes \<and> (case best of None \<Rightarrow> True | Some b \<Rightarrow> r_started_at r > r_started_at b)
                        then Some r else best) rs)"

definition ClaimsObjectIn :: "'s state_store option \<Rightarrow> string \<Rightarrow> object_name \<Rightarrow> ('s, run_id option) sop" where
  "ClaimsObjectIn store database o1 = (case store of None \<Rightarrow> sreturn None
   | Some S \<Rightarrow> if obj_IsZero o1 then sreturn None
       else sbind (ss_FindRuns S (any_query\<lparr>q_database := database, q_statuses := claimingRunStatuses\<rparr>)) (\<lambda>runs.
            sbind (latest_claim S o1 None runs) (\<lambda>best. sreturn (map_option r_id best))))"

definition ClaimsObject :: "'s state_store option \<Rightarrow> object_name \<Rightarrow> ('s, run_id option) sop" where
  "ClaimsObject store o1 = ClaimsObjectIn store [] o1"

subsection \<open>The laws of the port\<close>

text \<open>
  The store as its clients see it: the run, lease and node record under an id.  A read changes none of
  them; each write says which it changes.
\<close>

locale store_port =
  fixes S :: "'s state_store" and runs :: "'s \<Rightarrow> run_id \<Rightarrow> run option"
    and leases :: "'s \<Rightarrow> run_id \<Rightarrow> lease option" and nodes :: "'s \<Rightarrow> run_id \<Rightarrow> node_id \<Rightarrow> node_record option"
  assumes GetRun_law: "wp (ss_GetRun S i) (\<lambda>r s'. runs s' = runs s \<and> leases s' = leases s \<and> nodes s' = nodes s \<and> runs s i = Some r)
      (\<lambda>_ _. True) s"
    and GetLease_law: "wp (ss_GetLease S i) (\<lambda>l s'. runs s' = runs s \<and> leases s' = leases s \<and> nodes s' = nodes s \<and> leases s i = Some l)
      (\<lambda>e s'. runs s' = runs s \<and> leases s' = leases s \<and> nodes s' = nodes s \<and> (not_found e \<longrightarrow> leases s i = None)) s"
    and ListNodes_law: "wp (ss_ListNodes S i) (\<lambda>ns s'. runs s' = runs s \<and> leases s' = leases s \<and> nodes s' = nodes s \<and>
        (\<forall>n rec. nodes s i n = Some rec \<longrightarrow> rec \<in> set ns \<and> nd_id rec = n)) (\<lambda>_ _. True) s"
    and FindRuns_law: "wp (ss_FindRuns S q) (\<lambda>rs s'. runs s' = runs s \<and> leases s' = leases s \<and> nodes s' = nodes s \<and>
        (\<forall>r \<in> set rs. query_matches q r)) (\<lambda>_ _. True) s"
    and SetRunStatus_law: "wp (ss_SetRunStatus S u) (\<lambda>r' s'. leases s' = leases s \<and> nodes s' = nodes s \<and>
        (\<exists>r. runs s (ru_run u) = Some r \<and> r_status r = ru_from u) \<and> runs s' (ru_run u) = Some r' \<and>
        r_status r' = ru_to u \<and> (ru_clear_cancel u \<longrightarrow> \<not> r_cancel_requested r')) (\<lambda>_ _. True) s"
    and TransitionNode_law: "wp (ss_TransitionNode S t) (\<lambda>rec' s'. runs s' = runs s \<and> leases s' = leases s \<and>
        (\<exists>rec. nodes s' (nt_run t) (nt_node t) = Some rec \<and> nd_state rec = nt_to t) \<and>
        (\<forall>n rec. n \<noteq> nt_node t \<longrightarrow> nodes s' (nt_run t) n = Some rec \<longrightarrow> nodes s (nt_run t) n = Some rec)) (\<lambda>_ _. True) s"
    and AcquireLease_law: "wp (ss_AcquireLease S i holder ttl) (\<lambda>l s'. runs s' = runs s \<and> nodes s' = nodes s \<and>
        leases s' i = Some l \<and> l_holder l = holder) (\<lambda>_ _. True) s"
    and AppendAudit_law: "wp (ss_AppendAudit S ev) (\<lambda>_ s'. runs s' = runs s \<and> leases s' = leases s \<and> nodes s' = nodes s) (\<lambda>_ _. True) s"
begin

text \<open>The laws as backward rules.\<close>

lemma wp_ListNodes:
  assumes "\<And>ns s'. runs s' = runs s \<Longrightarrow> leases s' = leases s \<Longrightarrow> nodes s' = nodes s \<Longrightarrow>
     (\<And>n rec. nodes s i n = Some rec \<Longrightarrow> rec \<in> set ns \<and> nd_id rec = n) \<Longrightarrow> Q ns s'" "\<And>e s'. E e s'"
  shows "wp (ss_ListNodes S i) Q E s"
  by (rule wp_mono [OF ListNodes_law]) (use assms in auto)

lemma wp_SetRunStatus:
  assumes "\<And>r' s'. leases s' = leases s \<Longrightarrow> nodes s' = nodes s \<Longrightarrow> runs s' (ru_run u) = Some r' \<Longrightarrow> r_status r' = ru_to u \<Longrightarrow>
      (ru_clear_cancel u \<Longrightarrow> \<not> r_cancel_requested r') \<Longrightarrow> Q r' s'" "\<And>e s'. E e s'"
  shows "wp (ss_SetRunStatus S u) Q E s"
  by (rule wp_mono [OF SetRunStatus_law]) (use assms in auto)

lemma wp_AcquireLease:
  assumes "\<And>l s'. runs s' = runs s \<Longrightarrow> nodes s' = nodes s \<Longrightarrow> leases s' i = Some l \<Longrightarrow> l_holder l = holder \<Longrightarrow> Q l s'" "\<And>e s'. E e s'"
  shows "wp (ss_AcquireLease S i holder ttl) Q E s"
  by (rule wp_mono [OF AcquireLease_law]) (use assms in auto)

lemma wp_AppendAudit:
  assumes "\<And>ev' s'. runs s' = runs s \<Longrightarrow> leases s' = leases s \<Longrightarrow> nodes s' = nodes s \<Longrightarrow> Q ev' s'" "\<And>e s'. E e s'"
  shows "wp (ss_AppendAudit S ev) Q E s"
  by (rule wp_mono [OF AppendAudit_law]) (use assms in auto)

text \<open>What holding the lock adds: the check only reads.\<close>

definition reads :: "'s \<Rightarrow> 's \<Rightarrow> bool" where
  "reads s s' \<longleftrightarrow> runs s' = runs s \<and> leases s' = leases s \<and> nodes s' = nodes s"

lemma reads_trans: "reads s s' \<Longrightarrow> reads s' s'' \<Longrightarrow> reads s s''" by (simp add: reads_def)

definition covers :: "'s lock_handle option \<Rightarrow> lock_key \<Rightarrow> 's \<Rightarrow> bool" where
  "covers lock key s \<longleftrightarrow> (\<exists>l. lock = Some l \<and> lh_key l = key \<and> fst (lh_Held l s) = Inr True)"

lemma wp_checkLock:
  assumes "\<And>l s. lock = Some l \<Longrightarrow> wp (lh_Held l) (\<lambda>_. reads s) (\<lambda>_ _. True) s"
    and "\<And>s'. reads s s' \<Longrightarrow> covers lock key s \<Longrightarrow> Q () s'" "\<And>e s'. E e s'"
  shows "wp (checkLock lock key) Q E s"
proof (cases lock)
  case (Some l)
  obtain r s' where h: "lh_Held l s = (r, s')" by (cases "lh_Held l s")
  show ?thesis
    using assms(1) [OF Some, of s] assms(2) [of s'] assms(3) h Some
    by (cases r) (auto simp: checkLock_def sbind_def sfail_def sreturn_def wp_def covers_def)
qed (use assms in \<open>simp add: checkLock_def\<close>)

lemma wp_abandoned:
  assumes "\<And>s'. reads s s' \<Longrightarrow> Q (\<forall>l. leases s i = Some l \<longrightarrow> Expired l now) s'" "\<And>e s'. E e s'"
  shows "wp (abandoned S now i) Q E s"
  unfolding abandoned_def wp_simps
  by (rule wp_mono [OF GetLease_law [of i s]]) (use assms in \<open>auto simp: reads_def\<close>)

text \<open>Rewinding leaves no record of the run in the state it rewinds.\<close>

lemma wp_rewind:
  assumes "from \<noteq> NodePending" "\<And>n rec. nodes s i n = Some rec \<Longrightarrow> nd_state rec = from \<Longrightarrow> rec \<in> set ns \<and> nd_id rec = n"
    and "\<And>k s'. runs s' = runs s \<Longrightarrow> leases s' = leases s \<Longrightarrow>
      (\<And>n rec. nodes s' i n = Some rec \<Longrightarrow> nd_state rec \<noteq> from) \<Longrightarrow> Q k s'" "\<And>e s'. E e s'"
  shows "wp (rewind_nodes S i from reason now ns) Q E s"
  using assms(2,3)
proof (induction ns arbitrary: s Q)
  case Nil
  have "Q 0 s" by (rule Nil(2)) (use Nil(1) in auto)
  then show ?case by (simp add: rewind_nodes_def)
next
  case (Cons x ns)
  have IH: "wp (rewind_nodes S i from reason now ns) (\<lambda>k. Q (f k)) E s'"
    if "runs s' = runs s" "leases s' = leases s"
      "\<And>n rec. nodes s' i n = Some rec \<Longrightarrow> nd_state rec = from \<Longrightarrow> rec \<in> set ns \<and> nd_id rec = n" for s' f
    using that by (intro Cons.IH Cons.prems(2)) auto
  have w: "wp (ss_TransitionNode S (rewind_transition i (nd_id x) from reason now))
      (\<lambda>_. wp (rewind_nodes S i from reason now ns) (\<lambda>k. Q (Suc k)) E) E s" if "nd_state x = from"
  proof (rule wp_mono [OF TransitionNode_law])
    fix rec' s'
    assume t: "runs s' = runs s \<and> leases s' = leases s \<and>
        (\<exists>rec. nodes s' (nt_run (rewind_transition i (nd_id x) from reason now)) (nt_node (rewind_transition i (nd_id x) from reason now)) = Some rec \<and>
           nd_state rec = nt_to (rewind_transition i (nd_id x) from reason now)) \<and>
        (\<forall>n rec. n \<noteq> nt_node (rewind_transition i (nd_id x) from reason now) \<longrightarrow>
           nodes s' (nt_run (rewind_transition i (nd_id x) from reason now)) n = Some rec \<longrightarrow>
           nodes s (nt_run (rewind_transition i (nd_id x) from reason now)) n = Some rec)"
    have "rec \<in> set ns \<and> nd_id rec = n" if "nodes s' i n = Some rec" "nd_state rec = from" for n rec
    proof (cases "n = nd_id x")
      case True
      then show ?thesis using t that assms(1) by (auto simp: rewind_transition_def)
    next
      case False
      then have "nodes s i n = Some rec" using t that(1) by (auto simp: rewind_transition_def)
      then show ?thesis using Cons.prems(1) [of n rec] that(2) False by auto
    qed
    then show "wp (rewind_nodes S i from reason now ns) (\<lambda>k. Q (Suc k)) E s'" using IH t by simp
  qed (use assms(4) in auto)
  show ?case
  proof (cases "nd_state x = from")
    case True
    then show ?thesis using w by (simp add: rewind_nodes_def)
  next
    case False
    have "rec \<in> set ns \<and> nd_id rec = n" if "nodes s i n = Some rec" "nd_state rec = from" for n rec
      using Cons.prems(1) [OF that] that(2) False by auto
    then have "wp (rewind_nodes S i from reason now ns) (\<lambda>k. Q (id k)) E s" by (rule IH [OF refl refl])
    then show ?thesis using False by (simp add: rewind_nodes_def)
  qed
qed

lemma wp_orphan_run:
  "wp (orphan_run S i now) (\<lambda>r' s'. runs s' i = Some r' \<and> r_status r' = RunOrphaned \<and>
     (\<forall>n rec. nodes s' i n = Some rec \<longrightarrow> nd_state rec \<noteq> NodeRunning)) (\<lambda>_ _. True) s"
  unfolding orphan_run_def wp_simps
  by (rule wp_SetRunStatus, rule wp_ListNodes, rule wp_rewind, simp, fastforce, rule wp_AppendAudit) auto

lemma wp_adopt_run:
  "wp (adopt_run S i from holder actor ttl now) (\<lambda>r' s'. runs s' i = Some r' \<and> r_status r' = RunRunning \<and>
     \<not> r_cancel_requested r' \<and> (\<exists>l. leases s' i = Some l \<and> l_holder l = holder) \<and>
     (\<forall>n rec. nodes s' i n = Some rec \<longrightarrow> nd_state rec \<noteq> NodeFailed)) (\<lambda>_ _. True) s"
  unfolding adopt_run_def rewindFailedNodes_def wp_simps
  by (rule wp_SetRunStatus, rule wp_AcquireLease, rule wp_ListNodes, rule wp_rewind, simp, fastforce, rule wp_AppendAudit) auto

text \<open>
  A run is marked orphaned only when it was RUNNING and nobody was alive for it, under its own lock;
  then it is ORPHANED and none of its nodes is RUNNING.
\<close>

lemma MarkOrphaned_sound:
  assumes "\<And>l s. lock = Some l \<Longrightarrow> wp (lh_Held l) (\<lambda>_. reads s) (\<lambda>_ _. True) s"
    and "MarkOrphaned S lock i now s = (Inr r', s')"
  shows "(\<exists>r s1. runs s i = Some r \<and> r_status r = RunRunning \<and> reads s s1 \<and> covers lock (run_LockKey r) s1) \<and>
    (\<forall>l. leases s i = Some l \<longrightarrow> Expired l now) \<and> runs s' i = Some r' \<and> r_status r' = RunOrphaned \<and>
    (\<forall>n rec. nodes s' i n = Some rec \<longrightarrow> nd_state rec \<noteq> NodeRunning)"
proof -
  have "wp (MarkOrphaned S lock i now) (\<lambda>r' s'.
    (\<exists>r s1. runs s i = Some r \<and> r_status r = RunRunning \<and> reads s s1 \<and> covers lock (run_LockKey r) s1) \<and>
    (\<forall>l. leases s i = Some l \<longrightarrow> Expired l now) \<and> runs s' i = Some r' \<and> r_status r' = RunOrphaned \<and>
    (\<forall>n rec. nodes s' i n = Some rec \<longrightarrow> nd_state rec \<noteq> NodeRunning)) (\<lambda>_ _. True) s"
    unfolding MarkOrphaned_def wp_simps
    by (rule wp_mono [OF GetRun_law], rule wp_checkLock, rule assms(1), assumption)
       (auto simp: reads_def intro!: wp_abandoned wp_mono [OF wp_orphan_run])
  from wp_Inr [OF this assms(2)] show ?thesis .
qed

lemma AdoptOrphan_sound:
  assumes "\<And>l s. lock = Some l \<Longrightarrow> wp (lh_Held l) (\<lambda>_. reads s) (\<lambda>_ _. True) s"
    and "AdoptOrphan S lock i holder actor ttl now s = (Inr r', s')"
  shows "(\<exists>r s1. runs s i = Some r \<and> IsResumable (r_status r) \<and> reads s s1 \<and> covers lock (run_LockKey r) s1) \<and>
    runs s' i = Some r' \<and> r_status r' = RunRunning \<and> \<not> r_cancel_requested r' \<and>
    (\<exists>l. leases s' i = Some l \<and> l_holder l = holder) \<and> (\<forall>n rec. nodes s' i n = Some rec \<longrightarrow> nd_state rec \<noteq> NodeFailed)"
proof -
  have "wp (AdoptOrphan S lock i holder actor ttl now) (\<lambda>r' s'.
    (\<exists>r s1. runs s i = Some r \<and> IsResumable (r_status r) \<and> reads s s1 \<and> covers lock (run_LockKey r) s1) \<and>
    runs s' i = Some r' \<and> r_status r' = RunRunning \<and> \<not> r_cancel_requested r' \<and>
    (\<exists>l. leases s' i = Some l \<and> l_holder l = holder) \<and> (\<forall>n rec. nodes s' i n = Some rec \<longrightarrow> nd_state rec \<noteq> NodeFailed)) (\<lambda>_ _. True) s"
    unfolding AdoptOrphan_def wp_simps
    by (rule wp_mono [OF GetRun_law], rule wp_checkLock, rule assms(1), assumption)
       (auto simp: reads_def intro!: wp_mono [OF wp_adopt_run])
  from wp_Inr [OF this assms(2)] show ?thesis .
qed

lemma wp_sfilter:
  assumes "\<And>x s1 Q. reads s s1 \<Longrightarrow> (\<And>s2. reads s1 s2 \<Longrightarrow> Q (P x) s2) \<Longrightarrow> wp (p x) Q (\<lambda>_ _. True) s1"
    and "\<And>s'. reads s s' \<Longrightarrow> Q (filter P xs) s'" "reads s s1"
  shows "wp (sfilter p xs) Q (\<lambda>_ _. True) s1"
  using assms(2,3)
proof (induction xs arbitrary: s1 Q)
  case (Cons x xs)
  show ?case
    unfolding sfilter.simps wp_simps
  proof (rule assms(1) [OF Cons.prems(2)], rule Cons.IH)
    fix s2 s' assume "reads s s'"
    then show "Q (if P x then x # filter P xs else filter P xs) s'" using Cons.prems(1) [of s'] by simp
  qed (use Cons.prems(2) reads_trans in blast)
qed simp

lemma set_sortRuns [simp]: "set (sortRuns rs) = set rs" by (simp add: sortRuns_def)

text \<open>What \<open>FindOrphans\<close> reports is RUNNING on the locked target and has no live lease.\<close>

lemma FindOrphans_sound:
  assumes "\<And>l s. lock = Some l \<Longrightarrow> wp (lh_Held l) (\<lambda>_. reads s) (\<lambda>_ _. True) s"
    and "FindOrphans S lock now s = (Inr rs, s')" "r \<in> set rs"
  shows "r_status r = RunRunning \<and> (\<exists>l. lock = Some l \<and> tgt_table (r_target r) = lk_table (lh_key l)) \<and>
    (\<forall>l. leases s (r_id r) = Some l \<longrightarrow> Expired l now)"
proof -
  obtain l where l: "lock = Some l" using assms(2) by (cases lock) (auto simp: FindOrphans_def sfail_def)
  have "wp (FindOrphans S lock now) (\<lambda>rs s'. \<forall>r \<in> set rs. r_status r = RunRunning \<and>
      tgt_table (r_target r) = lk_table (lh_key l) \<and> (\<forall>le. leases s (r_id r) = Some le \<longrightarrow> Expired le now)) (\<lambda>_ _. True) s"
    unfolding FindOrphans_def l option.case wp_simps
  proof (rule wp_checkLock)
    fix s1 assume 1: "reads s s1"
    show "wp (ss_FindRuns S (any_query\<lparr>q_database := lk_database (lh_key l), q_table := Some (lk_table (lh_key l)), q_statuses := [RunRunning]\<rparr>))
      (\<lambda>cands. wp (sfilter (\<lambda>r. abandoned S now (r_id r)) cands) (\<lambda>orphans s'. \<forall>r \<in> set (sortRuns orphans). r_status r = RunRunning \<and>
      tgt_table (r_target r) = lk_table (lh_key l) \<and> (\<forall>le. leases s (r_id r) = Some le \<longrightarrow> Expired le now)) (\<lambda>_ _. True)) (\<lambda>_ _. True) s1"
    proof (rule wp_mono [OF FindRuns_law])
      fix cands s2
      assume 2: "runs s2 = runs s1 \<and> leases s2 = leases s1 \<and> nodes s2 = nodes s1 \<and>
        (\<forall>r \<in> set cands. query_matches (any_query\<lparr>q_database := lk_database (lh_key l), q_table := Some (lk_table (lh_key l)), q_statuses := [RunRunning]\<rparr>) r)"
      show "wp (sfilter (\<lambda>r. abandoned S now (r_id r)) cands) (\<lambda>orphans s'. \<forall>r \<in> set (sortRuns orphans). r_status r = RunRunning \<and>
        tgt_table (r_target r) = lk_table (lh_key l) \<and> (\<forall>le. leases s (r_id r) = Some le \<longrightarrow> Expired le now)) (\<lambda>_ _. True) s2"
        by (rule wp_sfilter [of s2 "\<lambda>r. \<forall>le. leases s (r_id r) = Some le \<longrightarrow> Expired le now"])
           (use 1 2 in \<open>auto simp: reads_def query_matches_def any_query_def split: if_splits intro!: wp_abandoned\<close>)
    qed simp
  qed (use assms(1) l in auto)
  from wp_Inr [OF this assms(2)] show ?thesis using assms(3) l by blast
qed

text \<open>A claim is held by a run that can still hold one, through a record the store returned.\<close>

definition listed :: "'s \<Rightarrow> run_id \<Rightarrow> node_record list \<Rightarrow> bool" where
  "listed s i ns \<longleftrightarrow> (\<exists>s1 s2. reads s s1 \<and> ss_ListNodes S i s1 = (Inr ns, s2))"

definition claimed_by :: "'s \<Rightarrow> object_name \<Rightarrow> run \<Rightarrow> bool" where
  "claimed_by s o1 r \<longleftrightarrow> (\<exists>ns. listed s (r_id r) ns \<and> claims o1 ns)"

lemma latest_claim_sound:
  assumes "latest_claim S o1 best rs s1 = (Inr res, s')" "reads s s1" "\<And>r. best = Some r \<Longrightarrow> claimed_by s o1 r"
  shows "(\<forall>r. res = Some r \<longrightarrow> claimed_by s o1 r \<and> (best = Some r \<or> r \<in> set rs)) \<and> (best \<noteq> None \<longrightarrow> res \<noteq> None)"
  using assms
proof (induction rs arbitrary: best s1)
  case Nil
  then show ?case by (auto simp: sreturn_def)
next
  case (Cons r rs)
  obtain ns s2 where n: "ss_ListNodes S (r_id r) s1 = (Inr ns, s2)"
    using Cons.prems(1) by (cases "ss_ListNodes S (r_id r) s1"; cases "fst (ss_ListNodes S (r_id r) s1)") (auto simp: sbind_def)
  have "wp (ss_ListNodes S (r_id r)) (\<lambda>_. reads s1) (\<lambda>_ _. True) s1"
    by (rule wp_ListNodes) (simp_all add: reads_def)
  then have "reads s1 s2" using n by (simp add: wp_def)
  then have s2: "reads s s2" using Cons.prems(2) reads_trans by blast
  define best' where "best' = (if claims o1 ns \<and> (case best of None \<Rightarrow> True | Some b \<Rightarrow> r_started_at r > r_started_at b) then Some r else best)"
  have l: "latest_claim S o1 best' rs s2 = (Inr res, s')" using Cons.prems(1) n by (simp add: sbind_def best'_def)
  have "claimed_by s o1 r'" if "best' = Some r'" for r'
    using that n Cons.prems(2,3) by (auto simp: best'_def claimed_by_def listed_def split: if_splits)
  from Cons.IH [OF l s2 this] show ?case by (auto simp: best'_def split: if_splits)
qed

lemma ClaimsObjectIn_sound:
  assumes "ClaimsObjectIn (Some S) database o1 s = (Inr (Some i), s')"
  shows "\<exists>r. r_id r = i \<and> r_status r \<in> set claimingRunStatuses \<and>
    (database \<noteq> [] \<longrightarrow> tgt_database (r_target r) = database) \<and> claimed_by s o1 r"
proof -
  let ?q = "any_query\<lparr>q_database := database, q_statuses := claimingRunStatuses\<rparr>"
  have z: "\<not> obj_IsZero o1" using assms by (auto simp: ClaimsObjectIn_def sreturn_def)
  obtain rs s1 where f: "ss_FindRuns S ?q s = (Inr rs, s1)"
    using assms z by (cases "ss_FindRuns S ?q s"; cases "fst (ss_FindRuns S ?q s)") (auto simp: ClaimsObjectIn_def sbind_def)
  have q: "reads s s1" "\<forall>r \<in> set rs. query_matches ?q r"
    using wp_Inr [OF FindRuns_law f] by (auto simp: reads_def)
  obtain r s2 where "latest_claim S o1 None rs s1 = (Inr (Some r), s2)" "r_id r = i"
    using assms z f by (auto simp: ClaimsObjectIn_def sbind_def sreturn_def split: prod.splits sum.splits)
  with latest_claim_sound [OF this(1) q(1)] q(2) show ?thesis
    by (intro exI [of _ r]) (auto simp: query_matches_def any_query_def claimingRunStatuses_def split: if_splits)
qed

end

subsection \<open>The file store satisfies the port\<close>

definition file_store_port :: "timestamp \<Rightarrow> store state_store" where
  "file_store_port clk = \<lparr>ss_GetRun = GetRun, ss_FindRuns = FindRuns, ss_SetRunStatus = SetRunStatus clk,
     ss_ListNodes = ListNodes, ss_TransitionNode = TransitionNode clk, ss_AcquireLease = AcquireLease clk,
     ss_GetLease = GetLease, ss_AppendAudit = appendAudit clk\<rparr>"

definition run_view :: "store \<Rightarrow> run_id \<Rightarrow> run option" where
  "run_view s i = stored_run (st_disk s) i"

definition lease_view :: "store \<Rightarrow> run_id \<Rightarrow> lease option" where
  "lease_view s i = stored_lease (st_disk s) i"

text \<open>A node record under the name of another node is not that node's.\<close>

definition node_view :: "store \<Rightarrow> run_id \<Rightarrow> node_id \<Rightarrow> node_record option" where
  "node_view s i n = (case node_at (st_disk s) i n of None \<Rightarrow> None | Some rec \<Rightarrow> if nd_id rec = n then Some rec else None)"

lemmas view_defs = run_view_def [abs_def] lease_view_def [abs_def] node_view_def [abs_def]

lemma quiet_views: "quiet s s' \<Longrightarrow> run_view s' = run_view s" "quiet s s' \<Longrightarrow> lease_view s' = lease_view s"
    "quiet s s' \<Longrightarrow> node_view s' = node_view s"
  by (simp_all add: view_defs quiet_simps)

lemma put_node_views:
  "stored_run (put_node i n rec (make_nodes_dir i d)) j = stored_run d j"
  "stored_lease (put_node i n rec (make_nodes_dir i d)) j = stored_lease d j"
  "node_at (put_node i n rec (make_nodes_dir i d)) j m =
     (if encodeSegment j = encodeSegment i \<and> encodeSegment m = encodeSegment n then Some rec else node_at d j m)"
  by (simp_all add: put_node_eq make_nodes_dir_def stored_run_def stored_lease_def node_at_dir)

lemma wp_quiet_view:
  "quiet_op m \<Longrightarrow> wp m (\<lambda>_ s'. run_view s' = run_view s \<and> lease_view s' = lease_view s \<and> node_view s' = node_view s)
     (\<lambda>_ s'. run_view s' = run_view s \<and> lease_view s' = lease_view s \<and> node_view s' = node_view s) s"
  by (rule wp_quiet) (simp_all add: view_defs quiet_simps)

lemma trail_views:
  "stored_run (update_run_dir k (\<lambda>x. x\<lparr>rd_trail := u x\<rparr>) d) i = stored_run d i"
  "stored_lease (update_run_dir k (\<lambda>x. x\<lparr>rd_trail := u x\<rparr>) d) i = stored_lease d i"
  by (simp_all add: stored_run_def stored_lease_def)

lemma wp_SetRunStatus_file:
  "wp (SetRunStatus clk u) (\<lambda>r' s'. lease_view s' = lease_view s \<and> node_view s' = node_view s \<and>
     (\<exists>r. run_view s (ru_run u) = Some r \<and> r_status r = ru_from u) \<and> run_view s' (ru_run u) = Some r' \<and>
     r_status r' = ru_to u \<and> (ru_clear_cancel u \<longrightarrow> \<not> r_cancel_requested r')) (\<lambda>_ _. True) s"
  unfolding SetRunStatus_def wp_simps
proof (rule wp_GetRun)
  fix run s1 assume run: "quiet s s1" "stored_run (st_disk s) (ru_run u) = Some run" "r_id run = ru_run u"
  have c: "ru_clear_cancel u \<Longrightarrow> \<not> r_cancel_requested (updated_run now u run)" for now
    by (simp add: updated_run_def Let_def)
  have w: "wp (write_run (ru_run u) (updated_run now u run)) (\<lambda>_. wp (appendAudit clk ev)
      (\<lambda>_ s'. lease_view s' = lease_view s \<and> node_view s' = node_view s \<and> run_view s' (ru_run u) = Some (updated_run now u run))
      (\<lambda>_ _. True)) (\<lambda>_ _. True) s1" for now ev
    unfolding write_run_def put_run_eq
  proof (rule wp_write_file)
    fix s2 assume w: "wrote (update_run_dir (ru_run u) (\<lambda>x. x\<lparr>rd_run := Some (updated_run now u run)\<rparr>)
       (update_run_dir (ru_run u) (\<lambda>x. x) (st_disk s1))) s1 s2"
    show "wp (appendAudit clk ev) (\<lambda>_ s'. lease_view s' = lease_view s \<and> node_view s' = node_view s \<and>
        run_view s' (ru_run u) = Some (updated_run now u run)) (\<lambda>_ _. True) s2"
      by (rule wp_appendAudit_disk)
         (use w run(1) in \<open>simp_all add: view_defs trail_views wrote_def quiet_simps stored_run_def stored_lease_def node_at_dir fun_eq_iff\<close>)
  qed simp
  have "r_status run = ru_from u \<Longrightarrow> run_view s (ru_run u) = Some run" using run(2) by (simp add: run_view_def)
  then show "wp (if r_status run \<noteq> ru_from u then sfail (Detailf ErrConflict)
     else scheck (CheckRunTransition (ru_from u) (ru_to u))
       (let now = store_now clk (ru_at u); run' = updated_run now u run
        in sbind (write_run (r_id run) run') (\<lambda>_.
           sbind (appendAudit clk (new_event (r_id run) [] EventRunStatusChanged now
             [(''from'', run_status_String (r_status run)), (''to'', run_status_String (ru_to u)),
              (''error'', ru_error u)])) (\<lambda>_. sreturn run'))))
     (\<lambda>r' s'. lease_view s' = lease_view s \<and> node_view s' = node_view s \<and>
     (\<exists>r. run_view s (ru_run u) = Some r \<and> r_status r = ru_from u) \<and> run_view s' (ru_run u) = Some r' \<and>
     r_status r' = ru_to u \<and> (ru_clear_cancel u \<longrightarrow> \<not> r_cancel_requested r')) (\<lambda>_ _. True) s1"
    using c by (cases "r_status run = ru_from u")
      (auto simp: run(3) Let_def split: option.splits intro!: wp_mono [OF w] intro: wp_mono)
qed simp

lemma wp_read_records:
  assumes "\<And>s'. quiet s s' \<Longrightarrow> Q recs s'" "\<And>e s'. E e s'"
  shows "wp (smap (\<lambda>rec. read_file (\<lambda>_. Some rec)) recs) Q E s"
  using assms
proof (induction recs arbitrary: s Q)
  case (Cons r recs)
  show ?case
    unfolding smap.simps wp_simps
  proof (rule wp_read_file)
    fix x s' assume x: "quiet s s'" "Some r = Some x"
    show "wp (smap (\<lambda>rec. read_file (\<lambda>_. Some rec)) recs) (\<lambda>ys. Q (x # ys)) E s'"
      by (rule Cons.IH) (use Cons.prems x quiet_trans [OF x(1)] in auto)
  qed (use Cons.prems in auto)
qed simp

lemma wp_ListNodes_file:
  "wp (ListNodes i) (\<lambda>ns s'. run_view s' = run_view s \<and> lease_view s' = lease_view s \<and> node_view s' = node_view s \<and>
     (\<forall>n rec. node_view s i n = Some rec \<longrightarrow> rec \<in> set ns \<and> nd_id rec = n)) (\<lambda>_ _. True) s"
  unfolding ListNodes_def wp_simps
proof (rule wp_read_dir)
  fix s1 assume q: "quiet s s1"
  show "wp (case rd_nodes (run_dir_of (st_disk s) i) of None \<Rightarrow> sbind (GetRun i) (\<lambda>_. sreturn [])
     | Some ns \<Rightarrow> sbind (smap (\<lambda>rec. read_file (\<lambda>_. Some rec)) (map snd (sort_key fst ns))) (\<lambda>out. sreturn (sort_key nd_id out)))
     (\<lambda>ns s'. run_view s' = run_view s \<and> lease_view s' = lease_view s \<and> node_view s' = node_view s \<and>
     (\<forall>n rec. node_view s i n = Some rec \<longrightarrow> rec \<in> set ns \<and> nd_id rec = n)) (\<lambda>_ _. True) s1"
  proof (cases "rd_nodes (run_dir_of (st_disk s) i)")
    case None
    then have "node_view s i n = None" for n by (simp add: node_view_def node_at_def)
    then show ?thesis using None q
      by (auto intro!: wp_quiet simp: quiet_views dest!: quiet_trans [OF q])
  next
    case (Some ns)
    have "rec \<in> snd ` set ns \<and> nd_id rec = n" if "node_view s i n = Some rec" for n rec
      using that Some by (force simp: node_view_def node_at_def split: option.splits if_splits dest: map_of_SomeD)
    then show ?thesis using Some
      by (auto intro!: wp_read_records simp: quiet_views dest!: quiet_trans [OF q])
  qed
qed simp

lemma wp_FindRuns_file:
  "wp (FindRuns q) (\<lambda>rs s'. run_view s' = run_view s \<and> lease_view s' = lease_view s \<and> node_view s' = node_view s \<and>
     (\<forall>r \<in> set rs. query_matches q r)) (\<lambda>_ _. True) s"
proof -
  have m: "wp (FindRuns q) (\<lambda>rs _. \<forall>r \<in> set rs. query_matches q r) (\<lambda>_ _. True) s"
  proof (cases "q_run q = []")
    case True
    have c: "quiet_op (read_runs ds)" for ds by (auto simp: read_runs_def split: sum.splits)
    show ?thesis
      unfolding FindRuns_def using True
      by (simp, intro wp_read_dir) (auto simp: sortRuns_def Let_def dest!: subsetD [OF set_take_subset] intro!: wp_quiet [OF c] split: if_splits)
  next
    case False
    then show ?thesis by (auto simp: FindRuns_def intro!: wp_quiet [OF quiet_op_GetRun])
  qed
  show ?thesis
    using m wp_quiet_view [OF quiet_op_FindRuns, of q s] by (auto simp: wp_def split: prod.splits sum.splits)
qed

lemma wp_TransitionNode_file:
  "wp (TransitionNode clk t) (\<lambda>rec' s'. run_view s' = run_view s \<and> lease_view s' = lease_view s \<and>
     (\<exists>rec. node_view s' (nt_run t) (nt_node t) = Some rec \<and> nd_state rec = nt_to t) \<and>
     (\<forall>n rec. n \<noteq> nt_node t \<longrightarrow> node_view s' (nt_run t) n = Some rec \<longrightarrow> node_view s (nt_run t) n = Some rec)) (\<lambda>_ _. True) s"
proof (cases "nt_validate t")
  case None
  show ?thesis
    unfolding TransitionNode_def wp_simps None option.case
  proof (rule wp_GetNode)
    fix rec s1 assume rec: "quiet s s1" "node_at (st_disk s) (nt_run t) (nt_node t) = Some rec" "nd_id rec = nt_node t"
    have w: "wp (write_node (nt_run t) (nt_node t) (applyTransition rec t now)) (\<lambda>_. wp (appendAudit clk ev) (\<lambda>_. K) (\<lambda>_ _. True)) (\<lambda>_ _. True) s1"
      if K: "\<And>s'. run_view s' = run_view s \<and> lease_view s' = lease_view s \<and>
        (\<forall>n. node_at (st_disk s') (nt_run t) n = (if encodeSegment n = encodeSegment (nt_node t) then Some (applyTransition rec t now)
            else node_at (st_disk s) (nt_run t) n)) \<Longrightarrow> K s'" for now ev K
      by (rule wp_write_node_disk, rule wp_appendAudit_disk, rule K)
         (simp_all add: run_view_def [abs_def] lease_view_def [abs_def] trail_views put_node_views quiet_simps [OF rec(1)] fun_eq_iff)
    show "wp (if nd_state rec \<noteq> nt_from t then sfail (Detailf ErrConflict)
      else (let now = store_now clk (nt_at t); rec' = applyTransition rec t now
            in sbind (write_node (nt_run t) (nt_node t) rec') (\<lambda>_.
               sbind (appendAudit clk (nodeTransitionEvent t rec' now)) (\<lambda>_. sreturn rec'))))
      (\<lambda>rec' s'. run_view s' = run_view s \<and> lease_view s' = lease_view s \<and>
     (\<exists>rec. node_view s' (nt_run t) (nt_node t) = Some rec \<and> nd_state rec = nt_to t) \<and>
     (\<forall>n rec. n \<noteq> nt_node t \<longrightarrow> node_view s' (nt_run t) n = Some rec \<longrightarrow> node_view s (nt_run t) n = Some rec)) (\<lambda>_ _. True) s1"
    proof (cases "nd_state rec = nt_from t")
      case True
      show ?thesis
        unfolding Let_def using True
        by (simp, intro w) (use rec(3) in \<open>auto simp: node_view_def split: option.splits if_splits\<close>)
    qed simp
  qed simp
qed (simp add: TransitionNode_def)

lemma wp_AcquireLease_file:
  "wp (AcquireLease clk i holder ttl) (\<lambda>l s'. run_view s' = run_view s \<and> node_view s' = node_view s \<and>
     lease_view s' i = Some l \<and> l_holder l = holder) (\<lambda>_ _. True) s"
proof (cases "normalizeTTL ttl")
  case (Inr secs)
  have w: "wp (write_lease j l) (\<lambda>_. wp (appendAudit clk ev) (\<lambda>_. K) (\<lambda>_ _. True)) (\<lambda>_ _. True) s1"
    if "quiet s s1" and K: "\<And>s'. run_view s' = run_view s \<Longrightarrow> node_view s' = node_view s \<Longrightarrow> lease_view s' j = Some l \<Longrightarrow> K s'"
    for s1 j l ev K
    unfolding write_lease_def put_lease_def
  proof (rule wp_write_file, rule wp_appendAudit_disk, rule K)
  qed (use that(1) in \<open>auto simp: view_defs trail_views quiet_simps wrote_def stored_run_def stored_lease_def node_at_dir fun_eq_iff\<close>)
  show ?thesis
    unfolding AcquireLease_def wp_simps Inr sum.case Let_def
    by (rule wp_GetRun, rule wp_GetLease) (auto intro: w quiet_trans)
qed (simp add: AcquireLease_def)

lemma wp_appendAudit_file:
  "wp (appendAudit clk ev) (\<lambda>_ s'. run_view s' = run_view s \<and> lease_view s' = lease_view s \<and> node_view s' = node_view s) (\<lambda>_ _. True) s"
  by (rule wp_appendAudit_disk) (auto simp: view_defs trail_views fun_eq_iff)

interpretation file_port: store_port "file_store_port clk" run_view lease_view node_view
proof
  show "wp (ss_GetRun (file_store_port clk) i) (\<lambda>r s'. run_view s' = run_view s \<and> lease_view s' = lease_view s \<and>
      node_view s' = node_view s \<and> run_view s i = Some r) (\<lambda>_ _. True) s" for i s
    unfolding file_store_port_def state_store.simps by (rule wp_GetRun) (auto simp: view_defs quiet_simps)
  show "wp (ss_GetLease (file_store_port clk) i) (\<lambda>l s'. run_view s' = run_view s \<and> lease_view s' = lease_view s \<and>
      node_view s' = node_view s \<and> lease_view s i = Some l)
    (\<lambda>e s'. run_view s' = run_view s \<and> lease_view s' = lease_view s \<and> node_view s' = node_view s \<and>
      (not_found e \<longrightarrow> lease_view s i = None)) s" for i s
    unfolding file_store_port_def state_store.simps by (rule wp_GetLease) (auto simp: view_defs quiet_simps)
  show "wp (ss_TransitionNode (file_store_port clk) t) (\<lambda>rec' s'. run_view s' = run_view s \<and> lease_view s' = lease_view s \<and>
     (\<exists>rec. node_view s' (nt_run t) (nt_node t) = Some rec \<and> nd_state rec = nt_to t) \<and>
     (\<forall>n rec. n \<noteq> nt_node t \<longrightarrow> node_view s' (nt_run t) n = Some rec \<longrightarrow> node_view s (nt_run t) n = Some rec)) (\<lambda>_ _. True) s" for t s
    unfolding file_store_port_def state_store.simps by (rule wp_TransitionNode_file)
qed (simp_all add: file_store_port_def wp_ListNodes_file wp_FindRuns_file wp_SetRunStatus_file
      wp_AcquireLease_file wp_appendAudit_file)

lemma Held_reads:
  "quiet_op m \<Longrightarrow> wp m (\<lambda>_. file_port.reads s) (\<lambda>_ _. True) s"
  by (rule wp_quiet) (simp_all add: file_port.reads_def quiet_views)

subsection \<open>Properties\<close>

text \<open>
  C26. A run is marked orphaned only when nobody can be alive for it: it was RUNNING, the caller's lock
  covers its table and was held, and its lease had expired or was never taken.  Afterwards the run is
  ORPHANED and none of its nodes is left RUNNING, which no executor could dispatch again.
\<close>
theorem MarkOrphaned_correct:
  assumes "quiet_op (lh_Held l)" "MarkOrphaned (file_store_port clk) (Some l) i now s = (Inr r', s')"
  shows "(\<exists>r s1. run_view s i = Some r \<and> r_status r = RunRunning \<and> lh_key l = run_LockKey r \<and>
      run_view s1 = run_view s \<and> fst (lh_Held l s1) = Inr True) \<and>
    (\<forall>le. lease_view s i = Some le \<longrightarrow> Expired le now) \<and> run_view s' i = Some r' \<and> r_status r' = RunOrphaned \<and>
    (\<forall>n rec. node_view s' i n = Some rec \<longrightarrow> nd_state rec \<noteq> NodeRunning)"
  using file_port.MarkOrphaned_sound [OF _ assms(2)] assms(1) Held_reads
  by (fastforce simp: file_port.covers_def file_port.reads_def)

text \<open>
  C27. Only a run that failed, was interrupted or was orphaned is adopted, under a held lock for its
  table, so never one that was cancelled or completed; afterwards it is RUNNING without a pending stop
  request, its lease is the adopter's, and none of its nodes is left FAILED.
\<close>
theorem AdoptOrphan_correct:
  assumes "quiet_op (lh_Held l)" "AdoptOrphan (file_store_port clk) (Some l) i holder actor ttl now s = (Inr r', s')"
  shows "(\<exists>r s1. run_view s i = Some r \<and> IsResumable (r_status r) \<and> lh_key l = run_LockKey r \<and>
      run_view s1 = run_view s \<and> fst (lh_Held l s1) = Inr True) \<and>
    run_view s' i = Some r' \<and> r_status r' = RunRunning \<and> \<not> r_cancel_requested r' \<and>
    (\<exists>le. lease_view s' i = Some le \<and> l_holder le = holder) \<and>
    (\<forall>n rec. node_view s' i n = Some rec \<longrightarrow> nd_state rec \<noteq> NodeFailed)"
  using file_port.AdoptOrphan_sound [OF _ assms(2)] assms(1) Held_reads
  by (fastforce simp: file_port.covers_def file_port.reads_def)

definition sample_lock :: "store lock_handle" where
  "sample_lock = \<lparr>lh_key = run_LockKey sample_run, lh_Held = sreturn True\<rparr>"

lemma sample_lock_quiet: "quiet_op (lh_Held sample_lock)"
  by (simp add: sample_lock_def quiet_op_def sreturn_def)

lemma sample_orphan: "\<exists>r' s'. MarkOrphaned (file_store_port 9) (Some sample_lock) ''r'' 9 opened_store = (Inr r', s')"
proof -
  have c: "CheckRunTransition RunRunning RunOrphaned = None" by code_simp
  have r: "r_status sample_run = RunRunning" by (simp add: sample_run_def opened_run_def)
  have i: "r_id sample_run = ''r''" by (simp add: sample_run_def opened_run_def)
  show ?thesis
    by (simp add: MarkOrphaned_def file_store_port_def checkLock_def sample_lock_def abandoned_def orphan_run_def
        SetRunStatus_def c ListNodes_def rewind_nodes_def write_run_def updated_run_def dir_entries_def opened_node_def InitialNodeState_def
        run_LockKey_def not_found_simps sample_store_simps)
qed

theorem MarkOrphaned_correct_witness:
  "\<exists>r' s'. MarkOrphaned (file_store_port 9) (Some sample_lock) ''r'' 9 opened_store = (Inr r', s') \<and>
     run_view s' ''r'' = Some r' \<and> r_status r' = RunOrphaned"
proof -
  obtain r' s' where m: "MarkOrphaned (file_store_port 9) (Some sample_lock) ''r'' 9 opened_store = (Inr r', s')"
    using sample_orphan by blast
  from MarkOrphaned_correct [OF sample_lock_quiet m] show ?thesis using m by blast
qed

definition failed_store :: store where
  "failed_store = process_store 0 [] (new_world\<lparr>w_disk := put_node ''r'' ''d''
     ((opened_node 1 ''r'' sample_drop)\<lparr>nd_state := NodeFailed\<rparr>)
     (put_run ''r'' (sample_run\<lparr>r_status := RunFailed\<rparr>) (w_disk new_world))\<rparr>)"

lemma sample_adopt:
  "\<exists>r' s'. AdoptOrphan (file_store_port 9) (Some sample_lock) ''r'' ''h'' ''a'' 0 9 failed_store = (Inr r', s')"
proof -
  have c: "CheckRunTransition RunFailed RunRunning = None" by code_simp
  have v: "nt_validate (rewind_transition ''r'' ''d'' NodeFailed ReasonResumeRetry 9) = None" by code_simp
  show ?thesis
    by (simp add: AdoptOrphan_def file_store_port_def checkLock_def sample_lock_def IsResumable_def adopt_run_def rewindFailedNodes_def
        SetRunStatus_def c ListNodes_def rewind_nodes_def write_run_def updated_run_def dir_entries_def opened_node_def
        AcquireLease_def normalizeTTL_def DefaultLeaseTTL_def second_ns_def write_lease_def put_lease_def
        TransitionNode_def v GetNode_def node_at_def write_node_def make_nodes_dir_def nodeTransitionEvent_def sample_ids(1)
        run_LockKey_def failed_store_def sample_store_simps rewind_transition_def [symmetric])
       (simp add: rewind_transition_def)
qed

theorem AdoptOrphan_correct_witness:
  "\<exists>r' s'. AdoptOrphan (file_store_port 9) (Some sample_lock) ''r'' ''h'' ''a'' 0 9 failed_store = (Inr r', s') \<and>
     r_status r' = RunRunning \<and> (\<exists>le. lease_view s' ''r'' = Some le \<and> l_holder le = ''h'')"
proof -
  obtain r' s' where m: "AdoptOrphan (file_store_port 9) (Some sample_lock) ''r'' ''h'' ''a'' 0 9 failed_store = (Inr r', s')"
    using sample_adopt by blast
  from AdoptOrphan_correct [OF sample_lock_quiet m] show ?thesis using m by blast
qed

lemma FindOrphans_file:
  "quiet_op (lh_Held l) \<Longrightarrow> FindOrphans (file_store_port clk) (Some l) now s = (Inr rs, s') \<Longrightarrow> r \<in> set rs \<Longrightarrow>
   r_status r = RunRunning \<and> tgt_table (r_target r) = lk_table (lh_key l) \<and>
   (\<forall>le. lease_view s (r_id r) = Some le \<longrightarrow> Expired le now)"
  using file_port.FindOrphans_sound [of "Some l" clk now s rs s' r] Held_reads by auto

text \<open>
  A claim is what \<open>resume\<close> may adopt an unmarked object on.  It starts with the first dispatch, outlives
  the crash and the recovery of the run, and ends only when the node is done or skipped, or while it
  is failed.
\<close>

lemma claimingNode_dispatched:
  "nd_attempts n > 0 \<Longrightarrow> claimingNode n \<longleftrightarrow> ClaimsOwnership (nd_kind n) \<and>
     nd_state n \<in> {NodePending, NodeReady, NodeRunning, NodeVerifying, NodeRetryWait}"
  by (cases "nd_state n") (simp_all add: claimingNode_def)

lemma node_path_valid: "node_path a rs b \<Longrightarrow> state_Valid a \<Longrightarrow> state_Valid b"
  by (induction rule: node_path.induct) (auto simp: node_step_iff state_Valid_def)

text \<open>
  C28. Once dispatched with a claim, a node of a visible run keeps it through every history of the
  store, crashes and recovery included, until it is done, skipped or failed, and its object stays.
\<close>
theorem claim_survives:
  assumes "reliable (hs1 @ hs2)" "stored_run (w_disk (history hs1)) i = Some r"
    and "node_at (w_disk (history hs1)) i n = Some rec" "nd_attempts rec > 0" "claimingNode rec"
  shows "\<exists>rec'. node_at (w_disk (history (hs1 @ hs2))) i n = Some rec' \<and> nd_object rec' = nd_object rec \<and>
    (claimingNode rec' \<or> nd_state rec' \<in> {NodeDone, NodeSkipped, NodeFailed})"
proof -
  obtain rec' where rec': "node_at (w_disk (history (hs1 @ hs2))) i n = Some rec'" "node_evolves rec rec'"
    using steps_nodes [OF history_steps [OF assms(1), unfolded world_system_def] _ assms(3)] assms(2) by auto
  have "state_Valid (nd_state rec)"
    using assms(5) by (auto simp: claimingNode_def state_Valid_def split: if_splits node_state.splits)
  then have "state_Valid (nd_state rec')" using rec'(2) node_path_valid by (auto simp: node_evolves_def)
  then show ?thesis
    using rec' assms(4,5) claimingNode_dispatched [of rec] claimingNode_dispatched [of rec']
    by (intro exI [of _ rec']) (auto simp: node_evolves_def state_Valid_iff allNodeStates_def)
qed

definition sample_create_request :: new_run where
  "sample_create_request = \<lparr>nr_plan = Some (sample_plan\<lparr>p_digest := ''sha256:00'',
     p_nodes := [(wait_node ''c'' [])\<lparr>n_kind := KindIndexCreateConcurrently\<rparr>]\<rparr>), nr_id = ''r'', nr_actor = ''a'', nr_started_at = 1\<rparr>"

definition sample_to :: "node_state \<Rightarrow> node_state \<Rightarrow> node_transition" where
  "sample_to from to = \<lparr>nt_run = ''r'', nt_node = ''c'', nt_from = from, nt_to = to, nt_reason = ReasonNormal,
     nt_increment = (to = NodeRunning), nt_err = None, nt_at = 2\<rparr>"

definition sample_dispatch :: "event list" where
  "sample_dispatch = [(0, [], CallCreateRun 1 [] sample_create_request),
     (0, [], CallTransitionNode 2 (sample_to NodePending NodeReady)),
     (0, [], CallTransitionNode 2 (sample_to NodeReady NodeRunning))]"

lemma sample_create_valid: "new_run_validate sample_create_request = None"
  by code_simp

lemma sample_to_valid: "nt_validate (sample_to NodePending NodeReady) = None" "nt_validate (sample_to NodeReady NodeRunning) = None"
  by code_simp+

lemma sample_to_sel: "nt_run (sample_to a b) = ''r''" "nt_node (sample_to a b) = ''c''" "nt_from (sample_to a b) = a"
    "nt_to (sample_to a b) = b" "nt_increment (sample_to a b) = (b = NodeRunning)"
  by (simp_all add: sample_to_def)

lemma sample_dispatched:
  "\<exists>r rec. stored_run (w_disk (history sample_dispatch)) ''r'' = Some r \<and>
     node_at (w_disk (history sample_dispatch)) ''r'' ''c'' = Some rec \<and> nd_attempts rec > 0 \<and> claimingNode rec"
proof -
  have n: "n_id ((wait_node ''c'' [])\<lparr>n_kind := KindIndexCreateConcurrently\<rparr>) = ''c''"
     "n_kind ((wait_node ''c'' [])\<lparr>n_kind := KindIndexCreateConcurrently\<rparr>) = KindIndexCreateConcurrently"
    by (simp_all add: wait_node_def)
  have p: "nr_plan sample_create_request = Some (sample_plan\<lparr>p_digest := ''sha256:00'',
     p_nodes := [(wait_node ''c'' [])\<lparr>n_kind := KindIndexCreateConcurrently\<rparr>]\<rparr>)" "nr_id sample_create_request = ''r''"
    by (simp_all add: sample_create_request_def)
  have c: "ClaimsOwnership KindIndexCreateConcurrently" by (simp add: ClaimsOwnership_def)
  show ?thesis
    by (simp add: sample_dispatch_def history_def perform_def process_store_def ignore_def Let_def new_world_def
        CreateRun_def sample_create_valid p n TransitionNode_def sample_to_valid sample_to_sel GetNode_def opened_node_def InitialNodeState_def
        write_node_def write_run_def make_nodes_dir_def put_node_def put_run_def stored_run_def node_at_def dir_entries_def
        run_store_simps run_dir_of_empty empty_dir_def trail_of_def appendAudit_def write_trail_def readAudit_def ev_validate_def
        run_opened_event_def new_event_def opened_run_def nodeTransitionEvent_def claimingNode_def c append_trail_def)
qed

theorem claim_survives_witness:
  "\<exists>rec'. node_at (w_disk (history (sample_dispatch @ [(1, [IoStop], CallRequestCancel 5 ''r'' ''a'' [])]))) ''r'' ''c'' = Some rec' \<and>
     (claimingNode rec' \<or> nd_state rec' \<in> {NodeDone, NodeSkipped, NodeFailed})"
proof -
  obtain r rec where d: "stored_run (w_disk (history sample_dispatch)) ''r'' = Some r"
     "node_at (w_disk (history sample_dispatch)) ''r'' ''c'' = Some rec" "nd_attempts rec > 0" "claimingNode rec"
    using sample_dispatched by blast
  have "reliable (sample_dispatch @ [(1, [IoStop], CallRequestCancel 5 ''r'' ''a'' [])])"
    by (simp add: reliable_def sample_dispatch_def)
  from claim_survives [OF this d] show ?thesis by blast
qed

lemma ClaimsObjectIn_file:
  "ClaimsObjectIn (Some (file_store_port clk)) database o1 s = (Inr (Some i), s') \<Longrightarrow>
   \<exists>r. r_id r = i \<and> r_status r \<in> set claimingRunStatuses \<and> (database \<noteq> [] \<longrightarrow> tgt_database (r_target r) = database) \<and>
     file_port.claimed_by clk s o1 r"
  by (rule file_port.ClaimsObjectIn_sound)

end
