(* ===== verification/Go_Json.thy ===== *)
theory Go_Json
  imports Digest
begin

text \<open>
  The parts of Go's package encoding/json and of \<open>strings.TrimSpace\<close> that the code uses to write
  and read records whose fields are all strings: the encoder without HTML escaping, and the decoder
  on JSON text, with its nesting limit, its replacement of bytes that are not UTF-8, and its
  whitespace rules.  The decoder keeps of a value what such a record can use: null, a string, an
  object, or some other value.
\<close>

subsection \<open>Encoding\<close>

definition quote :: char where "quote = CHR 0x22"

definition json_rune :: "rune \<Rightarrow> string" where
  "json_rune r = (if r = 8232 \<or> r = 8233 then [backslash] @ ''u202'' @ [hex_digits ! (r mod 16)]
     else canonical_rune r)"

function json_escape :: "string \<Rightarrow> string" where
  "json_escape s = (if s = [] then []
     else (if decode_rune s = (RuneError, 1) then [backslash] @ ''ufffd'' else json_rune (fst (decode_rune s)))
          @ json_escape (drop (snd (decode_rune s)) s))"
  by pat_completeness auto
termination
  by (relation "measure length") (auto simp: drop_rune_less)

declare json_escape.simps [simp del]

definition json_string :: "string \<Rightarrow> string" where
  "json_string s = [quote] @ json_escape s @ [quote]"

definition member_text_of :: "string \<times> string \<Rightarrow> string" where
  "member_text_of kv = json_string (fst kv) @ '':'' @ json_string (snd kv)"

definition json_record :: "(string \<times> string) list \<Rightarrow> string" where
  "json_record kvs = ''{'' @ join_strings '','' (map member_text_of kvs) @ ''}''"

subsection \<open>Decoding strings\<close>

definition hex_value :: "char \<Rightarrow> nat option" where
  "hex_value c = map_of (zip ''0123456789abcdefABCDEF'' ([0..<16] @ [10..<16])) c"

fun hex4 :: "string \<Rightarrow> (nat \<times> string) option" where
  "hex4 (a # b # c # d # t) = (case (hex_value a, hex_value b, hex_value c, hex_value d) of
     (Some w, Some x, Some y, Some z) \<Rightarrow> Some (w * 4096 + x * 256 + y * 16 + z, t) | _ \<Rightarrow> None)"
| "hex4 _ = None"

definition high_surrogate :: "nat \<Rightarrow> bool" where "high_surrogate r \<longleftrightarrow> 55296 \<le> r \<and> r < 56320"
definition low_surrogate :: "nat \<Rightarrow> bool" where "low_surrogate r \<longleftrightarrow> 56320 \<le> r \<and> r < 57344"

text \<open>After a backslash and the letter u: a pair of surrogate escapes is one rune, a lone one is replaced.\<close>

definition unicode_escape :: "string \<Rightarrow> (string \<times> string) option" where
  "unicode_escape t = (case hex4 t of None \<Rightarrow> None | Some (r, t') \<Rightarrow>
     if high_surrogate r \<and> take 2 t' = [backslash, CHR ''u''] then
       (case hex4 (drop 2 t') of
          Some (r2, t2) \<Rightarrow> if low_surrogate r2
            then Some (encode_rune ((r - 55296) * 1024 + (r2 - 56320) + 65536), t2)
            else Some (encode_rune RuneError, t')
        | None \<Rightarrow> None)
     else Some (write_rune r, t'))"

definition short_escapes :: "(char \<times> char) list" where
  "short_escapes = [(quote, quote), (backslash, backslash), (CHR ''/'', CHR ''/''), (CHR ''b'', CHR 0x08),
     (CHR ''f'', CHR 0x0C), (CHR ''n'', CHR 0x0A), (CHR ''r'', CHR 0x0D), (CHR ''t'', CHR 0x09)]"

text \<open>One character or escape of a string body: the bytes it stands for and the rest.\<close>

definition parse_char :: "string \<Rightarrow> (string \<times> string) option" where
  "parse_char s = (case s of [] \<Rightarrow> None | c # t \<Rightarrow>
     if c = backslash then
       (case t of [] \<Rightarrow> None | e # u \<Rightarrow>
          if e = CHR ''u'' then unicode_escape u
          else map_option (\<lambda>x. ([x], u)) (map_of short_escapes e))
     else if (of_char c :: nat) < 32 then None
     else Some (write_rune (fst (decode_rune s)), drop (snd (decode_rune s)) s))"

lemma hex4_rest: "hex4 s = Some (r, t) \<Longrightarrow> length t < length s"
  by (induction s rule: hex4.induct) (auto split: option.splits)

lemma unicode_escape_rest: "unicode_escape s = Some (b, t) \<Longrightarrow> length t < length s"
  by (fastforce simp: unicode_escape_def dest: hex4_rest split: option.splits if_splits)

lemma parse_char_rest: "parse_char s = Some (b, t) \<Longrightarrow> length t < length s"
  using drop_rune_less [of s]
  by (auto simp: parse_char_def dest!: unicode_escape_rest split: list.splits if_splits)

function parse_chars :: "string \<Rightarrow> (string \<times> string) option" where
  "parse_chars s = (if s = [] then None else if hd s = quote then Some ([], tl s)
     else (case parse_char s of None \<Rightarrow> None | Some (b, t) \<Rightarrow>
       (case parse_chars t of None \<Rightarrow> None | Some (c, u) \<Rightarrow> Some (b @ c, u))))"
  by pat_completeness auto
termination
  by (relation "measure length") (auto dest: parse_char_rest)

declare parse_chars.simps [simp del]

lemma parse_chars_rest: "parse_chars s = Some (b, t) \<Longrightarrow> length t < length s"
proof (induction s arbitrary: b rule: parse_chars.induct)
  case (1 s)
  consider "s \<noteq> []" "hd s = quote" "t = tl s"
    | c u b' where "s \<noteq> []" "hd s \<noteq> quote" "parse_char s = Some (c, u)" "parse_chars u = Some (b', t)"
    using "1.prems" by (auto simp: parse_chars.simps [of s] split: if_splits option.splits)
  then show ?case
  proof cases
    case 2
    then show ?thesis using "1.IH" [OF 2(1,2,3) refl 2(4)] parse_char_rest [OF 2(3)] by linarith
  qed simp
qed

subsection \<open>Decoding values\<close>

datatype json_text = TextNull | TextString string | TextObject "(string \<times> json_text) list" | TextOther

definition maxNestingDepth :: nat where "maxNestingDepth = 10000"

definition skip_ws :: "string \<Rightarrow> string" where
  "skip_ws s = dropWhile (\<lambda>c. c \<in> {CHR '' '', CHR 0x09, CHR 0x0A, CHR 0x0D}) s"

definition expect :: "string \<Rightarrow> string \<Rightarrow> string option" where
  "expect lit s = (if has_prefix s lit then Some (drop (length lit) s) else None)"

definition skip_digits :: "string \<Rightarrow> string option" where
  "skip_digits s = (case s of [] \<Rightarrow> None | c # t \<Rightarrow> if is_dec c then Some (dropWhile is_dec t) else None)"

definition skip_exponent :: "string \<Rightarrow> string option" where
  "skip_exponent s = (case s of [] \<Rightarrow> Some [] | c # t \<Rightarrow>
     if c \<in> {CHR ''e'', CHR ''E''}
     then skip_digits (case t of [] \<Rightarrow> [] | d # u \<Rightarrow> if d \<in> {CHR ''+'', CHR ''-''} then u else t)
     else Some s)"

definition skip_fraction :: "string \<Rightarrow> string option" where
  "skip_fraction s = (case s of [] \<Rightarrow> Some [] | c # t \<Rightarrow>
     if c = CHR ''.'' then Option.bind (skip_digits t) skip_exponent else skip_exponent s)"

definition skip_number :: "string \<Rightarrow> string option" where
  "skip_number s = (let t = (case s of [] \<Rightarrow> [] | c # u \<Rightarrow> if c = CHR ''-'' then u else s) in
     (case t of [] \<Rightarrow> None | c # u \<Rightarrow>
        if c = CHR ''0'' then skip_fraction u else Option.bind (skip_digits t) skip_fraction))"

text \<open>The next character after white space, and a literal or number that begins with it.\<close>

definition next_token :: "string \<Rightarrow> (char \<times> string) option" where
  "next_token s = (case skip_ws s of [] \<Rightarrow> None | c # t \<Rightarrow> Some (c, t))"

definition parse_literal :: "char \<Rightarrow> string \<Rightarrow> (json_text \<times> string) option" where
  "parse_literal c t =
     (if c = CHR ''n'' then map_option (\<lambda>u. (TextNull, u)) (expect ''ull'' t)
      else if c = CHR ''t'' then map_option (\<lambda>u. (TextOther, u)) (expect ''rue'' t)
      else if c = CHR ''f'' then map_option (\<lambda>u. (TextOther, u)) (expect ''alse'' t)
      else map_option (\<lambda>u. (TextOther, u)) (skip_number (c # t)))"

text \<open>
  The recursive descent takes fuel \<open>n\<close>, which \<open>parse_fuel\<close> below shows to be no bound once it
  exceeds twice the length of the text, and the number \<open>d\<close> of nesting levels that are left.
\<close>

fun parse_value :: "nat \<Rightarrow> nat \<Rightarrow> string \<Rightarrow> (json_text \<times> string) option"
and parse_elements :: "nat \<Rightarrow> nat \<Rightarrow> string \<Rightarrow> string option"
and parse_members :: "nat \<Rightarrow> nat \<Rightarrow> string \<Rightarrow> ((string \<times> json_text) list \<times> string) option" where
  "parse_value 0 d s = None"
| "parse_value (Suc n) d s = Option.bind (next_token s) (\<lambda>(c, t).
     if c = quote then map_option (\<lambda>(b, u). (TextString b, u)) (parse_chars t)
     else if c = CHR ''{'' then
       (if d = 0 then None else Option.bind (next_token t) (\<lambda>(e, u).
          if e = CHR ''}'' then Some (TextObject [], u)
          else map_option (\<lambda>(kvs, w). (TextObject kvs, w)) (parse_members n (d - 1) t)))
     else if c = CHR ''['' then
       (if d = 0 then None else Option.bind (next_token t) (\<lambda>(e, u).
          if e = CHR '']'' then Some (TextOther, u)
          else map_option (\<lambda>w. (TextOther, w)) (parse_elements n (d - 1) t)))
     else parse_literal c t)"
| "parse_elements 0 d s = None"
| "parse_elements (Suc n) d s =
     Option.bind (parse_value n d s) (\<lambda>(v, t). Option.bind (next_token t) (\<lambda>(c, u).
        if c = CHR '']'' then Some u else if c = CHR '','' then parse_elements n d u else None))"
| "parse_members 0 d s = None"
| "parse_members (Suc n) d s =
     Option.bind (next_token s) (\<lambda>(q, t). if q \<noteq> quote then None else
     Option.bind (parse_chars t) (\<lambda>(k, u).
     Option.bind (next_token u) (\<lambda>(col, w). if col \<noteq> CHR '':'' then None else
     Option.bind (parse_value n d w) (\<lambda>(v, x).
     Option.bind (next_token x) (\<lambda>(c, y).
        if c = CHR ''}'' then Some ([(k, v)], y)
        else if c = CHR '','' then map_option (\<lambda>(kvs, z). ((k, v) # kvs, z)) (parse_members n d y)
        else None)))))"

text \<open>A whole text: one value with only white space after it.\<close>

definition parse_json :: "string \<Rightarrow> json_text option" where
  "parse_json s = (case parse_value (Suc (2 * length s)) maxNestingDepth s of
     None \<Rightarrow> None | Some (v, t) \<Rightarrow> if skip_ws t = [] then Some v else None)"

subsection \<open>White space at the ends (strings.TrimSpace)\<close>

definition space_runes :: "rune list" where
  "space_runes = [9, 10, 11, 12, 13, 32, 133, 160, 5760] @ [8192..<8203] @ [8232, 8233, 8239, 8287, 12288]"

text \<open>
  An encoded rune begins with a byte that starts a rune and goes on with bytes that do not, so the
  last rune of a string is a space exactly when the encoding of a space is a suffix of it.
\<close>

definition space_texts :: "string list" where
  "space_texts = map encode_rune space_runes"

lemma space_texts_nonempty: "[] \<notin> set space_texts"
  by (auto simp: space_texts_def dest: sym)

function trim_left_space :: "string \<Rightarrow> string" where
  "trim_left_space s = (case find (has_prefix s) space_texts of None \<Rightarrow> s
     | Some e \<Rightarrow> trim_left_space (drop (length e) s))"
  by pat_completeness auto
termination
  by (relation "measure length")
     (use space_texts_nonempty in \<open>auto simp: find_Some_iff has_prefix_iff dest!: nth_mem\<close>)

function trim_right_space :: "string \<Rightarrow> string" where
  "trim_right_space s = (case find (has_suffix s) space_texts of None \<Rightarrow> s
     | Some e \<Rightarrow> trim_right_space (take (length s - length e) s))"
  by pat_completeness auto
termination
  by (relation "measure length")
     (use space_texts_nonempty in \<open>auto simp: find_Some_iff has_suffix_iff dest!: nth_mem\<close>)

declare trim_left_space.simps [simp del] trim_right_space.simps [simp del]

definition TrimSpace :: "string \<Rightarrow> string" where
  "TrimSpace s = trim_right_space (trim_left_space s)"

subsection \<open>The fuel is no bound\<close>

lemma skip_ws_length: "length (skip_ws s) \<le> length s"
  by (simp add: skip_ws_def length_dropWhile_le)

lemma skip_ws_Cons: "skip_ws s = c # t \<Longrightarrow> length t < length s"
  using skip_ws_length [of s] by simp

lemma expect_rest: "expect lit s = Some t \<Longrightarrow> length t \<le> length s"
  by (auto simp: expect_def split: if_splits)

lemma skip_digits_rest: "skip_digits s = Some t \<Longrightarrow> length t < length s"
  by (auto simp: skip_digits_def le_imp_less_Suc length_dropWhile_le split: list.splits if_splits)

lemma skip_exponent_rest: "skip_exponent s = Some t \<Longrightarrow> length t \<le> length s"
  by (auto simp: skip_exponent_def dest!: skip_digits_rest split: list.splits if_splits)

lemma skip_fraction_rest: "skip_fraction s = Some t \<Longrightarrow> length t \<le> length s"
  by (fastforce simp: skip_fraction_def bind_eq_Some_conv dest: skip_digits_rest skip_exponent_rest
      split: list.splits if_splits)

lemma skip_number_rest: "skip_number s = Some t \<Longrightarrow> length t < length s"
  by (fastforce simp: skip_number_def bind_eq_Some_conv dest: skip_digits_rest skip_fraction_rest
      split: list.splits if_splits)

lemma next_token_rest: "next_token s = Some (c, t) \<Longrightarrow> length t < length s"
  by (auto simp: next_token_def dest: skip_ws_Cons split: list.splits)

lemma parse_literal_rest: "parse_literal c t = Some (v, u) \<Longrightarrow> length u \<le> length t"
  by (auto simp: parse_literal_def dest!: expect_rest skip_number_rest split: if_splits)

lemma parse_rest:
  "(parse_value n d s = Some (v, t) \<longrightarrow> length t < length s) \<and>
   (parse_elements n d s = Some t \<longrightarrow> length t < length s) \<and>
   (parse_members n d s = Some (kvs, t) \<longrightarrow> length t < length s)"
proof (induction n arbitrary: d s v t kvs)
  case (Suc n)
  note IH = Suc.IH [THEN conjunct1, rule_format] Suc.IH [THEN conjunct2, THEN conjunct1, rule_format]
    Suc.IH [THEN conjunct2, THEN conjunct2, rule_format]
  note rules = next_token_rest parse_chars_rest parse_literal_rest IH
  show ?case
    by (auto simp: bind_eq_Some_conv dest!: rules split: if_splits)
qed simp

lemma parse_fuel_le:
  "(2 * length s < n \<and> n \<le> m \<longrightarrow> parse_value m d s = parse_value n d s) \<and>
   (2 * length s + 1 < n \<and> n \<le> m \<longrightarrow> parse_elements m d s = parse_elements n d s) \<and>
   (2 * length s < n \<and> n \<le> m \<longrightarrow> parse_members m d s = parse_members n d s)"
proof (induction n arbitrary: m d s)
  case (Suc n)
  show ?case
  proof (cases m)
    case m: (Suc k)
    have IH: "2 * length t < n \<Longrightarrow> n \<le> k \<Longrightarrow> parse_value k d t = parse_value n d t"
      "2 * length t + 1 < n \<Longrightarrow> n \<le> k \<Longrightarrow> parse_elements k d t = parse_elements n d t"
      "2 * length t < n \<Longrightarrow> n \<le> k \<Longrightarrow> parse_members k d t = parse_members n d t" for t d
      using Suc.IH [of t k d] by simp_all
    note rules = next_token_rest parse_chars_rest parse_rest [THEN conjunct1, rule_format]
    have "2 * length s < Suc n \<Longrightarrow> n \<le> k \<Longrightarrow> parse_value (Suc k) d s = parse_value (Suc n) d s"
      unfolding parse_value.simps
      by (intro Option.bind_cong refl) (auto intro!: Option.bind_cong simp: IH dest!: rules cong: if_cong)
    moreover have "2 * length s + 1 < Suc n \<Longrightarrow> n \<le> k \<Longrightarrow> parse_elements (Suc k) d s = parse_elements (Suc n) d s"
      unfolding parse_elements.simps
      by (subst IH(1)) (auto intro!: Option.bind_cong simp: IH dest!: rules cong: if_cong)
    moreover have "2 * length s < Suc n \<Longrightarrow> n \<le> k \<Longrightarrow> parse_members (Suc k) d s = parse_members (Suc n) d s"
      unfolding parse_members.simps
      by (intro Option.bind_cong refl) (auto intro!: Option.bind_cong simp: IH dest!: rules cong: if_cong)
    ultimately show ?thesis using m by auto
  qed simp
qed simp

subsection \<open>What is encoded is decoded\<close>

lemma length_encode_RuneError: "length (encode_rune RuneError) = 3"
  by (simp add: encode_rune_def RuneError_def)

lemma json_escape_encode: "scalar r \<Longrightarrow> json_escape (encode_rune r @ t) = json_rune r @ json_escape t"
  by (subst json_escape.simps) (auto simp: length_encode_RuneError)

lemma json_escape_runes:
  "\<forall>r \<in> set rs. scalar r \<Longrightarrow> json_escape (string_of_runes rs) = concat (map json_rune rs)"
  by (induction rs) (simp_all add: json_escape_encode json_escape.simps [of "[]"])

lemma parse_char_escapes:
  "\<forall>r \<in> set ([0..<32] @ [34, 92]). parse_char (canonical_rune r @ x) = Some (encode_rune r, x) \<and>
      (\<exists>e y. canonical_rune r @ x = backslash # e # y)"
  by (simp add: canonical_rune_def parse_char_def backslash_def quote_def short_escapes_def unicode_escape_def
      hex_value_def hex_digits_def high_surrogate_def encode_rune_def write_rune_def scalar_def upt_rec)
    code_simp

lemma parse_char_json_rune:
  assumes r: "scalar r"
  shows "parse_char (json_rune r @ x) = Some (encode_rune r, x) \<and> (\<exists>c t. json_rune r @ x = c # t \<and> c \<noteq> quote)"
proof -
  consider "r \<in> set ([0..<32] @ [34, 92])" | "r = 8232 \<or> r = 8233"
    | "32 \<le> r" "r \<noteq> 34" "r \<noteq> 92" "r \<noteq> 8232" "r \<noteq> 8233"
    by fastforce
  then show ?thesis
  proof cases
    case 1
    then have "json_rune r = canonical_rune r" by (auto simp: json_rune_def)
    then show ?thesis using 1 parse_char_escapes [of x] by (fastforce simp: backslash_def quote_def)
  next
    case 2
    then show ?thesis
      by (auto simp: json_rune_def parse_char_def backslash_def quote_def unicode_escape_def hex_value_def
          hex_digits_def high_surrogate_def encode_rune_def write_rune_def scalar_def upt_rec)
  next
    case 3
    then have j: "json_rune r = encode_rune r" by (simp add: json_rune_def canonical_rune_plain r)
    obtain c t where c: "encode_rune r @ x = c # t"
      using encode_rune_nonempty by (metis append_is_Nil_conv neq_Nil_conv)
    then have "c \<noteq> quote" "c \<noteq> backslash" "\<not> (of_char c :: nat) < 32"
      using encode_rune_head [OF r c] 3 by (auto simp: quote_def backslash_def)
    moreover have "decode_rune (c # t) = (r, length (encode_rune r))" using c decode_rune_encode [OF r, of x] by simp
    moreover have "drop (length (encode_rune r)) (c # t) = x" by (simp flip: c)
    ultimately show ?thesis using c r by (simp add: j parse_char_def write_rune_def)
  qed
qed

lemma parse_chars_runes:
  "\<forall>r \<in> set rs. scalar r \<Longrightarrow>
     parse_chars (concat (map json_rune rs) @ quote # x) = Some (string_of_runes rs, x)"
proof (induction rs)
  case Nil
  then show ?case by (simp add: parse_chars.simps)
next
  case (Cons r rs)
  then obtain c t where c: "json_rune r @ concat (map json_rune rs) @ quote # x = c # t" "c \<noteq> quote"
    using parse_char_json_rune [of r "concat (map json_rune rs) @ quote # x"] by auto
  have "parse_char (c # t) = Some (encode_rune r, concat (map json_rune rs) @ quote # x)"
    using parse_char_json_rune Cons.prems c(1) by (metis list.set_intros(1))
  then show ?case using Cons c by (simp add: parse_chars.simps [of "c # t"])
qed

lemma parse_chars_json:
  assumes "valid_utf8 s" shows "parse_chars (json_escape s @ quote # x) = Some (s, x)"
proof -
  obtain rs where "s = string_of_runes rs" "\<forall>r \<in> set rs. scalar r"
    using assms valid_utf8_runesE by blast
  then show ?thesis by (simp add: json_escape_runes parse_chars_runes)
qed

lemma next_token_simps [simp]:
  "c \<notin> {CHR '' '', CHR 0x09, CHR 0x0A, CHR 0x0D} \<Longrightarrow> next_token (c # t) = Some (c, t)"
  by (simp add: next_token_def skip_ws_def)

lemma next_token_quote [simp]: "next_token (quote # t) = Some (quote, t)"
  by (simp add: quote_def)

lemma parse_string_value:
  "valid_utf8 s \<Longrightarrow> parse_value (Suc n) d (json_string s @ x) = Some (TextString s, x)"
  by (simp add: json_string_def parse_chars_json)

declare parse_value.simps [simp del] parse_members.simps [simp del]

lemma parse_member_step:
  assumes "valid_utf8 k" "valid_utf8 v"
  shows "parse_members (Suc (Suc n)) d (member_text_of (k, v) @ c # y)
    = (if c = CHR ''}'' then Some ([(k, TextString v)], y)
       else if c = CHR '','' then map_option (\<lambda>(kvs, z). ((k, TextString v) # kvs, z)) (parse_members (Suc n) d y)
       else Option.bind (next_token (c # y)) (\<lambda>(c, y). if c = CHR ''}'' then Some ([(k, TextString v)], y)
        else if c = CHR '','' then map_option (\<lambda>(kvs, z). ((k, TextString v) # kvs, z)) (parse_members (Suc n) d y)
        else None))"
proof -
  have "next_token (member_text_of (k, v) @ c # y) = Some (quote, json_escape k @ quote # CHR '':'' # json_string v @ c # y)"
    by (simp add: member_text_of_def json_string_def quote_def)
  then show ?thesis
    using parse_string_value [OF assms(2), of n d "c # y"]
    by (simp add: parse_members.simps(2) parse_chars_json assms(1))
qed

lemma parse_json_members:
  assumes "kvs \<noteq> []" "\<forall>(k, v) \<in> set kvs. valid_utf8 k \<and> valid_utf8 v"
  shows "length kvs < n \<Longrightarrow> parse_members n d (join_strings '','' (map member_text_of kvs) @ CHR ''}'' # x)
    = Some (map (apsnd TextString) kvs, x)"
  using assms
proof (induction kvs arbitrary: n rule: list_nonempty_induct)
  case (single kv)
  then obtain m where "n = Suc (Suc m)" by (metis less_iff_Suc_add list.size(3,4) add_Suc One_nat_def add_0)
  then show ?case using single by (cases kv) (simp add: parse_member_step)
next
  case (cons kv kvs)
  from cons.prems obtain m where m: "n = Suc (Suc m)"
    by (metis Suc_lessE length_Cons less_imp_Suc_add)
  obtain kv' kvs' where t: "kvs = kv' # kvs'" using cons.hyps by (cases kvs) auto
  have "parse_members (Suc m) d (join_strings '','' (map member_text_of kvs) @ CHR ''}'' # x)
      = Some (map (apsnd TextString) kvs, x)"
    using cons.IH [of "Suc m"] cons.prems m by auto
  then show ?case using cons.prems m t by (cases kv) (simp add: parse_member_step)
qed

lemma length_member_texts: "length kvs \<le> length (join_strings '','' (map member_text_of kvs))"
proof (induction kvs)
  case (Cons kv kvs)
  then show ?case by (cases kvs) (auto simp: member_text_of_def json_string_def)
qed simp

lemma parse_json_record:
  assumes "kvs \<noteq> []" "\<forall>(k, v) \<in> set kvs. valid_utf8 k \<and> valid_utf8 v"
  shows "parse_json (json_record kvs) = Some (TextObject (map (apsnd TextString) kvs))"
proof -
  let ?b = "join_strings '','' (map member_text_of kvs) @ CHR ''}'' # []"
  obtain k v r where kv: "kvs = (k, v) # r" using assms(1) by (cases kvs) auto
  obtain t where "?b = quote # t"
    using kv by (cases r) (simp_all add: member_text_of_def json_string_def)
  then have h: "next_token ?b = Some (quote, t)" by (simp add: quote_def)
  have "length kvs < 2 * length (json_record kvs)"
    using length_member_texts [of kvs] by (simp add: json_record_def)
  then have "parse_members (2 * length (json_record kvs)) (maxNestingDepth - 1) ?b
      = Some (map (apsnd TextString) kvs, [])"
    using parse_json_members [OF assms] by blast
  then show ?thesis
    using h by (simp add: parse_json_def json_record_def parse_value.simps(2) quote_def maxNestingDepth_def skip_ws_def)
qed

subsection \<open>Decoded strings are UTF-8\<close>

primrec text_utf8 :: "json_text \<Rightarrow> bool" where
  "text_utf8 TextNull = True"
| "text_utf8 (TextString s) = valid_utf8 s"
| "text_utf8 (TextObject kvs) = list_all (\<lambda>kv. snd kv) (map (map_prod id text_utf8) kvs)"
| "text_utf8 TextOther = True"

lemma valid_encode: "scalar r \<Longrightarrow> valid_utf8 (encode_rune r)"
  using valid_utf8_encode_append [of r "[]"] by simp

lemma valid_write: "valid_utf8 (write_rune r)"
  by (simp add: write_rune_def valid_encode)

lemma unicode_escape_utf8: "unicode_escape s = Some (b, t) \<Longrightarrow> valid_utf8 b"
  using valid_encode [OF scalar_RuneError]
  by (auto simp: unicode_escape_def valid_write valid_encode high_surrogate_def low_surrogate_def scalar_def
      split: option.splits if_splits)

lemma short_escapes_utf8: "map_of short_escapes e = Some x \<Longrightarrow> valid_utf8 [x]"
proof (rule ascii_valid)
  assume "map_of short_escapes e = Some x"
  then have "x \<in> set (map snd short_escapes)" by (force dest: map_of_SomeD)
  then show "ascii [x]" by (auto simp: short_escapes_def ascii_def quote_def backslash_def)
qed

lemma parse_char_utf8: "parse_char s = Some (b, t) \<Longrightarrow> valid_utf8 b"
  by (auto simp: parse_char_def valid_write short_escapes_utf8 dest: unicode_escape_utf8
      split: list.splits if_splits)

lemma parse_chars_utf8: "parse_chars s = Some (b, t) \<Longrightarrow> valid_utf8 b"
proof (induction s arbitrary: b rule: parse_chars.induct)
  case (1 s)
  consider "b = []"
    | c u b' where "s \<noteq> []" "hd s \<noteq> quote" "parse_char s = Some (c, u)" "parse_chars u = Some (b', t)" "b = c @ b'"
    using "1.prems" by (auto simp: parse_chars.simps [of s] split: if_splits option.splits)
  then show ?case
  proof cases
    case 2
    then show ?thesis using "1.IH" [OF 2(1,2,3) refl 2(4)] parse_char_utf8 [OF 2(3)]
      by (simp add: valid_utf8_append_left)
  qed simp
qed

lemma parse_literal_utf8: "parse_literal c t = Some (v, u) \<Longrightarrow> text_utf8 v"
  by (auto simp: parse_literal_def split: if_splits)

lemma parse_utf8:
  "(parse_value n d s = Some (v, t) \<longrightarrow> text_utf8 v) \<and>
   (parse_members n d s = Some (kvs, t) \<longrightarrow> text_utf8 (TextObject kvs))"
proof (induction n arbitrary: d s v t kvs)
  case 0
  show ?case by (simp add: parse_value.simps parse_members.simps)
next
  case (Suc n)
  note IH = Suc.IH [THEN conjunct1, rule_format] Suc.IH [THEN conjunct2, rule_format]
  note rules = parse_chars_utf8 parse_literal_utf8 IH
  show ?case
    by (auto simp: bind_eq_Some_conv parse_value.simps parse_members.simps dest!: rules split: if_splits)
qed

lemma parse_json_utf8: "parse_json s = Some v \<Longrightarrow> text_utf8 v"
  using parse_utf8 by (fastforce simp: parse_json_def split: option.splits if_splits)

end
