(* ===== verification/Marker.thy ===== *)
theory Marker
  imports Go_Json
begin

text \<open>
  engine/protocol/marker.go: the ownership marker PartitionCTL writes on an index as a comment, its
  text form, the total classification of any comment, and the comment statement a node writes after
  its own statement.
\<close>

subsection \<open>Markers\<close>

definition MarkerSentinel :: string where "MarkerSentinel = ''partitionctl:v1:''"
definition markerPrefix :: string where "markerPrefix = ''partitionctl:''"

definition MarkerRoleParent :: string where "MarkerRoleParent = ''parent''"
definition MarkerRoleLeaf :: string where "MarkerRoleLeaf = ''leaf''"

record marker =
  m_run :: string
  m_plan :: string
  m_op :: string
  m_role :: string
  m_parent :: string
  m_at :: string
  m_reindexed :: string
  m_reindex_run :: string

definition zero_marker :: marker where
  "zero_marker = \<lparr>m_run = [], m_plan = [], m_op = [], m_role = [], m_parent = [], m_at = [],
     m_reindexed = [], m_reindex_run = []\<rparr>"

datatype marker_status = MarkerAbsent | MarkerOurs | MarkerForeign | MarkerUnreadable

fun status_String :: "marker_status \<Rightarrow> string" where
  "status_String MarkerAbsent = ''absent''"
| "status_String MarkerOurs = ''ours''"
| "status_String MarkerForeign = ''foreign''"
| "status_String MarkerUnreadable = ''unreadable''"

definition marker_Validate :: "marker \<Rightarrow> err option" where
  "marker_Validate m =
     (if m_run m = [] then Some (Detailf ErrInvalidPlan)
      else if m_op m = [] then Some (Detailf ErrInvalidPlan)
      else if m_role m \<noteq> MarkerRoleParent \<and> m_role m \<noteq> MarkerRoleLeaf then Some (Detailf ErrInvalidPlan)
      else if m_at m = [] then Some (Detailf ErrInvalidPlan)
      else None)"

definition MarkerTime :: "timestamp \<Rightarrow> string" where
  "MarkerTime t = utc_text (t div 1000000000) @ ''Z''"

subsection \<open>Text form\<close>

definition omitted :: "string \<Rightarrow> string \<Rightarrow> (string \<times> string) list" where
  "omitted k s = (if s = [] then [] else [(k, s)])"

definition marker_members :: "marker \<Rightarrow> (string \<times> string) list" where
  "marker_members m = [(''run'', m_run m), (''plan'', m_plan m), (''op'', m_op m), (''role'', m_role m)]
     @ omitted ''parent'' (m_parent m) @ [(''at'', m_at m)]
     @ omitted ''reindexed'' (m_reindexed m) @ omitted ''reindex_run'' (m_reindex_run m)"

definition FormatMarker :: "marker \<Rightarrow> err + string" where
  "FormatMarker m = rcheck (marker_Validate m) (Inr (MarkerSentinel @ json_record (marker_members m)))"

text \<open>
  Decoding an object into the struct: a member goes to the field whose name it equals up to the case
  of its letters, unknown members are skipped, null leaves a field alone, and a value that is not a
  string is an error.
\<close>

definition ascii_upper :: "char \<Rightarrow> char" where
  "ascii_upper c = (let n = of_char c :: nat in if 97 \<le> n \<and> n \<le> 122 then char_of (n - 32) else c)"

definition fold_name :: "string \<Rightarrow> string" where "fold_name s = map ascii_upper s"

definition marker_setters :: "(string \<times> (string \<Rightarrow> marker \<Rightarrow> marker)) list" where
  "marker_setters = [(''RUN'', \<lambda>v m. m\<lparr>m_run := v\<rparr>), (''PLAN'', \<lambda>v m. m\<lparr>m_plan := v\<rparr>),
     (''OP'', \<lambda>v m. m\<lparr>m_op := v\<rparr>), (''ROLE'', \<lambda>v m. m\<lparr>m_role := v\<rparr>),
     (''PARENT'', \<lambda>v m. m\<lparr>m_parent := v\<rparr>), (''AT'', \<lambda>v m. m\<lparr>m_at := v\<rparr>),
     (''REINDEXED'', \<lambda>v m. m\<lparr>m_reindexed := v\<rparr>), (''REINDEX_RUN'', \<lambda>v m. m\<lparr>m_reindex_run := v\<rparr>)]"

fun decode_members :: "(string \<times> json_text) list \<Rightarrow> marker \<Rightarrow> marker option" where
  "decode_members [] m = Some m"
| "decode_members ((k, v) # r) m = (case map_of marker_setters (fold_name k) of
     None \<Rightarrow> decode_members r m
   | Some f \<Rightarrow> (case v of
       TextString s \<Rightarrow> decode_members r (f s m)
     | TextNull \<Rightarrow> decode_members r m
     | _ \<Rightarrow> None))"

definition decode_marker :: "json_text \<Rightarrow> marker option" where
  "decode_marker v = (case v of TextNull \<Rightarrow> Some zero_marker
     | TextObject kvs \<Rightarrow> decode_members kvs zero_marker | _ \<Rightarrow> None)"

definition ParseMarker :: "string \<Rightarrow> marker \<times> marker_status" where
  "ParseMarker comment = (let s = TrimSpace comment in
     if s = [] then (zero_marker, MarkerAbsent)
     else if has_prefix s MarkerSentinel then
       (case Option.bind (parse_json (trim_prefix s MarkerSentinel)) decode_marker of
          None \<Rightarrow> (zero_marker, MarkerUnreadable)
        | Some m \<Rightarrow> if marker_Validate m \<noteq> None then (zero_marker, MarkerUnreadable) else (m, MarkerOurs))
     else if has_prefix s markerPrefix then (zero_marker, MarkerUnreadable)
     else (zero_marker, MarkerForeign))"

definition RenderComment :: "object_name \<Rightarrow> string \<Rightarrow> string" where
  "RenderComment index text = ''COMMENT ON INDEX '' @ obj_Quoted index @ '' IS '' @ QuoteLiteral text"

subsection \<open>Which nodes mark what\<close>

record marker_target =
  mt_index :: object_name
  mt_role :: string
  mt_parent :: string
  mt_rewrite :: bool

definition parent_text :: "object_name option \<Rightarrow> string" where
  "parent_text x = (case x of None \<Rightarrow> [] | Some o1 \<Rightarrow> obj_String o1)"

text \<open>The pair of a target and a flag is an option: \<open>Inr None\<close> is a kind that marks nothing.\<close>

definition MarkerTargetFor :: "node option \<Rightarrow> err + marker_target option" where
  "MarkerTargetFor x = (case x of None \<Rightarrow> Inl (Detailf ErrInvalidPlan) | Some n \<Rightarrow>
    (case n_kind n of
       KindIndexCreateParentInvalid \<Rightarrow> (case n_params n of
         Some (CreateParentInvalidParams p) \<Rightarrow> Inr (Some
           \<lparr>mt_index = cpi_index p, mt_role = MarkerRoleParent, mt_parent = [], mt_rewrite = False\<rparr>)
       | _ \<Rightarrow> Inl (Detailf ErrInvalidPlan))
     | KindIndexCreateConcurrently \<Rightarrow> (case n_params n of
         Some (CreateConcurrentlyParams p) \<Rightarrow> Inr (Some
           \<lparr>mt_index = ccp_index p, mt_role = MarkerRoleLeaf, mt_parent = parent_text (ccp_parent_index p),
            mt_rewrite = False\<rparr>)
       | _ \<Rightarrow> Inl (Detailf ErrInvalidPlan))
     | KindIndexAttach \<Rightarrow> (case n_params n of
         Some (AttachParams p) \<Rightarrow> Inr (Some
           \<lparr>mt_index = att_child_index p, mt_role = MarkerRoleLeaf,
            mt_parent = obj_String (att_parent_index p), mt_rewrite = False\<rparr>)
       | _ \<Rightarrow> Inl (Detailf ErrInvalidPlan))
     | KindIndexReindexConcurrently \<Rightarrow> (case n_params n of
         Some (ReindexConcurrentlyParams p) \<Rightarrow> Inr (Some
           \<lparr>mt_index = rcp_index p, mt_role = MarkerRoleLeaf, mt_parent = parent_text (rcp_parent_index p),
            mt_rewrite = True\<rparr>)
       | _ \<Rightarrow> Inl (Detailf ErrInvalidPlan))
     | _ \<Rightarrow> Inr None))"

text \<open>The marker a target gets, given the one already there.\<close>

definition marker_for :: "marker_target \<Rightarrow> marker \<Rightarrow> marker \<Rightarrow> marker_status \<Rightarrow> marker" where
  "marker_for t base prior priorStatus =
     (let m = base\<lparr>m_role := mt_role t\<rparr>;
          m = (if mt_parent t \<noteq> [] then m\<lparr>m_parent := mt_parent t\<rparr> else m)
      in if \<not> mt_rewrite t then m
         else (let m = (if priorStatus = MarkerOurs then
                     (let m = m\<lparr>m_op := m_op prior, m_run := m_run prior, m_at := m_at prior, m_plan := m_plan prior\<rparr>;
                          m = (if m_parent prior \<noteq> [] then m\<lparr>m_parent := m_parent prior\<rparr> else m)
                      in if m_role prior \<noteq> [] then m\<lparr>m_role := m_role prior\<rparr> else m)
                   else m)
               in m\<lparr>m_reindexed := m_at base, m_reindex_run := m_run base\<rparr>))"

definition RenderMarkerStatement ::
    "node option \<Rightarrow> marker \<Rightarrow> marker \<Rightarrow> marker_status \<Rightarrow> err + string option" where
  "RenderMarkerStatement n base prior priorStatus =
     (case MarkerTargetFor n of
        Inl e \<Rightarrow> Inl e
      | Inr None \<Rightarrow> Inr None
      | Inr (Some t) \<Rightarrow>
          if priorStatus = MarkerForeign \<or> priorStatus = MarkerUnreadable then Inr None
          else rbind (FormatMarker (marker_for t base prior priorStatus))
            (\<lambda>text. Inr (Some (RenderComment (mt_index t) text))))"

subsection \<open>Trimming\<close>

definition ascii_spaces :: "char list" where
  "ascii_spaces = map char_of [9 :: nat, 10, 11, 12, 13, 32]"

lemma ascii_space_runes: "r \<in> set space_runes \<Longrightarrow> r < 128 \<longleftrightarrow> r \<in> {9, 10, 11, 12, 13, 32}"
  by (auto simp: space_runes_def)

lemma ascii_space_iff:
  "c \<in> set ascii_spaces \<longleftrightarrow> (of_char c :: nat) \<in> {9, 10, 11, 12, 13, 32}"
proof -
  have "c = char_of n \<longleftrightarrow> of_char c = n" if "n < 256" for n :: nat
    using that of_char_byte by auto
  then have "c = char_of (9::nat) \<longleftrightarrow> of_char c = (9::nat)" "c = char_of (10::nat) \<longleftrightarrow> of_char c = (10::nat)"
    "c = char_of (11::nat) \<longleftrightarrow> of_char c = (11::nat)" "c = char_of (12::nat) \<longleftrightarrow> of_char c = (12::nat)"
    "c = char_of (13::nat) \<longleftrightarrow> of_char c = (13::nat)" "c = char_of (32::nat) \<longleftrightarrow> of_char c = (32::nat)"
    by (simp_all del: char_of_eq_iff)
  then show ?thesis unfolding ascii_spaces_def list.set list.map by blast
qed

lemma ascii_space_low: "c \<in> set ascii_spaces \<Longrightarrow> (of_char c :: nat) < 128"
  by (auto simp: ascii_space_iff)

lemma ascii_space_text: "c \<in> set ascii_spaces \<Longrightarrow> [c] \<in> set space_texts"
proof -
  assume "c \<in> set ascii_spaces"
  then have "of_char c \<in> set space_runes" "encode_rune (of_char c) = [c]"
    using encode_ascii [of "of_char c"] by (auto simp: ascii_space_iff space_runes_def)
  then show ?thesis by (metis imageI list.set_map space_texts_def)
qed

lemma encode_high:
  assumes "128 \<le> r" "r < 1114112"
  shows "\<exists>c t. encode_rune r = c # t \<and> t \<noteq> [] \<and> of_char c \<ge> (128::nat) \<and> of_char (last t) \<ge> (128::nat)"
proof -
  have "r div 262144 < 5" "128 + r mod 64 < 256" using assms by auto
  then show ?thesis
    using assms by (auto simp: encode_rune_def of_char_byte)
qed

lemma space_heads:
  assumes "e \<in> set space_texts"
  shows "(\<exists>c \<in> set ascii_spaces. e = [c]) \<or>
    (\<exists>c t. e = c # t \<and> t \<noteq> [] \<and> of_char c \<ge> (128::nat) \<and> of_char (last t) \<ge> (128::nat))"
proof -
  obtain r where r: "r \<in> set space_runes" "e = encode_rune r" using assms by (auto simp: space_texts_def)
  show ?thesis
  proof (cases "r < 128")
    case True
    then have "of_char (char_of r :: char) \<in> ({9, 10, 11, 12, 13, 32} :: nat set)"
      using ascii_space_runes [OF r(1)] by (simp add: of_char_byte)
    then show ?thesis using True r(2) by (simp add: encode_ascii ascii_space_iff)
  next
    case False
    moreover have "r < 1114112" using r(1) by (auto simp: space_runes_def)
    ultimately show ?thesis using encode_high r(2) by simp
  qed
qed

lemma trim_left_space_Cons:
  assumes "(of_char c :: nat) < 128"
  shows "trim_left_space (c # s) = (if c \<in> set ascii_spaces then trim_left_space s else c # s)"
proof (cases "find (has_prefix (c # s)) space_texts")
  case None
  then have "c \<notin> set ascii_spaces"
    using ascii_space_text by (force simp: find_None_iff has_prefix_iff)
  then show ?thesis using None by (simp add: trim_left_space.simps [of "c # s"])
next
  case (Some e)
  then have "e \<in> set space_texts" "has_prefix (c # s) e"
    by (auto simp: find_Some_iff dest: nth_mem)
  then have "e = [c] \<and> c \<in> set ascii_spaces"
    using space_heads [of e] assms by (auto simp: has_prefix_iff)
  then show ?thesis using Some by (simp add: trim_left_space.simps [of "c # s"])
qed

lemma trim_right_space_snoc:
  assumes "(of_char c :: nat) < 128"
  shows "trim_right_space (s @ [c]) = (if c \<in> set ascii_spaces then trim_right_space s else s @ [c])"
proof (cases "find (has_suffix (s @ [c])) space_texts")
  case None
  then have "c \<notin> set ascii_spaces"
    using ascii_space_text by (force simp: find_None_iff has_suffix_iff)
  then show ?thesis using None by (simp add: trim_right_space.simps [of "s @ [c]"])
next
  case (Some e)
  then have e: "e \<in> set space_texts" "has_suffix (s @ [c]) e"
    by (auto simp: find_Some_iff dest: nth_mem)
  then obtain t where t: "s @ [c] = t @ e" by (auto simp: has_suffix_iff)
  then have "e \<noteq> [] \<Longrightarrow> last e = c" by (metis last_appendR last_snoc)
  then have "e = [c] \<and> c \<in> set ascii_spaces"
    using space_heads [OF e(1)] assms by (auto split: if_splits)
  then show ?thesis using Some by (simp add: trim_right_space.simps [of "s @ [c]"])
qed

lemma trim_left_spaces: "set ws \<subseteq> set ascii_spaces \<Longrightarrow> trim_left_space (ws @ s) = trim_left_space s"
  by (induction ws) (auto simp: trim_left_space_Cons ascii_space_low)

lemma trim_right_spaces: "set ws \<subseteq> set ascii_spaces \<Longrightarrow> trim_right_space (s @ ws) = trim_right_space s"
proof (induction ws rule: rev_induct)
  case (snoc c ws)
  then show ?case using trim_right_space_snoc [of c "s @ ws"] ascii_space_low by auto
qed simp

lemma TrimSpace_framed:
  assumes "set ws \<subseteq> set ascii_spaces" "set ws' \<subseteq> set ascii_spaces"
    and "s = c # t" "s = u @ [d]" "(of_char c :: nat) < 128" "(of_char d :: nat) < 128"
    and "c \<notin> set ascii_spaces" "d \<notin> set ascii_spaces"
  shows "TrimSpace (ws @ s @ ws') = s"
proof -
  have "trim_left_space (ws @ s @ ws') = s @ ws'"
    using assms trim_left_spaces [OF assms(1), of "s @ ws'"] trim_left_space_Cons [of c "t @ ws'"] by simp
  moreover have "trim_right_space (s @ ws') = s"
    using assms trim_right_spaces [OF assms(2), of s] trim_right_space_snoc [of d u] by simp
  ultimately show ?thesis by (simp add: TrimSpace_def)
qed

subsection \<open>Round trip\<close>

definition marker_utf8 :: "marker \<Rightarrow> bool" where
  "marker_utf8 m \<longleftrightarrow> list_all valid_utf8 [m_run m, m_plan m, m_op m, m_role m, m_parent m, m_at m,
     m_reindexed m, m_reindex_run m]"

lemma fold_names:
  "fold_name ''run'' = ''RUN''" "fold_name ''plan'' = ''PLAN''" "fold_name ''op'' = ''OP''"
  "fold_name ''role'' = ''ROLE''" "fold_name ''parent'' = ''PARENT''" "fold_name ''at'' = ''AT''"
  "fold_name ''reindexed'' = ''REINDEXED''" "fold_name ''reindex_run'' = ''REINDEX_RUN''"
  by code_simp+

lemma decode_marker_members: "decode_marker (TextObject (map (apsnd TextString) (marker_members m))) = Some m"
  by (simp add: decode_marker_def marker_members_def omitted_def marker_setters_def fold_names zero_marker_def)

lemma marker_members_utf8: "marker_utf8 m \<Longrightarrow> \<forall>(k, v) \<in> set (marker_members m). valid_utf8 k \<and> valid_utf8 v"
  by (auto simp: marker_members_def omitted_def marker_utf8_def ascii_valid ascii_def split: if_splits)

lemma FormatMarker_Inr:
  "FormatMarker m = Inr s \<longleftrightarrow> marker_Validate m = None \<and> s = MarkerSentinel @ json_record (marker_members m)"
  by (auto simp: FormatMarker_def rcheck_Inr)

lemma TrimSpace_marker:
  assumes "FormatMarker m = Inr s" "set ws \<union> set ws' \<subseteq> set ascii_spaces"
  shows "TrimSpace (ws @ s @ ws') = s"
proof -
  have s: "s = MarkerSentinel @ json_record (marker_members m)" using assms(1) by (simp add: FormatMarker_Inr)
  obtain t where t: "s = CHR ''p'' # t" using s by (simp add: MarkerSentinel_def)
  obtain u where u: "s = u @ [CHR ''}'']" using s by (simp add: json_record_def)
  show ?thesis using TrimSpace_framed [OF _ _ t u] assms(2) by (simp add: ascii_space_iff)
qed

lemma ParseMarker_trimmed:
  assumes "TrimSpace c = s" "FormatMarker m = Inr s" "marker_utf8 m"
  shows "ParseMarker c = (m, MarkerOurs)"
proof -
  have s: "s = MarkerSentinel @ json_record (marker_members m)" "marker_Validate m = None"
    using assms(2) by (auto simp: FormatMarker_Inr)
  have "parse_json (json_record (marker_members m)) = Some (TextObject (map (apsnd TextString) (marker_members m)))"
    using parse_json_record marker_members_utf8 [OF assms(3)] by (simp add: marker_members_def)
  moreover have "s \<noteq> []" using s(1) by (simp add: MarkerSentinel_def)
  ultimately show ?thesis using s assms(1)
    by (simp add: ParseMarker_def Let_def decode_marker_members)
qed

lemma ParseMarker_written:
  "FormatMarker m = Inr s \<Longrightarrow> marker_utf8 m \<Longrightarrow> ParseMarker s = (m, MarkerOurs)"
  using ParseMarker_trimmed TrimSpace_marker [of m s "[]" "[]"] by simp

text \<open>
  Marker round trip: whatever marker the tool writes as a comment is read back field for field
  and classified as its own, also when white space was added around it on its way through psql.
\<close>
theorem ParseMarker_FormatMarker:
  assumes "FormatMarker m = Inr s" "marker_utf8 m" "set ws \<union> set ws' \<subseteq> set ascii_spaces"
  shows "ParseMarker (ws @ s @ ws') = (m, MarkerOurs)"
  using ParseMarker_trimmed [OF TrimSpace_marker [OF assms(1,3)] assms(1,2)] .

definition sample_marker :: marker where
  "sample_marker = zero_marker\<lparr>m_run := ''r1'', m_op := ''create_index'', m_role := MarkerRoleLeaf,
     m_at := ''2026-01-01T00:00:00Z''\<rparr>"

lemma sample_marker_ok:
  "FormatMarker sample_marker = Inr (MarkerSentinel @ json_record (marker_members sample_marker))"
  "marker_utf8 sample_marker"
  by (simp_all add: FormatMarker_Inr sample_marker_def marker_Validate_def zero_marker_def marker_utf8_def
      MarkerRoleLeaf_def ascii_valid ascii_def)

theorem ParseMarker_FormatMarker_witness:
  "ParseMarker ([] @ (MarkerSentinel @ json_record (marker_members sample_marker)) @ [])
     = (sample_marker, MarkerOurs)"
  by (rule ParseMarker_FormatMarker [OF sample_marker_ok]) simp

lemma decode_members_utf8:
  "decode_members kvs m = Some m' \<Longrightarrow> text_utf8 (TextObject kvs) \<Longrightarrow> marker_utf8 m \<Longrightarrow> marker_utf8 m'"
proof (induction kvs m rule: decode_members.induct)
  case (2 k v r m)
  show ?case
  proof (cases "map_of marker_setters (fold_name k)")
    case (Some f)
    then have "valid_utf8 x \<Longrightarrow> marker_utf8 (f x m)" for x
      using "2.prems"(3) by (auto simp: marker_setters_def marker_utf8_def split: if_splits)
    then show ?thesis using "2" Some by (cases v) auto
  qed (use "2" in auto)
qed simp

lemma decode_marker_utf8: "decode_marker v = Some m \<Longrightarrow> text_utf8 v \<Longrightarrow> marker_utf8 m"
proof -
  have "marker_utf8 zero_marker" by (simp add: marker_utf8_def zero_marker_def)
  then show "decode_marker v = Some m \<Longrightarrow> text_utf8 v \<Longrightarrow> ?thesis"
    by (cases v) (auto simp: decode_marker_def simp del: text_utf8.simps intro: decode_members_utf8)
qed

lemma ParseMarker_ours:
  "ParseMarker c = (m, MarkerOurs) \<Longrightarrow> marker_Validate m = None \<and> marker_utf8 m"
  by (auto simp: ParseMarker_def Let_def bind_eq_Some_conv dest!: parse_json_utf8 decode_marker_utf8
      split: if_splits option.splits)

text \<open>
  C38. The read side accepts exactly the set the write side can produce: a marker is what some
  comment is read as, with the tool's own status, if and only if the tool could have written it.
  Every other comment reads as the empty marker with a status that proves nothing.
\<close>
theorem ParseMarker_exact:
  "(\<exists>c. ParseMarker c = (m, MarkerOurs)) \<longleftrightarrow> marker_utf8 m \<and> (\<exists>s. FormatMarker m = Inr s)"
  using ParseMarker_ours ParseMarker_written by (fastforce simp: FormatMarker_Inr)

subsection \<open>What a node writes\<close>

lemma marker_for_rewrite:
  "mt_rewrite t \<Longrightarrow> priorStatus = MarkerOurs \<Longrightarrow>
     m_op (marker_for t base prior priorStatus) = m_op prior \<and>
     m_run (marker_for t base prior priorStatus) = m_run prior \<and>
     m_at (marker_for t base prior priorStatus) = m_at prior \<and>
     m_plan (marker_for t base prior priorStatus) = m_plan prior \<and>
     m_reindexed (marker_for t base prior priorStatus) = m_at base \<and>
     m_reindex_run (marker_for t base prior priorStatus) = m_run base"
  by (simp add: marker_for_def Let_def)

lemma marker_for_create:
  "\<not> mt_rewrite t \<or> priorStatus \<noteq> MarkerOurs \<Longrightarrow>
     m_op (marker_for t base prior priorStatus) = m_op base \<and>
     m_run (marker_for t base prior priorStatus) = m_run base \<and>
     m_at (marker_for t base prior priorStatus) = m_at base \<and>
     m_plan (marker_for t base prior priorStatus) = m_plan base \<and>
     m_role (marker_for t base prior priorStatus) = mt_role t"
  by (auto simp: marker_for_def Let_def)

lemma RenderMarkerStatement_Some:
  "RenderMarkerStatement n base prior st = Inr (Some sql) \<longleftrightarrow>
     st \<in> {MarkerAbsent, MarkerOurs} \<and> (\<exists>t text. MarkerTargetFor n = Inr (Some t) \<and>
       FormatMarker (marker_for t base prior st) = Inr text \<and> sql = RenderComment (mt_index t) text)"
  by (cases st) (auto simp: RenderMarkerStatement_def rbind_Inr split: sum.splits option.splits)

text \<open>
  A marker statement never overwrites a comment that is not the tool's own, comments only on the
  node's own index, writes a comment that reads back as the tool's own, and a reindex over an index
  the tool marked keeps who built it, when and under which plan, and records itself next to that.
\<close>
theorem RenderMarkerStatement_preserves:
  assumes "RenderMarkerStatement n base prior st = Inr (Some sql)"
    and "\<And>t. MarkerTargetFor n = Inr (Some t) \<Longrightarrow> marker_utf8 (marker_for t base prior st)"
  shows "st \<noteq> MarkerForeign \<and> st \<noteq> MarkerUnreadable \<and>
    (\<exists>t m text. MarkerTargetFor n = Inr (Some t) \<and> sql = RenderComment (mt_index t) text \<and>
      ParseMarker text = (m, MarkerOurs) \<and>
      (mt_rewrite t \<and> st = MarkerOurs \<longrightarrow>
        m_op m = m_op prior \<and> m_run m = m_run prior \<and> m_at m = m_at prior \<and> m_plan m = m_plan prior \<and>
        m_reindexed m = m_at base \<and> m_reindex_run m = m_run base))"
proof -
  obtain t b where t: "st \<in> {MarkerAbsent, MarkerOurs}" "MarkerTargetFor n = Inr (Some t)"
    "FormatMarker (marker_for t base prior st) = Inr b" "sql = RenderComment (mt_index t) b"
    using assms(1) by (auto simp: RenderMarkerStatement_Some)
  then have "ParseMarker b = (marker_for t base prior st, MarkerOurs)"
    using ParseMarker_written [OF t(3) assms(2) [OF t(2)]] by simp
  then show ?thesis using t marker_for_rewrite [of t st base prior] by auto
qed

definition sample_attach :: node where
  "sample_attach = \<lparr>n_id = ''a'', n_kind = KindIndexAttach,
     n_params = Some (AttachParams \<lparr>att_parent_index = NewObjectName [] ''p'', att_child_index = NewObjectName [] ''i''\<rparr>),
     n_depends_on = [], n_rendered_sql = [], n_estimated_seconds = 0, n_authorization = None\<rparr>"

lemma sample_attach_target: "MarkerTargetFor (Some sample_attach) = Inr (Some \<lparr>mt_index = NewObjectName [] ''i'',
   mt_role = MarkerRoleLeaf, mt_parent = ''p'', mt_rewrite = False\<rparr>)"
  by (simp add: MarkerTargetFor_def sample_attach_def obj_String_def NewObjectName_def)

theorem RenderMarkerStatement_preserves_witness:
  "\<exists>sql. RenderMarkerStatement (Some sample_attach) sample_marker zero_marker MarkerAbsent = Inr (Some sql) \<and>
     (\<exists>t m text. MarkerTargetFor (Some sample_attach) = Inr (Some t) \<and> sql = RenderComment (mt_index t) text \<and>
        ParseMarker text = (m, MarkerOurs))"
proof -
  let ?m = "sample_marker\<lparr>m_parent := ''p''\<rparr>"
  have m: "t = the (case MarkerTargetFor (Some sample_attach) of Inr x \<Rightarrow> x | Inl e \<Rightarrow> None) \<Longrightarrow>
      marker_for t sample_marker zero_marker MarkerAbsent = ?m" for t
    by (simp add: marker_for_def sample_attach_target sample_marker_def zero_marker_def)
  have ok: "marker_utf8 ?m" "marker_Validate ?m = None"
    by (simp_all add: sample_marker_def marker_Validate_def zero_marker_def marker_utf8_def
        MarkerRoleLeaf_def ascii_valid ascii_def)
  then obtain sql where
    sql: "RenderMarkerStatement (Some sample_attach) sample_marker zero_marker MarkerAbsent = Inr (Some sql)"
    using m by (auto simp: RenderMarkerStatement_Some FormatMarker_Inr sample_attach_target)
  have "marker_utf8 (marker_for t sample_marker zero_marker MarkerAbsent)"
    if "MarkerTargetFor (Some sample_attach) = Inr (Some t)" for t
    using m [of t] that ok(1) by simp
  from RenderMarkerStatement_preserves [OF sql this] sql show ?thesis by blast
qed

end
