(* ===== verification/Drop_Decision.thy ===== *)
theory Drop_Decision
  imports Marker Naming
begin

text \<open>
  engine/protocol/drop.go: the decision table of destructive actions, evaluated by the planner and
  again by the executor before it dispatches.  Evidence is the Go string map, kept as the list of
  its entries; the texts of the refusals are represented by which refusal it is.
\<close>

subsection \<open>The decision table\<close>

datatype drop_action = DropHalt | DropAuthorized | DropAdoptThenDrop

fun action_String :: "drop_action \<Rightarrow> string" where
  "action_String DropHalt = ''halt''"
| "action_String DropAuthorized = ''drop''"
| "action_String DropAdoptThenDrop = ''adopt_then_drop''"

definition Destructive :: "drop_action \<Rightarrow> bool" where
  "Destructive a \<longleftrightarrow> a = DropAuthorized \<or> a = DropAdoptThenDrop"

datatype halt_reason =
    NoReason
  | UnmarkedUnclaimed object_name | ForeignComment object_name | UnreadableMarker object_name
  | NotALeftoverName object_name | BaseMissing object_name object_name
  | BaseUnmarked object_name object_name marker_status
  | NoAuthorization | MalformedAuthorization err | WrongObject object_name object_name
  | AmbiguousBase object_name object_name | NoPossibleBase object_name object_name
  | NoPlanArtifact | NotConfirmed string | TargetNotNamed object_name | UnknownModeReason string

type_synonym evidence = "(string \<times> string) list"

record drop_verdict =
  dv_action :: drop_action
  dv_evidence :: evidence
  dv_reason :: halt_reason

definition Satisfied :: "drop_verdict \<Rightarrow> bool" where
  "Satisfied v \<longleftrightarrow> Destructive (dv_action v)"

definition halt_verdict :: "halt_reason \<Rightarrow> drop_verdict" where
  "halt_verdict r = \<lparr>dv_action = DropHalt, dv_evidence = [], dv_reason = r\<rparr>"

record provenance_drop_input =
  pdi_object :: object_name
  pdi_status :: marker_status
  pdi_marker :: marker
  pdi_claim_run :: string

definition DecideProvenanceDrop :: "provenance_drop_input \<Rightarrow> drop_verdict" where
  "DecideProvenanceDrop inp = (case pdi_status inp of
     MarkerOurs \<Rightarrow> \<lparr>dv_action = DropAuthorized,
       dv_evidence = [(''mode'', mode_String AuthProvenance), (''object'', obj_String (pdi_object inp)),
         (''source'', ''marker''), (''marker_run'', m_run (pdi_marker inp)),
         (''marker_plan'', m_plan (pdi_marker inp)), (''marker_at'', m_at (pdi_marker inp)),
         (''marker_op'', m_op (pdi_marker inp))],
       dv_reason = NoReason\<rparr>
   | MarkerAbsent \<Rightarrow>
       if pdi_claim_run inp = [] then halt_verdict (UnmarkedUnclaimed (pdi_object inp))
       else \<lparr>dv_action = DropAdoptThenDrop,
         dv_evidence = [(''mode'', mode_String AuthProvenance), (''object'', obj_String (pdi_object inp)),
           (''source'', ''claim''), (''claim_run'', pdi_claim_run inp)],
         dv_reason = NoReason\<rparr>
   | MarkerForeign \<Rightarrow> halt_verdict (ForeignComment (pdi_object inp))
   | MarkerUnreadable \<Rightarrow> halt_verdict (UnreadableMarker (pdi_object inp)))"

record leftover_drop_input =
  ldi_object :: object_name
  ldi_base_exists :: bool
  ldi_base_status :: marker_status
  ldi_base_marker :: marker

fun leftover_String :: "leftover_kind \<Rightarrow> string" where
  "leftover_String LeftoverNone = []"
| "leftover_String LeftoverNew = ''ccnew''"
| "leftover_String LeftoverOld = ''ccold''"

definition DecideLeftoverDrop :: "leftover_drop_input \<Rightarrow> drop_verdict" where
  "DecideLeftoverDrop inp = (case ClassifyLeftover (obj_name (ldi_object inp)) of (kind, base) \<Rightarrow>
     if kind = LeftoverNone then halt_verdict (NotALeftoverName (ldi_object inp))
     else (let baseName = NewObjectName (obj_schema (ldi_object inp)) base in
       if ldi_base_status inp \<noteq> MarkerOurs then
         if \<not> ldi_base_exists inp then halt_verdict (BaseMissing (ldi_object inp) baseName)
         else halt_verdict (BaseUnmarked (ldi_object inp) baseName (ldi_base_status inp))
       else \<lparr>dv_action = DropAuthorized,
         dv_evidence = [(''mode'', mode_String AuthLeftover), (''object'', obj_String (ldi_object inp)),
           (''source'', ''base_marker''), (''leftover_class'', leftover_String kind),
           (''base_index'', obj_String baseName),
           (''base_marker_run'', m_run (ldi_base_marker inp)),
           (''base_marker_plan'', m_plan (ldi_base_marker inp)),
           (''base_marker_at'', m_at (ldi_base_marker inp))],
         dv_reason = NoReason\<rparr>))"

subsection \<open>What the table decides\<close>

lemma Satisfied_halt [simp]: "\<not> Satisfied (halt_verdict r)"
  by (simp add: Satisfied_def halt_verdict_def Destructive_def)

lemma DecideProvenanceDrop_iff:
  "Satisfied (DecideProvenanceDrop inp) \<longleftrightarrow>
     pdi_status inp = MarkerOurs \<or> pdi_status inp = MarkerAbsent \<and> pdi_claim_run inp \<noteq> []"
  by (cases "pdi_status inp") (simp_all add: DecideProvenanceDrop_def, simp_all add: Satisfied_def Destructive_def)

lemma DecideProvenanceDrop_adopt:
  "dv_action (DecideProvenanceDrop inp) = DropAdoptThenDrop \<longleftrightarrow>
     pdi_status inp = MarkerAbsent \<and> pdi_claim_run inp \<noteq> []"
  by (cases "pdi_status inp") (simp_all add: DecideProvenanceDrop_def halt_verdict_def)

lemma DecideLeftoverDrop_iff:
  "Satisfied (DecideLeftoverDrop inp) \<longleftrightarrow>
     fst (ClassifyLeftover (obj_name (ldi_object inp))) \<noteq> LeftoverNone \<and> ldi_base_status inp = MarkerOurs"
  by (cases "ClassifyLeftover (obj_name (ldi_object inp))")
     (simp add: DecideLeftoverDrop_def Let_def, simp add: Satisfied_def Destructive_def)

end
