(* ===== verification/Authorize.thy ===== *)
theory Authorize
  imports Drop_Decision Engine_Errors
begin

text \<open>
  engine/executor/authorize.go: the evaluation of a destructive node's authorization against live
  state, immediately before its statement.  The catalog and the claim reader are ports of the
  executor: functions of the object they are asked about, which may fail; a nil port is \<open>None\<close>.
\<close>

subsection \<open>Ports and decision\<close>

record catalog_reader =
  cat_marker :: "object_name \<Rightarrow> err + marker \<times> marker_status"
  cat_indexes_on :: "object_name \<Rightarrow> err + object_name list"

text \<open>\<open>ClaimsObject\<close>: the run that holds a live claim on the object, if any.\<close>

type_synonym claims_object = "object_name \<Rightarrow> err + string option"

record authorization_decision =
  ad_mode :: authorization_mode
  ad_object :: object_name
  ad_satisfied :: bool
  ad_adopt :: bool
  ad_evidence :: evidence
  ad_reason :: halt_reason

definition zero_decision :: "object_name \<Rightarrow> authorization_decision" where
  "zero_decision o1 = \<lparr>ad_mode = UnknownMode [], ad_object = o1, ad_satisfied = False,
     ad_adopt = False, ad_evidence = [], ad_reason = NoReason\<rparr>"

definition destructiveObject :: "node \<Rightarrow> err + object_name" where
  "destructiveObject n = (case n_kind n of
     KindIndexDropConcurrently \<Rightarrow> (case n_params n of
       Some (DropConcurrentlyParams p) \<Rightarrow> Inr (dcp_index p) | _ \<Rightarrow> Inl (Detailf ErrInvalidPlan))
   | KindIndexDropPartitioned \<Rightarrow> (case n_params n of
       Some (DropPartitionedParams p) \<Rightarrow> Inr (dpp_index p) | _ \<Rightarrow> Inl (Detailf ErrInvalidPlan))
   | _ \<Rightarrow> Inl (Detailf ErrInvalidPlan))"

definition take_verdict :: "authorization_decision \<Rightarrow> drop_verdict \<Rightarrow> authorization_decision" where
  "take_verdict d v = d\<lparr>ad_reason := dv_reason v, ad_evidence := dv_evidence v, ad_satisfied := Satisfied v\<rparr>"

text \<open>The claim is only read where it can change the answer; no claim is the empty run.\<close>

definition claim_run :: "claims_object option \<Rightarrow> marker_status \<Rightarrow> object_name \<Rightarrow> err + string" where
  "claim_run store status o1 = (case store of
     Some claims \<Rightarrow> if status = MarkerAbsent
       then rbind (claims o1) (\<lambda>found. Inr (case found of Some run \<Rightarrow> run | None \<Rightarrow> []))
       else Inr []
   | None \<Rightarrow> Inr [])"

definition authorizeProvenance ::
    "claims_object option \<Rightarrow> catalog_reader option \<Rightarrow> authorization_decision \<Rightarrow> authorization
     \<Rightarrow> err + authorization_decision" where
  "authorizeProvenance store cat d auth = (case cat of
     None \<Rightarrow> Inl (Detailf ErrMissingPort)
   | Some c \<Rightarrow> rbind (cat_marker c (auth_object auth)) (\<lambda>(marker, status).
       rbind (claim_run store status (auth_object auth)) (\<lambda>run.
         let v = DecideProvenanceDrop \<lparr>pdi_object = auth_object auth, pdi_status = status,
                   pdi_marker = marker, pdi_claim_run = run\<rparr>
         in Inr ((take_verdict d v)\<lparr>ad_adopt := (dv_action v = DropAdoptThenDrop)\<rparr>))))"

definition authorizeLeftover ::
    "catalog_reader option \<Rightarrow> authorization_decision \<Rightarrow> authorization \<Rightarrow> err + authorization_decision" where
  "authorizeLeftover cat d auth =
     (if fst (ClassifyLeftover (obj_name (auth_object auth))) = LeftoverNone
      then Inr (d\<lparr>ad_reason := dv_reason (DecideLeftoverDrop
             \<lparr>ldi_object = auth_object auth, ldi_base_exists = False, ldi_base_status = MarkerAbsent,
              ldi_base_marker = zero_marker\<rparr>)\<rparr>)
      else (case cat of None \<Rightarrow> Inl (Detailf ErrMissingPort) | Some c \<Rightarrow>
        (case auth_relation auth of None \<Rightarrow> Inl (Detailf ErrMissingPort) | Some relation \<Rightarrow>
          rbind (cat_indexes_on c relation) (\<lambda>candidates.
            (let base = fst (ResolveLeftoverBase (auth_object auth) candidates);
                 res = snd (ResolveLeftoverBase (auth_object auth) candidates) in
              if res = LeftoverResolved then
                rbind (cat_marker c base) (\<lambda>(marker, status).
                  (let v = DecideLeftoverDrop \<lparr>ldi_object = auth_object auth, ldi_base_exists = True,
                         ldi_base_status = status, ldi_base_marker = marker\<rparr>;
                       d = take_verdict d v
                   in Inr (if ad_satisfied d
                           then d\<lparr>ad_evidence := ad_evidence d @ [(''relation'', obj_String relation)]\<rparr>
                           else d)))
              else if res = LeftoverAmbiguous
              then Inr (d\<lparr>ad_reason := AmbiguousBase (auth_object auth) relation\<rparr>)
              else Inr (d\<lparr>ad_reason := NoPossibleBase (auth_object auth) relation\<rparr>))))))"

fun confirmation_evidence :: "string \<Rightarrow> confirmation list \<Rightarrow> evidence" where
  "confirmation_evidence flag [] = []"
| "confirmation_evidence flag (c # cs) =
     (if conf_flag c = flag
      then [(''confirmed_by'', conf_actor c), (''confirmed_at'', ts_Canonical (conf_at c))]
      else confirmation_evidence flag cs)"

definition authorizeExplicit ::
    "authorization_decision \<Rightarrow> plan option \<Rightarrow> authorization \<Rightarrow> authorization_decision" where
  "authorizeExplicit d plan auth = (case plan of
     None \<Rightarrow> d\<lparr>ad_reason := NoPlanArtifact\<rparr>
   | Some p \<Rightarrow>
       if \<not> Confirmed p (auth_required_confirmation auth)
       then d\<lparr>ad_reason := NotConfirmed (auth_required_confirmation auth)\<rparr>
       else if tgt_index (p_target p) \<noteq> Some (auth_object auth)
       then d\<lparr>ad_reason := TargetNotNamed (auth_object auth)\<rparr>
       else d\<lparr>ad_satisfied := True, ad_evidence :=
         [(''mode'', mode_String AuthExplicit), (''object'', obj_String (auth_object auth)),
          (''confirmation'', auth_required_confirmation auth), (''plan_id'', p_plan_id p)]
         @ confirmation_evidence (auth_required_confirmation auth) (p_confirmations p)\<rparr>)"

definition authorizeMode ::
    "claims_object option \<Rightarrow> catalog_reader option \<Rightarrow> plan option \<Rightarrow> authorization_decision \<Rightarrow> authorization
     \<Rightarrow> err + authorization_decision" where
  "authorizeMode store cat plan d auth = (case auth_mode auth of
     AuthProvenance \<Rightarrow> authorizeProvenance store cat d auth
   | AuthLeftover \<Rightarrow> authorizeLeftover cat d auth
   | AuthExplicit \<Rightarrow> Inr (authorizeExplicit d plan auth)
   | UnknownMode m \<Rightarrow> Inr (d\<lparr>ad_reason := UnknownModeReason m\<rparr>))"

definition Authorize ::
    "claims_object option \<Rightarrow> catalog_reader option \<Rightarrow> plan option \<Rightarrow> node \<Rightarrow> err + authorization_decision" where
  "Authorize store cat plan n =
     (if \<not> IsDestructive (n_kind n) then Inl (Detailf ErrInvalidPlan)
      else rbind (destructiveObject n) (\<lambda>target.
        let d = zero_decision target in
        case n_authorization n of
          None \<Rightarrow> Inr (d\<lparr>ad_reason := NoAuthorization\<rparr>)
        | Some auth \<Rightarrow>
            let d = d\<lparr>ad_mode := auth_mode auth\<rparr> in
            case auth_Validate (Some auth) of
              Some e \<Rightarrow> Inr (d\<lparr>ad_reason := MalformedAuthorization e\<rparr>)
            | None \<Rightarrow>
                if auth_object auth \<noteq> target
                then Inr (d\<lparr>ad_reason := WrongObject (auth_object auth) target\<rparr>)
                else authorizeMode store cat plan d auth))"

subsection \<open>What a satisfied authorization rests on\<close>

text \<open>
  The three ways a drop can be justified, stated over the catalog, the claims and the plan alone.
\<close>

definition owned_object :: "claims_object option \<Rightarrow> catalog_reader \<Rightarrow> object_name \<Rightarrow> bool" where
  "owned_object store c o1 \<longleftrightarrow>
     (\<exists>m. cat_marker c o1 = Inr (m, MarkerOurs)) \<or>
     (\<exists>m claims run. cat_marker c o1 = Inr (m, MarkerAbsent) \<and> store = Some claims \<and>
        claims o1 = Inr (Some run) \<and> run \<noteq> [])"

definition leftover_of_owned :: "catalog_reader \<Rightarrow> object_name \<Rightarrow> object_name \<Rightarrow> bool" where
  "leftover_of_owned c relation o1 \<longleftrightarrow>
     (\<exists>candidates base m. cat_indexes_on c relation = Inr candidates \<and>
        ResolveLeftoverBase o1 candidates = (base, LeftoverResolved) \<and>
        cat_marker c base = Inr (m, MarkerOurs))"

definition confirmed_target :: "plan \<Rightarrow> string \<Rightarrow> object_name \<Rightarrow> bool" where
  "confirmed_target p flag o1 \<longleftrightarrow> Confirmed p flag \<and> tgt_index (p_target p) = Some o1"

definition satisfied :: "err + authorization_decision \<Rightarrow> bool" where
  "satisfied r = (case r of Inl e \<Rightarrow> False | Inr d \<Rightarrow> ad_satisfied d)"

lemma satisfied_simps [simp]:
  "\<not> satisfied (Inl e)" "satisfied (Inr d) \<longleftrightarrow> ad_satisfied d"
  by (simp_all add: satisfied_def)

lemma ad_satisfied_simps [simp]:
  "ad_satisfied (take_verdict d v) \<longleftrightarrow> Satisfied v"
  "\<not> ad_satisfied (zero_decision x)"
  by (simp_all add: take_verdict_def zero_decision_def)

lemma satisfied_rbind: "satisfied (rbind m f) \<longleftrightarrow> (\<exists>x. m = Inr x \<and> satisfied (f x))"
  by (cases m) simp_all

lemma claim_run_Inr:
  "claim_run store MarkerAbsent o1 = Inr run \<and> run \<noteq> [] \<longleftrightarrow>
     (\<exists>claims. store = Some claims \<and> claims o1 = Inr (Some run) \<and> run \<noteq> [])"
  by (auto simp: claim_run_def rbind_Inr split: option.splits)

lemma claim_run_marked: "st \<noteq> MarkerAbsent \<Longrightarrow> claim_run store st o1 = Inr []"
  by (simp add: claim_run_def split: option.splits)

lemma authorizeProvenance_satisfied:
  "satisfied (authorizeProvenance store cat d auth) \<longleftrightarrow>
     (\<exists>c. cat = Some c \<and> owned_object store c (auth_object auth))"
proof (cases cat)
  case (Some c)
  have "satisfied (authorizeProvenance store cat d auth) \<longleftrightarrow>
     (\<exists>m st run. cat_marker c (auth_object auth) = Inr (m, st) \<and> claim_run store st (auth_object auth) = Inr run \<and>
        (st = MarkerOurs \<or> st = MarkerAbsent \<and> run \<noteq> []))"
    using Some by (simp add: authorizeProvenance_def satisfied_rbind Let_def DecideProvenanceDrop_iff case_prod_unfold)
  then show ?thesis
    using Some claim_run_marked claim_run_Inr [of store "auth_object auth"]
    unfolding owned_object_def by (metis marker_status.distinct(1) option.inject)
qed (simp add: authorizeProvenance_def)

lemma ResolveLeftoverBase_resolved:
  "ResolveLeftoverBase o1 cs = (base, LeftoverResolved) \<Longrightarrow> fst (ClassifyLeftover (obj_name o1)) \<noteq> LeftoverNone"
  by (auto simp: ResolveLeftoverBase_def ClassifyLeftover_def case_prod_unfold split: if_splits)

lemma authorizeLeftover_satisfied:
  assumes "\<not> ad_satisfied d"
  shows "satisfied (authorizeLeftover cat d auth) \<longleftrightarrow>
    (\<exists>c relation. cat = Some c \<and> auth_relation auth = Some relation \<and>
       leftover_of_owned c relation (auth_object auth))"
proof (cases "\<exists>c relation. cat = Some c \<and> auth_relation auth = Some relation")
  case True
  then obtain c relation where c: "cat = Some c" "auth_relation auth = Some relation" by blast
  let ?R = "ResolveLeftoverBase (auth_object auth)"
  have "satisfied (authorizeLeftover cat d auth) \<longleftrightarrow>
      fst (ClassifyLeftover (obj_name (auth_object auth))) \<noteq> LeftoverNone \<and>
      (\<exists>cs m. cat_indexes_on c relation = Inr cs \<and> snd (?R cs) = LeftoverResolved \<and>
         cat_marker c (fst (?R cs)) = Inr (m, MarkerOurs))"
    using assms by (cases "cat_indexes_on c relation")
      (auto simp: authorizeLeftover_def c satisfied_rbind [of "cat_marker c b" for b] Let_def DecideLeftoverDrop_iff)
  also have "\<dots> \<longleftrightarrow> leftover_of_owned c relation (auth_object auth)"
    using ResolveLeftoverBase_resolved unfolding leftover_of_owned_def by (metis prod.collapse fst_conv snd_conv)
  finally show ?thesis using c by simp
next
  case False
  then show ?thesis using assms by (cases cat; cases "auth_relation auth") (auto simp: authorizeLeftover_def)
qed

lemma authorizeExplicit_satisfied:
  "\<not> ad_satisfied d \<Longrightarrow> ad_satisfied (authorizeExplicit d plan auth) \<longleftrightarrow>
     (\<exists>p. plan = Some p \<and> confirmed_target p (auth_required_confirmation auth) (auth_object auth))"
  by (auto simp: authorizeExplicit_def confirmed_target_def split: option.splits)

definition justified ::
    "claims_object option \<Rightarrow> catalog_reader option \<Rightarrow> plan option \<Rightarrow> authorization \<Rightarrow> bool" where
  "justified store cat plan auth \<longleftrightarrow> (case auth_mode auth of
     AuthProvenance \<Rightarrow> \<exists>c. cat = Some c \<and> owned_object store c (auth_object auth)
   | AuthLeftover \<Rightarrow> \<exists>c relation. cat = Some c \<and> auth_relation auth = Some relation \<and>
       leftover_of_owned c relation (auth_object auth)
   | AuthExplicit \<Rightarrow> \<exists>p. plan = Some p \<and>
       confirmed_target p (auth_required_confirmation auth) (auth_object auth)
   | UnknownMode m \<Rightarrow> False)"

lemma authorizeMode_satisfied:
  "\<not> ad_satisfied d \<Longrightarrow> satisfied (authorizeMode store cat plan d auth) \<longleftrightarrow> justified store cat plan auth"
  by (cases "auth_mode auth")
     (simp_all add: authorizeMode_def justified_def authorizeProvenance_satisfied
       authorizeLeftover_satisfied authorizeExplicit_satisfied)

text \<open>
  C20. Authorization against live state is exactly justification: a destructive node is authorized if
  and only if it carries a valid authorization for the very object its parameters would destroy, and
  that authorization holds now.  Provenance needs the tool's own marker on that object, or no comment
  at all together with a live claim; a leftover needs exactly one index of its relation that
  PostgreSQL would have derived it from, and the tool's marker on that index; an explicit drop needs
  the recorded acknowledgement and a plan whose target names the object.  A comment of somebody
  else, an unreadable marker, or a failing read never authorizes.
\<close>
theorem Authorize_exact:
  "satisfied (Authorize store cat plan n) \<longleftrightarrow>
     (\<exists>auth. IsDestructive (n_kind n) \<and> n_authorization n = Some auth \<and> auth_Validate (Some auth) = None \<and>
        destructiveObject n = Inr (auth_object auth) \<and> justified store cat plan auth)"
  by (auto simp: Authorize_def satisfied_rbind Let_def authorizeMode_satisfied split: option.splits if_splits)

lemma Authorize_Inr:
  assumes "Authorize store cat plan n = Inr d"
  obtains (evaluated) auth where "n_authorization n = Some auth" "auth_Validate (Some auth) = None"
      "destructiveObject n = Inr (auth_object auth)"
      "authorizeMode store cat plan ((zero_decision (auth_object auth))\<lparr>ad_mode := auth_mode auth\<rparr>) auth = Inr d"
    | (refused) "\<not> ad_satisfied d" "\<not> ad_adopt d"
  using assms
  by (cases "n_authorization n")
     (auto simp: Authorize_def rbind_Inr Let_def zero_decision_def split: if_splits option.splits)

lemma authorizeProvenance_adopt:
  "authorizeProvenance store cat d auth = Inr r \<Longrightarrow> ad_adopt r \<Longrightarrow>
     \<exists>c m claims run. cat = Some c \<and> cat_marker c (auth_object auth) = Inr (m, MarkerAbsent) \<and>
       store = Some claims \<and> claims (auth_object auth) = Inr (Some run) \<and> run \<noteq> []"
  using claim_run_Inr [THEN iffD1]
  by (fastforce simp: authorizeProvenance_def rbind_Inr Let_def take_verdict_def DecideProvenanceDrop_adopt
      split: option.splits)

lemma authorizeLeftover_adopt:
  "authorizeLeftover cat d auth = Inr r \<Longrightarrow> ad_adopt r = ad_adopt d"
  by (auto simp: authorizeLeftover_def rbind_Inr Let_def take_verdict_def split: option.splits if_splits)

text \<open>An object is only adopted, marked and then dropped, under a live claim on an unmarked object.\<close>

lemma Authorize_adopt:
  assumes "Authorize store cat plan n = Inr d" "ad_adopt d"
  shows "\<exists>auth c m claims run. n_authorization n = Some auth \<and> auth_mode auth = AuthProvenance \<and>
    cat = Some c \<and> cat_marker c (auth_object auth) = Inr (m, MarkerAbsent) \<and>
    store = Some claims \<and> claims (auth_object auth) = Inr (Some run) \<and> run \<noteq> []"
  using assms(1)
proof (cases rule: Authorize_Inr)
  case (evaluated auth)
  have z: "\<not> ad_adopt ((zero_decision (auth_object auth))\<lparr>ad_mode := auth_mode auth\<rparr>)"
    by (simp add: zero_decision_def)
  have "auth_mode auth = AuthProvenance"
    using evaluated(4) assms(2) z authorizeLeftover_adopt
    by (fastforce simp: authorizeMode_def authorizeExplicit_def split: authorization_mode.splits option.splits if_splits)
  then show ?thesis
    using evaluated authorizeProvenance_adopt assms(2) by (fastforce simp: authorizeMode_def)
qed (use assms(2) in simp)

subsection \<open>The evidence of a leftover drop\<close>

text \<open>
  The entry \<open>base_index\<close> of the evidence is the name with its suffix trimmed, which need not be the
  index whose marker was read: PostgreSQL truncates a long base to make room for the suffix.
\<close>

lemma authorizeLeftover_evidence:
  assumes "authorizeLeftover cat d auth = Inr r" "ad_satisfied r" "\<not> ad_satisfied d"
  shows "map_of (ad_evidence r) ''base_index'' = Some (obj_String (NewObjectName
    (obj_schema (auth_object auth)) (snd (ClassifyLeftover (obj_name (auth_object auth))))))"
proof -
  have e: "map_of (dv_evidence (DecideLeftoverDrop inp)) ''base_index'' = Some (obj_String (NewObjectName
      (obj_schema (ldi_object inp)) (snd (ClassifyLeftover (obj_name (ldi_object inp))))))"
    if "Satisfied (DecideLeftoverDrop inp)" for inp
    using that DecideLeftoverDrop_iff [of inp]
    by (cases "ClassifyLeftover (obj_name (ldi_object inp))") (simp add: DecideLeftoverDrop_def Let_def)
  show ?thesis using assms e
    by (auto simp: authorizeLeftover_def rbind_Inr Let_def take_verdict_def map_add_def split: option.splits if_splits)
qed

definition long_base :: object_name where
  "long_base = NewObjectName [] (replicate 63 (CHR ''a''))"

definition long_leftover :: object_name where
  "long_leftover = NewObjectName [] (replicate 57 (CHR ''a'') @ ''_ccnew'')"

lemma truncate_loop_replicate:
  "truncate_loop (length b + j) b (replicate k 97) = b @ replicate (min k j) (CHR ''a'')"
proof (induction k arbitrary: b j)
  case (Suc k)
  have "encode_rune 97 = ''a''" by code_simp
  then show ?case
    using Suc.IH [of "b @ ''a''"]
    by (cases j) (simp_all add: Let_def rune_len_def write_rune_def scalar_def)
qed simp

lemma truncate_replicate: "truncateUTF8 (replicate k (CHR ''a'')) m = replicate (min k m) (CHR ''a'')"
proof -
  have "runes_of (replicate k (CHR ''a'')) = replicate k 97" by (simp add: ascii_runes_of ascii_def)
  then show ?thesis using truncate_loop_replicate [of "[]" m k] by (simp add: truncateUTF8_def)
qed

lemma long_leftover_resolves: "ResolveLeftoverBase long_leftover [long_base] = (long_base, LeftoverResolved)"
proof -
  have l: "splitLeftover (replicate 57 (CHR ''a'') @ ''_ccnew'') = (LeftoverNew, replicate 57 (CHR ''a''), ''_ccnew'')"
    using splitLeftover_append(1) [of "[]"] by (simp add: LeftoverNewPrefix_def)
  have "fst (splitLeftover (replicate 63 (CHR ''a''))) = LeftoverNone"
    by code_simp
  moreover have "replicate 63 (CHR ''a'') \<noteq> replicate 57 (CHR ''a'') @ ''_ccnew''"
    by (simp add: eval_nat_numeral)
  ultimately show ?thesis
    by (simp add: ResolveLeftoverBase_def long_leftover_def long_base_def NewObjectName_def l DerivesLeftover_def
        MaxIdentifierBytes_def truncate_replicate)
qed

text \<open>So the recorded evidence can name an index other than the one whose marker was read.\<close>

lemma leftover_evidence_not_the_base:
  assumes "auth_object auth = long_leftover" "cat_indexes_on c relation = Inr [long_base]"
    "cat_marker c long_base = Inr (m, MarkerOurs)" "auth_relation auth = Some relation" "\<not> ad_satisfied d"
  shows "\<exists>r. authorizeLeftover (Some c) d auth = Inr r \<and> ad_satisfied r \<and>
    map_of (ad_evidence r) ''base_index'' \<noteq> Some (obj_String long_base)"
proof -
  have "satisfied (authorizeLeftover (Some c) d auth)"
    using assms long_leftover_resolves by (auto simp: authorizeLeftover_satisfied leftover_of_owned_def)
  then obtain r where r: "authorizeLeftover (Some c) d auth = Inr r" "ad_satisfied r"
    by (cases "authorizeLeftover (Some c) d auth") auto
  have "snd (ClassifyLeftover (obj_name long_leftover)) = replicate 57 (CHR ''a'')"
    using splitLeftover_append(1) [of "[]" "replicate 57 (CHR ''a'')"]
    by (simp add: ClassifyLeftover_def long_leftover_def NewObjectName_def LeftoverNewPrefix_def)
  moreover have "replicate 57 (CHR ''a'') \<noteq> replicate 63 (CHR ''a'')" by simp
  moreover have "obj_schema long_leftover = []" "obj_String long_base = replicate 63 (CHR ''a'')"
    "obj_String (NewObjectName [] x) = x" for x
    by (simp_all add: long_leftover_def long_base_def NewObjectName_def obj_String_def)
  ultimately show ?thesis
    using r authorizeLeftover_evidence [OF r assms(5)] unfolding assms(1) by auto
qed

end
