(* ===== verification/Retry.thy ===== *)
theory Retry
  imports Engine_Errors Plan Complex_Main
begin

text \<open>
  engine/executor/classify.go and engine/executor/backoff.go: which failures are worth another
  attempt, and how long to wait before it.  An error is the chain of its wrapped causes; the end of
  the chain says which of the standard library's and driver's errors it is.  Durations are
  nanoseconds in 64 bits.
\<close>

subsection \<open>Classification\<close>

datatype error_class = ClassNone | ClassRetryable | ClassTerminal | ClassCancelled

record classification =
  cl_class :: error_class
  cl_sqlstate :: string
  cl_condition :: string
  cl_exit :: exit_code

definition cl_Retryable :: "classification \<Rightarrow> bool" where
  "cl_Retryable c \<longleftrightarrow> cl_class c = ClassRetryable"

text \<open>The last error of the chain, when it is not one of the engine's own.\<close>

fun root_cause :: "err \<Rightarrow> foreign_error option" where
  "root_cause (PErr k c None) = None"
| "root_cause (PErr k c (Some e)) = root_cause e"
| "root_cause (FmtErr None) = None"
| "root_cause (FmtErr (Some e)) = root_cause e"
| "root_cause (ForeignErr f) = Some f"

text \<open>
  A \<open>Classifier\<close> is its function field, which recovers the state of a driver error that has no
  \<open>SQLState\<close> method; nil is \<open>None\<close>.
\<close>

type_synonym classifier = "(err \<Rightarrow> string option) option"

definition sqlState :: "classifier \<Rightarrow> err \<Rightarrow> string option" where
  "sqlState c e =
     (let fallback = (case c of None \<Rightarrow> None | Some f \<Rightarrow>
            (case f e of Some s \<Rightarrow> if length s = 5 then Some s else None | None \<Rightarrow> None))
      in (case root_cause e of
            Some (SqlStateError s) \<Rightarrow> if length s = 5 then Some s else fallback
          | _ \<Rightarrow> fallback))"

definition retryableStates :: "(string \<times> string) list" where
  "retryableStates = [(''40000'', ''transaction_rollback''), (''40001'', ''serialization_failure''),
     (''40003'', ''statement_completion_unknown''), (''40P01'', ''deadlock_detected''),
     (''55006'', ''object_in_use''), (''55P03'', ''lock_not_available''), (''53200'', ''out_of_memory''),
     (''53300'', ''too_many_connections''), (''53400'', ''configuration_limit_exceeded''),
     (''58000'', ''system_error''), (''58030'', ''io_error''), (''72000'', ''snapshot_too_old'')]"

definition terminalStates :: "(string \<times> string \<times> exit_code) list" where
  "terminalStates = [(''42501'', ''insufficient_privilege'', ExitInsufficientPrivilege),
     (''28000'', ''invalid_authorization_specification'', ExitInsufficientPrivilege),
     (''28P01'', ''invalid_password'', ExitInsufficientPrivilege),
     (''42601'', ''syntax_error'', 0), (''42P07'', ''duplicate_table'', 0), (''42P01'', ''undefined_table'', 0),
     (''42703'', ''undefined_column'', 0), (''42704'', ''undefined_object'', 0),
     (''42710'', ''duplicate_object'', 0), (''23505'', ''unique_violation'', 0),
     (''23514'', ''check_violation'', 0), (''23503'', ''foreign_key_violation'', 0),
     (''0A000'', ''feature_not_supported'', 0), (''53100'', ''disk_full'', 0),
     (''40002'', ''transaction_integrity_constraint_violation'', 0),
     (''55000'', ''object_not_in_prerequisite_state'', 0), (''58P01'', ''undefined_file'', 0),
     (''58P02'', ''duplicate_file'', 0), (''XX000'', ''internal_error'', 0)]"

definition classification_of :: "error_class \<Rightarrow> string \<Rightarrow> string \<Rightarrow> exit_code \<Rightarrow> classification" where
  "classification_of k s cond x = \<lparr>cl_class = k, cl_sqlstate = s, cl_condition = cond, cl_exit = x\<rparr>"

definition classifySQLState :: "string \<Rightarrow> classification" where
  "classifySQLState state = (case map_of retryableStates state of
     Some cond \<Rightarrow> classification_of ClassRetryable state cond 0
   | None \<Rightarrow> (case map_of terminalStates state of
       Some (cond, x) \<Rightarrow> classification_of ClassTerminal state cond x
     | None \<Rightarrow>
         if take 2 state = ''08'' then classification_of ClassRetryable state ''connection_exception'' 0
         else if take 2 state = ''57'' then classification_of ClassRetryable state ''operator_intervention'' 0
         else if take 2 state = ''42''
         then classification_of ClassTerminal state ''syntax_error_or_access_rule_violation'' 0
         else if take 2 state = ''23''
         then classification_of ClassTerminal state ''integrity_constraint_violation'' 0
         else classification_of ClassTerminal state ''unclassified'' 0))"

definition classifyTransport :: "err \<Rightarrow> classification" where
  "classifyTransport e =
     (if root_cause e = Some ConnectionLost then classification_of ClassRetryable [] ''connection_lost'' 0
      else if root_cause e = Some NetTimeout then classification_of ClassRetryable [] ''network_timeout'' 0
      else if root_cause e = Some NetOpError then classification_of ClassRetryable [] ''network_error'' 0
      else classification_of ClassTerminal [] ''unclassified'' (ExitCodeFor (Some e)))"

definition Classify :: "classifier \<Rightarrow> err option \<Rightarrow> classification" where
  "Classify c x = (case x of
     None \<Rightarrow> classification_of ClassNone [] [] 0
   | Some e \<Rightarrow>
       if root_cause e = Some ContextCanceled \<or> root_cause e = Some DeadlineExceeded
       then classification_of ClassCancelled [] ''context_cancelled'' 0
       else (case sqlState c e of
           Some state \<Rightarrow> classifySQLState state
         | None \<Rightarrow> classifyTransport e))"

subsection \<open>Backoff\<close>

text \<open>A \<open>float64\<close>: a finite one is a rational number.\<close>

datatype float64 = NaN | PosInf | NegInf | Finite rat

fun float_less :: "float64 \<Rightarrow> float64 \<Rightarrow> bool" where
  "float_less NaN y = False"
| "float_less x NaN = False"
| "float_less PosInf y = False"
| "float_less NegInf y = (y \<noteq> NegInf)"
| "float_less (Finite x) NegInf = False"
| "float_less (Finite x) PosInf = True"
| "float_less (Finite x) (Finite y) = (x < y)"

type_synonym duration = int

record retry_policy =
  rp_max_attempts :: int
  rp_base_delay :: duration
  rp_max_delay :: duration
  rp_jitter :: float64

definition second :: duration where "second = 1000000000"

definition DefaultRetryPolicy :: retry_policy where
  "DefaultRetryPolicy = \<lparr>rp_max_attempts = 5, rp_base_delay = 1 * second, rp_max_delay = 60 * second,
     rp_jitter = Finite (1 / 2)\<rparr>"

definition policy_Validate :: "retry_policy \<Rightarrow> err option" where
  "policy_Validate p =
     (if rp_max_attempts p < 1 then Some (FmtErr None)
      else if rp_base_delay p < 0 then Some (FmtErr None)
      else if rp_max_delay p < 0 then Some (FmtErr None)
      else if rp_max_delay p < rp_base_delay p then Some (FmtErr None)
      else if float_less (rp_jitter p) (Finite 0) \<or> float_less (Finite 1) (rp_jitter p) then Some (FmtErr None)
      else None)"

text \<open>The loop doubles \<open>n\<close> times, in 64 bits.\<close>

fun delay_loop :: "duration \<Rightarrow> nat \<Rightarrow> duration \<Rightarrow> duration" where
  "delay_loop mx 0 d = (if d > mx then mx else d)"
| "delay_loop mx (Suc n) d = (if d \<ge> mx then mx else delay_loop mx n (wrap_int64 (d * 2)))"

definition Delay :: "retry_policy \<Rightarrow> int \<Rightarrow> duration" where
  "Delay p attempt =
     (if attempt \<le> 1 \<or> rp_base_delay p \<le> 0 then 0
      else delay_loop (rp_max_delay p) (nat (attempt - 2)) (rp_base_delay p))"

subsection \<open>The retry decision\<close>

lemma retryable_not_terminal: "map_of retryableStates s \<noteq> None \<Longrightarrow> map_of terminalStates s = None"
  by (auto simp: retryableStates_def terminalStates_def split: if_splits)

lemma map_of_key: "map_of xs k = None \<longleftrightarrow> k \<notin> fst ` set xs"
  by (simp add: map_of_eq_None_iff)

lemma classifySQLState_retryable:
  "cl_Retryable (classifySQLState s) \<longleftrightarrow>
     s \<in> fst ` set retryableStates \<or> s \<notin> fst ` set terminalStates \<and> take 2 s \<in> {''08'', ''57''}"
proof (cases "map_of retryableStates s")
  case (Some c)
  then have "s \<in> fst ` set retryableStates" using map_of_key [of retryableStates s] by force
  then show ?thesis using Some by (simp add: classifySQLState_def cl_Retryable_def classification_of_def)
next
  case None
  then have "s \<notin> fst ` set retryableStates" using map_of_key by metis
  moreover have "s \<in> fst ` set terminalStates \<longleftrightarrow> map_of terminalStates s \<noteq> None" using map_of_key by metis
  ultimately show ?thesis
    using None by (cases "map_of terminalStates s")
      (auto simp: classifySQLState_def cl_Retryable_def classification_of_def)
qed

text \<open>
  The retry decision: an error is retried exactly when it is not the cancellation of the caller
  and either the server reported a five character state that is in the table of transient states or
  of class 08 or 57 without being in the table of permanent ones, or no state was recovered and the
  connection failed.  Everything unrecognized is permanent, and no state is in both tables.
\<close>
theorem Classify_retryable:
  "cl_Retryable (Classify c (Some e)) \<longleftrightarrow>
     root_cause e \<notin> {Some ContextCanceled, Some DeadlineExceeded} \<and>
     (case sqlState c e of
        Some s \<Rightarrow> s \<in> fst ` set retryableStates \<or> s \<notin> fst ` set terminalStates \<and> take 2 s \<in> {''08'', ''57''}
      | None \<Rightarrow> root_cause e \<in> {Some ConnectionLost, Some NetTimeout, Some NetOpError})"
  by (auto simp: Classify_def classifySQLState_retryable classifyTransport_def split: option.splits)
     (auto simp: cl_Retryable_def classification_of_def)

subsection \<open>The delay\<close>

definition int64 :: "int \<Rightarrow> bool" where
  "int64 x \<longleftrightarrow> - (2 ^ 63) \<le> x \<and> x < 2 ^ 63"

lemma wrap_int64_id: "int64 x \<Longrightarrow> wrap_int64 x = x"
  by (simp add: int64_def wrap_int64_def)

lemma delay_loop_spec:
  assumes "0 < d" "mx \<le> 2 ^ 62"
  shows "delay_loop mx n d = min mx (d * 2 ^ n)"
  using assms(1)
proof (induction n arbitrary: d)
  case (Suc n)
  show ?case
  proof (cases "d \<ge> mx")
    case True
    have "d * 1 \<le> d * 2 ^ Suc n"
      using Suc.prems one_le_power [of "2 :: int" "Suc n"] by (intro mult_left_mono) simp_all
    then show ?thesis using True by simp
  next
    case False
    then have "wrap_int64 (d * 2) = d * 2"
      using assms(2) Suc.prems by (intro wrap_int64_id) (simp add: int64_def)
    then show ?thesis using False Suc by (simp add: mult.assoc)
  qed
qed simp

text \<open>
  The backoff follows its documentation while the cap is at most \<open>2 ^ 62\<close> nanoseconds (146
  years): the first attempt does not wait, attempt \<open>n\<close> waits \<open>BaseDelay * 2^(n-2)\<close> capped at
  \<open>MaxDelay\<close>, however large \<open>n\<close> is, so the delay never decreases from one attempt to the next
  and the 64-bit doubling never wraps.
\<close>
theorem Delay_capped_doubling:
  assumes "policy_Validate p = None" "rp_max_delay p \<le> 2 ^ 62"
  shows "Delay p attempt = (if attempt \<le> 1 then 0
      else min (rp_max_delay p) (rp_base_delay p * 2 ^ nat (attempt - 2))) \<and>
    Delay p attempt \<le> Delay p (attempt + 1) \<and> 0 \<le> Delay p attempt \<and> Delay p attempt \<le> rp_max_delay p"
proof -
  have v: "0 \<le> rp_base_delay p" "0 \<le> rp_max_delay p"
    using assms(1) by (auto simp: policy_Validate_def split: if_splits)
  have e: "Delay p a = (if a \<le> 1 then 0
      else min (rp_max_delay p) (rp_base_delay p * 2 ^ nat (a - 2)))" for a
    using v delay_loop_spec [OF _ assms(2)] by (auto simp: Delay_def)
  have "nat (attempt - 1) = Suc (nat (attempt - 2))" if "\<not> attempt \<le> 1"
    using that by (simp add: Suc_nat_eq_nat_zadd1)
  then have "Delay p attempt \<le> Delay p (attempt + 1)"
    using v by (auto simp: e min_le_iff_disj mult_left_mono)
  then show ?thesis using v e by (auto simp: min_le_iff_disj)
qed

theorem Delay_capped_doubling_witness:
  "Delay DefaultRetryPolicy 5 = 8 * second \<and> Delay DefaultRetryPolicy 5 \<le> Delay DefaultRetryPolicy (5 + 1)"
  using Delay_capped_doubling [of DefaultRetryPolicy 5]
  by (simp add: DefaultRetryPolicy_def policy_Validate_def second_def)

text \<open>
  Beyond that bound the doubling wraps: a policy that passes validation then waits a negative time.
\<close>

definition long_policy :: retry_policy where
  "long_policy = \<lparr>rp_max_attempts = 5, rp_base_delay = 2 ^ 62, rp_max_delay = 2 ^ 63 - 1,
     rp_jitter = Finite 0\<rparr>"

lemma Delay_overflow: "policy_Validate long_policy = None \<and> Delay long_policy 3 = - (2 ^ 63)"
  by (simp add: long_policy_def policy_Validate_def Delay_def numeral_eq_Suc wrap_int64_def)

end
