(* ===== verification/Executor_Ports.thy ===== *)
theory Executor_Ports
  imports Authorize Retry Store_Monad
begin

text \<open>
  engine/executor/port.go, log.go and the configuration half of executor.go: what the executor sees of
  the world.  The world is a type parameter; a port is a function of it that answers and moves it on,
  so a sequence of calls can return any sequence of answers and the environment may act between any
  two of them.  A nil port is a flag of the configuration.  Every call with an effect is kept in a
  trace, with its outcome, which is what the properties of the executor speak about.
\<close>

subsection \<open>What crosses the ports (port.go, log.go)\<close>

record session_settings =
  ss_lock_timeout :: duration
  ss_statement_timeout :: duration

record statement =
  sm_run :: run_id
  sm_node :: node_id
  sm_kind :: node_kind
  sm_sql :: string
  sm_settings :: session_settings
  sm_outside_transaction :: bool

record check_result =
  cr_name :: string
  cr_passed :: bool
  cr_detail :: string
  cr_failure_code :: exit_code

record stored_node =
  sn_state :: node_state
  sn_attempts :: int

text \<open>Where the code keeps the text of an error, the model keeps the error.\<close>

record executor_transition =
  tr_run :: run_id
  tr_node :: node_id
  tr_kind :: node_kind
  tr_from :: node_state
  tr_to :: node_state
  tr_reason :: transition_reason
  tr_attempts :: int
  tr_duration :: duration
  tr_error :: "err option"
  tr_at :: timestamp

record grant =
  gr_run :: run_id
  gr_node :: node_id
  gr_object :: object_name
  gr_mode :: authorization_mode
  gr_evidence :: evidence
  gr_granted_at :: timestamp

datatype trail_type =
    AuditRunStarted | AuditRunFinished | AuditRunCancelled | AuditRunFailed | AuditNodeFailed
  | AuditAuthorizationGranted | AuditAuthorizationDenied | AuditOrphanRecovered

record trail_event =
  te_run :: run_id
  te_node :: node_id
  te_type :: trail_type
  te_detail :: "(string \<times> string) list"
  te_reason :: halt_reason
  te_error :: "err option"
  te_at :: timestamp

record log_event =
  le_at :: timestamp
  le_event :: string
  le_run :: run_id
  le_node :: node_id
  le_kind :: node_kind
  le_state :: "(node_state \<times> node_state) option"
  le_attempt :: int
  le_duration :: duration
  le_class :: "classification option"
  le_error :: "err option"
  le_message :: string

subsection \<open>Configuration and ports\<close>

text \<open>
  \<open>cf_authority\<close> answers the reads of one evaluation of an authorization, \<open>cf_signalled\<close> and
  \<open>cf_fenced\<close> read the context and the flag that the heartbeat sets, \<open>cf_random\<close> draws the
  randomness of a delay, and \<open>cf_scale\<close> and \<open>cf_convert\<close> are the machine's floating point (the
  product of \<open>JitteredDelay\<close> and its conversion).  \<open>cf_sleep\<close> is told whether a signal may interrupt it.
\<close>

record 'w config =
  cf_has_store :: bool
  cf_has_sql :: bool
  cf_has_catalog :: bool
  cf_classifier :: classifier
  cf_retry :: retry_policy
  cf_lock_timeout :: duration
  cf_build_lock_timeout :: duration
  cf_statement_timeout :: duration
  cf_heartbeat_interval :: duration
  cf_dry_run :: bool
  cf_allow_adoption :: bool
  cf_node_states :: "run_id \<Rightarrow> 'w \<Rightarrow> (err + (node_id \<rightharpoonup> stored_node)) \<times> 'w"
  cf_record_transition :: "executor_transition \<Rightarrow> 'w \<Rightarrow> err option \<times> 'w"
  cf_cancel_requested :: "run_id \<Rightarrow> 'w \<Rightarrow> (err + bool) \<times> 'w"
  cf_record_authorization :: "grant \<Rightarrow> 'w \<Rightarrow> err option \<times> 'w"
  cf_append_audit :: "trail_event \<Rightarrow> 'w \<Rightarrow> err option \<times> 'w"
  cf_exec :: "statement \<Rightarrow> 'w \<Rightarrow> err option \<times> 'w"
  cf_assert :: "assertion list \<Rightarrow> 'w \<Rightarrow> (err + check_result list) \<times> 'w"
  cf_verify :: "verify_check list \<Rightarrow> 'w \<Rightarrow> (err + check_result list) \<times> 'w"
  cf_marker :: "object_name \<Rightarrow> 'w \<Rightarrow> (err + marker \<times> marker_status) \<times> 'w"
  cf_authority :: "'w \<Rightarrow> (claims_object \<times> catalog_reader) \<times> 'w"
  cf_now :: "'w \<Rightarrow> timestamp \<times> 'w"
  cf_sleep :: "bool \<Rightarrow> duration \<Rightarrow> 'w \<Rightarrow> err option \<times> 'w"
  cf_signalled :: "'w \<Rightarrow> bool \<times> 'w"
  cf_fenced :: "'w \<Rightarrow> bool \<times> 'w"
  cf_random :: "'w \<Rightarrow> float64 \<times> 'w"
  cf_scale :: "duration \<Rightarrow> float64 \<Rightarrow> float64 \<Rightarrow> float64"
  cf_convert :: "float64 \<Rightarrow> duration"

definition DefaultLockTimeout :: duration where "DefaultLockTimeout = 5 * second"
definition DefaultBuildLockTimeout :: duration where "DefaultBuildLockTimeout = 15 * (60 * second)"
definition DefaultHeartbeatInterval :: duration where "DefaultHeartbeatInterval = 10 * second"

text \<open>
  \<open>JitteredDelay\<close> (backoff.go): \<open>scale d j r\<close> is \<open>d * (1 - j * r)\<close> as the machine rounds it, and
  the number below one is \<open>math.Nextafter(1, 0)\<close>.
\<close>

definition JitteredDelay :: "(duration \<Rightarrow> float64 \<Rightarrow> float64 \<Rightarrow> float64) \<Rightarrow> (float64 \<Rightarrow> duration) \<Rightarrow> retry_policy
    \<Rightarrow> int \<Rightarrow> float64 \<Rightarrow> duration" where
  "JitteredDelay scale convert p attempt r =
     (let d = Delay p attempt in
      if d \<le> 0 \<or> float_less (rp_jitter p) (Finite 0) \<or> rp_jitter p = Finite 0 then d
      else let r = (if float_less r (Finite 0) \<or> r = NaN then Finite 0 else r);
               r = (if \<not> float_less r (Finite 1) then Finite (1 - 1 / 2 ^ 53) else r);
               out = scale d (rp_jitter p) r
           in if float_less out (Finite 0) then 0 else convert out)"

definition zero_policy :: retry_policy where
  "zero_policy = \<lparr>rp_max_attempts = 0, rp_base_delay = 0, rp_max_delay = 0, rp_jitter = Finite 0\<rparr>"

definition with_defaults :: "'w config \<Rightarrow> 'w config" where
  "with_defaults cf = cf\<lparr>
     cf_retry := (if cf_retry cf = zero_policy then DefaultRetryPolicy else cf_retry cf),
     cf_lock_timeout := (if cf_lock_timeout cf = 0 then DefaultLockTimeout else cf_lock_timeout cf),
     cf_build_lock_timeout :=
       (if cf_build_lock_timeout cf = 0 then DefaultBuildLockTimeout else cf_build_lock_timeout cf),
     cf_heartbeat_interval :=
       (if cf_heartbeat_interval cf = 0 then DefaultHeartbeatInterval else cf_heartbeat_interval cf)\<rparr>"

text \<open>The defaults are filled in one by one between the checks, which they cannot influence.\<close>

definition New :: "'w config \<Rightarrow> err + 'w config" where
  "New cf0 = (let cf = with_defaults cf0 in
     if policy_Validate (cf_retry cf) \<noteq> None then Inl (Detailf ErrInvalidRun)
     else if cf_lock_timeout cf < 0 then Inl (Detailf ErrInvalidRun)
     else if cf_build_lock_timeout cf < 0 then Inl (Detailf ErrInvalidRun)
     else if cf_statement_timeout cf < 0 then Inl (Detailf ErrInvalidRun)
     else if \<not> cf_dry_run cf \<and> \<not> cf_has_store cf then Inl (Detailf ErrMissingPort)
     else if \<not> cf_dry_run cf \<and> \<not> cf_has_sql cf then Inl (Detailf ErrMissingPort)
     else Inr cf)"

subsection \<open>The state of one run\<close>

text \<open>\<open>attemptsThisRun\<close> is an argument of the attempt loop.\<close>

record node_status =
  ns_state :: node_state
  ns_attempts :: int

definition new_status :: node_status where
  "new_status = \<lparr>ns_state = InitialNodeState, ns_attempts = 0\<rparr>"

text \<open>
  A failed catalog read or check is an effect too: \<open>Asserted\<close>, \<open>Verified\<close> and \<open>MarkerRead\<close> say what
  was asked, for which node, and what was answered.
\<close>

datatype effect =
    Recorded executor_transition "err option"
  | Granted grant "err option"
  | Executed statement "err option"
  | Audited trail_event "err option"
  | Asserted node_id "assertion list" "err + check_result list"
  | Verified node_id "verify_check list" "err + check_result list"
  | MarkerRead node_id object_name "err + marker \<times> marker_status"
  | Slept duration "err option"
  | Logged log_event

record 'w xstate =
  x_world :: 'w
  x_trace :: "effect list"
  x_states :: "(node_id \<times> node_status) list"

type_synonym ('w, 'a) xop = "('w xstate, 'a) sop"

definition xread :: "('w \<Rightarrow> 'a \<times> 'w) \<Rightarrow> ('w, 'a) xop" where
  "xread f s = (case f (x_world s) of (r, w) \<Rightarrow> (Inr r, s\<lparr>x_world := w\<rparr>))"

definition xcall :: "('a \<Rightarrow> effect) \<Rightarrow> ('w \<Rightarrow> 'a \<times> 'w) \<Rightarrow> ('w, 'a) xop" where
  "xcall ef f s = (case f (x_world s) of (r, w) \<Rightarrow>
     (Inr r, s\<lparr>x_world := w, x_trace := x_trace s @ [ef r]\<rparr>))"

definition xlog :: "log_event \<Rightarrow> ('w, unit) xop" where
  "xlog e s = (Inr (), s\<lparr>x_trace := x_trace s @ [Logged e]\<rparr>)"

definition get_states :: "('w, (node_id \<times> node_status) list) xop" where
  "get_states s = (Inr (x_states s), s)"

definition put_states :: "(node_id \<times> node_status) list \<Rightarrow> ('w, unit) xop" where
  "put_states ss s = (Inr (), s\<lparr>x_states := ss\<rparr>)"

definition status_in :: "(node_id \<times> node_status) list \<Rightarrow> node_id \<Rightarrow> node_status" where
  "status_in ss i = (case map_of ss i of Some st \<Rightarrow> st | None \<Rightarrow> new_status)"

definition get_status :: "node_id \<Rightarrow> ('w, node_status) xop" where
  "get_status i s = (Inr (status_in (x_states s) i), s)"

definition put_status :: "node_id \<Rightarrow> node_status \<Rightarrow> ('w, unit) xop" where
  "put_status i st s = (Inr (), s\<lparr>x_states := AList.update i st (x_states s)\<rparr>)"

text \<open>An error that a port returns ends the operation.\<close>

definition or_fail :: "('w, err option) xop \<Rightarrow> ('w, unit) xop" where
  "or_fail m = sbind m (\<lambda>r. scheck r (sreturn ()))"

definition or_wrap :: "err \<Rightarrow> ('w, err option) xop \<Rightarrow> ('w, unit) xop" where
  "or_wrap sentinel m = sbind m (\<lambda>r. case r of None \<Rightarrow> sreturn () | Some e \<Rightarrow> sfail (Wrap sentinel e))"

definition lift_wrap :: "err \<Rightarrow> ('w, err + 'a) xop \<Rightarrow> ('w, 'a) xop" where
  "lift_wrap sentinel m = sbind m (\<lambda>r. case r of Inr x \<Rightarrow> sreturn x | Inl e \<Rightarrow> sfail (Wrap sentinel e))"

text \<open>A step whose error is dropped (\<open>_ = e.audit(...)\<close>).\<close>

definition ignoring :: "('w, 'a) xop \<Rightarrow> ('w, unit) xop" where
  "ignoring m = stry m (\<lambda>_. sreturn ())"

text \<open>\<open>errors.Is\<close> for the two sentinels that have no kind.\<close>

definition is_signal :: "string \<Rightarrow> err \<Rightarrow> bool" where
  "is_signal x e \<longleftrightarrow> root_cause e = Some (Signal x)"

end
