(* ===== verification/Executor.thy ===== *)
theory Executor
  imports Executor_Ports
begin

text \<open>
  engine/executor/executor.go: the loop that walks a sealed plan in its canonical order, takes each
  node through its lifecycle with a durable checkpoint at every edge, authorizes destructive nodes
  against live state before their statement, marks what it creates, and retries what may be retried.
  Every operation is state passing over the ports of \<open>Executor_Ports\<close>.
\<close>

subsection \<open>Kinds, results and errors\<close>

definition supportedKinds :: "node_kind list" where
  "supportedKinds = [KindCatalogAssert, KindIndexCreateParentInvalid, KindIndexCreateConcurrently,
     KindIndexAttach, KindIndexVerify, KindWait, KindIndexDropConcurrently,
     KindIndexReindexConcurrently, KindIndexDropPartitioned]"

definition supportedKind :: "node_kind \<Rightarrow> bool" where
  "supportedKind k \<longleftrightarrow> k \<in> set supportedKinds"

datatype stop_reason = StopCancelFlag | StopSignal | StopFenced | StopUnsafeRetry

fun stop_String :: "stop_reason \<Rightarrow> string" where
  "stop_String StopCancelFlag = ''cancel_flag''"
| "stop_String StopSignal = ''signal''"
| "stop_String StopFenced = ''fenced''"
| "stop_String StopUnsafeRetry = ''unsafe_retry''"

record result =
  res_run :: run_id
  res_total :: nat
  res_done :: nat
  res_skipped :: nat
  res_failed :: nat
  res_remaining :: nat
  res_cancelled :: bool
  res_cancel_reason :: "stop_reason option"
  res_halted_at :: node_id
  res_order :: "node_id list"

definition Complete :: "result option \<Rightarrow> bool" where
  "Complete r = (case r of None \<Rightarrow> False | Some r \<Rightarrow> res_remaining r = 0 \<and> \<not> res_cancelled r)"

text \<open>\<open>errors.As\<close> with a typed error: the first one along the chain.\<close>

fun first_typed :: "err \<Rightarrow> err option" where
  "first_typed (PErr k c w) = Some (PErr k c w)"
| "first_typed (FmtErr None) = None"
| "first_typed (FmtErr (Some e)) = first_typed e"
| "first_typed (ForeignErr f) = None"

definition nodeError :: "classification \<Rightarrow> err \<Rightarrow> err" where
  "nodeError class cause = (case first_typed cause of
     Some pe \<Rightarrow> Detailf pe
   | None \<Rightarrow> Wrap (Detailf (if cl_exit class = 0 then ErrFailure else errorForExitCode (cl_exit class))) cause)"

definition tally_one :: "result \<Rightarrow> node_status \<Rightarrow> result" where
  "tally_one r st = (case ns_state st of
     NodeDone \<Rightarrow> r\<lparr>res_done := res_done r + 1\<rparr>
   | NodeSkipped \<Rightarrow> r\<lparr>res_skipped := res_skipped r + 1\<rparr>
   | NodeFailed \<Rightarrow> r\<lparr>res_failed := res_failed r + 1, res_remaining := res_remaining r + 1\<rparr>
   | _ \<Rightarrow> r\<lparr>res_remaining := res_remaining r + 1\<rparr>)"

definition tally :: "result \<Rightarrow> (node_id \<times> node_status) list \<Rightarrow> result" where
  "tally r ss = foldl tally_one
     (r\<lparr>res_done := 0, res_skipped := 0, res_failed := 0, res_remaining := 0\<rparr>) (map snd ss)"

subsection \<open>Checkpoints and the trail\<close>

record transition_info =
  ti_duration :: duration
  ti_err :: "err option"
  ti_class :: "classification option"

definition no_info :: transition_info where
  "no_info = \<lparr>ti_duration = 0, ti_err = None, ti_class = None\<rparr>"

definition checkpoint :: "run_id \<Rightarrow> node \<Rightarrow> node_status \<Rightarrow> node_state \<Rightarrow> transition_reason \<Rightarrow> transition_info
    \<Rightarrow> timestamp \<Rightarrow> executor_transition" where
  "checkpoint i n st to reason info now = \<lparr>tr_run = i, tr_node = n_id n, tr_kind = n_kind n,
     tr_from = ns_state st, tr_to = to, tr_reason = reason, tr_attempts = ns_attempts st,
     tr_duration = ti_duration info, tr_error = ti_err info, tr_at = now\<rparr>"

definition transition_log :: "executor_transition \<Rightarrow> transition_info \<Rightarrow> log_event" where
  "transition_log t info = \<lparr>le_at = tr_at t, le_event = ''node_transition'', le_run = tr_run t,
     le_node = tr_node t, le_kind = tr_kind t, le_state = Some (tr_from t, tr_to t),
     le_attempt = tr_attempts t, le_duration = tr_duration t, le_class = ti_class info,
     le_error = ti_err info, le_message = []\<rparr>"

definition transition :: "'w config \<Rightarrow> run_id \<Rightarrow> node \<Rightarrow> node_state \<Rightarrow> transition_reason \<Rightarrow> transition_info
    \<Rightarrow> ('w, unit) xop" where
  "transition cf i n to reason info =
     sbind (get_status (n_id n)) (\<lambda>st.
     scheck (CheckTransition (ns_state st) to reason)
    (sbind (xread (cf_now cf)) (\<lambda>now.
     let t = checkpoint i n st to reason info now in
     sbind (or_wrap (Detailf ErrCheckpointFailed) (xcall (Recorded t) (cf_record_transition cf t))) (\<lambda>_.
     sbind (put_status (n_id n) (st\<lparr>ns_state := to\<rparr>)) (\<lambda>_.
     xlog (transition_log t info))))))"

definition new_trail_event :: "run_id \<Rightarrow> node_id \<Rightarrow> trail_type \<Rightarrow> (string \<times> string) list \<Rightarrow> trail_event" where
  "new_trail_event i n ty d = \<lparr>te_run = i, te_node = n, te_type = ty, te_detail = d,
     te_reason = NoReason, te_error = None, te_at = zero_time\<rparr>"

definition audit :: "'w config \<Rightarrow> trail_event \<Rightarrow> ('w, unit) xop" where
  "audit cf ev =
     sbind (if te_at ev = zero_time then sbind (xread (cf_now cf)) (\<lambda>now. sreturn (ev\<lparr>te_at := now\<rparr>))
            else sreturn ev) (\<lambda>ev.
     or_wrap (Detailf ErrCheckpointFailed) (xcall (Audited ev) (cf_append_audit cf ev)))"

definition class_String :: "error_class \<Rightarrow> string" where
  "class_String c = (case c of ClassNone \<Rightarrow> [] | ClassRetryable \<Rightarrow> ''retryable''
     | ClassTerminal \<Rightarrow> ''terminal'' | ClassCancelled \<Rightarrow> ''cancelled'')"

definition failure_detail :: "node \<Rightarrow> classification \<Rightarrow> (string \<times> string) list" where
  "failure_detail n class = [(''kind'', kind_String (n_kind n)),
     (''retry_class'', class_String (cl_class class)), (''sqlstate'', cl_sqlstate class)]"

definition auditNodeFailed :: "'w config \<Rightarrow> run_id \<Rightarrow> node \<Rightarrow> classification \<Rightarrow> err \<Rightarrow> ('w, unit) xop" where
  "auditNodeFailed cf i n class cause = ignoring (audit cf
     ((new_trail_event i (n_id n) AuditNodeFailed (failure_detail n class))\<lparr>te_error := Some cause\<rparr>))"

definition auditRetryDeferred :: "'w config \<Rightarrow> run_id \<Rightarrow> node \<Rightarrow> classification \<Rightarrow> err \<Rightarrow> ('w, unit) xop" where
  "auditRetryDeferred cf i n class cause = ignoring (audit cf
     ((new_trail_event i (n_id n) AuditNodeFailed
        (failure_detail n class @ [(''deferred_to'', ''resume'')]))\<lparr>te_error := Some cause\<rparr>))"

subsection \<open>Authorization\<close>

definition denied :: "run_id \<Rightarrow> node \<Rightarrow> authorization_decision \<Rightarrow> trail_event" where
  "denied i n d = (new_trail_event i (n_id n) AuditAuthorizationDenied
     [(''kind'', kind_String (n_kind n)), (''mode'', mode_String (ad_mode d)),
      (''object'', obj_String (ad_object d))])\<lparr>te_reason := ad_reason d\<rparr>"

definition authorizeNode :: "'w config \<Rightarrow> run_id \<Rightarrow> plan \<Rightarrow> node \<Rightarrow> ('w, authorization_decision) xop" where
  "authorizeNode cf i p n =
     sbind (xread (cf_authority cf)) (\<lambda>(claims, cat).
     case Authorize (Some claims) (if cf_has_catalog cf then Some cat else None) (Some p) n of
       Inl e \<Rightarrow> sfail (Wrap (Detailf ErrCheckpointFailed) e)
     | Inr d \<Rightarrow>
         if \<not> ad_satisfied d then
           sbind (ignoring (audit cf (denied i n d))) (\<lambda>_. sfail (Detailf ErrAuthorizationUnsatisfied))
         else if ad_adopt d \<and> \<not> cf_allow_adoption cf then
           sbind (ignoring (audit cf (denied i n d))) (\<lambda>_. sfail (Detailf ErrAuthorizationUnsatisfied))
         else sbind (xread (cf_now cf)) (\<lambda>now.
           let g = \<lparr>gr_run = i, gr_node = n_id n, gr_object = ad_object d, gr_mode = ad_mode d,
                    gr_evidence = ad_evidence d, gr_granted_at = now\<rparr> in
           sbind (or_wrap (Detailf ErrCheckpointFailed) (xcall (Granted g) (cf_record_authorization cf g))) (\<lambda>_.
           sbind (audit cf (new_trail_event i (n_id n) AuditAuthorizationGranted
             (last_wins ((''kind'', kind_String (n_kind n)) # ad_evidence d)))) (\<lambda>_.
           sreturn d))))"

subsection \<open>Statements\<close>

definition settingsFor :: "'w config \<Rightarrow> node_kind \<Rightarrow> session_settings" where
  "settingsFor cf k = \<lparr>
     ss_lock_timeout = (if WaitsForConcurrentTransactions k then cf_build_lock_timeout cf else cf_lock_timeout cf),
     ss_statement_timeout = (if AllowsStatementTimeout k then cf_statement_timeout cf else 0)\<rparr>"

definition primary_statement :: "'w config \<Rightarrow> run_id \<Rightarrow> node \<Rightarrow> string \<Rightarrow> statement" where
  "primary_statement cf i n sql = \<lparr>sm_run = i, sm_node = n_id n, sm_kind = n_kind n, sm_sql = sql,
     sm_settings = settingsFor cf (n_kind n), sm_outside_transaction = MustRunOutsideTransaction (n_kind n)\<rparr>"

definition marker_statement :: "'w config \<Rightarrow> run_id \<Rightarrow> node \<Rightarrow> string \<Rightarrow> statement" where
  "marker_statement cf i n sql = \<lparr>sm_run = i, sm_node = n_id n, sm_kind = n_kind n, sm_sql = sql,
     sm_settings = \<lparr>ss_lock_timeout = cf_lock_timeout cf, ss_statement_timeout = cf_statement_timeout cf\<rparr>,
     sm_outside_transaction = False\<rparr>"

definition send :: "'w config \<Rightarrow> statement \<Rightarrow> ('w, unit) xop" where
  "send cf stmt = or_fail (xcall (Executed stmt) (cf_exec cf stmt))"

definition execMarker :: "'w config \<Rightarrow> run_id \<Rightarrow> node \<Rightarrow> string \<Rightarrow> ('w, unit) xop" where
  "execMarker cf i n sql = send cf (marker_statement cf i n sql)"

definition markerBase :: "'w config \<Rightarrow> run_id \<Rightarrow> plan option \<Rightarrow> ('w, marker) xop" where
  "markerBase cf i p = sbind (xread (cf_now cf)) (\<lambda>now.
     let m = zero_marker\<lparr>m_run := i, m_at := MarkerTime now\<rparr> in
     sreturn (case p of None \<Rightarrow> m
       | Some p \<Rightarrow> m\<lparr>m_plan := p_digest p, m_op := operation_String (p_operation p)\<rparr>))"

definition markObject :: "'w config \<Rightarrow> run_id \<Rightarrow> plan \<Rightarrow> node \<Rightarrow> ('w, unit) xop" where
  "markObject cf i p n = (case MarkerTargetFor (Some n) of
     Inl e \<Rightarrow> sfail e
   | Inr None \<Rightarrow> sreturn ()
   | Inr (Some t) \<Rightarrow>
       if \<not> cf_has_catalog cf then sfail (Detailf ErrMissingPort)
       else sbind (xcall (MarkerRead (n_id n) (mt_index t)) (cf_marker cf (mt_index t))) (\<lambda>r.
         case r of Inl e \<Rightarrow> sfail e
         | Inr (prior, status) \<Rightarrow> sbind (markerBase cf i (Some p)) (\<lambda>base.
             case RenderMarkerStatement (Some n) base prior status of
               Inl e \<Rightarrow> sfail e
             | Inr None \<Rightarrow> sreturn ()
             | Inr (Some sql) \<Rightarrow> execMarker cf i n sql)))"

definition adoptObject :: "'w config \<Rightarrow> run_id \<Rightarrow> plan \<Rightarrow> node \<Rightarrow> object_name \<Rightarrow> ('w, unit) xop" where
  "adoptObject cf i p n object = sbind (markerBase cf i (Some p)) (\<lambda>m.
     case FormatMarker (m\<lparr>m_role := MarkerRoleLeaf\<rparr>) of
       Inl e \<Rightarrow> sfail e
     | Inr t \<Rightarrow> execMarker cf i n (RenderComment object t))"

definition execDDL :: "'w config \<Rightarrow> run_id \<Rightarrow> plan \<Rightarrow> node \<Rightarrow> authorization_decision \<Rightarrow> ('w, unit) xop" where
  "execDDL cf i p n d = (case Render (Some n) of
     Inl e \<Rightarrow> sfail e
   | Inr sql \<Rightarrow>
       if sql = [] then sfail (Detailf ErrInvalidPlan)
       else sbind (if ad_adopt d then adoptObject cf i p n (ad_object d) else sreturn ()) (\<lambda>_.
         sbind (send cf (primary_statement cf i n sql)) (\<lambda>_. markObject cf i p n)))"

subsection \<open>Assertions and verification\<close>

text \<open>The first result that did not pass decides; a list of another length is an error.\<close>

fun first_failed :: "(exit_code \<Rightarrow> 'a \<Rightarrow> exit_code) \<Rightarrow> check_result list \<Rightarrow> 'a list \<Rightarrow> err option" where
  "first_failed code (r # rs) (a # as) =
     (if cr_passed r then first_failed code rs as
      else Some (Detailf (errorForExitCode (code (cr_failure_code r) a))))"
| "first_failed code rs as = None"

definition judge :: "(exit_code \<Rightarrow> 'a \<Rightarrow> exit_code) \<Rightarrow> 'a list \<Rightarrow> err + check_result list \<Rightarrow> err option" where
  "judge code as r = (case r of Inl e \<Rightarrow> Some e
     | Inr rs \<Rightarrow> if length rs \<noteq> length as then Some (Detailf ErrVerificationFailed)
         else first_failed code rs as)"

definition assertion_code :: "exit_code \<Rightarrow> assertion \<Rightarrow> exit_code" where
  "assertion_code c a = (if c = 0 then asrt_failure_code a else c)"

definition runAssertions :: "'w config \<Rightarrow> node \<Rightarrow> ('w, unit) xop" where
  "runAssertions cf n = (case n_params n of
     Some (CatalogAssertParams as) \<Rightarrow>
       sbind (xcall (Asserted (n_id n) as) (cf_assert cf as)) (\<lambda>r. scheck (judge assertion_code as r) (sreturn ()))
   | _ \<Rightarrow> sfail (Detailf ErrInvalidPlan))"

definition verify :: "'w config \<Rightarrow> node \<Rightarrow> ('w, unit) xop" where
  "verify cf n =
     (if n_kind n \<noteq> KindIndexVerify then sreturn ()
      else case n_params n of
        Some (VerifyParams cs) \<Rightarrow>
          sbind (xcall (Verified (n_id n) cs) (cf_verify cf cs)) (\<lambda>r. scheck (judge (\<lambda>c _. c) cs r) (sreturn ()))
      | _ \<Rightarrow> sfail (Detailf ErrInvalidPlan))"

definition dispatch :: "'w config \<Rightarrow> run_id \<Rightarrow> plan \<Rightarrow> node \<Rightarrow> authorization_decision \<Rightarrow> ('w, unit) xop" where
  "dispatch cf i p n d = (case n_kind n of
     KindCatalogAssert \<Rightarrow> runAssertions cf n
   | KindIndexCreateParentInvalid \<Rightarrow> execDDL cf i p n d
   | KindIndexCreateConcurrently \<Rightarrow> execDDL cf i p n d
   | KindIndexAttach \<Rightarrow> execDDL cf i p n d
   | KindIndexDropConcurrently \<Rightarrow> execDDL cf i p n d
   | KindIndexReindexConcurrently \<Rightarrow> execDDL cf i p n d
   | KindIndexDropPartitioned \<Rightarrow> execDDL cf i p n d
   | KindWait \<Rightarrow> (case n_params n of
       Some (WaitParams w) \<Rightarrow> or_fail (xcall (Slept (wrap_int64 (wait_seconds w * second)))
         (cf_sleep cf False (wrap_int64 (wait_seconds w * second))))
     | _ \<Rightarrow> sfail (Detailf ErrInvalidPlan))
   | KindIndexVerify \<Rightarrow> sreturn ()
   | UnknownKind _ \<Rightarrow> sfail (Detailf ErrUnknownNodeKind))"

subsection \<open>One node\<close>

definition failed_with :: "'w config \<Rightarrow> run_id \<Rightarrow> node \<Rightarrow> transition_info \<Rightarrow> classification \<Rightarrow> err \<Rightarrow> ('w, unit) xop" where
  "failed_with cf i n info class cause =
     sbind (transition cf i n NodeFailed ReasonNormal info) (\<lambda>_.
     sbind (auditNodeFailed cf i n class cause) (\<lambda>_. sfail (nodeError class cause)))"

definition verifyPhase :: "'w config \<Rightarrow> run_id \<Rightarrow> node \<Rightarrow> ('w, unit) xop" where
  "verifyPhase cf i n = stry (verify cf n) (\<lambda>r. case r of
     Inl e \<Rightarrow> let class = Classify (cf_classifier cf) (Some e) in
       failed_with cf i n (no_info\<lparr>ti_err := Some e, ti_class := Some class\<rparr>) class e
   | Inr _ \<Rightarrow> transition cf i n NodeDone ReasonNormal no_info)"

definition count_attempt :: "node_id \<Rightarrow> ('w, unit) xop" where
  "count_attempt j = sbind (get_status j) (\<lambda>st. put_status j (st\<lparr>ns_attempts := ns_attempts st + 1\<rparr>))"

text \<open>Up to the return of the statement: what it returned, and how long it took.\<close>

definition launch :: "'w config \<Rightarrow> run_id \<Rightarrow> plan \<Rightarrow> node \<Rightarrow> ('w, (err + unit) \<times> duration) xop" where
  "launch cf i p n =
     sbind (count_attempt (n_id n)) (\<lambda>_.
     sbind (if IsDestructive (n_kind n) then authorizeNode cf i p n
            else sreturn (zero_decision zero_object)) (\<lambda>d.
     sbind (transition cf i n NodeRunning ReasonNormal no_info) (\<lambda>_.
     sbind (xread (cf_now cf)) (\<lambda>start.
     stry (dispatch cf i p n d) (\<lambda>r.
     sbind (xread (cf_now cf)) (\<lambda>fin. sreturn (r, fin - start)))))))"

text \<open>The loop, after \<open>k\<close> attempts of this run.\<close>

function attempts :: "'w config \<Rightarrow> run_id \<Rightarrow> plan \<Rightarrow> node \<Rightarrow> int \<Rightarrow> ('w, unit) xop" where
  "attempts cf i p n k =
     sbind (launch cf i p n) (\<lambda>(r, elapsed). case r of
       Inr _ \<Rightarrow> sbind (transition cf i n NodeVerifying ReasonNormal (no_info\<lparr>ti_duration := elapsed\<rparr>))
         (\<lambda>_. verifyPhase cf i n)
     | Inl e \<Rightarrow>
         let class = Classify (cf_classifier cf) (Some e);
             info = \<lparr>ti_duration = elapsed, ti_err = Some e, ti_class = Some class\<rparr> in
         if \<not> cl_Retryable class \<or> \<not> Retryable (n_kind n) then failed_with cf i n info class e
         else sbind (transition cf i n NodeRetryWait ReasonNormal info) (\<lambda>_.
           if \<not> RetrySafe (n_kind n) then
             sbind (auditRetryDeferred cf i n class e) (\<lambda>_. sfail errUnsafeRetry)
           else if k + 1 \<ge> rp_max_attempts (cf_retry cf) then failed_with cf i n info class e
           else sbind (xread (cf_random cf)) (\<lambda>random.
             let delay = JitteredDelay (cf_scale cf) (cf_convert cf) (cf_retry cf) (k + 2) random in
             sbind (xcall (Slept delay) (cf_sleep cf True delay)) (\<lambda>r.
             if r \<noteq> None then sfail errStopped
             else sbind (transition cf i n NodeReady ReasonNormal no_info) (\<lambda>_.
               attempts cf i p n (k + 1))))))"
  by pat_completeness auto
termination
  by (relation "measure (\<lambda>(cf, i, p, n, k). nat (rp_max_attempts (cf_retry cf) - k))") auto

declare attempts.simps [simp del]

definition dependency_missing :: "(node_id \<times> node_status) list \<Rightarrow> node_id \<Rightarrow> err option" where
  "dependency_missing ss d = (case map_of ss d of
     Some st \<Rightarrow> if IsComplete (ns_state st) then None else Some (Detailf ErrDependencyNotComplete)
   | None \<Rightarrow> Some (Detailf ErrDependencyNotComplete))"

definition runNode :: "'w config \<Rightarrow> run_id \<Rightarrow> plan \<Rightarrow> node \<Rightarrow> ('w, unit) xop" where
  "runNode cf i p n =
     sbind (get_status (n_id n)) (\<lambda>st.
     if ns_state st = NodeFailed then sfail (Detailf ErrNodePreviouslyFailed)
     else sbind get_states (\<lambda>ss.
     scheck (each_check (dependency_missing ss) (n_depends_on n))
    (case ns_state st of
       NodePending \<Rightarrow> sbind (transition cf i n NodeReady ReasonNormal no_info) (\<lambda>_. attempts cf i p n 0)
     | NodeRetryWait \<Rightarrow> sbind (transition cf i n NodeReady ReasonNormal no_info) (\<lambda>_. attempts cf i p n 0)
     | NodeReady \<Rightarrow> attempts cf i p n 0
     | NodeVerifying \<Rightarrow> verifyPhase cf i n
     | _ \<Rightarrow> sfail (Detailf ErrInvalidRun))))"

subsection \<open>The run\<close>

definition needs_catalog :: "node_kind \<Rightarrow> bool" where
  "needs_catalog k \<longleftrightarrow> k = KindCatalogAssert \<or> k = KindIndexVerify \<or> IsDestructive k \<or> ClaimsOwnership k"

definition preflight_node :: "node \<Rightarrow> err option" where
  "preflight_node n =
     (if \<not> supportedKind (n_kind n) then Some (Detailf ErrUnsupportedNodeKind)
      else if IssuesDDL (n_kind n) then (case Render (Some n) of
          Inl e \<Rightarrow> Some e
        | Inr sql \<Rightarrow> if sql = [] then Some (Detailf ErrInvalidPlan) else None)
      else None)"

definition preflight :: "'w config \<Rightarrow> plan \<Rightarrow> err option" where
  "preflight cf p = then_check (each_check preflight_node (p_nodes p))
     (if (\<exists>n \<in> set (p_nodes p). needs_catalog (n_kind n)) \<and> \<not> cf_dry_run cf \<and> \<not> cf_has_catalog cf
      then Some (Detailf ErrMissingPort) else None)"

fun dryRun :: "'w config \<Rightarrow> run_id \<Rightarrow> plan \<Rightarrow> int \<Rightarrow> node_id list \<Rightarrow> ('w, unit) xop" where
  "dryRun cf i p k [] = sreturn ()"
| "dryRun cf i p k (j # js) = (case NodeByID p j of
     None \<Rightarrow> sfail (Detailf ErrInvalidPlan)
   | Some n \<Rightarrow> (case Render (Some n) of
       Inl e \<Rightarrow> sfail e
     | Inr sql \<Rightarrow> sbind (xread (cf_now cf)) (\<lambda>now.
         sbind (xlog \<lparr>le_at = now, le_event = ''dry_run_dispatch'', le_run = i, le_node = n_id n,
           le_kind = n_kind n, le_state = None, le_attempt = k + 1, le_duration = 0, le_class = None,
           le_error = None, le_message = sql\<rparr>) (\<lambda>_. dryRun cf i p (k + 1) js))))"

fun load_status :: "(node_id \<rightharpoonup> stored_node) \<Rightarrow> node_id \<Rightarrow> err + node_status" where
  "load_status recs j = (case recs j of
     None \<Rightarrow> Inr new_status
   | Some r \<Rightarrow> if \<not> state_Valid (sn_state r) then Inl (Detailf ErrInvalidRun)
       else Inr \<lparr>ns_state = sn_state r, ns_attempts = sn_attempts r\<rparr>)"

definition loadStates :: "'w config \<Rightarrow> run_id \<Rightarrow> node_id list \<Rightarrow> ('w, unit) xop" where
  "loadStates cf i order =
     sbind (lift_wrap (Detailf ErrCheckpointFailed) (xread (cf_node_states cf i))) (\<lambda>recs.
     case rmap (load_status recs) order of
       Inl e \<Rightarrow> sfail e
     | Inr sts \<Rightarrow> put_states (fold (\<lambda>(j, st). AList.update j st) (zip order sts) []))"

fun recoverOrphans :: "'w config \<Rightarrow> run_id \<Rightarrow> plan \<Rightarrow> node_id list \<Rightarrow> ('w, unit) xop" where
  "recoverOrphans cf i p [] = sreturn ()"
| "recoverOrphans cf i p (j # js) = sbind (get_status j) (\<lambda>st.
     if ns_state st \<noteq> NodeRunning then recoverOrphans cf i p js
     else case NodeByID p j of
       None \<Rightarrow> sfail (Detailf ErrInvalidPlan)
     | Some n \<Rightarrow>
         sbind (transition cf i n NodePending ReasonOrphanRecovery no_info) (\<lambda>_.
         sbind (audit cf (new_trail_event i j AuditOrphanRecovered [(''kind'', kind_String (n_kind n))])) (\<lambda>_.
         recoverOrphans cf i p js)))"

definition stopRequested :: "'w config \<Rightarrow> run_id \<Rightarrow> ('w, stop_reason option) xop" where
  "stopRequested cf i =
     sbind (xread (cf_signalled cf)) (\<lambda>signalled.
     if signalled then sreturn (Some StopSignal)
     else sbind (xread (cf_fenced cf)) (\<lambda>fenced.
       if fenced then sreturn (Some StopFenced)
       else sbind (lift_wrap (Detailf ErrCheckpointFailed) (xread (cf_cancel_requested cf i))) (\<lambda>requested.
         sreturn (if requested then Some StopCancelFlag else None))))"

definition finish :: "'w config \<Rightarrow> result \<Rightarrow> err option \<Rightarrow> ('w, result \<times> err option) xop" where
  "finish cf res cause =
     sbind get_states (\<lambda>ss.
     let res = tally res ss;
         ev = new_trail_event (res_run res) [] AuditRunFinished
           [(''done'', pad_dec 1 (res_done res)), (''skipped'', pad_dec 1 (res_skipped res)),
            (''failed'', pad_dec 1 (res_failed res)), (''remaining'', pad_dec 1 (res_remaining res))];
         ev = (case cause of None \<Rightarrow> ev
           | Some e \<Rightarrow> ev\<lparr>te_type := AuditRunFailed, te_node := res_halted_at res, te_error := Some e\<rparr>) in
     sbind (ignoring (audit cf ev)) (\<lambda>_. sreturn (res, cause)))"

definition stop :: "'w config \<Rightarrow> result \<Rightarrow> stop_reason \<Rightarrow> ('w, result \<times> err option) xop" where
  "stop cf res reason =
     sbind get_states (\<lambda>ss.
     let res = tally (res\<lparr>res_cancelled := True, res_cancel_reason := Some reason\<rparr>) ss in
     sbind (ignoring (audit cf (new_trail_event (res_run res) [] AuditRunCancelled
       [(''reason'', stop_String reason), (''remaining'', pad_dec 1 (res_remaining res))]))) (\<lambda>_.
     sreturn (res, None)))"

text \<open>How the failure of a node ends the run, and the loop over the order.\<close>

definition settle :: "'w config \<Rightarrow> result \<Rightarrow> node_id \<Rightarrow> err \<Rightarrow> ('w, result \<times> err option) xop" where
  "settle cf res j e =
     (if is_signal ''stopped'' e then stop cf res StopSignal
      else if is_signal ''unsafe_retry'' e then stop cf res StopUnsafeRetry
      else finish cf (res\<lparr>res_halted_at := j\<rparr>) (Some e))"

fun walk :: "'w config \<Rightarrow> run_id \<Rightarrow> plan \<Rightarrow> result \<Rightarrow> node_id list \<Rightarrow> ('w, result \<times> err option) xop" where
  "walk cf i p res [] = finish cf res None"
| "walk cf i p res (j # js) = sbind (get_status j) (\<lambda>st.
     if IsComplete (ns_state st) then walk cf i p res js
     else stry (stopRequested cf i) (\<lambda>r. case r of
       Inl e \<Rightarrow> finish cf res (Some e)
     | Inr (Some reason) \<Rightarrow> stop cf res reason
     | Inr None \<Rightarrow> (case NodeByID p j of
         None \<Rightarrow> finish cf res (Some (Detailf ErrInvalidPlan))
       | Some n \<Rightarrow> stry (runNode cf i p n) (\<lambda>r. case r of
           Inr _ \<Rightarrow> walk cf i p res js
         | Inl e \<Rightarrow> settle cf res j e))))"

text \<open>The checks before anything is touched.\<close>

definition admit :: "'w config \<Rightarrow> run_id \<Rightarrow> plan option \<Rightarrow> err + plan \<times> node_id list" where
  "admit cf i x =
     (if i = [] then Inl (Detailf ErrInvalidRun)
      else case x of None \<Rightarrow> Inl (Detailf ErrInvalidPlan)
      | Some p \<Rightarrow> rcheck (VerifyDigest p) (rcheck (plan_Validate p)
          (rbind (TopologicalOrder p) (\<lambda>order. rcheck (preflight cf p) (Inr (p, order))))))"

definition new_result :: "run_id \<Rightarrow> node_id list \<Rightarrow> result" where
  "new_result i order = \<lparr>res_run = i, res_total = length order, res_done = 0, res_skipped = 0,
     res_failed = 0, res_remaining = 0, res_cancelled = False, res_cancel_reason = None,
     res_halted_at = [], res_order = order\<rparr>"

definition execute_plan :: "'w config \<Rightarrow> run_id \<Rightarrow> plan \<Rightarrow> node_id list \<Rightarrow> ('w, result \<times> err option) xop" where
  "execute_plan cf i p order =
     (let res = new_result i order in
      stry (loadStates cf i order) (\<lambda>r. case r of Inl e \<Rightarrow> sreturn (res, Some e)
      | Inr _ \<Rightarrow> stry (audit cf (new_trail_event i [] AuditRunStarted [(''plan_id'', p_plan_id p),
            (''digest'', p_digest p), (''nodes'', pad_dec 1 (length order))])) (\<lambda>r. case r of
          Inl e \<Rightarrow> sreturn (res, Some e)
        | Inr _ \<Rightarrow> stry (recoverOrphans cf i p order) (\<lambda>r. case r of
            Inl e \<Rightarrow> finish cf res (Some e)
          | Inr _ \<Rightarrow> walk cf i p res order))))"

definition Run :: "'w config \<Rightarrow> run_id \<Rightarrow> plan option \<Rightarrow> ('w, result option \<times> err option) xop" where
  "Run cf i x = (case admit cf i x of
     Inl e \<Rightarrow> sreturn (None, Some e)
   | Inr (p, order) \<Rightarrow>
       if cf_dry_run cf then stry (dryRun cf i p 0 order) (\<lambda>r.
         sreturn (Some (new_result i order), case r of Inl e \<Rightarrow> Some e | Inr _ \<Rightarrow> None))
       else sbind (execute_plan cf i p order) (\<lambda>(res, e). sreturn (Some res, e)))"

text \<open>
  The heartbeat: the outcomes of its ticks, in order.  It returns, and never ticks again, at the
  first tick that reports the loss of the lease or the lock.
\<close>

fun heartbeat_fences :: "err option list \<Rightarrow> bool" where
  "heartbeat_fences [] = False"
| "heartbeat_fences (None # ts) = heartbeat_fences ts"
| "heartbeat_fences (Some e # ts) = (if err_is e KindLockHeld then True else heartbeat_fences ts)"

end
