(* ===== verification/Executor_Protocol.thy ===== *)
theory Executor_Protocol
  imports Executor Store_Steps
begin

text \<open>
  The abstract specification of the executor: which effect may come next.  A dispatcher knows the
  recorded state of every node and what the current attempt of each has behind it; the protocol says
  what each effect requires.  Nothing in it mentions the loop of \<open>Executor\<close>, which is shown to
  follow it, whatever the ports answer.
\<close>

subsection \<open>The protocol\<close>

record dispatcher =
  dp_state :: "node_id \<Rightarrow> node_state"
  dp_granted :: "node_id \<Rightarrow> bool"
  dp_worked :: "node_id \<Rightarrow> bool"
  dp_checked :: "node_id \<Rightarrow> bool"
  dp_tries :: "node_id \<Rightarrow> int"
  dp_halted :: bool

definition start_dispatcher :: "(node_id \<Rightarrow> node_state) \<Rightarrow> dispatcher" where
  "start_dispatcher st = \<lparr>dp_state = st, dp_granted = (\<lambda>_. False), dp_worked = (\<lambda>_. False),
     dp_checked = (\<lambda>_. False), dp_tries = (\<lambda>_. 0), dp_halted = False\<rparr>"

text \<open>The statement of a node is its rendering; any other statement sent for it is a comment.\<close>

definition is_primary :: "plan \<Rightarrow> statement \<Rightarrow> bool" where
  "is_primary p sm = (case NodeByID p (sm_node sm) of None \<Rightarrow> False
     | Some n \<Rightarrow> Render (Some n) = Inr (sm_sql sm))"

definition halts_run :: "trail_type \<Rightarrow> bool" where
  "halts_run ty \<longleftrightarrow> ty = AuditRunStarted \<or> ty = AuditOrphanRecovered \<or> ty = AuditAuthorizationGranted"

text \<open>What an effect changes.  A checkpoint or an event that was not recorded halts the run.\<close>

definition moved :: "node_id \<Rightarrow> node_state \<Rightarrow> dispatcher \<Rightarrow> dispatcher" where
  "moved j to \<sigma> = \<sigma>\<lparr>
     dp_state := (dp_state \<sigma>)(j := to),
     dp_granted := (dp_granted \<sigma>)(j := to = NodeRunning \<and> dp_granted \<sigma> j),
     dp_worked := (dp_worked \<sigma>)(j := to \<noteq> NodeRunning \<and> dp_worked \<sigma> j),
     dp_checked := (dp_checked \<sigma>)(j := to \<noteq> NodeVerifying \<and> dp_checked \<sigma> j)\<rparr>"

definition tried :: "node_id \<Rightarrow> node_state \<Rightarrow> dispatcher \<Rightarrow> dispatcher" where
  "tried j to \<sigma> = (if to = NodeRunning then \<sigma>\<lparr>dp_tries := (dp_tries \<sigma>)(j := dp_tries \<sigma> j + 1)\<rparr> else \<sigma>)"

fun dp_update :: "plan \<Rightarrow> dispatcher \<Rightarrow> effect \<Rightarrow> dispatcher" where
  "dp_update p \<sigma> (Recorded t None) = moved (tr_node t) (tr_to t) (tried (tr_node t) (tr_to t) \<sigma>)"
| "dp_update p \<sigma> (Recorded t (Some e)) = (tried (tr_node t) (tr_to t) \<sigma>)\<lparr>dp_halted := True\<rparr>"
| "dp_update p \<sigma> (Granted g None) = \<sigma>\<lparr>dp_granted := (dp_granted \<sigma>)(gr_node g := True)\<rparr>"
| "dp_update p \<sigma> (Granted g (Some e)) = \<sigma>\<lparr>dp_halted := True\<rparr>"
| "dp_update p \<sigma> (Executed sm r) =
     (if r = None \<and> is_primary p sm then \<sigma>\<lparr>dp_worked := (dp_worked \<sigma>)(sm_node sm := True)\<rparr> else \<sigma>)"
| "dp_update p \<sigma> (Asserted j as r) =
     (if judge assertion_code as r = None then \<sigma>\<lparr>dp_worked := (dp_worked \<sigma>)(j := True)\<rparr> else \<sigma>)"
| "dp_update p \<sigma> (Verified j cs r) =
     (if judge (\<lambda>c _. c) cs r = None then \<sigma>\<lparr>dp_checked := (dp_checked \<sigma>)(j := True)\<rparr> else \<sigma>)"
| "dp_update p \<sigma> (Audited ev r) =
     (if r \<noteq> None \<and> halts_run (te_type ev) then \<sigma>\<lparr>dp_halted := True\<rparr> else \<sigma>)"
| "dp_update p \<sigma> x = \<sigma>"

text \<open>
  What a state requires of the node that enters it: a dispatch follows its dependencies and, for a
  destructive node, a recorded authorization of this very attempt; verification follows the work;
  completion follows the checks; and a run tries a node at most as often as its policy allows.
\<close>

definition may_enter :: "'w config \<Rightarrow> dispatcher \<Rightarrow> node \<Rightarrow> node_state \<Rightarrow> bool" where
  "may_enter cf \<sigma> n to = (case to of
     NodeRunning \<Rightarrow> (\<forall>d \<in> set (n_depends_on n). IsComplete (dp_state \<sigma> d)) \<and>
       (IsDestructive (n_kind n) \<longrightarrow> dp_granted \<sigma> (n_id n)) \<and>
       dp_tries \<sigma> (n_id n) < max 1 (rp_max_attempts (cf_retry cf))
   | NodeVerifying \<Rightarrow> IssuesDDL (n_kind n) \<or> n_kind n = KindCatalogAssert \<longrightarrow> dp_worked \<sigma> (n_id n)
   | NodeDone \<Rightarrow> n_kind n = KindIndexVerify \<longrightarrow> dp_checked \<sigma> (n_id n)
   | _ \<Rightarrow> True)"

text \<open>A recorded authorization is a satisfied evaluation of the node, for the object it destroys.\<close>

definition granted_for :: "'w config \<Rightarrow> run_id \<Rightarrow> plan \<Rightarrow> node \<Rightarrow> grant \<Rightarrow> bool" where
  "granted_for cf i p n g \<longleftrightarrow> gr_run g = i \<and> gr_node g = n_id n \<and> destructiveObject n = Inr (gr_object g) \<and>
     (\<exists>claims cat d. Authorize (Some claims) cat (Some p) n = Inr d \<and> ad_satisfied d \<and>
        (ad_adopt d \<longrightarrow> cf_allow_adoption cf) \<and> ad_object d = gr_object g \<and> ad_mode d = gr_mode g \<and>
        ad_evidence d = gr_evidence g)"

definition statement_for :: "'w config \<Rightarrow> run_id \<Rightarrow> node \<Rightarrow> statement \<Rightarrow> bool" where
  "statement_for cf i n sm \<longleftrightarrow>
     (\<exists>sql. Render (Some n) = Inr sql \<and> sql \<noteq> [] \<and> sm = primary_statement cf i n sql) \<or>
     (\<exists>object m t. FormatMarker m = Inr t \<and> sm = marker_statement cf i n (RenderComment object t))"

inductive dispatch_step :: "'w config \<Rightarrow> run_id \<Rightarrow> plan \<Rightarrow> dispatcher \<Rightarrow> effect \<Rightarrow> bool"
  for cf :: "'w config" and i p where
  recorded: "\<not> dp_halted \<sigma> \<Longrightarrow> NodeByID p (n_id n) = Some n \<Longrightarrow> tr_run t = i \<Longrightarrow> tr_node t = n_id n \<Longrightarrow>
    tr_from t = dp_state \<sigma> (n_id n) \<Longrightarrow> ValidTransition (tr_from t) (tr_to t) (tr_reason t) \<Longrightarrow>
    may_enter cf \<sigma> n (tr_to t) \<Longrightarrow> dispatch_step cf i p \<sigma> (Recorded t r)"
| granted: "\<not> dp_halted \<sigma> \<Longrightarrow> NodeByID p (n_id n) = Some n \<Longrightarrow> IsDestructive (n_kind n) \<Longrightarrow>
    dp_state \<sigma> (n_id n) = NodeReady \<Longrightarrow> granted_for cf i p n g \<Longrightarrow> dispatch_step cf i p \<sigma> (Granted g r)"
| executed: "\<not> dp_halted \<sigma> \<Longrightarrow> NodeByID p (n_id n) = Some n \<Longrightarrow> IssuesDDL (n_kind n) \<Longrightarrow>
    dp_state \<sigma> (n_id n) = NodeRunning \<Longrightarrow> (IsDestructive (n_kind n) \<longrightarrow> dp_granted \<sigma> (n_id n)) \<Longrightarrow>
    (\<forall>d \<in> set (n_depends_on n). IsComplete (dp_state \<sigma> d)) \<Longrightarrow>
    statement_for cf i n sm \<Longrightarrow> dispatch_step cf i p \<sigma> (Executed sm r)"
| asserted: "\<not> dp_halted \<sigma> \<Longrightarrow> NodeByID p (n_id n) = Some n \<Longrightarrow> dp_state \<sigma> (n_id n) = NodeRunning \<Longrightarrow>
    n_params n = Some (CatalogAssertParams as) \<Longrightarrow> dispatch_step cf i p \<sigma> (Asserted (n_id n) as r)"
| verified: "\<not> dp_halted \<sigma> \<Longrightarrow> NodeByID p (n_id n) = Some n \<Longrightarrow> dp_state \<sigma> (n_id n) = NodeVerifying \<Longrightarrow>
    n_params n = Some (VerifyParams cs) \<Longrightarrow> dispatch_step cf i p \<sigma> (Verified (n_id n) cs r)"
| marker_read: "\<not> dp_halted \<sigma> \<Longrightarrow> dp_state \<sigma> j = NodeRunning \<Longrightarrow> dispatch_step cf i p \<sigma> (MarkerRead j x r)"
| slept: "\<not> dp_halted \<sigma> \<Longrightarrow> dispatch_step cf i p \<sigma> (Slept d r)"
| logged: "\<not> dp_halted \<sigma> \<Longrightarrow> dispatch_step cf i p \<sigma> (Logged e)"
| audited: "te_run ev = i \<Longrightarrow> \<not> (dp_halted \<sigma> \<and> halts_run (te_type ev)) \<Longrightarrow> dispatch_step cf i p \<sigma> (Audited ev r)"

inductive_cases recordedE: "dispatch_step cf i p \<sigma> (Recorded t r)"
inductive_cases grantedE: "dispatch_step cf i p \<sigma> (Granted g r)"
inductive_cases executedE: "dispatch_step cf i p \<sigma> (Executed sm r)"

definition dp_after :: "plan \<Rightarrow> dispatcher \<Rightarrow> effect list \<Rightarrow> dispatcher" where
  "dp_after p \<sigma> xs = foldl (dp_update p) \<sigma> xs"

lemma dp_after_simps [simp]:
  "dp_after p \<sigma> [] = \<sigma>" "dp_after p \<sigma> (x # xs) = dp_after p (dp_update p \<sigma> x) xs"
  "dp_after p \<sigma> (xs @ ys) = dp_after p (dp_after p \<sigma> xs) ys"
  by (simp_all add: dp_after_def)

inductive follows :: "'w config \<Rightarrow> run_id \<Rightarrow> plan \<Rightarrow> dispatcher \<Rightarrow> effect list \<Rightarrow> bool"
  for cf :: "'w config" and i p \<sigma> where
  nothing [simp]: "follows cf i p \<sigma> []"
| more: "follows cf i p \<sigma> xs \<Longrightarrow> dispatch_step cf i p (dp_after p \<sigma> xs) x \<Longrightarrow> follows cf i p \<sigma> (xs @ [x])"

lemma follows_snoc: "follows cf i p \<sigma> (xs @ [x]) \<longleftrightarrow> follows cf i p \<sigma> xs \<and> dispatch_step cf i p (dp_after p \<sigma> xs) x"
  by (auto elim: follows.cases intro: more)

lemma follows_append: "follows cf i p \<sigma> (xs @ ys) \<Longrightarrow> follows cf i p \<sigma> xs"
  by (induction ys rule: rev_induct) (simp_all add: follows_snoc flip: append_assoc)

lemma follows_step: "follows cf i p \<sigma> (xs @ x # ys) \<Longrightarrow> dispatch_step cf i p (dp_after p \<sigma> xs) x"
  using follows_append [of cf i p \<sigma> "xs @ [x]" ys] by (simp add: follows_snoc)

end
