(* ===== verification/Executor_Refinement.thy ===== *)
theory Executor_Refinement
  imports Executor_Protocol
begin

text \<open>
  The executor follows the protocol: backward rules for each of its operations, from the single calls
  up to the run.  A state is \<open>at\<close> a dispatcher when its trace follows the protocol and leads there,
  and the executor's own view of the nodes is what has been recorded.
\<close>

subsection \<open>Single calls\<close>

lemma wp_xop_simps [simp]:
  "wp (get_states :: ('w, _) xop) Q1 E = (\<lambda>s. Q1 (x_states s) s)"
  "wp (put_states ss :: ('w, _) xop) Q2 E = (\<lambda>s. Q2 () (s\<lparr>x_states := ss\<rparr>))"
  "wp (get_status j :: ('w, _) xop) Q3 E = (\<lambda>s. Q3 (status_in (x_states s) j) s)"
  "wp (put_status j st :: ('w, _) xop) Q2 E = (\<lambda>s. Q2 () (s\<lparr>x_states := AList.update j st (x_states s)\<rparr>))"
  "wp (xlog ev :: ('w, _) xop) Q2 E = (\<lambda>s. Q2 () (s\<lparr>x_trace := x_trace s @ [Logged ev]\<rparr>))"
  by (simp_all add: fun_eq_iff wp_def get_states_def put_states_def get_status_def put_status_def xlog_def)

lemma wp_xread: "(\<And>r w w0. f w0 = (r, w) \<Longrightarrow> Q r (s\<lparr>x_world := w\<rparr>)) \<Longrightarrow> wp (xread f) Q E s"
  by (simp add: wp_def xread_def split: prod.splits)

lemma wp_xcall:
  "(\<And>r w w0. f w0 = (r, w) \<Longrightarrow> Q r (s\<lparr>x_world := w, x_trace := x_trace s @ [ef r]\<rparr>)) \<Longrightarrow> wp (xcall ef f) Q E s"
  by (simp add: wp_def xcall_def split: prod.splits)

lemma wp_or_fail: "wp m (\<lambda>r s'. case r of None \<Rightarrow> Q () s' | Some e \<Rightarrow> E e s') E s \<Longrightarrow> wp (or_fail m) Q E s"
  by (simp add: or_fail_def) (erule wp_mono, auto split: option.splits)

lemma wp_or_wrap:
  "wp m (\<lambda>r s'. case r of None \<Rightarrow> Q () s' | Some e \<Rightarrow> E (Wrap sentinel e) s') E s \<Longrightarrow> wp (or_wrap sentinel m) Q E s"
  by (simp add: or_wrap_def) (erule wp_mono, auto split: option.splits)

lemma wp_lift_wrap:
  "wp m (\<lambda>r s'. case r of Inr x \<Rightarrow> Q x s' | Inl e \<Rightarrow> E (Wrap sentinel e) s') E s \<Longrightarrow> wp (lift_wrap sentinel m) Q E s"
  by (simp add: lift_wrap_def) (erule wp_mono, auto split: sum.splits)

lemma wp_ignoring: "wp m (\<lambda>_. Q ()) (\<lambda>_. Q ()) s \<Longrightarrow> wp (ignoring m) Q E s"
  by (simp add: ignoring_def)

subsection \<open>The dispatcher a state is at\<close>

lemma find_node_Some: "find_node ns j = Some n \<Longrightarrow> n_id n = j \<and> n \<in> set ns"
  by (induction ns) (auto split: if_splits)

lemma NodeByID_id: "NodeByID p j = Some n \<Longrightarrow> n_id n = j"
  by (auto simp: NodeByID_def dest: find_node_Some)

lemma NodeByID_set: "NodeByID p j = Some n \<Longrightarrow> n \<in> set (p_nodes p)"
  by (auto simp: NodeByID_def dest: find_node_Some)

lemma NodeByID_key: "NodeByID p j = Some n \<Longrightarrow> j \<in> n_id ` set (p_nodes p)"
  using NodeByID_id NodeByID_set by blast

definition keyed :: "plan \<Rightarrow> (node_id \<times> node_status) list \<Rightarrow> bool" where
  "keyed p ss \<longleftrightarrow> distinct (map fst ss) \<and> fst ` set ss = n_id ` set (p_nodes p)"

lemma keyed_update: "keyed p ss \<Longrightarrow> NodeByID p j = Some n \<Longrightarrow> keyed p (AList.update j st ss)"
  using NodeByID_key by (auto simp: keyed_def dom_update distinct_update)

definition at_disp :: "'w config \<Rightarrow> run_id \<Rightarrow> plan \<Rightarrow> dispatcher \<Rightarrow> dispatcher \<Rightarrow> 'w xstate \<Rightarrow> bool" where
  "at_disp cf i p z \<sigma> s \<longleftrightarrow> follows cf i p z (x_trace s) \<and> dp_after p z (x_trace s) = \<sigma> \<and>
     dp_state \<sigma> = (\<lambda>j. ns_state (status_in (x_states s) j)) \<and> keyed p (x_states s)"

definition okay :: "'w config \<Rightarrow> run_id \<Rightarrow> plan \<Rightarrow> dispatcher \<Rightarrow> 'w xstate \<Rightarrow> bool" where
  "okay cf i p z s \<longleftrightarrow> (\<exists>\<sigma>. at_disp cf i p z \<sigma> s)"

lemma at_okay: "at_disp cf i p z \<sigma> s \<Longrightarrow> okay cf i p z s"
  by (auto simp: okay_def)

lemma at_world [simp]: "at_disp cf i p z \<sigma> (s\<lparr>x_world := w\<rparr>) = at_disp cf i p z \<sigma> s"
  by (simp add: at_disp_def)

lemma at_state: "at_disp cf i p z \<sigma> s \<Longrightarrow> ns_state (status_in (x_states s) j) = dp_state \<sigma> j"
  by (simp add: at_disp_def)

lemma at_effect:
  assumes "at_disp cf i p z \<sigma> s" "dispatch_step cf i p \<sigma> x" "dp_state (dp_update p \<sigma> x) = dp_state \<sigma>"
  shows "at_disp cf i p z (dp_update p \<sigma> x) (s\<lparr>x_world := w, x_trace := x_trace s @ [x]\<rparr>)"
  using assms by (simp add: at_disp_def follows_snoc)

lemma at_log:
  assumes "at_disp cf i p z \<sigma> s" "\<not> dp_halted \<sigma>"
  shows "at_disp cf i p z \<sigma> (s\<lparr>x_trace := x_trace s @ [Logged ev]\<rparr>)"
  using assms by (simp add: at_disp_def follows_snoc logged)

lemma status_in_update: "status_in (AList.update j st ss) k = (if k = j then st else status_in ss k)"
  by (simp add: status_in_def update_conv')

lemma dp_fields [simp]:
  "dp_state (moved j to \<sigma>) = (dp_state \<sigma>)(j := to)" "dp_halted (moved j to \<sigma>) = dp_halted \<sigma>"
  "dp_tries (moved j to \<sigma>) = dp_tries \<sigma>" "dp_state (tried j to \<sigma>) = dp_state \<sigma>"
  "dp_halted (tried j to \<sigma>) = dp_halted \<sigma>" "dp_granted (tried j to \<sigma>) = dp_granted \<sigma>"
  "dp_worked (tried j to \<sigma>) = dp_worked \<sigma>" "dp_checked (tried j to \<sigma>) = dp_checked \<sigma>"
  "dp_granted (moved j to \<sigma>) = (dp_granted \<sigma>)(j := to = NodeRunning \<and> dp_granted \<sigma> j)"
  "dp_worked (moved j to \<sigma>) = (dp_worked \<sigma>)(j := to \<noteq> NodeRunning \<and> dp_worked \<sigma> j)"
  "dp_checked (moved j to \<sigma>) = (dp_checked \<sigma>)(j := to \<noteq> NodeVerifying \<and> dp_checked \<sigma> j)"
  "dp_tries (tried j to \<sigma>) = (if to = NodeRunning then (dp_tries \<sigma>)(j := dp_tries \<sigma> j + 1) else dp_tries \<sigma>)"
  by (simp_all add: moved_def tried_def)

lemma at_moved:
  assumes "at_disp cf i p z \<sigma> s" "dispatch_step cf i p \<sigma> (Recorded t None)"
    and "tr_to t = to" "tr_node t = j" "st = status_in (x_states s) j"
  shows "at_disp cf i p z (moved j to (tried j to \<sigma>))
    (s\<lparr>x_world := w, x_trace := x_trace s @ [Recorded t None],
       x_states := AList.update j (st\<lparr>ns_state := to\<rparr>) (x_states s)\<rparr>)"
proof -
  obtain n where "NodeByID p j = Some n" using assms(2,4) by (auto elim: recordedE)
  then show ?thesis
    using assms by (auto simp: at_disp_def follows_snoc status_in_update fun_eq_iff keyed_update)
qed

lemma at_count:
  "at_disp cf i p z \<sigma> s \<Longrightarrow> NodeByID p j = Some n \<Longrightarrow> st = status_in (x_states s) j \<Longrightarrow>
     at_disp cf i p z \<sigma> (s\<lparr>x_states := AList.update j (st\<lparr>ns_attempts := a\<rparr>) (x_states s)\<rparr>)"
  by (auto simp: at_disp_def status_in_update fun_eq_iff keyed_update)

subsection \<open>A benign environment\<close>

text \<open>
  Nothing the executor depends on fails or refuses: the plan is admitted, every port answers, the
  recorded states can be entered, checks pass, destructive nodes are authorized, and nobody stops the
  run.  The rules below reach an error only where this does not hold.
\<close>

definition workable :: "node_state \<Rightarrow> bool" where
  "workable st \<longleftrightarrow> st \<in> {NodePending, NodeReady, NodeRetryWait, NodeVerifying, NodeDone, NodeSkipped}"

definition benign_store :: "'w config \<Rightarrow> run_id \<Rightarrow> bool" where
  "benign_store cf i \<longleftrightarrow> (\<forall>t w. fst (cf_record_transition cf t w) = None) \<and>
     (\<forall>g w. fst (cf_record_authorization cf g w) = None) \<and> (\<forall>ev w. fst (cf_append_audit cf ev w) = None) \<and>
     (\<forall>w. fst (cf_cancel_requested cf i w) = Inr False) \<and>
     (\<forall>w. \<exists>recs. fst (cf_node_states cf i w) = Inr recs \<and>
        (\<forall>j r. recs j = Some r \<longrightarrow> workable (sn_state r) \<or> sn_state r = NodeRunning))"

definition benign_database :: "'w config \<Rightarrow> plan \<Rightarrow> bool" where
  "benign_database cf p \<longleftrightarrow> (\<forall>sm w. fst (cf_exec cf sm w) = None) \<and>
     (\<forall>as w. judge assertion_code as (fst (cf_assert cf as w)) = None) \<and>
     (\<forall>cs w. judge (\<lambda>c _. c) cs (fst (cf_verify cf cs w)) = None) \<and>
     (\<forall>x w. \<exists>m st. fst (cf_marker cf x w) = Inr (m, st) \<and> (st = MarkerOurs \<longrightarrow> marker_Validate m = None)) \<and>
     (\<forall>n w. n \<in> set (p_nodes p) \<and> IsDestructive (n_kind n) \<longrightarrow>
        (\<exists>d. Authorize (Some (fst (fst (cf_authority cf w)))) (Some (snd (fst (cf_authority cf w)))) (Some p) n = Inr d \<and>
           ad_satisfied d \<and> (ad_adopt d \<longrightarrow> cf_allow_adoption cf)))"

definition benign :: "'w config \<Rightarrow> run_id \<Rightarrow> plan \<Rightarrow> bool" where
  "benign cf i p \<longleftrightarrow> i \<noteq> [] \<and> plan_Validate p = None \<and> preflight cf p = None \<and> \<not> cf_dry_run cf \<and>
     benign_store cf i \<and> benign_database cf p \<and> (\<forall>b d w. fst (cf_sleep cf b d w) = None) \<and>
     (\<forall>w. \<not> fst (cf_signalled cf w)) \<and> (\<forall>w. \<not> fst (cf_fenced cf w))"

lemma port_failures:
  "cf_record_transition cf t w = (Some e, w') \<Longrightarrow> \<not> benign cf i p"
  "cf_record_authorization cf g w = (Some e, w') \<Longrightarrow> \<not> benign cf i p"
  "cf_append_audit cf ev w = (Some e, w') \<Longrightarrow> \<not> benign cf i p"
  "cf_exec cf sm w = (Some e, w') \<Longrightarrow> \<not> benign cf i p"
  "cf_sleep cf b d w = (Some e, w') \<Longrightarrow> \<not> benign cf i p"
  "cf_assert cf as w = (r, w') \<Longrightarrow> judge assertion_code as r = Some e \<Longrightarrow> \<not> benign cf i p"
  "cf_verify cf cs w = (r', w') \<Longrightarrow> judge (\<lambda>c _. c) cs r' = Some e \<Longrightarrow> \<not> benign cf i p"
  "cf_marker cf x w = (Inl e, w') \<Longrightarrow> \<not> benign cf i p"
  "cf_signalled cf w = (True, w') \<Longrightarrow> \<not> benign cf i p"
  "cf_fenced cf w = (True, w') \<Longrightarrow> \<not> benign cf i p"
  "cf_cancel_requested cf i w = (Inr True, w') \<Longrightarrow> \<not> benign cf i p"
  "cf_cancel_requested cf i w = (Inl e, w') \<Longrightarrow> \<not> benign cf i p"
  unfolding benign_def benign_store_def benign_database_def
  by (metis fst_conv option.distinct(1) sum.distinct(1) sum.inject(2))+

lemma benign_catalog: "benign cf i p \<Longrightarrow> n \<in> set (p_nodes p) \<Longrightarrow> needs_catalog (n_kind n) \<Longrightarrow> cf_has_catalog cf"
  by (auto simp: benign_def preflight_def then_check_None split: if_splits)

lemma benign_render:
  assumes "benign cf i p" "n \<in> set (p_nodes p)" "IssuesDDL (n_kind n)"
  shows "\<exists>sql. Render (Some n) = Inr sql \<and> sql \<noteq> []"
proof -
  have "preflight_node n = None"
    using assms(1,2) by (simp add: benign_def preflight_def then_check_None each_check_None)
  then show ?thesis using assms(3) by (auto simp: preflight_node_def split: if_splits sum.splits)
qed

lemma benign_node: "benign cf i p \<Longrightarrow> n \<in> set (p_nodes p) \<Longrightarrow> node_Validate n = None"
  using check_nodes_Inr by (auto simp: benign_def elim!: plan_Validate_None)

lemma benign_params:
  "benign cf i p \<Longrightarrow> n \<in> set (p_nodes p) \<Longrightarrow> \<exists>ps. n_params n = Some ps \<and> params_Kind ps = n_kind n"
  using benign_node [of cf i p n] by (auto simp: node_Validate_None)

lemma benign_shape:
  assumes "benign cf i p" "n \<in> set (p_nodes p)"
  shows "n_kind n = KindCatalogAssert \<Longrightarrow> \<exists>as. n_params n = Some (CatalogAssertParams as)"
    "n_kind n = KindIndexVerify \<Longrightarrow> \<exists>cs. n_params n = Some (VerifyParams cs)"
    "n_kind n = KindWait \<Longrightarrow> \<exists>w. n_params n = Some (WaitParams w)" "n_kind n \<noteq> UnknownKind u"
proof -
  obtain ps where ps: "n_params n = Some ps" "params_Kind ps = n_kind n" using benign_params [OF assms] by blast
  show "n_kind n = KindCatalogAssert \<Longrightarrow> \<exists>as. n_params n = Some (CatalogAssertParams as)"
    "n_kind n = KindIndexVerify \<Longrightarrow> \<exists>cs. n_params n = Some (VerifyParams cs)"
    "n_kind n = KindWait \<Longrightarrow> \<exists>w. n_params n = Some (WaitParams w)" "n_kind n \<noteq> UnknownKind u"
    using ps by (cases ps; auto)+
qed

lemma benign_operation: "benign cf i p \<Longrightarrow> i \<noteq> [] \<and> operation_String (p_operation p) \<noteq> []"
  by (cases "p_operation p") (auto simp: benign_def plan_Validate_def then_check_None operation_Valid_def split: if_splits)

lemma benign_authority:
  assumes "benign cf i p" "n \<in> set (p_nodes p)" "IsDestructive (n_kind n)" "cf_authority cf w = ((claims, cat), w')"
  shows "\<exists>d. Authorize (Some claims) (if cf_has_catalog cf then Some cat else None) (Some p) n = Inr d \<and>
    ad_satisfied d \<and> (ad_adopt d \<longrightarrow> cf_allow_adoption cf)"
proof -
  have "cf_has_catalog cf" using benign_catalog [OF assms(1,2)] assms(3) by (simp add: needs_catalog_def)
  moreover have "\<exists>d. Authorize (Some (fst (fst (cf_authority cf w)))) (Some (snd (fst (cf_authority cf w)))) (Some p) n = Inr d \<and>
      ad_satisfied d \<and> (ad_adopt d \<longrightarrow> cf_allow_adoption cf)"
    using assms(1-3) unfolding benign_def benign_database_def by blast
  ultimately show ?thesis using assms(4) by simp
qed

lemma marker_roles: "MarkerTargetFor (Some n) = Inr (Some t) \<Longrightarrow> mt_role t = MarkerRoleParent \<or> mt_role t = MarkerRoleLeaf"
  by (auto simp: MarkerTargetFor_def split: node_kind.splits option.splits node_params.splits)

lemma marker_Validate_None: "marker_Validate m = None \<longleftrightarrow> m_run m \<noteq> [] \<and> m_op m \<noteq> [] \<and>
    (m_role m = MarkerRoleParent \<or> m_role m = MarkerRoleLeaf) \<and> m_at m \<noteq> []"
  by (simp add: marker_Validate_def)

lemma marker_for_fields:
  "m_run (marker_for t base prior st) = (if mt_rewrite t \<and> st = MarkerOurs then m_run prior else m_run base)"
  "m_op (marker_for t base prior st) = (if mt_rewrite t \<and> st = MarkerOurs then m_op prior else m_op base)"
  "m_at (marker_for t base prior st) = (if mt_rewrite t \<and> st = MarkerOurs then m_at prior else m_at base)"
  "m_role (marker_for t base prior st) =
    (if mt_rewrite t \<and> st = MarkerOurs \<and> m_role prior \<noteq> [] then m_role prior else mt_role t)"
  by (simp_all add: marker_for_def Let_def)

lemma marker_for_valid:
  assumes "MarkerTargetFor (Some n) = Inr (Some t)" "m_run base \<noteq> []" "m_op base \<noteq> []" "m_at base \<noteq> []"
    and "st = MarkerOurs \<longrightarrow> marker_Validate prior = None"
  shows "marker_Validate (marker_for t base prior st) = None"
  using assms(2-5) marker_roles [OF assms(1)]
  by (simp add: marker_Validate_None marker_for_fields)

lemma marking_kind: "MarkerTargetFor (Some n) \<noteq> Inr None \<Longrightarrow> ClaimsOwnership (n_kind n)"
  by (cases "n_kind n") (simp_all add: MarkerTargetFor_def ClaimsOwnership_def)

lemma benign_target: "benign cf i p \<Longrightarrow> n \<in> set (p_nodes p) \<Longrightarrow> MarkerTargetFor (Some n) \<noteq> Inl e"
  using benign_params [of cf i p n]
  by (cases "n_kind n") (auto simp: MarkerTargetFor_def elim: params_Kind_cases)

subsection \<open>Checkpoints and events\<close>

lemma wp_transition:
  assumes "at_disp cf i p z \<sigma> s" "NodeByID p (n_id n) = Some n" "\<not> dp_halted \<sigma>" "may_enter cf \<sigma> n to"
    and valid: "ValidTransition (dp_state \<sigma> (n_id n)) to reason"
    and Q: "\<And>s'. at_disp cf i p z (moved (n_id n) to (tried (n_id n) to \<sigma>)) s' \<Longrightarrow> Q () s'"
    and E: "\<And>e s'. okay cf i p z s' \<Longrightarrow> \<not> benign cf i p \<Longrightarrow> E e s'"
  shows "wp (transition cf i n to reason info) Q E s"
proof -
  have None: "CheckTransition (dp_state \<sigma> (n_id n)) to reason = None" using valid by (simp add: CheckTransition_None)
  let ?st = "status_in (x_states s) (n_id n)"
  have step: "dispatch_step cf i p \<sigma> (Recorded (checkpoint i n ?st to reason info now) r)" for now r
    using assms(1-4) valid
    by (intro recorded [where n = n]) (auto simp: checkpoint_def at_state CheckTransition_None)
  show ?thesis
    unfolding transition_def Let_def
    apply (simp add: at_state [OF assms(1)] None)
    apply (rule wp_xread, rule wp_or_wrap, rule wp_xcall)
    subgoal for now w w0 r w' w1
    proof (cases r)
      case (Some e)
      let ?t = "checkpoint i n ?st to reason info now"
      have "at_disp cf i p z (dp_update p \<sigma> (Recorded ?t (Some e)))
          (s\<lparr>x_world := w', x_trace := x_trace s @ [Recorded ?t (Some e)]\<rparr>)"
        using at_effect [OF assms(1) step, of now "Some e" w'] by (simp del: dp_after_simps)
      moreover assume "cf_record_transition cf ?t w1 = (r, w')"
      ultimately show ?thesis using Some E at_okay port_failures(1) [where i = i and p = p] by fastforce
    next
      case None
      let ?t = "checkpoint i n ?st to reason info now"
      have "at_disp cf i p z (moved (n_id n) to (tried (n_id n) to \<sigma>))
          (s\<lparr>x_world := w', x_trace := x_trace s @ [Recorded ?t None],
             x_states := AList.update (n_id n) (?st\<lparr>ns_state := to\<rparr>) (x_states s)\<rparr>)"
        by (rule at_moved [OF assms(1) step]) (simp_all add: checkpoint_def)
      then show ?thesis using None assms(3) Q [OF at_log] by fastforce
    qed
    done
qed

lemma wp_audit:
  assumes "at_disp cf i p z \<sigma> s" "te_run ev = i" "\<not> (dp_halted \<sigma> \<and> halts_run (te_type ev))"
    and "\<And>s'. at_disp cf i p z \<sigma> s' \<Longrightarrow> x_states s' = x_states s \<Longrightarrow> Q () s'"
    and "\<And>e s'. okay cf i p z s' \<Longrightarrow> \<not> benign cf i p \<Longrightarrow> \<not> halts_run (te_type ev) \<longrightarrow> at_disp cf i p z \<sigma> s' \<Longrightarrow>
      x_states s' = x_states s \<Longrightarrow> E e s'"
  shows "wp (audit cf ev) Q E s"
proof -
  have *: "wp (or_wrap (Detailf ErrCheckpointFailed) (xcall (Audited ev') (cf_append_audit cf ev'))) Q E s'"
    if "te_run ev' = i" "te_type ev' = te_type ev" "at_disp cf i p z \<sigma> s'" "x_states s' = x_states s" for ev' s'
    apply (rule wp_or_wrap, rule wp_xcall)
    subgoal for r w w0
    proof -
      assume "cf_append_audit cf ev' w0 = (r, w)"
      then have "r \<noteq> None \<Longrightarrow> \<not> benign cf i p" by (auto dest: port_failures(3))
      then show ?thesis
        using at_effect [OF that(3) audited [of ev' i \<sigma> cf p r], of w] that assms(3)
        by (cases r; cases "halts_run (te_type ev)") (auto intro!: assms(4,5) intro: at_okay)
    qed
    done
  show ?thesis
    unfolding audit_def
    by (auto intro!: * wp_xread assms(1,2))
qed

lemma wp_audit_ignored:
  assumes "at_disp cf i p z \<sigma> s" "te_run ev = i" "\<not> halts_run (te_type ev)"
    and "\<And>s'. at_disp cf i p z \<sigma> s' \<Longrightarrow> x_states s' = x_states s \<Longrightarrow> Q () s'"
  shows "wp (ignoring (audit cf ev)) Q E s"
  by (rule wp_ignoring, rule wp_audit [OF assms(1,2)]) (use assms(3,4) in auto)

lemma new_trail_event_simps [simp]:
  "te_run (new_trail_event i n ty d) = i" "te_type (new_trail_event i n ty d) = ty"
  by (simp_all add: new_trail_event_def)

lemma halts_run_simps [simp]:
  "halts_run AuditRunStarted" "halts_run AuditOrphanRecovered" "halts_run AuditAuthorizationGranted"
  "\<not> halts_run AuditRunFinished" "\<not> halts_run AuditRunCancelled" "\<not> halts_run AuditRunFailed"
  "\<not> halts_run AuditNodeFailed" "\<not> halts_run AuditAuthorizationDenied"
  by (simp_all add: halts_run_def)

subsection \<open>Authorization\<close>

lemma ad_object_mode:
  "authorizeProvenance store cat d auth = Inr r \<Longrightarrow> ad_object r = ad_object d"
  "authorizeLeftover cat d auth = Inr r \<Longrightarrow> ad_object r = ad_object d"
  "ad_object (authorizeExplicit d pl auth) = ad_object d"
  by (auto simp: authorizeProvenance_def authorizeLeftover_def authorizeExplicit_def rbind_Inr Let_def
      take_verdict_def split: if_splits option.splits)

lemma destructiveObject_decision:
  assumes "Authorize store cat pl n = Inr d"
  shows "destructiveObject n = Inr (ad_object d)"
proof -
  obtain x where x: "destructiveObject n = Inr x"
    using assms by (cases "destructiveObject n") (auto simp: Authorize_def split: if_splits)
  have "ad_object d = x" if "authorizeMode store cat pl ((zero_decision x)\<lparr>ad_mode := m\<rparr>) auth = Inr d" for m auth
    using that ad_object_mode
    by (fastforce simp: authorizeMode_def zero_decision_def split: authorization_mode.splits)
  then show ?thesis
    using assms x by (auto simp: Authorize_def Let_def zero_decision_def split: if_splits option.splits)
qed

lemma wp_authorizeNode:
  assumes "at_disp cf i p z \<sigma> s" "NodeByID p (n_id n) = Some n" "\<not> dp_halted \<sigma>" "IsDestructive (n_kind n)"
    and "dp_state \<sigma> (n_id n) = NodeReady"
    and Q: "\<And>d s'. at_disp cf i p z (\<sigma>\<lparr>dp_granted := (dp_granted \<sigma>)(n_id n := True)\<rparr>) s' \<Longrightarrow> Q d s'"
    and E: "\<And>e s'. okay cf i p z s' \<Longrightarrow> \<not> benign cf i p \<Longrightarrow> E e s'"
  shows "wp (authorizeNode cf i p n) Q E s"
proof -
  have refuse: "wp (sbind (ignoring (audit cf (denied i n d))) (\<lambda>_. sfail e)) Q E (s\<lparr>x_world := w\<rparr>)"
    if "\<not> benign cf i p" for d e w
    by (simp, rule wp_audit_ignored [of cf i p z \<sigma>])
       (use that in \<open>auto simp: denied_def assms(1) intro!: E intro: at_okay\<close>)
  have grant: "wp (sbind (xread (cf_now cf)) (\<lambda>now.
       let g = \<lparr>gr_run = i, gr_node = n_id n, gr_object = ad_object d, gr_mode = ad_mode d,
                gr_evidence = ad_evidence d, gr_granted_at = now\<rparr> in
       sbind (or_wrap (Detailf ErrCheckpointFailed) (xcall (Granted g) (cf_record_authorization cf g))) (\<lambda>_.
       sbind (audit cf (new_trail_event i (n_id n) AuditAuthorizationGranted
         (last_wins ((''kind'', kind_String (n_kind n)) # ad_evidence d)))) (\<lambda>_. sreturn d)))) Q E (s\<lparr>x_world := w\<rparr>)"
    if a: "Authorize (Some claims) c (Some p) n = Inr d" "ad_satisfied d" "ad_adopt d \<longrightarrow> cf_allow_adoption cf"
    for claims c d w
    unfolding Let_def
    apply (simp del: last_wins.simps)
    apply (rule wp_xread)
    apply (rule wp_or_wrap)
    apply (rule wp_xcall)
    subgoal for now w1 w3 r w2 w4
    proof -
      let ?g = "\<lparr>gr_run = i, gr_node = n_id n, gr_object = ad_object d, gr_mode = ad_mode d,
                gr_evidence = ad_evidence d, gr_granted_at = now\<rparr>"
      assume call: "cf_record_authorization cf ?g w4 = (r, w2)"
      have "granted_for cf i p n ?g"
        using a destructiveObject_decision [OF a(1)] by (auto simp: granted_for_def)
      then have "dispatch_step cf i p \<sigma> (Granted ?g r)"
        using assms(2-5) by (intro granted)
      moreover have "dp_state (dp_update p \<sigma> (Granted ?g r)) = dp_state \<sigma>" by (cases r) simp_all
      ultimately have at: "at_disp cf i p z (dp_update p \<sigma> (Granted ?g r))
          (s\<lparr>x_world := w2, x_trace := x_trace s @ [Granted ?g r]\<rparr>)"
        by (rule at_effect [OF assms(1)])
      show ?thesis
      proof (cases r)
        case None
        then show ?thesis
          using at assms(3) by (auto intro!: wp_audit Q E)
      next
        case (Some e)
        then have "\<not> benign cf i p" using call by (auto dest: port_failures(2))
        then show ?thesis using Some at E at_okay by fastforce
      qed
    qed
    done
  have fine: "\<exists>d. Authorize (Some claims) (if cf_has_catalog cf then Some cat else None) (Some p) n = Inr d \<and>
      ad_satisfied d \<and> (ad_adopt d \<longrightarrow> cf_allow_adoption cf)"
    if "cf_authority cf w0 = ((claims, cat), w)" "benign cf i p" for claims cat w0 w
    using benign_authority [OF that(2) NodeByID_set [OF assms(2)] assms(4) that(1)] .
  show ?thesis
    unfolding authorizeNode_def
    apply (simp, rule wp_xread)
    subgoal for a w w0
    proof (cases a)
      case (Pair claims cat)
      assume "cf_authority cf w0 = (a, w)"
      then have b: "\<not> benign cf i p" if "\<not> (\<exists>d. Authorize (Some claims) (if cf_has_catalog cf then Some cat else None) (Some p) n = Inr d \<and>
          ad_satisfied d \<and> (ad_adopt d \<longrightarrow> cf_allow_adoption cf))"
        using fine that Pair by blast
      have "okay cf i p z (s\<lparr>x_world := w\<rparr>)" using assms(1) by (auto simp: okay_def)
      then show ?thesis
        using refuse [OF b] E [OF _ b] grant Pair by (auto split: sum.splits)
    qed
    done
qed

subsection \<open>Statements, assertions and checks\<close>

text \<open>What a node that is being dispatched has behind it, and what dispatching it may add.\<close>

definition dispatching :: "plan \<Rightarrow> dispatcher \<Rightarrow> node \<Rightarrow> bool" where
  "dispatching p \<sigma> n \<longleftrightarrow> \<not> dp_halted \<sigma> \<and> NodeByID p (n_id n) = Some n \<and> dp_state \<sigma> (n_id n) = NodeRunning \<and>
     (\<forall>d \<in> set (n_depends_on n). IsComplete (dp_state \<sigma> d)) \<and> (IsDestructive (n_kind n) \<longrightarrow> dp_granted \<sigma> (n_id n))"

lemma dispatching_set: "dispatching p \<sigma> n \<Longrightarrow> n \<in> set (p_nodes p)"
  using NodeByID_set by (auto simp: dispatching_def)

definition worked_more :: "dispatcher \<Rightarrow> dispatcher \<Rightarrow> bool" where
  "worked_more \<sigma> \<sigma>' \<longleftrightarrow> (\<exists>w. \<sigma>' = \<sigma>\<lparr>dp_worked := w\<rparr> \<and> (\<forall>j. dp_worked \<sigma> j \<longrightarrow> w j))"

lemma worked_more_refl [simp]: "worked_more \<sigma> \<sigma>"
  by (auto simp: worked_more_def intro: exI [of _ "dp_worked \<sigma>"])

lemma worked_more_trans: "worked_more a b \<Longrightarrow> worked_more b c \<Longrightarrow> worked_more a c"
  by (auto simp: worked_more_def)

lemma worked_more_simps:
  "worked_more \<sigma> \<sigma>' \<Longrightarrow> dp_state \<sigma>' = dp_state \<sigma>" "worked_more \<sigma> \<sigma>' \<Longrightarrow> dp_halted \<sigma>' = dp_halted \<sigma>"
  "worked_more \<sigma> \<sigma>' \<Longrightarrow> dp_tries \<sigma>' = dp_tries \<sigma>" "worked_more \<sigma> \<sigma>' \<Longrightarrow> dp_granted \<sigma>' = dp_granted \<sigma>"
  "worked_more \<sigma> \<sigma>' \<Longrightarrow> dispatching p \<sigma>' n = dispatching p \<sigma> n"
  "worked_more \<sigma> \<sigma>' \<Longrightarrow> dp_worked \<sigma> j \<Longrightarrow> dp_worked \<sigma>' j"
  by (auto simp: worked_more_def dispatching_def)

lemma worked_more_executed [simp]: "worked_more \<sigma> (dp_update p \<sigma> (Executed sm r))"
proof (cases "r = None \<and> is_primary p sm")
  case True
  then show ?thesis by (auto simp: worked_more_def)
qed auto

lemma wp_send:
  assumes "at_disp cf i p z \<sigma> s" "dispatching p \<sigma> n" "IssuesDDL (n_kind n)" "statement_for cf i n sm"
    and "\<And>s'. at_disp cf i p z (dp_update p \<sigma> (Executed sm None)) s' \<Longrightarrow> Q () s'"
    and "\<And>e s'. at_disp cf i p z \<sigma> s' \<Longrightarrow> \<not> benign cf i p \<Longrightarrow> E e s'"
  shows "wp (send cf sm) Q E s"
  unfolding send_def
  apply (rule wp_or_fail, rule wp_xcall)
  subgoal for r w w0
  proof -
    assume call: "cf_exec cf sm w0 = (r, w)"
    have "dispatch_step cf i p \<sigma> (Executed sm r)"
      using assms(2-4) by (auto simp: dispatching_def intro: executed)
    then have "at_disp cf i p z (dp_update p \<sigma> (Executed sm r))
        (s\<lparr>x_world := w, x_trace := x_trace s @ [Executed sm r]\<rparr>)"
      by (intro at_effect [OF assms(1)]) simp_all
    moreover have "r \<noteq> None \<Longrightarrow> \<not> benign cf i p" using call by (auto dest: port_failures(4))
    ultimately show ?thesis using assms(5,6) by (cases r) auto
  qed
  done

lemma wp_markerBase:
  "(\<And>m w. m_run m = i \<Longrightarrow> m_op m = operation_String (p_operation p) \<Longrightarrow> m_at m \<noteq> [] \<Longrightarrow> Q m (s\<lparr>x_world := w\<rparr>)) \<Longrightarrow>
     wp (markerBase cf i (Some p)) Q E s"
  unfolding markerBase_def Let_def by (simp, rule wp_xread) (simp add: MarkerTime_def)

text \<open>Backward rules for the parts of a dispatch: all of them leave a dispatcher that differs in the work done.\<close>

definition more_work :: "'w config \<Rightarrow> run_id \<Rightarrow> plan \<Rightarrow> dispatcher \<Rightarrow> dispatcher \<Rightarrow> 'w xstate \<Rightarrow> bool" where
  "more_work cf i p z \<sigma> s \<longleftrightarrow> (\<exists>\<sigma>'. at_disp cf i p z \<sigma>' s \<and> worked_more \<sigma> \<sigma>')"

lemma more_workI: "at_disp cf i p z \<sigma>' s \<Longrightarrow> worked_more \<sigma> \<sigma>' \<Longrightarrow> more_work cf i p z \<sigma> s"
  by (auto simp: more_work_def)

lemma wp_execMarker:
  assumes "more_work cf i p z \<sigma> s" "dispatching p \<sigma> n" "IssuesDDL (n_kind n)" "FormatMarker m = Inr t"
    and "\<And>s'. more_work cf i p z \<sigma> s' \<Longrightarrow> Q () s'" "\<And>e s'. more_work cf i p z \<sigma> s' \<Longrightarrow> \<not> benign cf i p \<Longrightarrow> E e s'"
  shows "wp (execMarker cf i n (RenderComment object t)) Q E s"
proof -
  obtain \<sigma>' where \<sigma>': "at_disp cf i p z \<sigma>' s" "worked_more \<sigma> \<sigma>'" using assms(1) by (auto simp: more_work_def)
  show ?thesis
    unfolding execMarker_def
  proof (rule wp_send [OF \<sigma>'(1) _ assms(3)])
    show "statement_for cf i n (marker_statement cf i n (RenderComment object t))"
      using assms(4) by (auto simp: statement_for_def)
    show "dispatching p \<sigma>' n" using assms(2) \<sigma>'(2) by (simp add: worked_more_simps)
  qed (blast intro: assms(5,6) more_workI worked_more_trans [OF \<sigma>'(2)] \<sigma>'(2) worked_more_executed)+
qed

lemma more_work_world [simp]: "more_work cf i p z \<sigma> (s\<lparr>x_world := w\<rparr>) = more_work cf i p z \<sigma> s"
  by (simp add: more_work_def)

lemma more_work_world_trace [simp]:
  "more_work cf i p z \<sigma> (s\<lparr>x_world := w, x_trace := t\<rparr>) = more_work cf i p z \<sigma> (s\<lparr>x_trace := t\<rparr>)"
  by (simp add: more_work_def at_disp_def)

lemma more_work_read:
  assumes "more_work cf i p z \<sigma> s" "dispatching p \<sigma> n"
  shows "more_work cf i p z \<sigma> (s\<lparr>x_trace := x_trace s @ [MarkerRead (n_id n) x r]\<rparr>)"
proof -
  obtain \<sigma>' where \<sigma>': "at_disp cf i p z \<sigma>' s" "worked_more \<sigma> \<sigma>'" using assms(1) by (auto simp: more_work_def)
  have "dispatch_step cf i p \<sigma>' (MarkerRead (n_id n) x r)"
    using assms(2) \<sigma>'(2) by (auto simp: dispatching_def worked_more_simps intro: marker_read)
  from at_effect [OF \<sigma>'(1) this, of "x_world s"]
  have "at_disp cf i p z \<sigma>' (s\<lparr>x_trace := x_trace s @ [MarkerRead (n_id n) x r]\<rparr>)" by simp
  then show ?thesis using \<sigma>'(2) by (rule more_workI)
qed

lemma RenderMarkerStatement_comment:
  assumes "RenderMarkerStatement n base prior st = Inr (Some sql)"
  obtains object m t where "FormatMarker m = Inr t" "sql = RenderComment object t"
  using assms by (auto simp: RenderMarkerStatement_def rbind_Inr split: sum.splits option.splits if_splits)

lemma wp_markObject:
  assumes "more_work cf i p z \<sigma> s" "dispatching p \<sigma> n" "IssuesDDL (n_kind n)"
    and QE: "\<And>s'. more_work cf i p z \<sigma> s' \<Longrightarrow> Q () s'" "\<And>e s'. more_work cf i p z \<sigma> s' \<Longrightarrow> \<not> benign cf i p \<Longrightarrow> E e s'"
  shows "wp (markObject cf i p n) Q E s"
proof (cases "MarkerTargetFor (Some n)")
  case (Inl e)
  then have "\<not> benign cf i p" using benign_target [of cf i p n e] dispatching_set [OF assms(2)] by blast
  then show ?thesis using Inl assms(1) QE by (simp add: markObject_def)
next
  case Inr0: (Inr x)
  show ?thesis
  proof (cases x)
    case None
    then show ?thesis using Inr0 assms(1) QE by (simp add: markObject_def)
  next
    case (Some t)
    have comment: "wp (case RenderMarkerStatement (Some n) base prior st of Inl e \<Rightarrow> sfail e
        | Inr None \<Rightarrow> sreturn () | Inr (Some sql) \<Rightarrow> execMarker cf i n sql) Q E s'"
      if "more_work cf i p z \<sigma> s'" "m_run base = i" "m_op base = operation_String (p_operation p)" "m_at base \<noteq> []"
        "benign cf i p \<Longrightarrow> st = MarkerOurs \<longrightarrow> marker_Validate prior = None" for base prior st s'
    proof (cases "RenderMarkerStatement (Some n) base prior st")
      case (Inr y)
      then show ?thesis
        using that(1) QE
        by (cases y) (auto elim!: RenderMarkerStatement_comment intro: wp_execMarker [OF that(1) assms(2,3)])
    next
      case (Inl e)
      have "\<not> benign cf i p"
      proof
        assume b: "benign cf i p"
        have "marker_Validate (marker_for t base prior st) = None"
          by (rule marker_for_valid) (use that b benign_operation [OF b] Inr0 Some in auto)
        then show False
          using Inl Inr0 Some by (auto simp: RenderMarkerStatement_def FormatMarker_def split: if_splits)
      qed
      then show ?thesis using Inl that(1) QE by simp
    qed
    have "ClaimsOwnership (n_kind n)" using Inr0 Some by (intro marking_kind) simp
    then have port: "\<not> cf_has_catalog cf \<Longrightarrow> \<not> benign cf i p"
      using benign_catalog [of cf i p n] assms(2) NodeByID_set by (auto simp: dispatching_def needs_catalog_def)
    have read: "wp (xcall (MarkerRead (n_id n) (mt_index t)) (cf_marker cf (mt_index t)))
        (\<lambda>x. wp (case x of Inl e \<Rightarrow> sfail e | Inr (prior, status) \<Rightarrow> sbind (markerBase cf i (Some p)) (\<lambda>base.
             case RenderMarkerStatement (Some n) base prior status of
               Inl e \<Rightarrow> sfail e | Inr None \<Rightarrow> sreturn () | Inr (Some sql) \<Rightarrow> execMarker cf i n sql)) Q E) E s"
      apply (rule wp_xcall)
      subgoal for r w w0
      proof -
        assume call: "cf_marker cf (mt_index t) w0 = (r, w)"
        have nb: "r = Inl e \<Longrightarrow> \<not> benign cf i p" for e using call by (auto dest: port_failures(8))
        have "benign cf i p \<Longrightarrow> st = MarkerOurs \<longrightarrow> marker_Validate m = None" if "r = Inr (m, st)" for m st
          using call that unfolding benign_def benign_database_def by (metis fst_conv prod.inject sum.inject(2))
        then have "wp (markerBase cf i (Some p)) (\<lambda>base. wp (case RenderMarkerStatement (Some n) base m st of
               Inl e \<Rightarrow> sfail e | Inr None \<Rightarrow> sreturn () | Inr (Some sql) \<Rightarrow> execMarker cf i n sql) Q E) E s'"
          if "more_work cf i p z \<sigma> s'" "r = Inr (m, st)" for m st s'
          using that by (intro wp_markerBase comment) simp_all
        then show ?thesis
          using more_work_read [OF assms(1,2)] QE nb by (cases r) auto
      qed
      done
    show ?thesis
      using read assms(1) QE port by (simp add: markObject_def Inr0 Some)
  qed
qed

lemma wp_adoptObject:
  assumes "more_work cf i p z \<sigma> s" "dispatching p \<sigma> n" "IssuesDDL (n_kind n)"
    and QE: "\<And>s'. more_work cf i p z \<sigma> s' \<Longrightarrow> Q () s'" "\<And>e s'. more_work cf i p z \<sigma> s' \<Longrightarrow> \<not> benign cf i p \<Longrightarrow> E e s'"
  shows "wp (adoptObject cf i p n object) Q E s"
  unfolding adoptObject_def
  apply (simp, rule wp_markerBase)
  subgoal for m w
  proof (cases "FormatMarker (m\<lparr>m_role := MarkerRoleLeaf\<rparr>)")
    case (Inr t)
    have "more_work cf i p z \<sigma> (s\<lparr>x_world := w\<rparr>)" using assms(1) by simp
    then show ?thesis using Inr by (auto intro: wp_execMarker [OF _ assms(2,3)] QE)
  next
    case (Inl e)
    assume m: "m_run m = i" "m_op m = operation_String (p_operation p)" "m_at m \<noteq> []"
    have "\<not> benign cf i p"
      using Inl m benign_operation [of cf i p] by (auto simp: FormatMarker_def marker_Validate_def split: if_splits)
    then show ?thesis using Inl assms(1) QE by simp
  qed
  done

definition work_done :: "'w config \<Rightarrow> run_id \<Rightarrow> plan \<Rightarrow> dispatcher \<Rightarrow> dispatcher \<Rightarrow> node_id \<Rightarrow> 'w xstate \<Rightarrow> bool" where
  "work_done cf i p z \<sigma> j s \<longleftrightarrow> (\<exists>\<sigma>'. at_disp cf i p z \<sigma>' s \<and> worked_more \<sigma> \<sigma>' \<and> dp_worked \<sigma>' j)"

lemma work_doneI: "at_disp cf i p z \<sigma>' s \<Longrightarrow> worked_more \<sigma> \<sigma>' \<Longrightarrow> dp_worked \<sigma>' j \<Longrightarrow> work_done cf i p z \<sigma> j s"
  by (auto simp: work_done_def)

lemma more_work_at: "at_disp cf i p z \<sigma> s \<Longrightarrow> more_work cf i p z \<sigma> s"
  by (rule more_workI, assumption, simp)

lemma more_work_trans: "worked_more \<sigma> \<sigma>' \<Longrightarrow> more_work cf i p z \<sigma>' s \<Longrightarrow> more_work cf i p z \<sigma> s"
  by (auto simp: more_work_def intro: worked_more_trans)

lemma wp_primary:
  assumes "more_work cf i p z \<sigma> s" "dispatching p \<sigma> n" "IssuesDDL (n_kind n)" "Render (Some n) = Inr sql" "sql \<noteq> []"
    and Q: "\<And>\<sigma>' s'. at_disp cf i p z \<sigma>' s' \<Longrightarrow> worked_more \<sigma> \<sigma>' \<Longrightarrow> dp_worked \<sigma>' (n_id n) \<Longrightarrow> Q () s'"
    and E: "\<And>e s'. more_work cf i p z \<sigma> s' \<Longrightarrow> \<not> benign cf i p \<Longrightarrow> E e s'"
  shows "wp (send cf (primary_statement cf i n sql)) Q E s"
proof -
  obtain \<sigma>1 where \<sigma>1: "at_disp cf i p z \<sigma>1 s" "worked_more \<sigma> \<sigma>1" using assms(1) by (auto simp: more_work_def)
  let ?sm = "primary_statement cf i n sql"
  have "is_primary p ?sm" using assms(2,4) by (simp add: is_primary_def primary_statement_def dispatching_def)
  then have w: "dp_worked (dp_update p \<sigma>1 (Executed ?sm None)) (n_id n)"
    by (simp add: primary_statement_def)
  have "statement_for cf i n ?sm" using assms(4,5) by (auto simp: statement_for_def)
  moreover have "dispatching p \<sigma>1 n" using assms(2) \<sigma>1(2) by (simp add: worked_more_simps)
  ultimately show ?thesis
    by (intro wp_send [OF \<sigma>1(1) _ assms(3)] Q E)
       (blast intro: w more_workI \<sigma>1 worked_more_trans [OF \<sigma>1(2)] worked_more_executed)+
qed

lemma wp_execDDL:
  assumes "at_disp cf i p z \<sigma> s" "dispatching p \<sigma> n" "IssuesDDL (n_kind n)"
    and Q: "\<And>s'. work_done cf i p z \<sigma> (n_id n) s' \<Longrightarrow> Q () s'"
    and E: "\<And>e s'. more_work cf i p z \<sigma> s' \<Longrightarrow> \<not> benign cf i p \<Longrightarrow> E e s'"
  shows "wp (execDDL cf i p n d) Q E s"
proof (cases "Render (Some n)")
  case (Inl e)
  then have "\<not> benign cf i p" using benign_render [OF _ dispatching_set [OF assms(2)] assms(3)] by fastforce
  then show ?thesis using Inl more_work_at [OF assms(1)] E by (simp add: execDDL_def)
next
  case (Inr sql)
  have empty: "sql = [] \<Longrightarrow> \<not> benign cf i p"
    using Inr benign_render [OF _ dispatching_set [OF assms(2)] assms(3)] by fastforce
  have mark: "wp (markObject cf i p n) Q E s'"
    if \<sigma>': "at_disp cf i p z \<sigma>' s'" "worked_more \<sigma> \<sigma>'" "dp_worked \<sigma>' (n_id n)" for \<sigma>' s'
  proof (rule wp_markObject [OF more_work_at [OF \<sigma>'(1)] _ assms(3)])
    show "dispatching p \<sigma>' n" using assms(2) \<sigma>'(2) by (simp add: worked_more_simps)
    show "Q () s''" if "more_work cf i p z \<sigma>' s''" for s''
      using that \<sigma>' by (auto simp: more_work_def worked_more_simps intro!: Q work_doneI intro: worked_more_trans)
    show "E e s''" if "more_work cf i p z \<sigma>' s''" "\<not> benign cf i p" for e s''
      by (rule E, rule more_work_trans [OF \<sigma>'(2) that(1)], rule that(2))
  qed
  have primary: "wp (send cf (primary_statement cf i n sql)) (\<lambda>_. wp (markObject cf i p n) Q E) E s'"
    if "more_work cf i p z \<sigma> s'" "sql \<noteq> []" for s'
    by (rule wp_primary [OF that(1) assms(2,3) Inr that(2)]) (blast intro: mark E)+
  show ?thesis
    using more_work_at [OF assms(1)] E empty
    by (auto simp: execDDL_def Inr intro!: primary wp_adoptObject [OF _ assms(2,3)])
qed

lemma wp_runAssertions:
  assumes "at_disp cf i p z \<sigma> s" "dispatching p \<sigma> n" and kind: "n_kind n = KindCatalogAssert"
    and Q: "\<And>s'. work_done cf i p z \<sigma> (n_id n) s' \<Longrightarrow> Q () s'"
    and E: "\<And>e s'. more_work cf i p z \<sigma> s' \<Longrightarrow> \<not> benign cf i p \<Longrightarrow> E e s'"
  shows "wp (runAssertions cf n) Q E s"
proof -
  have *: "wp (sbind (xcall (Asserted (n_id n) as) (cf_assert cf as))
      (\<lambda>r. scheck (judge assertion_code as r) (sreturn ()))) Q E s"
    if as: "n_params n = Some (CatalogAssertParams as)" for as
    apply (simp, rule wp_xcall)
    subgoal for r w w0
    proof -
      assume call: "cf_assert cf as w0 = (r, w)"
      let ?x = "Asserted (n_id n) as r"
      have "dispatch_step cf i p \<sigma> ?x" using assms(2) as by (auto simp: dispatching_def intro: asserted)
      then have at: "at_disp cf i p z (dp_update p \<sigma> ?x) (s\<lparr>x_world := w, x_trace := x_trace s @ [?x]\<rparr>)"
        by (intro at_effect [OF assms(1)]) simp_all
      show ?thesis
      proof (cases "judge assertion_code as r")
        case None
        moreover have "worked_more \<sigma> (dp_update p \<sigma> ?x)" using None by (auto simp: worked_more_def)
        ultimately show ?thesis using Q [OF work_doneI [OF at]] by simp
      next
        case (Some e)
        then have "\<not> benign cf i p" using call by (auto dest: port_failures(6))
        then show ?thesis using Some E [OF more_work_at] at by simp
      qed
    qed
    done
  show ?thesis
  proof (cases "\<exists>as. n_params n = Some (CatalogAssertParams as)")
    case True
    then obtain as where "n_params n = Some (CatalogAssertParams as)" by blast
    with * show ?thesis by (simp only: runAssertions_def option.case node_params.case)
  next
    case False
    then have "\<not> benign cf i p"
      using benign_shape(1) [OF _ dispatching_set [OF assms(2)] kind, of cf i] by blast
    then show ?thesis
      using False E [OF more_work_at [OF assms(1)]]
      by (auto simp: runAssertions_def split: option.splits node_params.splits)
  qed
qed

definition needs_work :: "node_kind \<Rightarrow> bool" where
  "needs_work k \<longleftrightarrow> IssuesDDL k \<or> k = KindCatalogAssert"

lemma wp_dispatch:
  assumes "at_disp cf i p z \<sigma> s" "dispatching p \<sigma> n"
    and Q: "\<And>\<sigma>' s'. at_disp cf i p z \<sigma>' s' \<Longrightarrow> worked_more \<sigma> \<sigma>' \<Longrightarrow>
      (needs_work (n_kind n) \<longrightarrow> dp_worked \<sigma>' (n_id n)) \<Longrightarrow> Q () s'"
    and E: "\<And>e \<sigma>' s'. at_disp cf i p z \<sigma>' s' \<Longrightarrow> worked_more \<sigma> \<sigma>' \<Longrightarrow> \<not> benign cf i p \<Longrightarrow> E e s'"
  shows "wp (dispatch cf i p n d) Q E s"
proof -
  have "wp (execDDL cf i p n d) Q E s" if "IssuesDDL (n_kind n)"
    using that by (intro wp_execDDL [OF assms(1,2)]) (auto simp: work_done_def more_work_def intro: Q E)
  moreover have "wp (runAssertions cf n) Q E s" if "n_kind n = KindCatalogAssert"
    using that by (intro wp_runAssertions [OF assms(1,2)]) (auto simp: work_done_def more_work_def intro: Q E)
  moreover have "wp (or_fail (xcall (Slept k) (cf_sleep cf False k))) Q E s" if "n_kind n = KindWait" for k
    apply (rule wp_or_fail, rule wp_xcall)
    subgoal for r w w0
    proof -
      assume "cf_sleep cf False k w0 = (r, w)"
      then have "r \<noteq> None \<Longrightarrow> \<not> benign cf i p" by (auto dest: port_failures(5))
      then show ?thesis
        using at_effect [OF assms(1) slept, of k r w] assms(2) that
        by (auto split: option.splits simp: dispatching_def needs_work_def IssuesDDL_def intro!: Q E)
    qed
    done
  moreover have "\<not> benign cf i p" if "n_kind n = KindWait" "\<forall>w. n_params n \<noteq> Some (WaitParams w)"
    using benign_shape(3) [OF _ dispatching_set [OF assms(2)] that(1), of cf i] that(2) by blast
  moreover have "\<not> benign cf i p" if "n_kind n = UnknownKind u" for u
    using benign_shape(4) [OF _ dispatching_set [OF assms(2)]] that by blast
  ultimately show ?thesis
    using Q [OF assms(1)] E [OF assms(1)]
    by (cases "n_kind n") (auto simp: dispatch_def IssuesDDL_def needs_work_def split: option.splits node_params.splits)
qed

lemma wp_verify:
  assumes "at_disp cf i p z \<sigma> s" "\<not> dp_halted \<sigma>" "NodeByID p (n_id n) = Some n" "dp_state \<sigma> (n_id n) = NodeVerifying"
    and Q: "\<And>c s'. at_disp cf i p z (\<sigma>\<lparr>dp_checked := c\<rparr>) s' \<Longrightarrow>
      (n_kind n = KindIndexVerify \<longrightarrow> c (n_id n)) \<Longrightarrow> Q () s'"
    and E: "\<And>e s'. at_disp cf i p z \<sigma> s' \<Longrightarrow> \<not> benign cf i p \<Longrightarrow> E e s'"
  shows "wp (verify cf n) Q E s"
proof -
  have *: "wp (sbind (xcall (Verified (n_id n) cs) (cf_verify cf cs))
      (\<lambda>r. scheck (judge (\<lambda>c _. c) cs r) (sreturn ()))) Q E s"
    if cs: "n_params n = Some (VerifyParams cs)" for cs
    apply (simp, rule wp_xcall)
    subgoal for r w w0
    proof -
      assume "cf_verify cf cs w0 = (r, w)"
      then have nb: "judge (\<lambda>c _. c) cs r = Some e \<Longrightarrow> \<not> benign cf i p" for e by (auto dest: port_failures(7))
      let ?x = "Verified (n_id n) cs r"
      have "dispatch_step cf i p \<sigma> ?x" using assms(2-4) cs by (auto intro: verified)
      then have at: "at_disp cf i p z (dp_update p \<sigma> ?x) (s\<lparr>x_world := w, x_trace := x_trace s @ [?x]\<rparr>)"
        by (intro at_effect [OF assms(1)]) simp_all
      show ?thesis
        using at Q E nb by (cases "judge (\<lambda>c _. c) cs r") auto
    qed
    done
  show ?thesis
  proof (cases "n_kind n = KindIndexVerify")
    case False
    then show ?thesis using Q [of "dp_checked \<sigma>"] assms(1) by (simp add: verify_def)
  next
    case kind: True
    show ?thesis
    proof (cases "\<exists>cs. n_params n = Some (VerifyParams cs)")
      case True
      then obtain cs where "n_params n = Some (VerifyParams cs)" by blast
      with * kind show ?thesis by (simp only: verify_def option.case node_params.case not_True_eq_False if_False simp_thms)
    next
      case False
      then have "\<not> benign cf i p"
        using benign_shape(2) [OF _ NodeByID_set [OF assms(3)] kind, of cf i] by blast
      then show ?thesis
        using False E [OF assms(1)] kind by (auto simp: verify_def split: option.splits node_params.splits)
    qed
  qed
qed

subsection \<open>One node\<close>

lemma may_enter_simps [simp]:
  "may_enter cf \<sigma> n NodeFailed" "may_enter cf \<sigma> n NodeRetryWait" "may_enter cf \<sigma> n NodeReady"
  "may_enter cf \<sigma> n NodePending"
  by (simp_all add: may_enter_def)

lemma wp_failed_with:
  assumes "at_disp cf i p z \<sigma> s" "NodeByID p (n_id n) = Some n" "\<not> dp_halted \<sigma>"
    and "dp_state \<sigma> (n_id n) \<in> {NodeRunning, NodeVerifying, NodeRetryWait}" "\<not> benign cf i p"
    and E: "\<And>e s'. okay cf i p z s' \<Longrightarrow> \<not> benign cf i p \<Longrightarrow> E e s'"
  shows "wp (failed_with cf i n info cl cause) Q E s"
  unfolding failed_with_def
  apply (simp, rule wp_transition [OF assms(1-3)])
     apply simp
  subgoal using assms(4) by (auto simp: ValidTransition_simps)
   apply (simp add: auditNodeFailed_def, rule wp_audit_ignored, assumption)
  using assms(5) apply (auto intro: E at_okay)
  done

text \<open>What taking a node to its end changes.\<close>

definition node_done :: "node_id \<Rightarrow> dispatcher \<Rightarrow> dispatcher \<Rightarrow> bool" where
  "node_done j \<sigma> \<sigma>' \<longleftrightarrow> dp_state \<sigma>' = (dp_state \<sigma>)(j := NodeDone) \<and> \<not> dp_halted \<sigma>' \<and>
     (\<forall>k. k \<noteq> j \<longrightarrow> dp_tries \<sigma>' k = dp_tries \<sigma> k)"

lemma wp_verifyPhase:
  assumes "at_disp cf i p z \<sigma> s" "NodeByID p (n_id n) = Some n" "\<not> dp_halted \<sigma>" "dp_state \<sigma> (n_id n) = NodeVerifying"
    and Q: "\<And>\<sigma>' s'. at_disp cf i p z \<sigma>' s' \<Longrightarrow> node_done (n_id n) \<sigma> \<sigma>' \<Longrightarrow> Q () s'"
    and E: "\<And>e s'. okay cf i p z s' \<Longrightarrow> \<not> benign cf i p \<Longrightarrow> E e s'"
  shows "wp (verifyPhase cf i n) Q E s"
  unfolding verifyPhase_def Let_def
proof (simp, rule wp_verify [OF assms(1,3,2,4)])
  fix c s' assume a: "at_disp cf i p z (\<sigma>\<lparr>dp_checked := c\<rparr>) s'" "n_kind n = KindIndexVerify \<longrightarrow> c (n_id n)"
  then show "wp (transition cf i n NodeDone ReasonNormal no_info) Q E s'"
    using assms(2-4)
    by (intro wp_transition [OF a(1)]) (auto simp: may_enter_def node_done_def ValidTransition_simps intro!: Q E)
qed (use assms(2-4) E in \<open>auto intro: wp_failed_with\<close>)

definition ready_node :: "'w config \<Rightarrow> plan \<Rightarrow> dispatcher \<Rightarrow> node \<Rightarrow> int \<Rightarrow> bool" where
  "ready_node cf p \<sigma> n k \<longleftrightarrow> \<not> dp_halted \<sigma> \<and> NodeByID p (n_id n) = Some n \<and> dp_state \<sigma> (n_id n) = NodeReady \<and>
     (\<forall>d \<in> set (n_depends_on n). d \<noteq> n_id n \<and> IsComplete (dp_state \<sigma> d)) \<and> dp_tries \<sigma> (n_id n) = k \<and>
     k < max 1 (rp_max_attempts (cf_retry cf))"

lemma wp_launch:
  assumes at: "at_disp cf i p z \<sigma> s" and ready: "ready_node cf p \<sigma> n k"
    and Q: "\<And>r t \<sigma>' s'. at_disp cf i p z \<sigma>' s' \<Longrightarrow> dp_state \<sigma>' = (dp_state \<sigma>)(n_id n := NodeRunning) \<Longrightarrow>
      \<not> dp_halted \<sigma>' \<Longrightarrow> dp_tries \<sigma>' = (dp_tries \<sigma>)(n_id n := k + 1) \<Longrightarrow>
      (r = Inr () \<and> needs_work (n_kind n) \<longrightarrow> dp_worked \<sigma>' (n_id n)) \<Longrightarrow>
      (r \<noteq> Inr () \<longrightarrow> \<not> benign cf i p) \<Longrightarrow> Q (r, t) s'"
    and E: "\<And>e s'. okay cf i p z s' \<Longrightarrow> \<not> benign cf i p \<Longrightarrow> E e s'"
  shows "wp (launch cf i p n) Q E s"
proof -
  let ?j = "n_id n"
  have go: "wp (transition cf i n NodeRunning ReasonNormal no_info)
      (\<lambda>_. wp (xread (cf_now cf)) (\<lambda>start. wp (dispatch cf i p n d)
        (\<lambda>_. wp (xread (cf_now cf)) (\<lambda>fin. Q (Inr (), fin - start)) E)
        (\<lambda>e. wp (xread (cf_now cf)) (\<lambda>fin. Q (Inl e, fin - start)) E)) E) E s'"
    if at': "at_disp cf i p z (\<sigma>\<lparr>dp_granted := g\<rparr>) s'" and g: "IsDestructive (n_kind n) \<longrightarrow> g ?j" for d g s'
  proof (rule wp_transition [OF at'])
    let ?\<sigma> = "moved ?j NodeRunning (tried ?j NodeRunning (\<sigma>\<lparr>dp_granted := g\<rparr>))"
    fix s2 assume at2: "at_disp cf i p z ?\<sigma> s2"
    have d: "dispatching p ?\<sigma> n" using ready g by (auto simp: ready_node_def dispatching_def)
    have tries: "dp_tries ?\<sigma> = (dp_tries \<sigma>)(?j := k + 1)" "\<not> dp_halted ?\<sigma>" using ready by (auto simp: ready_node_def)
    show "wp (xread (cf_now cf)) (\<lambda>start. wp (dispatch cf i p n d)
        (\<lambda>_. wp (xread (cf_now cf)) (\<lambda>fin. Q (Inr (), fin - start)) E)
        (\<lambda>e. wp (xread (cf_now cf)) (\<lambda>fin. Q (Inl e, fin - start)) E)) E s2"
      by (rule wp_xread, rule wp_dispatch [OF _ d])
         (use at2 tries in \<open>auto intro!: wp_xread Q simp: worked_more_simps\<close>)
  qed (use ready g E in \<open>auto simp: ready_node_def may_enter_def ValidTransition_simps\<close>)
  have auth: "wp (authorizeNode cf i p n) Q' E' s'"
    if "at_disp cf i p z \<sigma> s'" "IsDestructive (n_kind n)"
      "\<And>d s''. at_disp cf i p z (\<sigma>\<lparr>dp_granted := (dp_granted \<sigma>)(?j := True)\<rparr>) s'' \<Longrightarrow> Q' d s''"
      "\<And>e s''. okay cf i p z s'' \<Longrightarrow> \<not> benign cf i p \<Longrightarrow> E' e s''" for Q' E' s'
    using that ready by (intro wp_authorizeNode [OF that(1)]) (auto simp: ready_node_def)
  have node: "NodeByID p ?j = Some n" using ready by (simp add: ready_node_def)
  have same: "at_disp cf i p z (\<sigma>\<lparr>dp_granted := dp_granted \<sigma>\<rparr>) s'" if "at_disp cf i p z \<sigma> s'" for s'
    using that by simp
  show ?thesis
  proof (cases "IsDestructive (n_kind n)")
    case True
    then show ?thesis
      unfolding launch_def count_attempt_def
      by simp (rule auth [OF at_count [OF at node]], simp_all add: E go)
  next
    case False
    then show ?thesis
      unfolding launch_def count_attempt_def
      by simp (rule go [OF same [OF at_count [OF at node]]], simp_all)
  qed
qed

text \<open>The attempt loop, by induction on the attempts that are left.\<close>

lemma wp_attempts:
  assumes "at_disp cf i p z \<sigma> s" "ready_node cf p \<sigma> n k"
    and "\<And>\<sigma>' s'. at_disp cf i p z \<sigma>' s' \<Longrightarrow> node_done (n_id n) \<sigma> \<sigma>' \<Longrightarrow> Q () s'"
    and "\<And>e s'. okay cf i p z s' \<Longrightarrow> \<not> benign cf i p \<Longrightarrow> E e s'"
  shows "wp (attempts cf i p n k) Q E s"
  using assms
proof (induction "nat (rp_max_attempts (cf_retry cf) - k)" arbitrary: k \<sigma> s rule: less_induct)
  case less
  note Q = less.prems(3) and E = less.prems(4)
  let ?j = "n_id n"
  have node: "NodeByID p ?j = Some n" using less.prems(2) by (simp add: ready_node_def)
  let ?m = "rp_max_attempts (cf_retry cf)"
  have retry: "wp (let class = Classify (cf_classifier cf) (Some e);
             info = \<lparr>ti_duration = t, ti_err = Some e, ti_class = Some class\<rparr> in
         if \<not> cl_Retryable class \<or> \<not> Retryable (n_kind n) then failed_with cf i n info class e
         else sbind (transition cf i n NodeRetryWait ReasonNormal info) (\<lambda>_.
           if \<not> RetrySafe (n_kind n) then
             sbind (auditRetryDeferred cf i n class e) (\<lambda>_. sfail errUnsafeRetry)
           else if k + 1 \<ge> ?m then failed_with cf i n info class e
           else sbind (xread (cf_random cf)) (\<lambda>random.
             let delay = JitteredDelay (cf_scale cf) (cf_convert cf) (cf_retry cf) (k + 2) random in
             sbind (xcall (Slept delay) (cf_sleep cf True delay)) (\<lambda>r.
             if r \<noteq> None then sfail errStopped
             else sbind (transition cf i n NodeReady ReasonNormal no_info) (\<lambda>_.
               attempts cf i p n (k + 1)))))) Q E s1"
    if a: "at_disp cf i p z \<sigma>1 s1" "dp_state \<sigma>1 = (dp_state \<sigma>)(?j := NodeRunning)" "\<not> dp_halted \<sigma>1"
        "dp_tries \<sigma>1 = (dp_tries \<sigma>)(?j := k + 1)" and nb: "\<not> benign cf i p" for e t \<sigma>1 s1
  proof -
    let ?\<sigma>2 = "moved ?j NodeRetryWait (tried ?j NodeRetryWait \<sigma>1)"
    let ?\<sigma>3 = "moved ?j NodeReady (tried ?j NodeReady ?\<sigma>2)"
    have halted: "\<not> dp_halted ?\<sigma>2" using a(3) by simp
    have again: "wp (attempts cf i p n (k + 1)) Q E s3"
      if "at_disp cf i p z ?\<sigma>3 s3" "\<not> k + 1 \<ge> ?m" for s3
    proof (rule less.hyps [OF _ that(1)])
      show "nat (?m - (k + 1)) < nat (?m - k)" using that(2) by simp
      show "ready_node cf p ?\<sigma>3 n (k + 1)" using less.prems(2) that(2) a(2-4) by (auto simp: ready_node_def)
      show "Q () s'" if "at_disp cf i p z \<sigma>' s'" "node_done ?j ?\<sigma>3 \<sigma>'" for \<sigma>' s'
        using that a(2,4) by (intro Q [OF that(1)]) (auto simp: node_done_def)
    qed (rule E)
    have sleep: "wp (xcall (Slept d) (cf_sleep cf True d))
        (\<lambda>r. wp (if r \<noteq> None then sfail errStopped else sbind (transition cf i n NodeReady ReasonNormal no_info)
           (\<lambda>_. attempts cf i p n (k + 1))) Q E) E s2"
      if "at_disp cf i p z ?\<sigma>2 s2" "\<not> k + 1 \<ge> ?m" for d s2
      apply (rule wp_xcall)
      subgoal for r w
        using at_effect [OF that(1) slept [OF halted], of d r w] that(2) nb
        by (auto intro!: wp_transition [OF _ node halted] E again simp: ValidTransition_simps intro: at_okay)
      done
    have wait: "wp (if \<not> RetrySafe (n_kind n) then
             sbind (auditRetryDeferred cf i n cls e) (\<lambda>_. sfail errUnsafeRetry)
           else if k + 1 \<ge> ?m then failed_with cf i n info cls e
           else sbind (xread (cf_random cf)) (\<lambda>random.
             let delay = JitteredDelay (cf_scale cf) (cf_convert cf) (cf_retry cf) (k + 2) random in
             sbind (xcall (Slept delay) (cf_sleep cf True delay)) (\<lambda>r.
             if r \<noteq> None then sfail errStopped
             else sbind (transition cf i n NodeReady ReasonNormal no_info) (\<lambda>_.
               attempts cf i p n (k + 1))))) Q E s2"
      if at2: "at_disp cf i p z ?\<sigma>2 s2" for cls info s2
    proof -
      have "wp (sbind (auditRetryDeferred cf i n cls e) (\<lambda>_. sfail errUnsafeRetry)) Q E s2"
        by (simp add: auditRetryDeferred_def, rule wp_audit_ignored [OF at2]) (use nb in \<open>auto intro: E at_okay\<close>)
      moreover have "wp (failed_with cf i n info cls e) Q E s2"
        by (rule wp_failed_with [OF at2 node halted]) (use nb E in simp_all)
      moreover have "wp (sbind (xread (cf_random cf)) (\<lambda>random.
             let delay = JitteredDelay (cf_scale cf) (cf_convert cf) (cf_retry cf) (k + 2) random in
             sbind (xcall (Slept delay) (cf_sleep cf True delay)) (\<lambda>r.
             if r \<noteq> None then sfail errStopped
             else sbind (transition cf i n NodeReady ReasonNormal no_info) (\<lambda>_.
               attempts cf i p n (k + 1))))) Q E s2" if "\<not> k + 1 \<ge> ?m"
        using that at2
        by (simp only: wp_simps Let_def) (rule wp_xread, rule sleep, simp_all)
      ultimately show ?thesis by (simp only: split: if_split) blast
    qed
    show ?thesis
    proof (cases "\<not> cl_Retryable (Classify (cf_classifier cf) (Some e)) \<or> \<not> Retryable (n_kind n)")
      case True
      then show ?thesis
        by (simp only: Let_def if_True) (rule wp_failed_with [OF a(1) node a(3) _ nb E], simp_all add: a(2))
    next
      case False
      then show ?thesis
        by (simp only: Let_def if_False wp_simps)
           (rule wp_transition [OF a(1) node a(3) may_enter_simps(2)], simp add: a(2) ValidTransition_simps,
             erule wait [unfolded Let_def], rule E)
    qed
  qed
  show ?case
    unfolding attempts.simps [of cf i p n k]
    apply (simp only: wp_simps)
    apply (rule wp_launch [OF less.prems(1,2)])
    subgoal for r t \<sigma>1 s1
    proof (cases r)
      case (Inr u)
      assume a: "at_disp cf i p z \<sigma>1 s1" "dp_state \<sigma>1 = (dp_state \<sigma>)(?j := NodeRunning)" "\<not> dp_halted \<sigma>1"
        "dp_tries \<sigma>1 = (dp_tries \<sigma>)(?j := k + 1)" "r = Inr () \<and> needs_work (n_kind n) \<longrightarrow> dp_worked \<sigma>1 ?j"
      have w: "may_enter cf \<sigma>1 n NodeVerifying" using a(5) Inr by (simp add: may_enter_def needs_work_def)
      have "wp (verifyPhase cf i n) Q E s2"
        if "at_disp cf i p z (moved ?j NodeVerifying (tried ?j NodeVerifying \<sigma>1)) s2" for s2
        using that node a(2-4) by (intro wp_verifyPhase [OF that node] Q E) (auto simp: node_done_def)
      then show ?thesis
        using Inr a(2) by (auto intro!: wp_transition [OF a(1) node a(3) w] E simp: ValidTransition_simps)
    next
      case (Inl e)
      assume a: "at_disp cf i p z \<sigma>1 s1" "dp_state \<sigma>1 = (dp_state \<sigma>)(?j := NodeRunning)" "\<not> dp_halted \<sigma>1"
        "dp_tries \<sigma>1 = (dp_tries \<sigma>)(?j := k + 1)" and "r \<noteq> Inr () \<longrightarrow> \<not> benign cf i p"
      then have nb: "\<not> benign cf i p" by (simp add: Inl)
      show ?thesis using retry [OF a nb] by (simp only: Inl case_prod_conv sum.case)
    qed
    by (rule E)
qed

subsection \<open>The run\<close>

lemma dependency_missing_None:
  "each_check (dependency_missing ss) ds = None \<Longrightarrow> d \<in> set ds \<Longrightarrow> IsComplete (ns_state (status_in ss d))"
  by (auto simp: each_check_None dependency_missing_def status_in_def split: option.splits if_splits)

text \<open>A node that the loop can take up: its dependencies are complete and its state is one that goes on.\<close>

definition startable :: "plan \<Rightarrow> (node_id \<Rightarrow> node_state) \<Rightarrow> node \<Rightarrow> bool" where
  "startable p st n \<longleftrightarrow> workable (st (n_id n)) \<and>
     (\<forall>d \<in> set (n_depends_on n). d \<in> n_id ` set (p_nodes p) \<and> IsComplete (st d))"

lemma startable_dependencies:
  assumes "startable p (dp_state \<sigma>) n" "at_disp cf i p z \<sigma> s"
  shows "each_check (dependency_missing (x_states s)) (n_depends_on n) = None"
proof -
  have "dependency_missing (x_states s) d = None" if "d \<in> set (n_depends_on n)" for d
  proof -
    have d: "d \<in> fst ` set (x_states s)" "IsComplete (ns_state (status_in (x_states s) d))"
      using assms that by (auto simp: startable_def at_disp_def keyed_def)
    then obtain st where "map_of (x_states s) d = Some st" by (metis map_of_eq_None_iff not_None_eq)
    then show ?thesis using d(2) by (simp add: dependency_missing_def status_in_def)
  qed
  then show ?thesis by (simp add: each_check_None)
qed

lemma wp_runNode:
  assumes at: "at_disp cf i p z \<sigma> s" and node: "NodeByID p (n_id n) = Some n" "\<not> dp_halted \<sigma>" "dp_tries \<sigma> (n_id n) = 0"
    and incomplete: "\<not> IsComplete (dp_state \<sigma> (n_id n))"
    and Q: "\<And>\<sigma>' s'. at_disp cf i p z \<sigma>' s' \<Longrightarrow> node_done (n_id n) \<sigma> \<sigma>' \<Longrightarrow> Q () s'"
    and E: "\<And>e s'. okay cf i p z s' \<Longrightarrow> \<not> (benign cf i p \<and> startable p (dp_state \<sigma>) n) \<Longrightarrow> E e s'"
  shows "wp (runNode cf i p n) Q E s"
proof (cases "each_check (dependency_missing (x_states s)) (n_depends_on n)")
  case (Some e)
  then have "\<not> startable p (dp_state \<sigma>) n" using startable_dependencies [OF _ at] by auto
  then show ?thesis using Some E [OF at_okay [OF at]] by (simp add: runNode_def)
next
  case None
  let ?j = "n_id n" and ?st = "ns_state (status_in (x_states s) (n_id n))"
  have deps: "\<forall>d \<in> set (n_depends_on n). IsComplete (dp_state \<sigma> d)"
    using dependency_missing_None [OF None] at by (simp add: at_disp_def)
  have st: "?st = dp_state \<sigma> ?j" using at by (simp add: at_state)
  have E': "E e s'" if "okay cf i p z s'" "\<not> benign cf i p" for e s' using that by (intro E) auto
  have ready: "wp (attempts cf i p n 0) Q E s'"
    if "at_disp cf i p z \<sigma>' s'" "dp_state \<sigma>' = (dp_state \<sigma>)(?j := NodeReady)" "dp_tries \<sigma>' = dp_tries \<sigma>"
      "\<not> dp_halted \<sigma>'" for \<sigma>' s'
    using that node deps incomplete
    by (intro wp_attempts [OF that(1)]) (auto simp: ready_node_def node_done_def intro!: Q E')
  have enter: "wp (transition cf i n NodeReady ReasonNormal no_info) (\<lambda>_. wp (attempts cf i p n 0) Q E) E s"
    if "dp_state \<sigma> ?j = NodePending \<or> dp_state \<sigma> ?j = NodeRetryWait"
    by (rule wp_transition [OF at node(1,2)])
       (use that node(2) E' in \<open>auto intro!: ready simp: ValidTransition_simps\<close>)
  have stay: "dp_state \<sigma> ?j = x \<Longrightarrow> dp_state \<sigma> = (dp_state \<sigma>)(?j := x)" for x by auto
  have stuck: "E e s" if "\<not> workable (dp_state \<sigma> ?j)" for e
    using that by (intro E at_okay [OF at]) (auto simp: startable_def)
  show ?thesis
  proof (cases "dp_state \<sigma> ?j")
    case NodeReady
    then show ?thesis using st node(2) by (auto simp: runNode_def None intro!: ready [OF at stay])
  next
    case NodeVerifying
    then show ?thesis
      using st by (auto simp: runNode_def None intro!: wp_verifyPhase [OF at node(1,2)] Q E')
  next
    case NodePending
    then show ?thesis using st enter by (simp add: runNode_def None)
  next
    case NodeRetryWait
    then show ?thesis using st enter by (simp add: runNode_def None)
  qed (use st stuck incomplete in \<open>auto simp: runNode_def None workable_def IsComplete_def\<close>)
qed

definition in_state :: "(node_state \<Rightarrow> bool) \<Rightarrow> (node_id \<times> node_status) list \<Rightarrow> nat" where
  "in_state P ss = length (filter (\<lambda>x. P (ns_state (snd x))) ss)"

lemma tally_counts:
  "tally r ss = r\<lparr>res_done := in_state (\<lambda>st. st = NodeDone) ss, res_skipped := in_state (\<lambda>st. st = NodeSkipped) ss,
     res_failed := in_state (\<lambda>st. st = NodeFailed) ss, res_remaining := in_state (\<lambda>st. \<not> IsComplete st) ss\<rparr>"
proof -
  have "foldl tally_one q (map snd ss) = q\<lparr>
      res_done := res_done q + in_state (\<lambda>st. st = NodeDone) ss,
      res_skipped := res_skipped q + in_state (\<lambda>st. st = NodeSkipped) ss,
      res_failed := res_failed q + in_state (\<lambda>st. st = NodeFailed) ss,
      res_remaining := res_remaining q + in_state (\<lambda>st. \<not> IsComplete st) ss\<rparr>" for q
    by (induction ss arbitrary: q)
       (auto simp: in_state_def tally_one_def IsComplete_def split: node_state.splits)
  then show ?thesis by (simp add: tally_def)
qed

lemma tally_fields [simp]:
  "res_run (tally r ss) = res_run r" "res_cancelled (tally r ss) = res_cancelled r"
  "res_halted_at (tally r ss) = res_halted_at r" "res_order (tally r ss) = res_order r"
  "res_total (tally r ss) = res_total r" "tally (tally r ss) ss' = tally r ss'"
  by (simp_all add: tally_counts)

text \<open>The answer of a run: its counters are those of the nodes, and without an error it is complete or stopped.\<close>

definition answers :: "'w config \<Rightarrow> run_id \<Rightarrow> plan \<Rightarrow> dispatcher \<Rightarrow> dispatcher \<Rightarrow> node_id set \<Rightarrow> bool
    \<Rightarrow> result \<times> err option \<Rightarrow> 'w xstate \<Rightarrow> bool" where
  "answers cf i p z \<sigma> J G a s \<longleftrightarrow> (\<exists>\<sigma>'. at_disp cf i p z \<sigma>' s \<and> (snd a \<noteq> None \<longrightarrow> \<not> res_cancelled (fst a)) \<and>
     (G \<longrightarrow> snd a = None \<and> \<not> res_cancelled (fst a)) \<and> fst a = tally (fst a) (x_states s) \<and>
     (snd a = None \<and> \<not> res_cancelled (fst a) \<longrightarrow>
       (\<forall>j. j \<in> J \<or> IsComplete (dp_state \<sigma> j) \<longrightarrow> IsComplete (dp_state \<sigma>' j))))"

lemma wp_finish:
  assumes "at_disp cf i p z \<sigma> s" "res_run res = i" "\<not> res_cancelled res"
  shows "wp (finish cf res None) (answers cf i p z \<sigma> {} G) E s"
  unfolding finish_def Let_def
  by (simp, rule wp_audit_ignored [OF assms(1)]) (use assms(2,3) in \<open>auto simp: answers_def\<close>)

lemma wp_finish_failed:
  assumes "okay cf i p z s" "res_run res = i" "\<not> res_cancelled res" "\<not> G"
  shows "wp (finish cf res (Some e)) (answers cf i p z \<sigma> J G) E s"
proof -
  obtain \<sigma>1 where "at_disp cf i p z \<sigma>1 s" using assms(1) by (auto simp: okay_def)
  then show ?thesis
    unfolding finish_def Let_def
    by (simp, intro wp_audit_ignored) (use assms(2-4) in \<open>auto simp: answers_def\<close>)
qed

lemma wp_stop:
  assumes "okay cf i p z s" "res_run res = i" "\<not> G"
  shows "wp (stop cf res reason) (answers cf i p z \<sigma> J G) E s"
proof -
  obtain \<sigma>1 where "at_disp cf i p z \<sigma>1 s" using assms(1) by (auto simp: okay_def)
  then show ?thesis
    unfolding stop_def Let_def
    by (simp, intro wp_audit_ignored) (use assms(2,3) in \<open>auto simp: answers_def\<close>)
qed

lemma wp_settle:
  assumes "okay cf i p z s" "res_run res = i" "\<not> res_cancelled res" "\<not> G"
  shows "wp (settle cf res j e) (answers cf i p z \<sigma> J G) E s"
  using assms by (auto simp: settle_def intro!: wp_stop wp_finish_failed)

lemma wp_stopRequested:
  assumes "\<And>r w. (r \<noteq> None \<longrightarrow> \<not> benign cf i p) \<Longrightarrow> Q r (s\<lparr>x_world := w\<rparr>)"
    "\<And>e w. \<not> benign cf i p \<Longrightarrow> E e (s\<lparr>x_world := w\<rparr>)"
  shows "wp (stopRequested cf i) Q E s"
proof -
  have nb: "cf_signalled cf w0 = (True, w) \<Longrightarrow> \<not> benign cf i p" "cf_fenced cf w0 = (True, w) \<Longrightarrow> \<not> benign cf i p"
    "cf_cancel_requested cf i w0 = (Inr True, w) \<Longrightarrow> \<not> benign cf i p"
    "cf_cancel_requested cf i w0 = (Inl e, w) \<Longrightarrow> \<not> benign cf i p" for w0 w e
    by (fact port_failures)+
  show ?thesis
    unfolding stopRequested_def
    by (auto intro!: wp_xread wp_lift_wrap assms split: sum.splits simp: nb)
qed

text \<open>An order in which every node can be taken up when its turn comes.\<close>

fun in_order :: "plan \<Rightarrow> (node_id \<Rightarrow> node_state) \<Rightarrow> node_id list \<Rightarrow> bool" where
  "in_order p st [] = True"
| "in_order p st (j # js) = ((case NodeByID p j of None \<Rightarrow> False | Some n \<Rightarrow> startable p st n) \<and>
     in_order p (if IsComplete (st j) then st else st(j := NodeDone)) js)"

lemma IsComplete_simps [simp]: "IsComplete NodeDone" "\<not> IsComplete NodeRunning" "\<not> IsComplete NodePending"
  "\<not> IsComplete NodeReady" "\<not> IsComplete NodeVerifying"
  by (simp_all add: IsComplete_def)

lemma wp_walk:
  assumes "at_disp cf i p z \<sigma> s" "\<not> dp_halted \<sigma>" "res_run res = i" "\<not> res_cancelled res" "distinct js"
    and "\<forall>j \<in> set js. dp_tries \<sigma> j = 0"
  shows "wp (walk cf i p res js) (answers cf i p z \<sigma> (set js) (benign cf i p \<and> in_order p (dp_state \<sigma>) js)) E s"
  using assms
proof (induction js arbitrary: \<sigma> s)
  case Nil
  then show ?case by (auto intro: wp_finish)
next
  case (Cons j js)
  note at = Cons.prems(1)
  let ?G = "benign cf i p \<and> in_order p (dp_state \<sigma>) (j # js)"
  let ?A = "answers cf i p z \<sigma> (set (j # js)) ?G"
  have st: "ns_state (status_in (x_states s) j) = dp_state \<sigma> j" using at by (rule at_state)
  show ?case
  proof (cases "IsComplete (dp_state \<sigma> j)")
    case True
    have "wp (walk cf i p res js) (answers cf i p z \<sigma> (set js) (benign cf i p \<and> in_order p (dp_state \<sigma>) js)) E s"
      using Cons.prems by (intro Cons.IH) auto
    then show ?thesis
      using True st by simp (erule wp_mono, auto simp: answers_def)
  next
    case False
    have next_node: "wp (walk cf i p res js) ?A E s'"
      if \<sigma>': "at_disp cf i p z \<sigma>' s'" "node_done j \<sigma> \<sigma>'" for \<sigma>' s'
    proof -
      have "wp (walk cf i p res js) (answers cf i p z \<sigma>' (set js) (benign cf i p \<and> in_order p (dp_state \<sigma>') js)) E s'"
        using \<sigma>' Cons.prems(3-6) by (intro Cons.IH) (auto simp: node_done_def)
      then show ?thesis
        by (rule wp_mono) (use \<sigma>'(2) False in \<open>auto simp: answers_def node_done_def\<close>)
    qed
    note ends = wp_stop wp_finish_failed
    let ?visit = "case NodeByID p j of
         None \<Rightarrow> finish cf res (Some (Detailf ErrInvalidPlan))
       | Some n \<Rightarrow> stry (runNode cf i p n) (\<lambda>r. case r of
           Inr _ \<Rightarrow> walk cf i p res js
         | Inl e \<Rightarrow> settle cf res j e)"
    have world: "okay cf i p z (s\<lparr>x_world := w\<rparr>)" for w using at by (auto simp: okay_def)
    have visit: "wp ?visit ?A E (s\<lparr>x_world := w\<rparr>)" for w
    proof (cases "NodeByID p j")
      case None
      then show ?thesis using world Cons.prems(3,4) by (auto intro: ends)
    next
      case (Some n)
      then have n: "n_id n = j" by (rule NodeByID_id)
      have "wp (runNode cf i p n) (\<lambda>_. wp (walk cf i p res js) ?A E) (\<lambda>e. wp (settle cf res j e) ?A E)
          (s\<lparr>x_world := w\<rparr>)"
      proof (rule wp_runNode)
        show "at_disp cf i p z \<sigma> (s\<lparr>x_world := w\<rparr>)" "NodeByID p (n_id n) = Some n" "\<not> dp_halted \<sigma>"
          "dp_tries \<sigma> (n_id n) = 0" "\<not> IsComplete (dp_state \<sigma> (n_id n))"
          using at Some n Cons.prems(2,6) False by simp_all
        show "wp (walk cf i p res js) ?A E s'"
          if "at_disp cf i p z \<sigma>' s'" "node_done (n_id n) \<sigma> \<sigma>'" for \<sigma>' s'
          using next_node that by (simp only: n)
        show "wp (settle cf res j e) ?A E s'"
          if "okay cf i p z s'" "\<not> (benign cf i p \<and> startable p (dp_state \<sigma>) n)" for e s'
        proof -
          have "\<not> ?G" using that(2) Some by auto
          with that(1) Cons.prems(3,4) show ?thesis by (rule wp_settle)
        qed
      qed
      then show ?thesis by (simp add: Some)
    qed
    have "wp (stopRequested cf i)
        (\<lambda>x. wp (case x of None \<Rightarrow> ?visit | Some reason \<Rightarrow> stop cf res reason) ?A E)
        (\<lambda>e. wp (finish cf res (Some e)) ?A E) s"
      using visit world Cons.prems(3,4)
      by (intro wp_stopRequested [where p = p]) (auto split: option.split intro: ends simp del: set_simps)
    then show ?thesis using False st by (simp only: walk.simps wp_simps wp_xop_simps if_False sum.case)
  qed
qed

text \<open>Adopting nodes that a dead process left running.\<close>

definition recovered :: "node_id list \<Rightarrow> dispatcher \<Rightarrow> dispatcher \<Rightarrow> bool" where
  "recovered js \<sigma> \<sigma>' \<longleftrightarrow> \<not> dp_halted \<sigma>' \<and> dp_tries \<sigma>' = dp_tries \<sigma> \<and>
     dp_state \<sigma>' = (\<lambda>j. if j \<in> set js \<and> dp_state \<sigma> j = NodeRunning then NodePending else dp_state \<sigma> j)"

lemma wp_recoverOrphans:
  assumes "at_disp cf i p z \<sigma> s" "\<not> dp_halted \<sigma>" "\<forall>j \<in> set js. NodeByID p j \<noteq> None"
    and "\<And>\<sigma>' s'. at_disp cf i p z \<sigma>' s' \<Longrightarrow> recovered js \<sigma> \<sigma>' \<Longrightarrow> Q () s'"
    and "\<And>e s'. okay cf i p z s' \<Longrightarrow> \<not> benign cf i p \<Longrightarrow> E e s'"
  shows "wp (recoverOrphans cf i p js) Q E s"
  using assms
proof (induction js arbitrary: \<sigma> s)
  case Nil
  then show ?case by (auto simp: recovered_def)
next
  case (Cons j js)
  note at = Cons.prems(1) and E = Cons.prems(5)
  have st: "ns_state (status_in (x_states s) j) = dp_state \<sigma> j" using at by (rule at_state)
  have known: "\<forall>j \<in> set js. NodeByID p j \<noteq> None" using Cons.prems(3) by simp
  show ?case
  proof (cases "dp_state \<sigma> j = NodeRunning")
    case False
    then have "recovered (j # js) \<sigma> \<sigma>' \<longleftrightarrow> recovered js \<sigma> \<sigma>'" for \<sigma>' by (auto simp: recovered_def fun_eq_iff)
    then show ?thesis using Cons.IH [OF at Cons.prems(2) known] Cons.prems(4,5) False st by simp
  next
    case running: True
    obtain n where Some: "NodeByID p j = Some n" using Cons.prems(3) by auto
    then have n: "n_id n = j" by (rule NodeByID_id)
    let ?\<sigma> = "moved j NodePending (tried j NodePending \<sigma>)"
    have "recovered (j # js) \<sigma> \<sigma>'" if "recovered js ?\<sigma> \<sigma>'" for \<sigma>'
      using that running by (auto simp: recovered_def fun_eq_iff)
    then have rest: "wp (recoverOrphans cf i p js) Q E s'" if "at_disp cf i p z ?\<sigma> s'" for s'
      by (intro Cons.IH [OF that _ known] Cons.prems(4,5)) (use Cons.prems(2) in auto)
    have "wp (transition cf i n NodePending ReasonOrphanRecovery no_info)
        (\<lambda>_. wp (audit cf (new_trail_event i j AuditOrphanRecovered [(''kind'', kind_String (n_kind n))]))
           (\<lambda>_. wp (recoverOrphans cf i p js) Q E) E) E s"
      by (rule wp_transition [OF at])
         (use Some n Cons.prems(2) running in \<open>auto simp: ValidTransition_simps intro!: wp_audit rest E\<close>)
    then show ?thesis using running st Some by simp
  qed
qed

definition loaded :: "(node_id \<rightharpoonup> stored_node) \<Rightarrow> node_id set \<Rightarrow> node_id \<Rightarrow> node_state" where
  "loaded recs J j = (if j \<in> J then (case recs j of Some r \<Rightarrow> sn_state r | None \<Rightarrow> InitialNodeState)
     else InitialNodeState)"

lemma loaded_states:
  assumes "rmap (load_status recs) js = Inr sts"
  shows "ns_state (status_in (fold (\<lambda>(j, st). AList.update j st) (zip js sts) ss) j) =
    (if j \<in> set js then loaded recs (set js) j else ns_state (status_in ss j))"
  using assms
proof (induction js arbitrary: sts ss)
  case (Cons k js)
  obtain st sts' where s: "load_status recs k = Inr st" "rmap (load_status recs) js = Inr sts'" "sts = st # sts'"
    using Cons.prems by (auto simp: rbind_Inr simp del: load_status.simps)
  have "ns_state st = loaded recs (set (k # js)) k"
    using s(1) by (auto simp: load_status.simps loaded_def new_status_def split: option.splits if_splits)
  then show ?case
    using Cons.IH [OF s(2), of "AList.update k st ss"] s(3)
    by (auto simp: status_in_update loaded_def)
qed simp

lemma loaded_keys:
  assumes "rmap (load_status recs) js = Inr sts" "distinct (map fst ss)"
  shows "distinct (map fst (fold (\<lambda>(j, st). AList.update j st) (zip js sts) ss)) \<and>
    fst ` set (fold (\<lambda>(j, st). AList.update j st) (zip js sts) ss) = set js \<union> fst ` set ss"
proof -
  have "length sts = length js" using rmap_Inr_length [OF assms(1)] .
  then show ?thesis
    using assms(2)
    by (induction sts js arbitrary: ss rule: list_induct2) (auto simp: dom_update distinct_update)
qed

definition recorded_before :: "'w config \<Rightarrow> run_id \<Rightarrow> plan \<Rightarrow> 'w \<Rightarrow> dispatcher" where
  "recorded_before cf i p w = start_dispatcher (loaded
     (case fst (cf_node_states cf i w) of Inr recs \<Rightarrow> recs | Inl e \<Rightarrow> Map.empty) (n_id ` set (p_nodes p)))"

lemma start_dispatcher_simps [simp]:
  "dp_state (start_dispatcher st) = st" "\<not> dp_halted (start_dispatcher st)" "dp_tries (start_dispatcher st) = (\<lambda>_. 0)"
  by (simp_all add: start_dispatcher_def)

lemma benign_before:
  assumes "benign cf i p"
  shows "workable (dp_state (recorded_before cf i p w) j) \<or> dp_state (recorded_before cf i p w) j = NodeRunning"
proof -
  obtain recs where "fst (cf_node_states cf i w) = Inr recs"
    "\<forall>j r. recs j = Some r \<longrightarrow> workable (sn_state r) \<or> sn_state r = NodeRunning"
    using assms unfolding benign_def benign_store_def by blast
  then show ?thesis
    by (auto simp: recorded_before_def loaded_def InitialNodeState_def workable_def split: option.splits)
qed

lemma benign_load:
  assumes "benign cf i p" "cf_node_states cf i w = (r, w')"
  shows "\<exists>recs sts. r = Inr recs \<and> rmap (load_status recs) order = Inr sts"
proof -
  have "\<exists>recs. fst (cf_node_states cf i w) = Inr recs \<and>
      (\<forall>j r. recs j = Some r \<longrightarrow> workable (sn_state r) \<or> sn_state r = NodeRunning)"
    using assms(1) unfolding benign_def benign_store_def by blast
  then obtain recs where recs: "r = Inr recs" "\<forall>j r. recs j = Some r \<longrightarrow> workable (sn_state r) \<or> sn_state r = NodeRunning"
    using assms(2) by auto
  have "\<exists>st. load_status recs j = Inr st" for j
    using recs(2) by (force simp: workable_def state_Valid_def split: option.splits)
  then have "\<exists>sts. rmap (load_status recs) js = Inr sts" for js
    by (induction js) (auto simp: rbind_Inr simp del: load_status.simps)
  then show ?thesis using recs(1) by blast
qed

lemma wp_loadStates:
  assumes "x_trace s = []" "x_states s = []" "set order = n_id ` set (p_nodes p)"
    and "\<And>s'. at_disp cf i p z z s' \<Longrightarrow> Q () s'" "\<And>e s'. x_trace s' = [] \<Longrightarrow> \<not> benign cf i p \<Longrightarrow> E e s'"
    and z: "z = recorded_before cf i p (x_world s)"
  shows "wp (loadStates cf i order) Q E s"
proof -
  obtain r w where r: "cf_node_states cf i (x_world s) = (r, w)" by (cases "cf_node_states cf i (x_world s)")
  show ?thesis
  proof (cases r)
    case (Inl e)
    then have "\<not> benign cf i p" using benign_load [OF _ r] by auto
    then show ?thesis
      using r assms(1,5) Inl by (simp add: loadStates_def lift_wrap_def wp_def xread_def sbind_def sfail_def)
  next
    case (Inr recs)
    have "at_disp cf i p z z (s\<lparr>x_world := w, x_states := fold (\<lambda>(j, st). AList.update j st) (zip order sts) []\<rparr>)"
      if "rmap (load_status recs) order = Inr sts" for sts
      using assms(1,3) loaded_states [OF that, of "[]"] loaded_keys [OF that, of "[]"] Inr r
      by (auto simp: keyed_def at_disp_def z recorded_before_def fun_eq_iff status_in_def new_status_def loaded_def split: option.splits)
    moreover have "\<not> benign cf i p" if "rmap (load_status recs) order = Inl e" for e
      using that benign_load [OF _ r, of p order] Inr by auto
    ultimately show ?thesis
      using r Inr assms(1,4,5)
      by (auto simp: loadStates_def lift_wrap_def wp_def xread_def sbind_def sreturn_def sfail_def put_states_def
          split: sum.splits)
  qed
qed

text \<open>The canonical order of a valid plan is one in which a benign run can take up every node.\<close>

lemma NodeByID_member: "distinct (map n_id (p_nodes p)) \<Longrightarrow> n \<in> set (p_nodes p) \<Longrightarrow> NodeByID p (n_id n) = Some n"
proof -
  have "distinct (map n_id ns) \<Longrightarrow> n \<in> set ns \<Longrightarrow> find_node ns (n_id n) = Some n" for ns
    by (induction ns) auto
  then show "distinct (map n_id (p_nodes p)) \<Longrightarrow> n \<in> set (p_nodes p) \<Longrightarrow> NodeByID p (n_id n) = Some n"
    by (simp add: NodeByID_def)
qed

lemma in_orderI:
  assumes "\<forall>k < length js. \<exists>n. NodeByID p (js ! k) = Some n \<and> workable (st (js ! k)) \<and>
    (\<forall>d \<in> set (n_depends_on n). d \<in> n_id ` set (p_nodes p) \<and> (IsComplete (st d) \<or> d \<in> set (take k js)))"
  shows "in_order p st js"
  using assms
proof (induction js arbitrary: st)
  case (Cons j js)
  let ?st = "if IsComplete (st j) then st else st(j := NodeDone)"
  have "startable p st n" "n_id n = j" if "NodeByID p j = Some n" for n
    using Cons.prems [rule_format, of 0] NodeByID_id [OF that] that by (auto simp: startable_def)
  moreover have "NodeByID p j \<noteq> None" using Cons.prems [rule_format, of 0] by auto
  moreover have "in_order p ?st js"
  proof (rule Cons.IH, intro allI impI)
    fix k assume "k < length js"
    then obtain n where n: "NodeByID p (js ! k) = Some n" "workable (st (js ! k))"
      "\<forall>d \<in> set (n_depends_on n). d \<in> n_id ` set (p_nodes p) \<and> (IsComplete (st d) \<or> d \<in> set (take (Suc k) (j # js)))"
      using Cons.prems [rule_format, of "Suc k"] by auto
    then show "\<exists>n. NodeByID p (js ! k) = Some n \<and> workable (?st (js ! k)) \<and>
      (\<forall>d \<in> set (n_depends_on n). d \<in> n_id ` set (p_nodes p) \<and> (IsComplete (?st d) \<or> d \<in> set (take k js)))"
      by (intro exI [of _ n]) (auto simp: workable_def)
  qed
  ultimately show ?case by auto
qed simp

lemma canonical_in_order:
  assumes "canonical_order (p_nodes p) ord" "distinct (map n_id (p_nodes p))" "\<forall>j. workable (st j)"
  shows "in_order p st ord"
proof (rule in_orderI, intro allI impI)
  fix k assume "k < length ord"
  then obtain m where m: "m < length (p_nodes p)" "ord ! k = n_id (p_nodes p ! m)"
    "set (n_depends_on (p_nodes p ! m)) \<subseteq> set (take k ord)"
    using assms(1) by (auto simp: canonical_order_def)
  moreover have "set (take k ord) \<subseteq> n_id ` set (p_nodes p)"
    using assms(1) set_take_subset [of k ord] by (simp add: canonical_order_def)
  moreover have "NodeByID p (ord ! k) = Some (p_nodes p ! m)"
    using NodeByID_member [OF assms(2), of "p_nodes p ! m"] m(1,2) by simp
  ultimately show "\<exists>n. NodeByID p (ord ! k) = Some n \<and> workable (st (ord ! k)) \<and>
    (\<forall>d \<in> set (n_depends_on n). d \<in> n_id ` set (p_nodes p) \<and> (IsComplete (st d) \<or> d \<in> set (take k ord)))"
    using assms(3) by (intro exI [of _ "p_nodes p ! m"]) auto
qed

lemma wp_execute_plan:
  assumes "x_trace s = []" "x_states s = []" "canonical_order (p_nodes p) order" "distinct (map n_id (p_nodes p))"
    and z: "z = recorded_before cf i p (x_world s)"
  shows "wp (execute_plan cf i p order) (\<lambda>a s'. follows cf i p z (x_trace s') \<and> (benign cf i p \<longrightarrow> snd a = None) \<and>
    (snd a = None \<longrightarrow> answers cf i p z z (set order) (benign cf i p) a s')) E s"
proof -
  let ?G = "benign cf i p"
  let ?A = "answers cf i p z z (set order) ?G"
  let ?Q = "\<lambda>a s'. follows cf i p z (x_trace s') \<and> (?G \<longrightarrow> snd a = None) \<and> (snd a = None \<longrightarrow> ?A a s')"
  let ?res = "new_result i order"
  have r [simp]: "res_run ?res = i" "\<not> res_cancelled ?res" by (simp_all add: new_result_def)
  have order: "distinct order" "set order = n_id ` set (p_nodes p)" using assms(3) by (simp_all add: canonical_order_def)
  have known: "\<forall>j \<in> set order. NodeByID p j \<noteq> None" using order(2) NodeByID_member [OF assms(4)] by auto
  have ans: "follows cf i p z (x_trace s')" "?G \<Longrightarrow> snd a = None" if "?A a s'" for a s'
    using that by (auto simp: answers_def at_disp_def)
  have zh: "\<not> dp_halted z" "dp_tries z = (\<lambda>_. 0)" by (simp_all add: z recorded_before_def)
  have fin: "wp (finish cf ?res (Some e)) ?Q E s'" if "okay cf i p z s'" "\<not> ?G" for e s'
    by (rule wp_mono, rule wp_finish_failed [OF that(1) r(1) r(2) that(2)]) (auto dest: ans)
  have walk: "wp (walk cf i p ?res order) ?Q E s'" if at: "at_disp cf i p z \<sigma> s'" "recovered order z \<sigma>" for \<sigma> s'
  proof -
    have reached: "?A a s''" if "answers cf i p z \<sigma> (set order) (?G \<and> in_order p (dp_state \<sigma>) order) a s''" for a s''
    proof -
      have "in_order p (dp_state \<sigma>) order" if ?G
      proof (rule canonical_in_order [OF assms(3,4)], rule allI)
        fix j
        have "dp_state z j \<noteq> NodeRunning" if "j \<notin> set order"
          using that order(2) by (simp add: z recorded_before_def loaded_def InitialNodeState_def)
        then show "workable (dp_state \<sigma> j)"
          using benign_before [OF \<open>?G\<close>, of "x_world s" j] at(2) z by (auto simp: recovered_def workable_def)
      qed
      moreover have "IsComplete (dp_state z j) \<longrightarrow> IsComplete (dp_state \<sigma> j)" for j
        using at(2) by (auto simp: recovered_def)
      ultimately show ?thesis using that by (auto simp: answers_def)
    qed
    have "wp (walk cf i p ?res order)
        (answers cf i p z \<sigma> (set order) (?G \<and> in_order p (dp_state \<sigma>) order)) E s'"
      by (rule wp_walk [OF at(1) _ r order(1)]) (use at(2) zh in \<open>auto simp: recovered_def\<close>)
    then show ?thesis
      by (rule wp_mono) (blast dest: reached ans)+
  qed
  have "wp (recoverOrphans cf i p order) (\<lambda>_. wp (walk cf i p ?res order) ?Q E)
      (\<lambda>e. wp (finish cf ?res (Some e)) ?Q E) s'" if "at_disp cf i p z z s'" for s'
    by (rule wp_recoverOrphans [OF that zh(1) known]) (blast intro: walk fin)+
  moreover have "okay cf i p z s' \<Longrightarrow> follows cf i p z (x_trace s')" for s'
    by (auto simp: okay_def at_disp_def)
  ultimately show ?thesis
    unfolding execute_plan_def Let_def
    using assms(1-2) order(2) z
    by (auto intro!: wp_loadStates [OF _ _ _ _ _ z] wp_audit [where \<sigma> = z] simp: zh [unfolded z])
qed

text \<open>A dry run: one line per node, in order, with the statement that a run would send.\<close>

definition announces :: "run_id \<Rightarrow> plan \<Rightarrow> node_id \<Rightarrow> log_event \<Rightarrow> bool" where
  "announces i p j ev \<longleftrightarrow> le_run ev = i \<and> le_node ev = j \<and> (\<exists>n \<in> set (p_nodes p). n_id n = j \<and>
     le_kind ev = n_kind n \<and> Render (Some n) = Inr (le_message ev))"

definition dry_lines :: "run_id \<Rightarrow> plan \<Rightarrow> int \<Rightarrow> node_id list \<Rightarrow> log_event list \<Rightarrow> bool" where
  "dry_lines i p k js es \<longleftrightarrow> list_all2 (announces i p) js es \<and> map le_attempt es = [k + 1..k + int (length js)]"

lemma wp_dryRun:
  assumes "\<forall>j \<in> set js. \<exists>n sql. NodeByID p j = Some n \<and> Render (Some n) = Inr sql"
    and "\<And>es s'. x_trace s' = x_trace s @ map Logged es \<Longrightarrow> dry_lines i p k js es \<Longrightarrow> Q () s'"
  shows "wp (dryRun cf i p k js) Q E s"
  using assms
proof (induction js arbitrary: k s)
  case Nil
  then show ?case using Nil(2) [of s "[]"] by (simp add: dry_lines_def)
next
  case (Cons j js)
  obtain n sql where n: "NodeByID p j = Some n" "Render (Some n) = Inr sql" using Cons.prems(1) by auto
  have "wp (dryRun cf i p (k + 1) js) Q E (s\<lparr>x_world := w, x_trace := x_trace s @ [Logged l]\<rparr>)"
    if l: "le_run l = i" "le_node l = n_id n" "le_kind l = n_kind n" "le_attempt l = k + 1" "le_message l = sql" for w l
  proof (rule Cons.IH)
    show "\<forall>j \<in> set js. \<exists>n sql. NodeByID p j = Some n \<and> Render (Some n) = Inr sql" using Cons.prems(1) by simp
    fix es and s' :: "'a xstate"
    assume s': "x_trace s' = x_trace (s\<lparr>x_world := w, x_trace := x_trace s @ [Logged l]\<rparr>) @ map Logged es"
      "dry_lines i p (k + 1) js es"
    have "announces i p j l" using l n NodeByID_id [OF n(1)] NodeByID_set [OF n(1)] by (auto simp: announces_def)
    moreover have "[k + 1..k + int (length (j # js))] = (k + 1) # [k + 1 + 1..k + 1 + int (length js)]"
      by (subst upto_rec1) (simp_all add: ac_simps)
    ultimately have "dry_lines i p k (j # js) (l # es)"
      using s'(2) l(4) unfolding dry_lines_def by (simp only: list.map list_all2_Cons simp_thms)
    then show "Q () s'" using Cons.prems(2) [of s' "l # es"] s'(1) by simp
  qed
  then show ?case
    by (auto simp: n intro!: wp_xread)
qed

lemma follows_logs: "\<not> dp_halted z \<Longrightarrow> follows cf i p z (map Logged es)"
proof (induction es rule: rev_induct)
  case (snoc e es)
  have "dp_after p z (map Logged es) = z" by (induction es) simp_all
  then show ?case using snoc by (simp add: follows_snoc logged)
qed simp

definition start_state :: "'w \<Rightarrow> 'w xstate" where
  "start_state w = \<lparr>x_world = w, x_trace = [], x_states = []\<rparr>"

lemma admit_Inr:
  assumes "admit cf i x = Inr (p, order)"
  shows "x = Some p" "VerifyDigest p = None" "plan_Validate p = None" "TopologicalOrder p = Inr order"
    "canonical_order (p_nodes p) order" "preflight cf p = None" "i \<noteq> []"
proof -
  show a: "x = Some p" "VerifyDigest p = None" "plan_Validate p = None" "TopologicalOrder p = Inr order"
    "preflight cf p = None" "i \<noteq> []"
    using assms by (auto simp: admit_def rcheck_Inr rbind_Inr split: if_splits option.splits)
  have "distinct (map n_id (p_nodes p))" using a(3) check_nodes_Inr by (elim plan_Validate_None) blast
  from TopologicalOrder_cases [OF this] a(4) show "canonical_order (p_nodes p) order" by simp
qed

lemma admit_distinct: "admit cf i x = Inr (p, order) \<Longrightarrow> distinct (map n_id (p_nodes p))"
  by (drule admit_Inr(3), elim plan_Validate_None) (use check_nodes_Inr in blast)

lemma admit_renders:
  assumes a: "admit cf i x = Inr (p, order)" and "j \<in> set order"
  shows "\<exists>n sql. NodeByID p j = Some n \<and> Render (Some n) = Inr sql"
proof -
  obtain n where n: "n \<in> set (p_nodes p)" "n_id n = j" using admit_Inr(5) [OF a] assms(2) by (auto simp: canonical_order_def)
  have "preflight_node n = None" using admit_Inr(6) [OF a] n(1) by (simp add: preflight_def then_check_None each_check_None)
  then have "supportedKind (n_kind n)" "IssuesDDL (n_kind n) \<Longrightarrow> \<exists>sql. Render (Some n) = Inr sql"
    by (auto simp: preflight_node_def split: if_splits sum.splits)
  moreover have "supportedKind k \<Longrightarrow> kind_Valid k" for k by (cases k) (simp_all add: supportedKind_def supportedKinds_def)
  ultimately have "\<exists>sql. Render (Some n) = Inr sql" using Render_no_DDL by blast
  then show ?thesis using n NodeByID_member [OF admit_distinct [OF a] n(1)] by simp
qed

lemma wp_Run:
  "wp (Run cf i x) (\<lambda>(r, e) s'. (r = None \<longrightarrow> e \<noteq> None \<and> s' = start_state w) \<and>
     (\<forall>res. r = Some res \<longrightarrow> (\<exists>p order. admit cf i x = Inr (p, order) \<and>
        follows cf i p (recorded_before cf i p w) (x_trace s') \<and>
        (if cf_dry_run cf then e = None \<and> res = new_result i order \<and>
           (\<exists>es. x_trace s' = map Logged es \<and> dry_lines i p 0 order es)
         else (benign cf i p \<longrightarrow> e = None) \<and> (e = None \<longrightarrow>
           answers cf i p (recorded_before cf i p w) (recorded_before cf i p w) (set order) (benign cf i p) (res, e) s')))))
     (\<lambda>_ _. False) (start_state w)"
proof (cases "admit cf i x")
  case (Inl e)
  then show ?thesis by (simp add: Run_def)
next
  case (Inr y)
  obtain p order where a: "admit cf i x = Inr (p, order)" using Inr by (cases y) simp
  let ?z = "recorded_before cf i p w"
  have z: "\<not> dp_halted ?z" by (simp add: recorded_before_def)
  show ?thesis
  proof (cases "cf_dry_run cf")
    case True
    then show ?thesis
      unfolding Run_def a
      by (auto intro!: wp_dryRun admit_renders [OF a] simp: start_state_def follows_logs [OF z])
  next
    case False
    have "wp (execute_plan cf i p order) (\<lambda>a s'. follows cf i p ?z (x_trace s') \<and> (benign cf i p \<longrightarrow> snd a = None) \<and>
        (snd a = None \<longrightarrow> answers cf i p ?z ?z (set order) (benign cf i p) a s')) (\<lambda>_ _. False) (start_state w)"
      by (rule wp_execute_plan) (simp_all add: start_state_def admit_Inr(5) [OF a] admit_distinct [OF a])
    then show ?thesis
      unfolding Run_def a using False
      by simp (erule wp_mono, auto)
  qed
qed

end
