(* ===== verification/Executor_Samples.thy ===== *)
theory Executor_Samples
  imports Executor_Refinement
begin

text \<open>
  A sealed plan (wait, then drop a partitioned index) and an environment in which every port answers;
  the runs below are the concrete inputs of the executor's properties.
\<close>

subsection \<open>The plan\<close>

definition drill_plan :: plan where
  "drill_plan = sample_plan\<lparr>p_target := \<lparr>tgt_database = [], tgt_table = NewObjectName [] ''t'',
     tgt_index = Some (NewObjectName [] ''i'')\<rparr>\<rparr>"

lemma drill_plan_seals: "\<exists>d. VerifyDigest (drill_plan\<lparr>p_digest := d\<rparr>) = None"
proof -
  have "case plan_json (drill_plan\<lparr>p_digest := []\<rparr>) of Inl e \<Rightarrow> False
      | Inr v \<Rightarrow> json_depth (drop_key ''digest'' (decoded v)) \<le> maxCanonicalDepth"
    by code_simp
  then have "\<exists>b. CanonicalBody drill_plan = Inr b"
    using writeCanonicalValue_text [of 0] by (fastforce simp: CanonicalBody_def split: sum.splits)
  then obtain d where d: "Seal drill_plan = Inr (drill_plan\<lparr>p_digest := d\<rparr>)"
    by (auto simp: Seal_def ComputeDigest_def)
  show ?thesis using Seal_VerifyDigest [OF d] by blast
qed

subsection \<open>The environment\<close>

definition passing :: check_result where
  "passing = \<lparr>cr_name = [], cr_passed = True, cr_detail = [], cr_failure_code = 0\<rparr>"

text \<open>Every port succeeds, but a checkpoint answers \<open>failure\<close>, and the store holds \<open>recs\<close>.\<close>

definition calm_config :: "(node_id \<rightharpoonup> stored_node) \<Rightarrow> err option \<Rightarrow> unit config" where
  "calm_config recs failure = \<lparr>cf_has_store = True, cf_has_sql = True, cf_has_catalog = True,
     cf_classifier = None, cf_retry = DefaultRetryPolicy, cf_lock_timeout = 1,
     cf_build_lock_timeout = 1, cf_statement_timeout = 0, cf_heartbeat_interval = 1, cf_dry_run = False,
     cf_allow_adoption = False, cf_node_states = (\<lambda>i w. (Inr recs, w)),
     cf_record_transition = (\<lambda>t w. (failure, w)), cf_cancel_requested = (\<lambda>i w. (Inr False, w)),
     cf_record_authorization = (\<lambda>g w. (None, w)), cf_append_audit = (\<lambda>e w. (None, w)),
     cf_exec = (\<lambda>s w. (None, w)), cf_assert = (\<lambda>as w. (Inr (map (\<lambda>_. passing) as), w)),
     cf_verify = (\<lambda>cs w. (Inr (map (\<lambda>_. passing) cs), w)),
     cf_marker = (\<lambda>x w. (Inr (zero_marker, MarkerAbsent), w)),
     cf_authority = (\<lambda>w. ((\<lambda>_. Inr None, \<lparr>cat_marker = \<lambda>_. Inr (zero_marker, MarkerAbsent), cat_indexes_on = \<lambda>_. Inr []\<rparr>), w)),
     cf_now = (\<lambda>w. (1, w)),
     cf_sleep = (\<lambda>b d w. (None, w)), cf_signalled = (\<lambda>w. (False, w)), cf_fenced = (\<lambda>w. (False, w)),
     cf_random = (\<lambda>w. (Finite 0, w)), cf_scale = (\<lambda>d j r. Finite 0), cf_convert = (\<lambda>x. 0)\<rparr>"

lemma drill_order: "TopologicalOrder (drill_plan\<lparr>p_digest := d\<rparr>) = Inr [''b'', ''d'']"
  by (simp add: drill_plan_def TopologicalOrder_def) code_simp

lemma drill_valid: "plan_Validate (drill_plan\<lparr>p_digest := d\<rparr>) = None"
proof -
  have "plan_Validate (p\<lparr>p_digest := d\<rparr>) = plan_Validate p" for p
  proof -
    have same: "p_nodes (p\<lparr>p_digest := d\<rparr>) = p_nodes p" "p_plan_id (p\<lparr>p_digest := d\<rparr>) = p_plan_id p"
      "p_operation (p\<lparr>p_digest := d\<rparr>) = p_operation p" "p_target (p\<lparr>p_digest := d\<rparr>) = p_target p"
      "p_topology_fingerprint (p\<lparr>p_digest := d\<rparr>) = p_topology_fingerprint p"
      "p_confirmations (p\<lparr>p_digest := d\<rparr>) = p_confirmations p"
      "p_format_version (p\<lparr>p_digest := d\<rparr>) = p_format_version p"
      by simp_all
    show ?thesis unfolding plan_Validate_def Confirmed_def TopologicalOrder_def same ..
  qed
  moreover have "plan_Validate drill_plan = None" by code_simp
  ultimately show ?thesis by simp
qed

lemma drill_preflight: "preflight (calm_config recs failure) (drill_plan\<lparr>p_digest := d\<rparr>) = None"
  by (simp add: preflight_def drill_plan_def sample_plan_def then_check_None each_check_None preflight_node_def
      supportedKind_def supportedKinds_def sample_drop_def wait_node_def IssuesDDL_def Render_def calm_config_def)

lemma drill_admitted:
  assumes "VerifyDigest (drill_plan\<lparr>p_digest := d\<rparr>) = None"
  shows "admit (calm_config recs failure) ''r'' (Some (drill_plan\<lparr>p_digest := d\<rparr>)) =
    Inr (drill_plan\<lparr>p_digest := d\<rparr>, [''b'', ''d''])"
  using assms by (simp add: admit_def drill_valid drill_order drill_preflight rcheck_Inr rbind_Inr)

lemma drill_nodes: "p_nodes (drill_plan\<lparr>p_digest := d\<rparr>) = [sample_drop\<lparr>n_depends_on := [''b'']\<rparr>, wait_node ''b'' []]"
  by (simp add: drill_plan_def sample_plan_def)

lemma drill_find:
  "NodeByID (drill_plan\<lparr>p_digest := d\<rparr>) ''b'' = Some (wait_node ''b'' [])"
  "NodeByID (drill_plan\<lparr>p_digest := d\<rparr>) ''d'' = Some (sample_drop\<lparr>n_depends_on := [''b'']\<rparr>)"
  by (simp_all add: NodeByID_def drill_nodes) (simp_all add: wait_node_def sample_drop_def)

subsection \<open>The run\<close>

lemmas run_steps = sbind_def sreturn_def sfail_def stry_def scheck_def xread_def xcall_def xlog_def get_states_def
  put_states_def get_status_def put_status_def or_fail_def or_wrap_def lift_wrap_def ignoring_def

lemma calm_ports [simp]:
  "cf_now (calm_config recs failure) w = (1, w)" "cf_node_states (calm_config recs failure) i w = (Inr recs, w)"
  "cf_record_transition (calm_config recs failure) t w = (failure, w)"
  "cf_record_authorization (calm_config recs failure) g w = (None, w)"
  "cf_append_audit (calm_config recs failure) ev w = (None, w)" "cf_exec (calm_config recs failure) sm w = (None, w)"
  "cf_sleep (calm_config recs failure) b k w = (None, w)" "cf_signalled (calm_config recs failure) w = (False, w)"
  "cf_fenced (calm_config recs failure) w = (False, w)"
  "cf_cancel_requested (calm_config recs failure) i w = (Inr False, w)"
  "\<not> cf_dry_run (calm_config recs failure)" "cf_has_catalog (calm_config recs failure)"
  "cf_authority (calm_config recs failure) w =
     ((\<lambda>_. Inr None, \<lparr>cat_marker = \<lambda>_. Inr (zero_marker, MarkerAbsent), cat_indexes_on = \<lambda>_. Inr []\<rparr>), w)"
  by (simp_all add: calm_config_def)

definition drill_node :: node where
  "drill_node = sample_drop\<lparr>n_depends_on := [''b'']\<rparr>"

definition drill_decision :: authorization_decision where
  "drill_decision = (zero_decision (NewObjectName [] ''i''))\<lparr>ad_mode := AuthExplicit, ad_satisfied := True,
     ad_evidence := [(''mode'', mode_String AuthExplicit), (''object'', obj_String (NewObjectName [] ''i'')),
       (''confirmation'', ConfirmExclusiveLock), (''plan_id'', ''p'')]
       @ confirmation_evidence ConfirmExclusiveLock (p_confirmations sample_plan)\<rparr>"

lemma drill_auth: "auth_Validate (n_authorization drill_node) = None"
  by code_simp

lemma drill_confirmed: "Confirmed sample_plan ConfirmExclusiveLock"
  by code_simp

lemma drill_authorized:
  "Authorize (Some claims) cat (Some (drill_plan\<lparr>p_digest := d\<rparr>)) drill_node = Inr drill_decision"
proof -
  have "Confirmed (drill_plan\<lparr>p_digest := d\<rparr>) ConfirmExclusiveLock"
    using drill_confirmed by (simp add: Confirmed_def drill_plan_def)
  then show ?thesis
    using drill_auth
    by (simp add: Authorize_def drill_node_def sample_drop_def IsDestructive_def destructiveObject_def
        zero_decision_def authorizeMode_def authorizeExplicit_def drill_decision_def)
       (simp add: drill_plan_def sample_plan_def)
qed

definition entered :: "node \<Rightarrow> node_state \<Rightarrow> node_state \<Rightarrow> int \<Rightarrow> executor_transition" where
  "entered n from to a = \<lparr>tr_run = ''r'', tr_node = n_id n, tr_kind = n_kind n, tr_from = from, tr_to = to,
     tr_reason = ReasonNormal, tr_attempts = a, tr_duration = 0, tr_error = None, tr_at = 1\<rparr>"

definition entry :: "node \<Rightarrow> node_state \<Rightarrow> node_state \<Rightarrow> int \<Rightarrow> effect list" where
  "entry n from to a = [Recorded (entered n from to a) None, Logged (transition_log (entered n from to a) no_info)]"

lemma calm_transition:
  assumes "status_in (x_states s) (n_id n) = \<lparr>ns_state = from, ns_attempts = a\<rparr>" "ValidTransition from to ReasonNormal"
    "info = no_info"
  shows "transition (calm_config recs None) ''r'' n to ReasonNormal info s =
    (Inr (), s\<lparr>x_trace := x_trace s @ entry n from to a,
       x_states := AList.update (n_id n) \<lparr>ns_state = to, ns_attempts = a\<rparr> (x_states s)\<rparr>)"
  using assms
  by (simp add: transition_def run_steps CheckTransition_def checkpoint_def Let_def entry_def entered_def no_info_def)

lemma unit_world [simp]: "(s :: unit xstate)\<lparr>x_world := w\<rparr> = s"
  by (cases s) simp

lemma no_info_simps: "\<lparr>ti_duration = 0, ti_err = None, ti_class = None\<rparr> = no_info" "no_info\<lparr>ti_duration := 0\<rparr> = no_info"
  by (simp_all add: no_info_def)

definition wait_effects :: "effect list" where
  "wait_effects = (let n = wait_node ''b'' [] in entry n NodePending NodeReady 0 @ entry n NodeReady NodeRunning 1 @
     [Slept (wrap_int64 second) None] @ entry n NodeRunning NodeVerifying 1 @ entry n NodeVerifying NodeDone 1)"

lemma drill_wait:
  assumes "x_states s = [(''b'', new_status), (''d'', new_status)]"
  shows "runNode (calm_config recs None) ''r'' p (wait_node ''b'' []) s = (Inr (), s\<lparr>x_trace := x_trace s @ wait_effects,
    x_states := [(''b'', \<lparr>ns_state = NodeDone, ns_attempts = 1\<rparr>), (''d'', new_status)]\<rparr>)"
proof -
  have n: "n_id (wait_node ''b'' []) = ''b''" "n_kind (wait_node ''b'' []) = KindWait" "n_depends_on (wait_node ''b'' []) = []"
    "n_params (wait_node ''b'' []) = Some (WaitParams \<lparr>wait_seconds = 1, wait_reason = []\<rparr>)"
    by (simp_all add: wait_node_def)
  show ?thesis
    using assms
    by (simp add: runNode_def attempts.simps launch_def count_attempt_def dispatch_def verifyPhase_def verify_def
        run_steps calm_transition ValidTransition_simps n status_in_def new_status_def InitialNodeState_def
        IsDestructive_def no_info_simps wait_effects_def Let_def)
qed

definition drill_grant :: grant where
  "drill_grant = \<lparr>gr_run = ''r'', gr_node = ''d'', gr_object = NewObjectName [] ''i'', gr_mode = AuthExplicit,
     gr_evidence = ad_evidence drill_decision, gr_granted_at = 1\<rparr>"

definition drill_sql :: string where
  "drill_sql = ''DROP INDEX '' @ obj_Quoted (NewObjectName [] ''i'')"

definition drill_statement :: statement where
  "drill_statement = \<lparr>sm_run = ''r'', sm_node = ''d'', sm_kind = KindIndexDropPartitioned,
     sm_sql = drill_sql,
     sm_settings = \<lparr>ss_lock_timeout = 1, ss_statement_timeout = 0\<rparr>, sm_outside_transaction = False\<rparr>"

definition drill_granted :: trail_event where
  "drill_granted = (new_trail_event ''r'' ''d'' AuditAuthorizationGranted
     (last_wins ((''kind'', kind_String KindIndexDropPartitioned) # ad_evidence drill_decision)))\<lparr>te_at := 1\<rparr>"

definition before_drop :: "effect list" where
  "before_drop = entry drill_node NodePending NodeReady 0 @ [Granted drill_grant None, Audited drill_granted None] @
     entry drill_node NodeReady NodeRunning 1"

definition after_drop :: "effect list" where
  "after_drop = entry drill_node NodeRunning NodeVerifying 1 @ entry drill_node NodeVerifying NodeDone 1"

lemma drill_drop:
  assumes "x_states s = [(''b'', \<lparr>ns_state = NodeDone, ns_attempts = 1\<rparr>), (''d'', new_status)]"
  shows "runNode (calm_config recs None) ''r'' (drill_plan\<lparr>p_digest := d\<rparr>) drill_node s =
    (Inr (), s\<lparr>x_trace := x_trace s @ before_drop @ Executed drill_statement None # after_drop,
      x_states := [(''b'', \<lparr>ns_state = NodeDone, ns_attempts = 1\<rparr>), (''d'', \<lparr>ns_state = NodeDone, ns_attempts = 1\<rparr>)]\<rparr>)"
proof -
  have n: "n_id drill_node = ''d''" "n_kind drill_node = KindIndexDropPartitioned" "n_depends_on drill_node = [''b'']"
    "Render (Some drill_node) = Inr drill_sql" "drill_sql \<noteq> []"
    "MarkerTargetFor (Some drill_node) = Inr None"
    by (simp_all add: drill_node_def sample_drop_def Render_def MarkerTargetFor_def drill_sql_def)
  have a: "ad_satisfied drill_decision" "\<not> ad_adopt drill_decision" "ad_object drill_decision = NewObjectName [] ''i''"
    "ad_mode drill_decision = AuthExplicit"
    by (simp_all add: drill_decision_def zero_decision_def)
  have st: "primary_statement (calm_config recs None) ''r'' drill_node drill_sql = drill_statement"
    by (simp add: primary_statement_def n drill_statement_def settingsFor_def WaitsForConcurrentTransactions_def
        AllowsStatementTimeout_def MustRunOutsideTransaction_def calm_config_def)
  show ?thesis
    using assms
    by (simp add: runNode_def attempts.simps launch_def count_attempt_def dispatch_def verifyPhase_def verify_def
        authorizeNode_def drill_authorized audit_def new_trail_event_def execDDL_def markObject_def send_def
        run_steps calm_transition ValidTransition_simps n a st status_in_def new_status_def InitialNodeState_def
        IsDestructive_def no_info_simps before_drop_def after_drop_def Let_def dependency_missing_def IsComplete_def
        drill_grant_def drill_granted_def zero_time_def del: last_wins.simps)
qed

definition drill_started :: "string \<Rightarrow> trail_event" where
  "drill_started d = (new_trail_event ''r'' [] AuditRunStarted
     [(''plan_id'', ''p''), (''digest'', d), (''nodes'', pad_dec 1 2)])\<lparr>te_at := 1\<rparr>"

definition drill_finished :: trail_event where
  "drill_finished = (new_trail_event ''r'' [] AuditRunFinished
     [(''done'', pad_dec 1 2), (''skipped'', pad_dec 1 0), (''failed'', pad_dec 1 0),
      (''remaining'', pad_dec 1 0)])\<lparr>te_at := 1\<rparr>"

definition drill_trace :: "string \<Rightarrow> effect list" where
  "drill_trace d = Audited (drill_started d) None # wait_effects @ before_drop @ Executed drill_statement None # after_drop @
     [Audited drill_finished None]"

definition drill_result :: result where
  "drill_result = (new_result ''r'' [''b'', ''d''])\<lparr>res_done := 2\<rparr>"

lemma drill_run:
  assumes "VerifyDigest (drill_plan\<lparr>p_digest := d\<rparr>) = None"
  shows "Run (calm_config Map.empty None) ''r'' (Some (drill_plan\<lparr>p_digest := d\<rparr>)) (start_state ()) =
    (Inr (Some drill_result, None), \<lparr>x_world = (), x_trace = drill_trace d,
       x_states = [(''b'', \<lparr>ns_state = NodeDone, ns_attempts = 1\<rparr>), (''d'', \<lparr>ns_state = NodeDone, ns_attempts = 1\<rparr>)]\<rparr>)"
proof -
  have p: "p_plan_id (drill_plan\<lparr>p_digest := d\<rparr>) = ''p''" by (simp add: drill_plan_def sample_plan_def)
  have d: "NodeByID (drill_plan\<lparr>p_digest := d\<rparr>) ''d'' = Some drill_node"
    by (simp only: drill_find drill_node_def)
  have stop: "stopRequested (calm_config recs None) ''r'' s = (Inr None, s)" for recs and s :: "unit xstate"
    by (simp add: stopRequested_def run_steps)
  have load: "loadStates (calm_config Map.empty None) ''r'' [''b'', ''d''] s =
      (Inr (), s\<lparr>x_states := [(''b'', new_status), (''d'', new_status)]\<rparr>)" for s :: "unit xstate"
    by (simp add: loadStates_def run_steps)
  have new: "ns_state new_status = NodePending" by (simp add: new_status_def InitialNodeState_def)
  show ?thesis
    unfolding Run_def drill_admitted [OF assms]
    apply (simp add: execute_plan_def load audit_def new_trail_event_def zero_time_def p run_steps start_state_def
        status_in_def new IsComplete_def stop drill_find(1) d drill_wait drill_drop Let_def
        finish_def tally_def tally_one_def)
    apply (simp add: drill_trace_def drill_result_def new_result_def drill_started_def drill_finished_def new_trail_event_def
        numeral_2_eq_2)
    done
qed

lemma passing_first: "first_failed code (map (\<lambda>_. passing) as) as = None"
  by (induction as) (simp_all add: passing_def)

lemma drill_benign: "benign (calm_config Map.empty None) ''r'' (drill_plan\<lparr>p_digest := d\<rparr>)"
proof -
  have authorized: "\<exists>x. Authorize (Some claims) cat (Some (drill_plan\<lparr>p_digest := d\<rparr>)) n = Inr x \<and>
      ad_satisfied x \<and> \<not> ad_adopt x"
    if "n \<in> set (p_nodes (drill_plan\<lparr>p_digest := d\<rparr>))" "IsDestructive (n_kind n)" for n claims cat
  proof -
    have "n = drill_node" using that by (auto simp: drill_nodes drill_node_def wait_node_def IsDestructive_def)
    then show ?thesis using drill_authorized by (simp add: drill_decision_def zero_decision_def)
  qed
  have "benign_store (calm_config Map.empty None) ''r''" by (simp add: benign_store_def)
  moreover have "benign_database (calm_config Map.empty None) (drill_plan\<lparr>p_digest := d\<rparr>)"
    using authorized by (simp add: benign_database_def) (simp add: calm_config_def judge_def passing_first)
  ultimately show ?thesis by (simp add: benign_def drill_valid drill_preflight)
qed

text \<open>A store that loses every checkpoint.\<close>

definition drill_failure :: err where
  "drill_failure = Wrap (Detailf ErrCheckpointFailed) io_error"

definition drill_failed :: trail_event where
  "drill_failed = (new_trail_event ''r'' ''b'' AuditRunFailed
     [(''done'', pad_dec 1 0), (''skipped'', pad_dec 1 0), (''failed'', pad_dec 1 0),
      (''remaining'', pad_dec 1 2)])\<lparr>te_at := 1, te_error := Some drill_failure\<rparr>"

lemma drill_lost:
  assumes "VerifyDigest (drill_plan\<lparr>p_digest := d\<rparr>) = None"
  shows "x_trace (snd (Run (calm_config Map.empty (Some io_error)) ''r'' (Some (drill_plan\<lparr>p_digest := d\<rparr>)) (start_state ()))) =
    [Audited (drill_started d) None] @
    Recorded (entered (wait_node ''b'' []) NodePending NodeReady 0) (Some io_error) # [Audited drill_failed None]"
proof -
  have p: "p_plan_id (drill_plan\<lparr>p_digest := d\<rparr>) = ''p''" by (simp add: drill_plan_def sample_plan_def)
  have n: "n_id (wait_node ''b'' []) = ''b''" "n_kind (wait_node ''b'' []) = KindWait" "n_depends_on (wait_node ''b'' []) = []"
    by (simp_all add: wait_node_def)
  have no_signal: "\<not> is_signal x drill_failure" for x
    by (simp add: is_signal_def drill_failure_def io_error_def ErrCheckpointFailed_def ErrStoreIO_def)
  have stop: "stopRequested (calm_config recs failure) ''r'' s = (Inr None, s)" for recs failure and s :: "unit xstate"
    by (simp add: stopRequested_def run_steps)
  have load: "loadStates (calm_config Map.empty failure) ''r'' [''b'', ''d''] s =
      (Inr (), s\<lparr>x_states := [(''b'', new_status), (''d'', new_status)]\<rparr>)" for failure and s :: "unit xstate"
    by (simp add: loadStates_def run_steps)
  have new: "ns_state new_status = NodePending" "ns_attempts new_status = 0" by (simp_all add: new_status_def InitialNodeState_def)
  show ?thesis
    unfolding Run_def drill_admitted [OF assms]
    apply (simp add: execute_plan_def load audit_def new_trail_event_def zero_time_def p run_steps start_state_def
        status_in_def new IsComplete_def stop drill_find(1) n Let_def runNode_def transition_def checkpoint_def
        CheckTransition_def ValidTransition_simps settle_def no_signal
        finish_def tally_def tally_one_def flip: drill_failure_def)
    apply (simp add: drill_started_def drill_failed_def new_trail_event_def numeral_2_eq_2 entered_def no_info_def
        new_result_def n)
    done
qed

subsection \<open>Reading the runs\<close>

definition up_to_drop :: "string \<Rightarrow> effect list" where
  "up_to_drop d = Audited (drill_started d) None # wait_effects @ before_drop"

lemma drill_trace_drop: "drill_trace d = up_to_drop d @ Executed drill_statement None # after_drop @ [Audited drill_finished None]"
  by (simp add: drill_trace_def up_to_drop_def)

lemma drill_trace_verifying:
  "drill_trace d = (up_to_drop d @ [Executed drill_statement None]) @
     Recorded (entered drill_node NodeRunning NodeVerifying 1) None #
     Logged (transition_log (entered drill_node NodeRunning NodeVerifying 1) no_info) #
     entry drill_node NodeVerifying NodeDone 1 @ [Audited drill_finished None]"
  by (simp add: drill_trace_drop after_drop_def entry_def)

lemma drill_statement_fields: "sm_node drill_statement = ''d''" "IsDestructive (sm_kind drill_statement)"
  by (simp_all add: drill_statement_def IsDestructive_def)

lemma drill_result_fields: "\<not> res_cancelled drill_result" "res_done drill_result = 2"
  by (simp_all add: drill_result_def new_result_def)

end
