(* ===== verification/Executor_Properties.thy ===== *)
theory Executor_Properties
  imports Executor_Samples
begin

text \<open>
  What the executor promises about any run, read off the protocol it follows: every statement is
  preceded by its checkpoint, its dependencies and its authorization, nothing follows a failed
  checkpoint, completed nodes are left alone, attempts are bounded, and a run that reports success has
  completed its plan.
\<close>

subsection \<open>Reading a trace\<close>

definition trace_of :: "'w config \<Rightarrow> run_id \<Rightarrow> plan \<Rightarrow> 'w \<Rightarrow> effect list" where
  "trace_of cf i p w = x_trace (snd (Run cf i (Some p) (start_state w)))"

fun record_step :: "(node_id \<Rightarrow> node_state) \<Rightarrow> effect \<Rightarrow> node_id \<Rightarrow> node_state" where
  "record_step st (Recorded t None) = st(tr_node t := tr_to t)"
| "record_step st x = st"

text \<open>The state that was recorded last, before the run or in it.\<close>

definition recorded_state :: "'w config \<Rightarrow> run_id \<Rightarrow> plan \<Rightarrow> 'w \<Rightarrow> effect list \<Rightarrow> node_id \<Rightarrow> node_state" where
  "recorded_state cf i p w xs = foldl record_step (dp_state (recorded_before cf i p w)) xs"

lemma dp_state_update: "dp_state (dp_update p \<sigma> x) = record_step (dp_state \<sigma>) x"
  by (cases "(p, \<sigma>, x)" rule: dp_update.cases) simp_all

lemma dp_state_after: "dp_state (dp_after p \<sigma> xs) = foldl record_step (dp_state \<sigma>) xs"
  by (induction xs arbitrary: \<sigma>) (simp_all add: dp_state_update)

lemma recorded_state_after: "recorded_state cf i p w xs = dp_state (dp_after p (recorded_before cf i p w) xs)"
  by (simp add: recorded_state_def dp_state_after)

lemma Run_trace:
  "follows cf i p (recorded_before cf i p w) (trace_of cf i p w)"
proof -
  obtain r e s' where R: "Run cf i (Some p) (start_state w) = (Inr (r, e), s')"
    using wp_Run [of cf i "Some p" w] by (auto simp: wp_def split: prod.splits sum.splits)
  have *: "r = None \<longrightarrow> s' = start_state w"
    "\<forall>res. r = Some res \<longrightarrow> (\<exists>q order. admit cf i (Some p) = Inr (q, order) \<and>
       follows cf i q (recorded_before cf i q w) (x_trace s'))"
    using wp_result [OF wp_Run R] by auto
  show ?thesis
    using * R admit_Inr(1)
    by (cases r) (fastforce simp: trace_of_def start_state_def)+
qed

lemma trace_split:
  assumes "trace_of cf i p w = pre @ x # post"
  shows "dispatch_step cf i p (dp_after p (recorded_before cf i p w) pre) x"
    "follows cf i p (recorded_before cf i p w) pre"
  using follows_step follows_append Run_trace [of cf i p w] assms by metis+

text \<open>
  C1. The executor implements its protocol: whatever the store, the database, the catalog and the clock
  answer, and wherever the run ends, the effects of a run are a sequence the protocol allows from the
  recorded states the run started from.
\<close>
theorem Run_follows_protocol:
  "follows cf i p (recorded_before cf i p w) (x_trace (snd (Run cf i (Some p) (start_state w))))"
  using Run_trace by (simp add: trace_of_def)

subsection \<open>Statements\<close>

text \<open>A flag of the dispatcher that is up was raised by an effect after which nothing lowered it.\<close>

lemma raised_by:
  assumes "\<And>\<sigma> x. F (dp_update p \<sigma> x) \<Longrightarrow> raises x \<or> F \<sigma> \<and> \<not> lowers x" "\<not> F z" "F (dp_after p z xs)"
  shows "\<exists>ys x zs. xs = ys @ x # zs \<and> raises x \<and> (\<forall>y \<in> set zs. \<not> lowers y)"
  using assms(3)
proof (induction xs rule: rev_induct)
  case Nil
  then show ?case using assms(2) by simp
next
  case (snoc x xs)
  then have "F (dp_update p (dp_after p z xs) x)" by simp
  then consider "raises x" | "F (dp_after p z xs)" "\<not> lowers x" using assms(1) by blast
  then show ?case
  proof cases
    case 1
    then have "xs @ [x] = xs @ x # [] \<and> raises x \<and> (\<forall>y \<in> set []. \<not> lowers y)" by simp
    then show ?thesis by blast
  next
    case 2
    from snoc.IH [OF this(1)] obtain ys y zs where "xs = ys @ y # zs" "raises y" "\<forall>y \<in> set zs. \<not> lowers y" by blast
    then have "xs @ [x] = ys @ y # (zs @ [x]) \<and> raises y \<and> (\<forall>y \<in> set (zs @ [x]). \<not> lowers y)" using 2(2) by simp
    then show ?thesis by blast
  qed
qed

definition enters :: "node_id \<Rightarrow> node_state \<Rightarrow> effect \<Rightarrow> bool" where
  "enters j to x \<longleftrightarrow> (\<exists>t. x = Recorded t None \<and> tr_node t = j \<and> tr_to t = to)"

definition moves_on :: "node_id \<Rightarrow> effect \<Rightarrow> bool" where
  "moves_on j x \<longleftrightarrow> (\<exists>to. to \<noteq> NodeRunning \<and> enters j to x)"

definition earns :: "plan \<Rightarrow> node_id \<Rightarrow> effect \<Rightarrow> bool" where
  "earns p j x \<longleftrightarrow> (\<exists>sm. x = Executed sm None \<and> sm_node sm = j \<and> is_primary p sm) \<or>
     (\<exists>as r. x = Asserted j as r \<and> judge assertion_code as r = None)"

definition confirms :: "node_id \<Rightarrow> effect \<Rightarrow> bool" where
  "confirms j x \<longleftrightarrow> (\<exists>cs r. x = Verified j cs r \<and> judge (\<lambda>c _. c) cs r = None)"

lemma granted_by:
  assumes "dp_granted (dp_after p z xs) j" "\<not> dp_granted z j"
  shows "\<exists>ys g zs. xs = ys @ Granted g None # zs \<and> gr_node g = j \<and> (\<forall>y \<in> set zs. \<not> moves_on j y)"
proof -
  have "(\<exists>g. x = Granted g None \<and> gr_node g = j) \<or> dp_granted \<sigma> j \<and> \<not> moves_on j x"
    if "dp_granted (dp_update p \<sigma> x) j" for \<sigma> x
    using that by (cases "(p, \<sigma>, x)" rule: dp_update.cases) (auto simp: moves_on_def enters_def split: if_splits)
  from raised_by [where F = "\<lambda>\<sigma>. dp_granted \<sigma> j" and raises = "\<lambda>x. \<exists>g. x = Granted g None \<and> gr_node g = j" and lowers = "moves_on j", OF this assms(2,1)] show ?thesis by blast
qed

lemma worked_by:
  assumes "dp_worked (dp_after p z xs) j" "\<not> dp_worked z j"
  shows "\<exists>ys x zs. xs = ys @ x # zs \<and> earns p j x \<and> (\<forall>y \<in> set zs. \<not> enters j NodeRunning y)"
proof -
  have "earns p j x \<or> dp_worked \<sigma> j \<and> \<not> enters j NodeRunning x" if "dp_worked (dp_update p \<sigma> x) j" for \<sigma> x
    using that by (cases "(p, \<sigma>, x)" rule: dp_update.cases) (auto simp: earns_def enters_def split: if_splits)
  from raised_by [where F = "\<lambda>\<sigma>. dp_worked \<sigma> j" and raises = "earns p j" and lowers = "enters j NodeRunning", OF this assms(2,1)] show ?thesis by blast
qed

lemma checked_by:
  assumes "dp_checked (dp_after p z xs) j" "\<not> dp_checked z j"
  shows "\<exists>ys x zs. xs = ys @ x # zs \<and> confirms j x \<and> (\<forall>y \<in> set zs. \<not> enters j NodeVerifying y)"
proof -
  have "confirms j x \<or> dp_checked \<sigma> j \<and> \<not> enters j NodeVerifying x" if "dp_checked (dp_update p \<sigma> x) j" for \<sigma> x
    using that by (cases "(p, \<sigma>, x)" rule: dp_update.cases) (auto simp: confirms_def enters_def split: if_splits)
  from raised_by [where F = "\<lambda>\<sigma>. dp_checked \<sigma> j" and raises = "confirms j" and lowers = "enters j NodeVerifying", OF this assms(2,1)] show ?thesis by blast
qed

lemma recorded_before_fields [simp]:
  "\<not> dp_granted (recorded_before cf i p w) j" "\<not> dp_worked (recorded_before cf i p w) j"
  "\<not> dp_checked (recorded_before cf i p w) j" "\<not> dp_halted (recorded_before cf i p w)"
  "dp_tries (recorded_before cf i p w) = (\<lambda>_. 0)"
  by (simp_all add: recorded_before_def start_dispatcher_def)

text \<open>
  C2. No statement without its checkpoint: when the executor sends a statement, it is the rendering of
  a node of the plan, under the session settings of its kind, or the ownership comment of that node;
  the last recorded state of the node is RUNNING and every dependency is recorded as complete.
\<close>
theorem statement_checkpointed:
  assumes "x_trace (snd (Run cf i (Some p) (start_state w))) = pre @ Executed sm r # post"
  shows "\<exists>n \<in> set (p_nodes p). n_id n = sm_node sm \<and> sm_run sm = i \<and> sm_kind sm = n_kind n \<and> IssuesDDL (n_kind n) \<and>
    recorded_state cf i p w pre (n_id n) = NodeRunning \<and>
    (\<forall>d \<in> set (n_depends_on n). IsComplete (recorded_state cf i p w pre d)) \<and>
    ((\<exists>sql. Render (Some n) = Inr sql \<and> sql \<noteq> [] \<and> sm = primary_statement cf i n sql) \<or>
     (\<exists>object m t. FormatMarker m = Inr t \<and> sm = marker_statement cf i n (RenderComment object t)))"
proof -
  have "trace_of cf i p w = pre @ Executed sm r # post" using assms by (simp add: trace_of_def)
  note step = trace_split(1) [OF this]
  then obtain n where n: "NodeByID p (n_id n) = Some n" "IssuesDDL (n_kind n)"
    "recorded_state cf i p w pre (n_id n) = NodeRunning"
    "\<forall>d \<in> set (n_depends_on n). IsComplete (recorded_state cf i p w pre d)" "statement_for cf i n sm"
    by (auto simp: recorded_state_after elim: executedE)
  then have "n_id n = sm_node sm" "sm_run sm = i" "sm_kind sm = n_kind n"
    by (auto simp: statement_for_def primary_statement_def marker_statement_def)
  then show ?thesis
    using n NodeByID_set [OF n(1)] unfolding statement_for_def by blast
qed

theorem statement_checkpointed_witness:
  "\<exists>d. \<exists>n \<in> set (p_nodes (drill_plan\<lparr>p_digest := d\<rparr>)). VerifyDigest (drill_plan\<lparr>p_digest := d\<rparr>) = None \<and> n_id n = ''d'' \<and> IssuesDDL (n_kind n) \<and>
     recorded_state (calm_config Map.empty None) ''r'' (drill_plan\<lparr>p_digest := d\<rparr>) () (up_to_drop d) (n_id n) = NodeRunning"
proof -
  obtain d where d: "VerifyDigest (drill_plan\<lparr>p_digest := d\<rparr>) = None" using drill_plan_seals by blast
  have run: "x_trace (snd (Run (calm_config Map.empty None) ''r'' (Some (drill_plan\<lparr>p_digest := d\<rparr>)) (start_state ()))) = drill_trace d"
    by (simp add: drill_run [OF d])
  from statement_checkpointed [OF run [unfolded drill_trace_drop]] d show ?thesis
    unfolding drill_statement_fields by blast
qed

lemma destructive_render:
  assumes "IsDestructive (n_kind n)" "destructiveObject n = Inr x" "Render (Some n) = Inr sql"
  shows "sql = ''DROP INDEX CONCURRENTLY '' @ obj_Quoted x \<or> sql = ''DROP INDEX '' @ obj_Quoted x"
proof (cases "n_kind n = KindIndexDropConcurrently")
  case True
  then show ?thesis
    using assms(2,3) by (auto simp: destructiveObject_def Render_def split: option.splits node_params.splits)
next
  case False
  then have "n_kind n = KindIndexDropPartitioned"
    using assms(1) by (cases "n_kind n") (simp_all add: IsDestructive_def)
  then show ?thesis
    using assms(2,3) by (auto simp: destructiveObject_def Render_def split: option.splits node_params.splits)
qed

lemma statement_sql:
  "statement_for cf i n sm \<Longrightarrow> Render (Some n) = Inr (sm_sql sm) \<or>
     (\<exists>object m t. FormatMarker m = Inr t \<and> sm_sql sm = RenderComment object t)"
  unfolding statement_for_def
  by (elim disjE exE conjE)
     (simp add: primary_statement_def, rule disjI2, intro exI conjI, assumption, simp add: marker_statement_def)



subsection \<open>Failed checkpoints\<close>

text \<open>A checkpoint, an authorization record, or one of the events that must not be lost, that was not stored.\<close>

fun lost :: "effect \<Rightarrow> bool" where
  "lost (Recorded t r) = (r \<noteq> None)"
| "lost (Granted g r) = (r \<noteq> None)"
| "lost (Audited ev r) = (r \<noteq> None \<and> halts_run (te_type ev))"
| "lost x = False"

lemma lost_halts: "lost x \<Longrightarrow> dp_halted (dp_update p \<sigma> x)"
  by (cases "(p, \<sigma>, x)" rule: dp_update.cases) auto

lemma halted_update: "dp_halted \<sigma> \<Longrightarrow> dp_halted (dp_update p \<sigma> x)"
  by (cases "(p, \<sigma>, x)" rule: dp_update.cases) auto

lemma halted_after: "dp_halted \<sigma> \<Longrightarrow> dp_halted (dp_after p \<sigma> xs)"
  by (induction xs arbitrary: \<sigma>) (simp_all add: halted_update)

lemma halted_step: "dispatch_step cf i p \<sigma> x \<Longrightarrow> dp_halted \<sigma> \<Longrightarrow> \<exists>ev r. x = Audited ev r \<and> \<not> halts_run (te_type ev)"
  by (cases rule: dispatch_step.cases) auto

text \<open>
  C15. A run that cannot record where it is does nothing more: after a checkpoint, an authorization
  record, or an event of the trail that must not be lost could not be stored, the only effects left
  are the closing events of the trail.
\<close>
theorem lost_checkpoint_stops:
  assumes "x_trace (snd (Run cf i (Some p) (start_state w))) = pre @ x # post" "lost x" "y \<in> set post"
  shows "\<exists>ev r. y = Audited ev r \<and> \<not> halts_run (te_type ev)"
proof -
  obtain as bs where post: "post = as @ y # bs" using assms(3) by (meson split_list)
  have "trace_of cf i p w = (pre @ x # as) @ y # bs" using assms(1) post by (simp add: trace_of_def)
  from halted_step [OF trace_split(1) [OF this]] show ?thesis
    using assms(2) by (simp add: lost_halts halted_after)
qed

theorem lost_checkpoint_stops_witness:
  "\<exists>ev r. Audited drill_failed None = Audited ev r \<and> \<not> halts_run (te_type ev)"
proof -
  obtain d where d: "VerifyDigest (drill_plan\<lparr>p_digest := d\<rparr>) = None" using drill_plan_seals by blast
  show ?thesis by (rule lost_checkpoint_stops [OF drill_lost [OF d]]) simp_all
qed

subsection \<open>Completed nodes\<close>

fun concerns :: "effect \<Rightarrow> node_id option" where
  "concerns (Recorded t r) = Some (tr_node t)"
| "concerns (Granted g r) = Some (gr_node g)"
| "concerns (Executed sm r) = Some (sm_node sm)"
| "concerns (Asserted j as r) = Some j"
| "concerns (Verified j cs r) = Some j"
| "concerns (MarkerRead j x r) = Some j"
| "concerns x = None"

lemma complete_step:
  "dispatch_step cf i p \<sigma> x \<Longrightarrow> IsComplete (dp_state \<sigma> j) \<Longrightarrow> concerns x \<noteq> Some j"
  by (cases rule: dispatch_step.cases)
     (auto simp: ValidTransition_step granted_for_def statement_for_def primary_statement_def marker_statement_def
        dest: complete_no_step)

lemma record_step_other: "concerns x \<noteq> Some j \<Longrightarrow> record_step st x j = st j"
  by (cases "(st, x)" rule: record_step.cases) auto

lemma complete_after:
  "follows cf i p z xs \<Longrightarrow> IsComplete (dp_state z j) \<Longrightarrow>
     dp_state (dp_after p z xs) j = dp_state z j \<and> (\<forall>x \<in> set xs. concerns x \<noteq> Some j)"
proof (induction rule: follows.induct)
  case (more xs x)
  then have "concerns x \<noteq> Some j" using complete_step by metis
  then show ?case using more by (auto simp: dp_state_update record_step_other)
qed simp

text \<open>
  Running a plan again is a no-op where it is done (AC-7): a node that is recorded as DONE or SKIPPED
  is not checkpointed, authorized, dispatched, checked or marked again.
\<close>
theorem completed_untouched:
  assumes "IsComplete (recorded_state cf i p w [] j)"
  shows "\<forall>x \<in> set (x_trace (snd (Run cf i (Some p) (start_state w)))). concerns x \<noteq> Some j"
  using complete_after [OF Run_trace [of cf i p w]] assms by (auto simp: recorded_state_after trace_of_def)

theorem completed_untouched_witness:
  "\<exists>d. VerifyDigest (drill_plan\<lparr>p_digest := d\<rparr>) = None \<and> (\<forall>x \<in> set (x_trace (snd (Run
     (calm_config [''b'' \<mapsto> \<lparr>sn_state = NodeDone, sn_attempts = 1\<rparr>] None) ''r'' (Some (drill_plan\<lparr>p_digest := d\<rparr>)) (start_state ())))).
       concerns x \<noteq> Some ''b'')"
proof -
  obtain d where d: "VerifyDigest (drill_plan\<lparr>p_digest := d\<rparr>) = None" using drill_plan_seals by blast
  have "IsComplete (recorded_state (calm_config [''b'' \<mapsto> \<lparr>sn_state = NodeDone, sn_attempts = 1\<rparr>] None) ''r'' (drill_plan\<lparr>p_digest := d\<rparr>) () [] ''b'')"
    by (simp add: recorded_state_def recorded_before_def loaded_def drill_nodes wait_node_def)
  from completed_untouched [OF this] d show ?thesis by blast
qed

subsection \<open>Attempts\<close>

definition dispatches :: "node_id \<Rightarrow> effect list \<Rightarrow> nat" where
  "dispatches j xs = length (filter (\<lambda>x. case x of Recorded t r \<Rightarrow> tr_node t = j \<and> tr_to t = NodeRunning | _ \<Rightarrow> False) xs)"

lemma tries_update:
  "dp_tries (dp_update p \<sigma> x) j = dp_tries \<sigma> j + int (dispatches j [x])"
  by (cases "(p, \<sigma>, x)" rule: dp_update.cases) (auto simp: dispatches_def)

lemma dispatches_append: "dispatches j (xs @ ys) = dispatches j xs + dispatches j ys"
  by (simp add: dispatches_def)

lemma tries_count:
  assumes "follows cf i p z xs" "dp_tries z j = 0"
  shows "dp_tries (dp_after p z xs) j = int (dispatches j xs) \<and> int (dispatches j xs) \<le> max 1 (rp_max_attempts (cf_retry cf))"
  using assms
proof (induction rule: follows.induct)
  case nothing
  then show ?case by (simp add: dispatches_def)
next
  case (more xs x)
  have "dispatches j [x] = 0 \<or> dispatches j [x] = 1 \<and> dp_tries (dp_after p z xs) j < max 1 (rp_max_attempts (cf_retry cf))"
    using more.hyps(2) by (cases rule: dispatch_step.cases) (auto simp: dispatches_def may_enter_def)
  then show ?case using more by (auto simp: tries_update dispatches_append)
qed

text \<open>
  C24. Attempts are bounded: in one run a node is dispatched at most as often as the retry policy allows,
  which is at least once.  The attempt loop is a total function, so every run ends.
\<close>
theorem attempts_bounded:
  "int (dispatches j (x_trace (snd (Run cf i x (start_state w))))) \<le> max 1 (rp_max_attempts (cf_retry cf))"
proof (cases x)
  case None
  then show ?thesis by (simp add: Run_def admit_def sreturn_def start_state_def dispatches_def)
next
  case (Some p)
  then show ?thesis using tries_count [OF Run_trace [of cf i p w]] by (simp add: trace_of_def)
qed

subsection \<open>What DONE means\<close>

text \<open>
  C25. No state without its work: a node of the run enters VERIFYING only after its own statement has
  succeeded, or its assertions have all passed, since it was last dispatched; and a verification node
  becomes DONE only after every one of its checks has passed since it entered VERIFYING.
\<close>
theorem progress_earned:
  assumes "x_trace (snd (Run cf i (Some p) (start_state w))) = pre @ Recorded t r # post"
  shows "\<exists>n \<in> set (p_nodes p). n_id n = tr_node t \<and>
    (tr_to t = NodeVerifying \<and> (IssuesDDL (n_kind n) \<or> n_kind n = KindCatalogAssert) \<longrightarrow>
      (\<exists>ys x zs. pre = ys @ x # zs \<and> earns p (n_id n) x \<and> (\<forall>y \<in> set zs. \<not> enters (n_id n) NodeRunning y))) \<and>
    (tr_to t = NodeDone \<and> n_kind n = KindIndexVerify \<longrightarrow>
      (\<exists>ys x zs. pre = ys @ x # zs \<and> confirms (n_id n) x \<and> (\<forall>y \<in> set zs. \<not> enters (n_id n) NodeVerifying y)))"
proof -
  let ?\<sigma> = "dp_after p (recorded_before cf i p w) pre"
  have "trace_of cf i p w = pre @ Recorded t r # post" using assms by (simp add: trace_of_def)
  from trace_split(1) [OF this] obtain n where n: "NodeByID p (n_id n) = Some n" "tr_node t = n_id n"
      "may_enter cf ?\<sigma> n (tr_to t)"
    by (rule recordedE) blast
  have "tr_to t = NodeVerifying \<and> (IssuesDDL (n_kind n) \<or> n_kind n = KindCatalogAssert) \<longrightarrow> dp_worked ?\<sigma> (n_id n)"
    "tr_to t = NodeDone \<and> n_kind n = KindIndexVerify \<longrightarrow> dp_checked ?\<sigma> (n_id n)"
    using n(3) by (auto simp: may_enter_def)
  then show ?thesis
    using worked_by [OF _ recorded_before_fields(2)] checked_by [OF _ recorded_before_fields(3)]
      NodeByID_set [OF n(1)] n(2) by metis
qed

theorem progress_earned_witness:
  "\<exists>d. VerifyDigest (drill_plan\<lparr>p_digest := d\<rparr>) = None \<and> (\<exists>ys x zs. up_to_drop d @ [Executed drill_statement None] = ys @ x # zs \<and>
     earns (drill_plan\<lparr>p_digest := d\<rparr>) ''d'' x \<and> (\<forall>y \<in> set zs. \<not> enters ''d'' NodeRunning y))"
proof -
  obtain d where d: "VerifyDigest (drill_plan\<lparr>p_digest := d\<rparr>) = None" using drill_plan_seals by blast
  have run: "x_trace (snd (Run (calm_config Map.empty None) ''r'' (Some (drill_plan\<lparr>p_digest := d\<rparr>)) (start_state ()))) = drill_trace d"
    by (simp add: drill_run [OF d])
  have t: "tr_node (entered drill_node NodeRunning NodeVerifying 1) = ''d''"
    "tr_to (entered drill_node NodeRunning NodeVerifying 1) = NodeVerifying"
    by (simp_all add: entered_def drill_node_def sample_drop_def)
  have "IssuesDDL (n_kind n)" if "n \<in> set (p_nodes (drill_plan\<lparr>p_digest := d\<rparr>))" "n_id n = ''d''" for n
    using that by (auto simp: drill_nodes sample_drop_def wait_node_def IssuesDDL_def)
  then show ?thesis
    using progress_earned [OF run [unfolded drill_trace_verifying], unfolded t] d by metis
qed

subsection \<open>The answer of a run\<close>

lemma in_state_zero: "in_state P ss = 0 \<longleftrightarrow> (\<forall>x \<in> set ss. \<not> P (ns_state (snd x)))"
  by (auto simp: in_state_def filter_empty_conv)

lemma in_state_partition:
  "in_state (\<lambda>st. st = NodeDone) ss + in_state (\<lambda>st. st = NodeSkipped) ss + in_state (\<lambda>st. \<not> IsComplete st) ss = length ss"
  by (induction ss) (auto simp: in_state_def IsComplete_def split: node_state.splits)

lemma keyed_status: "keyed p ss \<Longrightarrow> (j, st) \<in> set ss \<Longrightarrow> status_in ss j = st"
  by (simp add: keyed_def status_in_def)

lemma keyed_length: "keyed p ss \<Longrightarrow> distinct (map n_id (p_nodes p)) \<Longrightarrow> length ss = length (p_nodes p)"
  unfolding keyed_def by (metis distinct_card length_map list.set_map)

lemma Run_success:
  assumes "Run cf i x (start_state w) = (Inr (Some res, None), s')" "\<not> cf_dry_run cf" "\<not> res_cancelled res"
  shows "Complete (Some res) \<and> (\<exists>p. x = Some p \<and> res_done res + res_skipped res = length (p_nodes p) \<and>
    (\<forall>n \<in> set (p_nodes p). IsComplete (recorded_state cf i p w (x_trace s') (n_id n))))"
proof -
  obtain p order where a: "admit cf i x = Inr (p, order)"
    and ans: "answers cf i p (recorded_before cf i p w) (recorded_before cf i p w) (set order) (benign cf i p) (res, None) s'"
    using wp_result [OF wp_Run assms(1)] assms(2) by auto
  obtain \<sigma> where \<sigma>: "at_disp cf i p (recorded_before cf i p w) \<sigma> s'" "res = tally res (x_states s')"
      "\<forall>j \<in> set order. IsComplete (dp_state \<sigma> j)"
    using ans assms(3) by (auto simp: answers_def)
  have k: "keyed p (x_states s')" using \<sigma>(1) by (simp add: at_disp_def)
  have o: "set order = n_id ` set (p_nodes p)" using admit_Inr(5) [OF a] by (simp add: canonical_order_def)
  have dist: "distinct (map n_id (p_nodes p))"
    using admit_Inr(3) [OF a] check_nodes_Inr by (elim plan_Validate_None) blast
  have "IsComplete (ns_state st)" if "(j, st) \<in> set (x_states s')" for j st
  proof -
    have "j \<in> set order" using that k o by (force simp: keyed_def)
    then show ?thesis using \<sigma>(1,3) keyed_status [OF k that] at_state by metis
  qed
  then have "in_state (\<lambda>st. \<not> IsComplete st) (x_states s') = 0" by (auto simp: in_state_zero)
  moreover have "res_remaining res = in_state (\<lambda>st. \<not> IsComplete st) (x_states s')"
    "res_done res = in_state (\<lambda>st. st = NodeDone) (x_states s')"
    "res_skipped res = in_state (\<lambda>st. st = NodeSkipped) (x_states s')"
    using arg_cong [OF \<sigma>(2), of res_remaining] arg_cong [OF \<sigma>(2), of res_done] arg_cong [OF \<sigma>(2), of res_skipped]
    by (simp_all add: tally_counts)
  ultimately have "res_remaining res = 0" "res_done res + res_skipped res = length (p_nodes p)"
    using in_state_partition [of "x_states s'"] keyed_length [OF k dist] by simp_all
  moreover have "IsComplete (recorded_state cf i p w (x_trace s') (n_id n))" if "n \<in> set (p_nodes p)" for n
    using \<sigma>(1,3) o that by (simp add: recorded_state_after at_disp_def)
  ultimately show ?thesis using assms(3) admit_Inr(1) [OF a] by (simp add: Complete_def)
qed





text \<open>
  A dry run only tells: it writes no checkpoint, sends no statement and asks no port, it prints for
  each node, in the canonical order and numbered from one, exactly the statement that a run would send.
\<close>
theorem dry_run_tells:
  assumes "cf_dry_run cf" "admit cf i x = Inr (p, order)"
  shows "\<exists>es s'. Run cf i x (start_state w) = (Inr (Some (new_result i order), None), s') \<and>
    x_trace s' = map Logged es \<and> dry_lines i p 0 order es"
proof -
  obtain r e s' where R: "Run cf i x (start_state w) = (Inr (r, e), s')"
    using wp_Run [of cf i x w] by (auto simp: wp_def split: prod.splits sum.splits)
  have "r \<noteq> None" using R assms by (auto simp: Run_def stry_def sreturn_def split: prod.splits)
  then show ?thesis using wp_result [OF wp_Run R] assms R by auto
qed

theorem dry_run_tells_witness:
  "\<exists>d es s'. Run ((calm_config Map.empty None)\<lparr>cf_dry_run := True\<rparr>) ''r'' (Some (drill_plan\<lparr>p_digest := d\<rparr>)) (start_state ()) =
     (Inr (Some (new_result ''r'' [''b'', ''d'']), None), s') \<and> x_trace s' = map Logged es \<and>
     dry_lines ''r'' (drill_plan\<lparr>p_digest := d\<rparr>) 0 [''b'', ''d''] es"
proof -
  obtain d where d: "VerifyDigest (drill_plan\<lparr>p_digest := d\<rparr>) = None" using drill_plan_seals by blast
  have "admit ((calm_config Map.empty None)\<lparr>cf_dry_run := True\<rparr>) ''r'' (Some (drill_plan\<lparr>p_digest := d\<rparr>)) = Inr ((drill_plan\<lparr>p_digest := d\<rparr>), [''b'', ''d''])"
    using drill_admitted [OF d, of Map.empty None] by (simp add: admit_def preflight_def)
  from dry_run_tells [OF _ this] show ?thesis by auto
qed

text \<open>
  Nothing happens without a reviewed plan: if a run had any effect, or changed anything, it was given
  a run id and a plan whose digest verifies and which is valid, every node of it is of a kind the executor
  supports and its statement renders, and the catalog it needs is there.
\<close>
theorem effect_needs_sealed_plan:
  assumes "snd (Run cf i x (start_state w)) \<noteq> start_state w"
  shows "i \<noteq> [] \<and> (\<exists>p. x = Some p \<and> VerifyDigest p = None \<and> plan_Validate p = None \<and>
    (\<forall>n \<in> set (p_nodes p). supportedKind (n_kind n) \<and> (IssuesDDL (n_kind n) \<longrightarrow> (\<exists>sql. Render (Some n) = Inr sql \<and> sql \<noteq> [])) \<and>
       (needs_catalog (n_kind n) \<longrightarrow> cf_dry_run cf \<or> cf_has_catalog cf)))"
proof (cases "admit cf i x")
  case (Inl e)
  then show ?thesis using assms by (simp add: Run_def sreturn_def)
next
  case (Inr y)
  then obtain p order where a: "admit cf i x = Inr (p, order)" by (cases y) simp
  have "preflight_node n = None" if "n \<in> set (p_nodes p)" for n
    using admit_Inr(6) [OF a] that by (simp add: preflight_def then_check_None each_check_None)
  then have "\<forall>n \<in> set (p_nodes p). supportedKind (n_kind n) \<and> (IssuesDDL (n_kind n) \<longrightarrow> (\<exists>sql. Render (Some n) = Inr sql \<and> sql \<noteq> []))"
    by (fastforce simp: preflight_node_def split: if_splits sum.splits)
  moreover have "\<forall>n \<in> set (p_nodes p). needs_catalog (n_kind n) \<longrightarrow> cf_dry_run cf \<or> cf_has_catalog cf"
    using admit_Inr(6) [OF a] by (auto simp: preflight_def then_check_None split: if_splits)
  ultimately show ?thesis using admit_Inr [OF a] by auto
qed

theorem effect_needs_sealed_plan_witness:
  "\<exists>d p. Some (drill_plan\<lparr>p_digest := d\<rparr>) = Some p \<and> VerifyDigest p = None"
proof -
  obtain d where d: "VerifyDigest (drill_plan\<lparr>p_digest := d\<rparr>) = None" using drill_plan_seals by blast
  have "snd (Run (calm_config Map.empty None) ''r'' (Some (drill_plan\<lparr>p_digest := d\<rparr>)) (start_state ())) \<noteq> start_state ()"
    by (subst drill_run [OF d]) (simp add: start_state_def drill_trace_def)
  from effect_needs_sealed_plan [OF this] show ?thesis by blast
qed

end
