(* ===== verification/Rfc3339.thy ===== *)
theory Rfc3339
  imports Digest
begin

text \<open>
  The part of Go's package time that the reindex watermark uses: \<open>time.Parse(time.RFC3339, s)\<close>, as the
  standard library reads that layout (two-digit fields except the hour, which may have one digit, an
  optional fraction of any length of which nine digits count, Z or a numeric offset).
\<close>

definition digit_of :: "char \<Rightarrow> int option" where
  "digit_of c = (let n = of_char c :: nat in if 48 \<le> n \<and> n \<le> 57 then Some (int n - 48) else None)"

definition is_num :: "char \<Rightarrow> bool" where "is_num c \<longleftrightarrow> digit_of c \<noteq> None"

definition num_of :: "string \<Rightarrow> int" where
  "num_of s = foldl (\<lambda>a c. a * 10 + the (digit_of c)) 0 s"

text \<open>getnum: two digits, or one where the layout does not fix the width.\<close>

fun getnum :: "bool \<Rightarrow> string \<Rightarrow> (int \<times> string) option" where
  "getnum fixed (c # d # s) =
     (if \<not> is_num c then None
      else if is_num d then Some (num_of [c, d], s)
      else if fixed then None else Some (num_of [c], d # s))"
| "getnum fixed [c] = (if is_num c \<and> \<not> fixed then Some (num_of [c], []) else None)"
| "getnum fixed [] = None"

definition ranged :: "int \<Rightarrow> int \<Rightarrow> (int \<times> string) option \<Rightarrow> (int \<times> string) option" where
  "ranged lo hi x = (case x of Some (n, s) \<Rightarrow> if lo \<le> n \<and> n \<le> hi then x else None | None \<Rightarrow> None)"

fun skip_char :: "char \<Rightarrow> string \<Rightarrow> string option" where
  "skip_char c (d # s) = (if c = d then Some s else None)"
| "skip_char c [] = None"

definition leap_year :: "int \<Rightarrow> bool" where
  "leap_year y \<longleftrightarrow> y mod 4 = 0 \<and> (y mod 100 \<noteq> 0 \<or> y mod 400 = 0)"

definition days_in :: "int \<Rightarrow> int \<Rightarrow> int" where
  "days_in m y = (if m = 2 then if leap_year y then 29 else 28 else if m \<in> {4, 6, 9, 11} then 30 else 31)"

text \<open>The inverse of \<open>civil_date\<close>: the day number of a date.\<close>

definition civil_days :: "int \<Rightarrow> int \<Rightarrow> int \<Rightarrow> int" where
  "civil_days y m d =
     (let y = (if m \<le> 2 then y - 1 else y); era = y div 400; yoe = y mod 400;
          mp = (if m > 2 then m - 3 else m + 9);
          doy = (153 * mp + 2) div 5 + d - 1;
          doe = yoe * 365 + yoe div 4 - yoe div 100 + doy
      in era * 146097 + doe - 719468)"

definition fraction_of :: "string \<Rightarrow> int \<times> string" where
  "fraction_of s = (case s of
     p # c # r \<Rightarrow> if p \<in> {CHR ''.'', CHR '',''} \<and> is_num c
       then (let ds = take 9 (takeWhile is_num (c # r)) in
             (num_of ds * 10 ^ (9 - length ds), dropWhile is_num (c # r)))
       else (0, s)
   | _ \<Rightarrow> (0, s))"

definition zone_of :: "string \<Rightarrow> (int \<times> string) option" where
  "zone_of s = (case s of
     sg # h1 # h2 # c # m1 # m2 # r \<Rightarrow>
       if sg = CHR ''Z'' then Some (0, tl s)
       else if c \<noteq> CHR '':'' then None
       else (case (ranged 0 24 (getnum True [h1, h2]), ranged 0 60 (getnum True [m1, m2])) of
          (Some (h, _), Some (m, _)) \<Rightarrow>
            if sg = CHR ''+'' then Some ((h * 60 + m) * 60, r)
            else if sg = CHR ''-'' then Some (- ((h * 60 + m) * 60), r) else None
        | _ \<Rightarrow> None)
   | sg # r \<Rightarrow> if sg = CHR ''Z'' then Some (0, r) else None
   | [] \<Rightarrow> None)"

definition parse_year :: "string \<Rightarrow> (int \<times> string) option" where
  "parse_year s = (if length s < 4 \<or> \<not> list_all is_num (take 4 s) then None
     else Some (num_of (take 4 s), drop 4 s))"

text \<open>The instant in nanoseconds since 1970-01-01T00:00:00Z.\<close>

definition parse_rfc3339 :: "string \<Rightarrow> timestamp option" where
  "parse_rfc3339 s =
     Option.bind (parse_year s) (\<lambda>(y, s).
     Option.bind (skip_char (CHR ''-'') s) (\<lambda>s.
     Option.bind (ranged 1 12 (getnum True s)) (\<lambda>(m, s).
     Option.bind (skip_char (CHR ''-'') s) (\<lambda>s.
     Option.bind (getnum True s) (\<lambda>(d, s).
     Option.bind (skip_char (CHR ''T'') s) (\<lambda>s.
     Option.bind (ranged 0 23 (getnum False s)) (\<lambda>(hh, s).
     Option.bind (skip_char (CHR '':'') s) (\<lambda>s.
     Option.bind (ranged 0 59 (getnum True s)) (\<lambda>(mi, s).
     Option.bind (skip_char (CHR '':'') s) (\<lambda>s.
     Option.bind (ranged 0 59 (getnum True s)) (\<lambda>(ss, s).
     case fraction_of s of (nanos, s) \<Rightarrow>
     Option.bind (zone_of s) (\<lambda>(offset, s).
     if s \<noteq> [] \<or> d < 1 \<or> d > days_in m y then None
     else Some ((civil_days y m d * 86400 + hh * 3600 + mi * 60 + ss - offset) * 1000000000 + nanos)))))))))))))"

lemma civil_days_epoch: "civil_days 1970 1 1 = 0" "civil_days 2000 2 29 = 11016"
  subgoal unfolding civil_days_def Let_def by simp
  subgoal unfolding civil_days_def Let_def by simp
  done

lemma digit_values:
  "digit_of CHR ''0'' = Some 0" "digit_of CHR ''1'' = Some 1" "digit_of CHR ''2'' = Some 2"
  "digit_of CHR ''3'' = Some 3" "digit_of CHR ''4'' = Some 4" "digit_of CHR ''5'' = Some 5"
  "digit_of CHR ''6'' = Some 6" "digit_of CHR ''7'' = Some 7" "digit_of CHR ''8'' = Some 8"
  "digit_of CHR ''9'' = Some 9" "digit_of CHR ''-'' = None" "digit_of CHR '':'' = None"
  "digit_of CHR ''+'' = None" "digit_of CHR ''Z'' = None" "digit_of CHR ''.'' = None" "digit_of CHR ''T'' = None"
  by (simp_all add: digit_of_def)

text \<open>Instants on each side of a leap day, with an offset and a fraction, and texts that are refused.\<close>

lemmas parse_steps = parse_rfc3339_def parse_year_def is_num_def num_of_def ranged_def days_in_def leap_year_def
  digit_values

lemma parse_rfc3339_samples:
  "parse_rfc3339 ''2026-01-01T00:00:00Z'' = Some 1767225600000000000"
  "parse_rfc3339 ''2023-02-29T00:00:00Z'' = None"
  "parse_rfc3339 ''2026-01-01'' = None"
  "parse_rfc3339 ''2024-02-29T01:30:00.5+01:30'' = Some 1709164800500000000"
  subgoal by (simp add: parse_steps fraction_of_def zone_of_def civil_days_def)
  subgoal by (simp add: parse_steps fraction_of_def zone_of_def)
  subgoal by (simp add: parse_steps)
  subgoal by (simp add: parse_steps fraction_of_def zone_of_def civil_days_def)
  done

end
