(* ===== verification/Planner_Catalog.thy ===== *)
theory Planner_Catalog
  imports Marker Naming "HOL-Library.Product_Lexorder"
begin

text \<open>
  engine/planner/catalog.go and errors.go: what the planner reads of PostgreSQL's catalogs and the
  errors it rejects a target with.  A planning pass holds one REPEATABLE READ, READ ONLY snapshot, so
  the catalog reader is a record of functions of their arguments; SQL is behind them.
\<close>

subsection \<open>Errors\<close>

datatype topology_code =
    CodeNotPartitioned | CodeMultiLevel | CodeHashStrategy | CodeUnsupportedStrategy
  | CodeDefaultPartition | CodeNoPartitions | CodeUnsupportedPartitionKind | UnknownTopologyCode string

definition topology_code_Valid :: "topology_code \<Rightarrow> bool" where
  "topology_code_Valid c = (case c of UnknownTopologyCode _ \<Rightarrow> False | _ \<Rightarrow> True)"

definition AllTopologyCodes :: "topology_code list" where
  "AllTopologyCodes = [CodeNotPartitioned, CodeMultiLevel, CodeHashStrategy, CodeUnsupportedStrategy,
     CodeDefaultPartition, CodeNoPartitions, CodeUnsupportedPartitionKind]"

record ownership_violation =
  ov_relation :: string
  ov_owner :: string
  ov_owner_oid :: "32 word"

text \<open>A Go \<open>error\<close> of the planner: a protocol error, a *TopologyError (code and relation; the
  detail sentence is not modelled) or a *PrivilegeError.\<close>

datatype plan_error =
    Failed err
  | TopologyError topology_code string
  | PrivilegeError string "ownership_violation list"

fun plan_error_as :: "plan_error \<Rightarrow> (error_kind \<times> exit_code) option" where
  "plan_error_as (Failed e) = as_perr e"
| "plan_error_as (TopologyError c r) = as_perr ErrUnsupportedTopology"
| "plan_error_as (PrivilegeError r vs) = as_perr ErrInsufficientPrivilege"

definition plan_exit_code :: "plan_error \<Rightarrow> exit_code" where
  "plan_exit_code e = (case plan_error_as e of Some (k, c) \<Rightarrow> c | None \<Rightarrow> ExitFailure)"

fun TopologyCodeOf :: "plan_error \<Rightarrow> topology_code option" where
  "TopologyCodeOf (TopologyError c r) = Some c"
| "TopologyCodeOf e = None"

definition ErrRelationNotFound :: err where
  "ErrRelationNotFound = PErr (OtherKind ''relation_not_found'') ExitFailure None"
definition ErrIndexNotFound :: err where
  "ErrIndexNotFound = PErr (OtherKind ''index_not_found'') ExitFailure None"
definition ErrAmbiguousRelation :: err where
  "ErrAmbiguousRelation = PErr (OtherKind ''ambiguous_relation'') ExitFailure None"
definition ErrCatalogUnavailable :: err where
  "ErrCatalogUnavailable = PErr (OtherKind ''catalog_unavailable'') ExitFailure None"
definition ErrUnsupportedServerVersion :: err where
  "ErrUnsupportedServerVersion = PErr (OtherKind ''unsupported_server_version'') ExitFailure None"
definition ErrInvalidSpecification :: err where
  "ErrInvalidSpecification = PErr (OtherKind ''invalid_specification'') ExitFailure None"
definition ErrNotReadOnly :: err where
  "ErrNotReadOnly = PErr (OtherKind ''not_read_only'') ExitFailure None"
definition ErrForeignInvalidIndex :: err where
  "ErrForeignInvalidIndex = PErr (OtherKind ''foreign_invalid_index'') ExitAuthorizationUnsatisfied None"

text \<open>A protocol-level result in the planner's error type.\<close>

definition lifted :: "err + 'a \<Rightarrow> plan_error + 'a" where
  "lifted m = (case m of Inl e \<Rightarrow> Inl (Failed e) | Inr x \<Rightarrow> Inr x)"

lemma lifted_Inr [check_simps]: "lifted m = Inr x \<longleftrightarrow> m = Inr x"
  by (simp add: lifted_def split: sum.splits)

lemma lifted_simps [simp]: "lifted (Inl e) = Inl (Failed e)" "lifted (Inr x) = Inr x"
  by (simp_all add: lifted_def)

subsection \<open>Relations\<close>

datatype relkind =
    RelKindTable | RelKindIndex | RelKindSequence | RelKindToast | RelKindView | RelKindMatView
  | RelKindComposite | RelKindForeignTable | RelKindPartitionedTable | RelKindPartitionedIndex
  | OtherRelKind string

fun relkind_String :: "relkind \<Rightarrow> string" where
  "relkind_String RelKindTable = ''r''"
| "relkind_String RelKindIndex = ''i''"
| "relkind_String RelKindSequence = ''S''"
| "relkind_String RelKindToast = ''t''"
| "relkind_String RelKindView = ''v''"
| "relkind_String RelKindMatView = ''m''"
| "relkind_String RelKindComposite = ''c''"
| "relkind_String RelKindForeignTable = ''f''"
| "relkind_String RelKindPartitionedTable = ''p''"
| "relkind_String RelKindPartitionedIndex = ''I''"
| "relkind_String (OtherRelKind s) = s"

definition IsPartitioned :: "relkind \<Rightarrow> bool" where
  "IsPartitioned k \<longleftrightarrow> k = RelKindPartitionedTable \<or> k = RelKindPartitionedIndex"

definition IsIndex :: "relkind \<Rightarrow> bool" where
  "IsIndex k \<longleftrightarrow> k = RelKindIndex \<or> k = RelKindPartitionedIndex"

definition CanCarryIndex :: "relkind \<Rightarrow> bool" where
  "CanCarryIndex k \<longleftrightarrow> k = RelKindTable"

definition DefaultPartitionBound :: string where "DefaultPartitionBound = ''DEFAULT''"

text \<open>strings.EqualFold against an ASCII word that holds neither K nor S compares the ASCII upper
  case of the two texts, which is \<open>fold_name\<close>.\<close>

definition IsDefaultBound :: "string \<Rightarrow> bool" where
  "IsDefaultBound b \<longleftrightarrow> fold_name (TrimSpace b) = DefaultPartitionBound"

lemma TrimSpace_Nil: "TrimSpace [] = []"
proof -
  have "find (has_prefix []) space_texts = None" "find (has_suffix []) space_texts = None"
    using space_texts_nonempty by (auto simp: find_None_iff has_prefix_def has_suffix_def)
  then show ?thesis
    by (simp add: TrimSpace_def trim_left_space.simps[of "[]"] trim_right_space.simps[of "[]"])
qed

record relation =
  rl_oid :: "32 word"
  rl_name :: object_name
  rl_kind :: relkind
  rl_owner_oid :: "32 word"
  rl_owner :: string
  rl_pages :: int
  rl_parent_oid :: "32 word"
  rl_bound :: string
  rl_default :: bool

definition relation_State :: "relation \<Rightarrow> relation_state" where
  "relation_State r = \<lparr>rel_oid = rl_oid r, rel_schema = obj_schema (rl_name r), rel_name = obj_name (rl_name r),
     rel_kind = relkind_String (rl_kind r), rel_owner_oid = rl_owner_oid r, rel_parent_oid = rl_parent_oid r,
     rel_partition_bound = rl_bound r, rel_is_default = rl_default r\<rparr>"

record tree_entry =
  te_relation :: relation
  te_level :: int
  te_leaf :: bool

subsection \<open>Indexes\<close>

datatype index_condition = IndexAbsent | IndexValid | IndexInvalid | IndexNotReady | IndexNotLive

fun condition_String :: "index_condition \<Rightarrow> string" where
  "condition_String IndexAbsent = ''absent''"
| "condition_String IndexValid = ''valid''"
| "condition_String IndexInvalid = ''invalid''"
| "condition_String IndexNotReady = ''not_ready''"
| "condition_String IndexNotLive = ''not_live''"

definition condition_Usable :: "index_condition \<Rightarrow> bool" where
  "condition_Usable c \<longleftrightarrow> c = IndexValid"

definition NeedsCleanup :: "index_condition \<Rightarrow> bool" where
  "NeedsCleanup c \<longleftrightarrow> c = IndexInvalid \<or> c = IndexNotReady \<or> c = IndexNotLive"

record pg_index =
  ix_oid :: "32 word"
  ix_name :: object_name
  ix_kind :: relkind
  ix_owner_oid :: "32 word"
  ix_pages :: int
  ix_table_oid :: "32 word"
  ix_table :: object_name
  ix_valid :: bool
  ix_ready :: bool
  ix_live :: bool
  ix_unique :: bool
  ix_primary :: bool
  ix_exclusion :: bool
  ix_parent_oid :: "32 word"
  ix_constraint :: string
  ix_constraint_type :: string
  ix_comment :: string

definition index_Marker :: "pg_index \<Rightarrow> marker \<times> marker_status" where
  "index_Marker i = ParseMarker (ix_comment i)"

definition Attached :: "pg_index \<Rightarrow> bool" where
  "Attached i \<longleftrightarrow> ix_parent_oid i \<noteq> 0"

definition AttachedTo :: "pg_index \<Rightarrow> 32 word \<Rightarrow> bool" where
  "AttachedTo i parent \<longleftrightarrow> parent \<noteq> 0 \<and> ix_parent_oid i = parent"

definition ConstraintBacked :: "pg_index \<Rightarrow> bool" where
  "ConstraintBacked i \<longleftrightarrow> ix_constraint i \<noteq> []"

definition Condition :: "pg_index \<Rightarrow> index_condition" where
  "Condition i = (if \<not> ix_live i then IndexNotLive
     else if \<not> ix_valid i then IndexInvalid
     else if \<not> ix_ready i then IndexNotReady
     else IndexValid)"

lemma Condition_Usable [simp]: "condition_Usable (Condition i) \<longleftrightarrow> ix_valid i \<and> ix_ready i \<and> ix_live i"
  by (simp add: condition_Usable_def Condition_def)

lemma Condition_NeedsCleanup [simp]: "NeedsCleanup (Condition i) \<longleftrightarrow> \<not> (ix_valid i \<and> ix_ready i \<and> ix_live i)"
  by (simp add: NeedsCleanup_def Condition_def)

lemma AttachedTo_Attached: "AttachedTo i p \<Longrightarrow> Attached i"
  by (auto simp: AttachedTo_def Attached_def)

subsection \<open>The reader and the claims\<close>

record role_membership =
  rm_owner_oid :: "32 word"
  rm_owner :: string
  rm_member :: bool

text \<open>\<open>pc_assert_read_only\<close> is None when the reader does not implement ReadOnlyAsserter.\<close>

record planner_catalog =
  pc_role :: "err + string"
  pc_database :: "err + string"
  pc_version :: "err + int"
  pc_relation :: "object_name \<Rightarrow> err + relation"
  pc_tree :: "32 word \<Rightarrow> err + tree_entry list"
  pc_strategy :: "32 word \<Rightarrow> err + partition_strategy"
  pc_indexes :: "32 word list \<Rightarrow> err + pg_index list"
  pc_index :: "object_name \<Rightarrow> err + pg_index"
  pc_comment :: "object_name \<Rightarrow> err + string option"
  pc_memberships :: "string \<Rightarrow> 32 word list \<Rightarrow> err + (32 word \<rightharpoonup> role_membership)"
  pc_assert_read_only :: "err option option"

type_synonym claim_lookup = "object_name \<Rightarrow> err + string option"

definition IndexMarker :: "planner_catalog \<Rightarrow> object_name \<Rightarrow> err + marker \<times> marker_status" where
  "IndexMarker cr o1 = rbind (pc_comment cr o1) (\<lambda>found. case found of
     None \<Rightarrow> Inr (zero_marker, MarkerAbsent)
   | Some comment \<Rightarrow> Inr (ParseMarker comment))"

definition strategyFromCode :: "string \<Rightarrow> err + partition_strategy" where
  "strategyFromCode code =
     (if code = ''r'' then Inr StrategyRange
      else if code = ''l'' then Inr StrategyList
      else if code = ''h'' then Inr StrategyHash
      else Inl (Detailf ErrCatalogUnavailable))"

end
