(* ===== verification/Planner_Topology.thy ===== *)
theory Planner_Topology
  imports Planner_Catalog Plan
begin

text \<open>
  engine/planner/topology.go, privilege.go and estimate.go: discovery of the partition tree and the
  rejection of every shape the planner does not support, the role check over everything the plan
  would modify, and the duration estimates.
\<close>

subsection \<open>The discovered tree\<close>

record topology =
  tp_root :: relation
  tp_strategy :: partition_strategy
  tp_leaves :: "relation list"
  tp_depth :: int

definition LeafCount :: "topology \<Rightarrow> nat" where "LeafCount t = length (tp_leaves t)"

definition LeafNames :: "topology \<Rightarrow> string list" where
  "LeafNames t = map (\<lambda>l. obj_name (rl_name l)) (tp_leaves t)"

definition LeafObjectNames :: "topology \<Rightarrow> object_name list" where
  "LeafObjectNames t = map rl_name (tp_leaves t)"

definition LeafOIDs :: "topology \<Rightarrow> 32 word list" where
  "LeafOIDs t = map rl_oid (tp_leaves t)"

definition Relations :: "topology \<Rightarrow> relation list" where
  "Relations t = tp_root t # tp_leaves t"

definition RelationOIDs :: "topology \<Rightarrow> 32 word list" where
  "RelationOIDs t = rl_oid (tp_root t) # LeafOIDs t"

fun leaf_by_oid :: "relation list \<Rightarrow> 32 word \<Rightarrow> relation option" where
  "leaf_by_oid [] oid = None"
| "leaf_by_oid (l # ls) oid = (if rl_oid l = oid then Some l else leaf_by_oid ls oid)"

definition LeafByOID :: "topology \<Rightarrow> 32 word \<Rightarrow> relation option" where
  "LeafByOID t oid = leaf_by_oid (tp_leaves t) oid"

definition TotalRelPages :: "topology \<Rightarrow> int" where
  "TotalRelPages t = foldl (\<lambda>total l. wrap_int64 (total + rl_pages l)) 0 (tp_leaves t)"

definition topology_Input :: "topology \<Rightarrow> topology_input" where
  "topology_Input t = \<lparr>top_root = relation_State (tp_root t), top_strategy = tp_strategy t,
     top_partitions = map relation_State (tp_leaves t)\<rparr>"

definition topology_Fingerprint :: "topology \<Rightarrow> err + string" where
  "topology_Fingerprint t = Fingerprint (topology_Input t)"

subsection \<open>Discovery\<close>

datatype discover_option = AllowNoPartitions

definition mark_default :: "relation \<Rightarrow> relation" where
  "mark_default r = r\<lparr>rl_default := rl_default r \<or> IsDefaultBound (rl_bound r)\<rparr>"

record tree_scan =
  ts_root :: "relation option"
  ts_leaves :: "relation list"
  ts_max :: int

fun scan_tree :: "tree_entry list \<Rightarrow> tree_scan \<Rightarrow> plan_error + tree_scan" where
  "scan_tree [] s = Inr s"
| "scan_tree (e # es) s =
     (let r = te_relation e; s = s\<lparr>ts_max := max (ts_max s) (te_level e)\<rparr> in
      if te_level e = 0 then
        if ts_root s \<noteq> None then Inl (Failed (Detailf ErrCatalogUnavailable))
        else scan_tree es (s\<lparr>ts_root := Some r\<rparr>)
      else if te_level e > 1 then Inl (TopologyError CodeMultiLevel (obj_String (rl_name r)))
      else if IsPartitioned (rl_kind r) \<or> \<not> te_leaf e
        then Inl (TopologyError CodeMultiLevel (obj_String (rl_name r)))
      else if \<not> CanCarryIndex (rl_kind r)
        then Inl (TopologyError CodeUnsupportedPartitionKind (obj_String (rl_name r)))
      else scan_tree es (s\<lparr>ts_leaves := ts_leaves s @ [mark_default r]\<rparr>))"

definition name_key :: "object_name \<Rightarrow> string \<times> string" where
  "name_key o1 = (obj_schema o1, obj_name o1)"

text \<open>sort.Slice by schema then name; the names of one catalog are distinct, so that the sort is not
  stable makes no difference.\<close>

definition sort_leaves :: "relation list \<Rightarrow> relation list" where
  "sort_leaves = sort_key (name_key \<circ> rl_name)"

fun reject_default :: "relation list \<Rightarrow> plan_error option" where
  "reject_default [] = None"
| "reject_default (l # ls) = (if rl_default l
     then Some (TopologyError CodeDefaultPartition (obj_String (rl_name l))) else reject_default ls)"

text \<open>Discover after its scan: the sorted leaves, the rejections that need all of them, the result.\<close>

definition accept_tree ::
    "discover_option list \<Rightarrow> relation \<Rightarrow> partition_strategy \<Rightarrow> tree_scan \<Rightarrow> plan_error + topology" where
  "accept_tree opts rootRel strategy s = (case ts_root s of
     None \<Rightarrow> Inl (Failed (Detailf ErrCatalogUnavailable)) | Some discovered \<Rightarrow>
     (let leaves = sort_leaves (ts_leaves s) in
      rcheck (reject_default leaves)
      (if leaves = [] \<and> AllowNoPartitions \<notin> set opts
       then Inl (TopologyError CodeNoPartitions (obj_String (rl_name discovered)))
       else (let discovered = mark_default discovered;
                 discovered = (if rl_owner discovered = []
                   then discovered\<lparr>rl_owner := rl_owner rootRel\<rparr> else discovered)
             in Inr \<lparr>tp_root = discovered, tp_strategy = strategy, tp_leaves = leaves,
                  tp_depth = ts_max s\<rparr>))))"

definition Discover :: "planner_catalog \<Rightarrow> object_name \<Rightarrow> discover_option list \<Rightarrow> plan_error + topology" where
  "Discover cr root opts =
     rbind (lifted (pc_relation cr root)) (\<lambda>rootRel.
     if rl_kind rootRel \<noteq> RelKindPartitionedTable
     then Inl (TopologyError CodeNotPartitioned (obj_String (rl_name rootRel)))
     else rbind (lifted (pc_tree cr (rl_oid rootRel))) (\<lambda>entries.
     if entries = [] then Inl (Failed (Detailf ErrCatalogUnavailable))
     else rbind (lifted (pc_strategy cr (rl_oid rootRel))) (\<lambda>strategy.
     if strategy = StrategyHash then Inl (TopologyError CodeHashStrategy (obj_String (rl_name rootRel)))
     else if \<not> SupportedInV01 strategy
     then Inl (TopologyError CodeUnsupportedStrategy (obj_String (rl_name rootRel)))
     else rbind (scan_tree entries \<lparr>ts_root = None, ts_leaves = [], ts_max = 0\<rparr>)
       (accept_tree opts rootRel strategy))))"

subsection \<open>The role check\<close>

fun distinct_owners :: "32 word set \<Rightarrow> relation list \<Rightarrow> 32 word list" where
  "distinct_owners seen [] = []"
| "distinct_owners seen (r # rs) =
     (if rl_owner_oid r \<in> seen then distinct_owners seen rs
      else rl_owner_oid r # distinct_owners (insert (rl_owner_oid r) seen) rs)"

definition violation_of :: "(32 word \<rightharpoonup> role_membership) \<Rightarrow> relation \<Rightarrow> ownership_violation list" where
  "violation_of memberships r = (case memberships (rl_owner_oid r) of
     Some m \<Rightarrow> if rm_member m then [] else
       [\<lparr>ov_relation = obj_String (rl_name r), ov_owner = rm_owner m, ov_owner_oid = rl_owner_oid r\<rparr>]
   | None \<Rightarrow> [\<lparr>ov_relation = obj_String (rl_name r), ov_owner = [], ov_owner_oid = rl_owner_oid r\<rparr>])"

definition ValidateRoleMembership :: "planner_catalog \<Rightarrow> string \<Rightarrow> relation list \<Rightarrow> plan_error option" where
  "ValidateRoleMembership cr role rels =
     (if rels = [] then None
      else case pc_memberships cr role (sort (distinct_owners {} rels)) of
        Inl e \<Rightarrow> Some (Failed e)
      | Inr memberships \<Rightarrow>
          (let violations = concat (map (violation_of memberships) rels) in
           if violations \<noteq> [] then Some (PrivilegeError role violations) else None))"

subsection \<open>Estimates\<close>

record estimator =
  es_page_bytes :: int
  es_build_bytes_per_second :: int
  es_scans_per_build :: int
  es_min_build_seconds :: int
  es_catalog_seconds :: int

definition DefaultEstimator :: estimator where
  "DefaultEstimator = \<lparr>es_page_bytes = 8192, es_build_bytes_per_second = 52428800,
     es_scans_per_build = 2, es_min_build_seconds = 5, es_catalog_seconds = 1\<rparr>"

definition with_default :: "int \<Rightarrow> int \<Rightarrow> int" where
  "with_default x d = (if x \<le> 0 then d else x)"

definition withDefaults :: "estimator \<Rightarrow> estimator" where
  "withDefaults e = (let d = DefaultEstimator in
     \<lparr>es_page_bytes = with_default (es_page_bytes e) (es_page_bytes d),
      es_build_bytes_per_second = with_default (es_build_bytes_per_second e) (es_build_bytes_per_second d),
      es_scans_per_build = with_default (es_scans_per_build e) (es_scans_per_build d),
      es_min_build_seconds = with_default (es_min_build_seconds e) (es_min_build_seconds d),
      es_catalog_seconds = with_default (es_catalog_seconds e) (es_catalog_seconds d)\<rparr>)"

text \<open>Go's integer division truncates towards zero.\<close>

definition go_div :: "int \<Rightarrow> int \<Rightarrow> int" where
  "go_div a b = (if 0 \<le> a then a div b else - ((- a) div b))"

definition Bytes :: "estimator \<Rightarrow> int \<Rightarrow> int" where
  "Bytes e relPages = (let e = withDefaults e in
     if relPages \<le> 0 then 0 else wrap_int64 (relPages * es_page_bytes e))"

definition BuildSeconds :: "estimator \<Rightarrow> int \<Rightarrow> int" where
  "BuildSeconds e relPages = (let e = withDefaults e;
     secs = go_div (wrap_int64 (Bytes e relPages * es_scans_per_build e)) (es_build_bytes_per_second e)
   in if secs < es_min_build_seconds e then es_min_build_seconds e else secs)"

definition ReindexSeconds :: "estimator \<Rightarrow> int \<Rightarrow> int" where
  "ReindexSeconds e tableRelPages = BuildSeconds e tableRelPages"

definition ReindexPeakBytes :: "estimator \<Rightarrow> int \<Rightarrow> int" where
  "ReindexPeakBytes e indexRelPages = Bytes e indexRelPages"

definition CatalogNodeSeconds :: "estimator \<Rightarrow> int" where
  "CatalogNodeSeconds e = es_catalog_seconds (withDefaults e)"

definition WaitSeconds :: "int \<Rightarrow> int" where
  "WaitSeconds seconds = (if seconds < 0 then 0 else seconds)"

subsection \<open>Discovery accepts exactly the supported trees\<close>

definition leaf_row :: "tree_entry \<Rightarrow> bool" where
  "leaf_row e \<longleftrightarrow> te_level e \<le> 1 \<and> te_leaf e \<and> rl_kind (te_relation e) = RelKindTable"

definition root_rows :: "tree_entry list \<Rightarrow> tree_entry list" where
  "root_rows es = filter (\<lambda>e. te_level e = 0) es"

definition leaf_rows :: "tree_entry list \<Rightarrow> tree_entry list" where
  "leaf_rows es = filter (\<lambda>e. te_level e \<noteq> 0) es"

definition scanned :: "tree_entry list \<Rightarrow> tree_scan \<Rightarrow> tree_scan \<Rightarrow> bool" where
  "scanned es s s' \<longleftrightarrow> (\<forall>e \<in> set (leaf_rows es). leaf_row e) \<and>
     (case root_rows es of [] \<Rightarrow> ts_root s' = ts_root s
      | [e] \<Rightarrow> ts_root s = None \<and> ts_root s' = Some (te_relation e) | _ \<Rightarrow> False) \<and>
     ts_leaves s' = ts_leaves s @ map (mark_default \<circ> te_relation) (leaf_rows es) \<and>
     ts_max s' = fold max (map te_level es) (ts_max s)"

lemma leaf_row_simps:
  "te_level e \<le> 1 \<Longrightarrow> te_leaf e \<Longrightarrow> leaf_row e \<longleftrightarrow> CanCarryIndex (rl_kind (te_relation e))"
  "leaf_row e \<Longrightarrow> \<not> IsPartitioned (rl_kind (te_relation e))"
  by (simp_all add: leaf_row_def CanCarryIndex_def IsPartitioned_def)

lemma scan_tree_scanned: "scan_tree es s = Inr s' \<longleftrightarrow> scanned es s s'"
proof (induction es arbitrary: s)
  case Nil
  then show ?case by (cases s, cases s') (auto simp: scanned_def root_rows_def leaf_rows_def)
next
  case (Cons e es)
  let ?t = "s\<lparr>ts_max := max (ts_max s) (te_level e)\<rparr>"
  show ?case
  proof (cases "te_level e = 0")
    case True
    show ?thesis
    proof (cases "ts_root s")
      case None
      then have "scan_tree (e # es) s = scan_tree es (?t\<lparr>ts_root := Some (te_relation e)\<rparr>)"
        using True by (simp add: Let_def)
      then show ?thesis using True None Cons.IH
        by (simp add: scanned_def root_rows_def leaf_rows_def max.commute split: list.splits)
    next
      case (Some r)
      then show ?thesis using True
        by (simp add: Let_def scanned_def root_rows_def split: list.splits)
    qed
  next
    case False
    show ?thesis
    proof (cases "leaf_row e")
      case True
      then have "scan_tree (e # es) s = scan_tree es (?t\<lparr>ts_leaves := ts_leaves s @ [mark_default (te_relation e)]\<rparr>)"
        using False leaf_row_simps(2)[OF True] by (simp add: Let_def leaf_row_def CanCarryIndex_def)
      then show ?thesis using True False Cons.IH
        by (simp add: scanned_def root_rows_def leaf_rows_def max.commute split: list.splits)
    next
      case no: False
      then have "\<exists>x. scan_tree (e # es) s = Inl x"
        using False by (auto simp: Let_def leaf_row_def CanCarryIndex_def)
      then show ?thesis using no False by (auto simp: scanned_def leaf_rows_def)
    qed
  qed
qed

lemma reject_default_None: "reject_default ls = None \<longleftrightarrow> (\<forall>l \<in> set ls. \<not> rl_default l)"
  by (induction ls) auto

lemma set_sort_leaves [simp]: "set (sort_leaves ls) = set ls"
  by (simp add: sort_leaves_def)

lemma sort_leaves_Nil [simp]: "sort_leaves ls = [] \<longleftrightarrow> ls = []"
  by (metis set_empty set_sort_leaves)

definition supported_tree :: "discover_option list \<Rightarrow> tree_entry list \<Rightarrow> bool" where
  "supported_tree opts es \<longleftrightarrow> length (root_rows es) = 1 \<and>
     (\<forall>e \<in> set (leaf_rows es). leaf_row e \<and> \<not> rl_default (te_relation e) \<and>
        \<not> IsDefaultBound (rl_bound (te_relation e))) \<and>
     (leaf_rows es = [] \<longrightarrow> AllowNoPartitions \<in> set opts)"

definition tree_topology :: "relation \<Rightarrow> partition_strategy \<Rightarrow> tree_entry list \<Rightarrow> topology" where
  "tree_topology looked_up st es =
     (let r = mark_default (te_relation (hd (root_rows es))) in
      \<lparr>tp_root = (if rl_owner r = [] then r\<lparr>rl_owner := rl_owner looked_up\<rparr> else r), tp_strategy = st,
       tp_leaves = sort_leaves (map te_relation (leaf_rows es)),
       tp_depth = fold max (map te_level es) 0\<rparr>)"

lemma mark_default_id: "\<not> rl_default r \<Longrightarrow> \<not> IsDefaultBound (rl_bound r) \<Longrightarrow> mark_default r = r"
  by (simp add: mark_default_def)

lemma mark_default_rejected:
  "rl_default (mark_default r) \<longleftrightarrow> rl_default r \<or> IsDefaultBound (rl_bound r)"
  by (simp add: mark_default_def)

lemma scanned_start:
  "scanned es \<lparr>ts_root = None, ts_leaves = [], ts_max = 0\<rparr> s \<and> ts_root s = Some r \<longleftrightarrow>
     (\<forall>e \<in> set (leaf_rows es). leaf_row e) \<and> length (root_rows es) = 1 \<and> r = te_relation (hd (root_rows es)) \<and>
     s = \<lparr>ts_root = Some r, ts_leaves = map (mark_default \<circ> te_relation) (leaf_rows es),
          ts_max = fold max (map te_level es) 0\<rparr>"
  by (cases s) (auto simp: scanned_def length_Suc_conv split: list.splits)

lemma map_mark_default:
  assumes "\<forall>e \<in> set es. \<not> rl_default (te_relation e) \<and> \<not> IsDefaultBound (rl_bound (te_relation e))"
  shows "map (mark_default \<circ> te_relation) es = map te_relation es"
  using assms by (simp add: mark_default_id)

lemma accept_tree_Inr:
  "(\<exists>s. scanned es \<lparr>ts_root = None, ts_leaves = [], ts_max = 0\<rparr> s \<and> accept_tree opts r st s = Inr topo)
     \<longleftrightarrow> supported_tree opts es \<and> topo = tree_topology r st es"
  (is "?L \<longleftrightarrow> ?R")
proof -
  let ?s = "\<lparr>ts_root = Some (te_relation (hd (root_rows es))),
    ts_leaves = map (mark_default \<circ> te_relation) (leaf_rows es), ts_max = fold max (map te_level es) 0\<rparr>"
  have "?L \<longleftrightarrow> (\<forall>e \<in> set (leaf_rows es). leaf_row e) \<and> length (root_rows es) = 1 \<and> accept_tree opts r st ?s = Inr topo"
  proof
    assume ?L
    then obtain s where s: "scanned es \<lparr>ts_root = None, ts_leaves = [], ts_max = 0\<rparr> s"
      and a: "accept_tree opts r st s = Inr topo" by blast
    obtain d where d: "ts_root s = Some d"
      using a by (auto simp: accept_tree_def split: option.splits)
    with s a scanned_start[of es s d] show "(\<forall>e \<in> set (leaf_rows es). leaf_row e) \<and>
      length (root_rows es) = 1 \<and> accept_tree opts r st ?s = Inr topo" by metis
  next
    assume "(\<forall>e \<in> set (leaf_rows es). leaf_row e) \<and> length (root_rows es) = 1 \<and>
      accept_tree opts r st ?s = Inr topo"
    moreover from this have "scanned es \<lparr>ts_root = None, ts_leaves = [], ts_max = 0\<rparr> ?s"
      using scanned_start[of es ?s "te_relation (hd (root_rows es))"] by simp
    ultimately show ?L by blast
  qed
  also have "\<dots> \<longleftrightarrow> ?R"
  proof (cases "\<forall>e \<in> set (leaf_rows es). \<not> rl_default (te_relation e) \<and> \<not> IsDefaultBound (rl_bound (te_relation e))")
    case True
    then have "reject_default (sort_leaves (map te_relation (leaf_rows es))) = None"
      by (simp add: reject_default_None)
    then show ?thesis using True
      by (auto simp: accept_tree_def map_mark_default[OF True] supported_tree_def tree_topology_def Let_def
        simp del: map_map)
  next
    case False
    then have "reject_default (sort_leaves (map (mark_default \<circ> te_relation) (leaf_rows es))) \<noteq> None"
      by (auto simp: reject_default_None mark_default_rejected)
    then show ?thesis using False
      by (auto simp: accept_tree_def supported_tree_def)
  qed
  finally show ?thesis .
qed

lemma Discover_Inr:
  "Discover cr root opts = Inr topo \<longleftrightarrow>
     (\<exists>r es st. pc_relation cr root = Inr r \<and> rl_kind r = RelKindPartitionedTable \<and>
        pc_tree cr (rl_oid r) = Inr es \<and> pc_strategy cr (rl_oid r) = Inr st \<and> SupportedInV01 st \<and>
        supported_tree opts es \<and> topo = tree_topology r st es)"
proof -
  have nonempty: "supported_tree opts es \<Longrightarrow> es \<noteq> []" for es
    by (auto simp: supported_tree_def root_rows_def)
  have hash: "SupportedInV01 st \<Longrightarrow> st \<noteq> StrategyHash" for st
    by (auto simp: SupportedInV01_def)
  have guard: "(if b then Inl e else m) = Inr y \<longleftrightarrow> \<not> b \<and> m = Inr y" for b e and m :: "plan_error + topology" and y
    by simp
  have "Discover cr root opts = Inr topo \<longleftrightarrow> (\<exists>r. pc_relation cr root = Inr r \<and> rl_kind r = RelKindPartitionedTable \<and>
    (\<exists>es. pc_tree cr (rl_oid r) = Inr es \<and> es \<noteq> [] \<and> (\<exists>st. pc_strategy cr (rl_oid r) = Inr st \<and>
      st \<noteq> StrategyHash \<and> SupportedInV01 st \<and>
      (\<exists>s. scanned es \<lparr>ts_root = None, ts_leaves = [], ts_max = 0\<rparr> s \<and> accept_tree opts r st s = Inr topo))))"
    unfolding Discover_def rbind_Inr lifted_Inr guard scan_tree_scanned by simp
  then show ?thesis unfolding accept_tree_Inr using nonempty hash by blast
qed


subsection \<open>The order of the catalog's rows does not matter\<close>

lemma name_key_inject [simp]: "name_key a = name_key b \<longleftrightarrow> a = b"
  by (cases a, cases b) (simp add: name_key_def)

lemma sort_key_unique:
  assumes "mset xs = mset ys" "inj_on f (set xs)" shows "sort_key f xs = sort_key f ys"
proof (rule map_inj_on)
  have eq: "set xs = set ys" using assms(1) by (metis set_mset_mset)
  have "sort (map f zs) = map f (sort_key f zs)" for zs
    by (rule properties_for_sort) simp_all
  moreover have "sort (map f xs) = sort (map f ys)" using assms(1) by (intro sort_mset) simp
  ultimately show "map f (sort_key f xs) = map f (sort_key f ys)" by metis
  show "inj_on f (set (sort_key f xs) \<union> set (sort_key f ys))" using assms(2) eq by simp
qed

lemma fold_max_mset:
  assumes "mset xs = mset ys" shows "fold max xs (a :: int) = fold max ys a"
proof -
  have "fold max xs a = fold max ys a"
    by (rule fold_permuted_eq[where P = "\<lambda>_. True"]) (simp_all add: assms max.left_commute)
  then show ?thesis .
qed

lemma tree_topology_mset:
  assumes m: "mset es = mset es'" and one: "length (root_rows es) = 1"
    and names: "distinct (map (rl_name \<circ> te_relation) es)"
  shows "tree_topology r st es = tree_topology r st es'"
proof -
  have roots: "mset (root_rows es) = mset (root_rows es')" and leaves: "mset (leaf_rows es) = mset (leaf_rows es')"
    using m by (simp_all add: root_rows_def leaf_rows_def)
  have "length (root_rows es') = 1" using roots one by (metis size_mset)
  then have hd: "hd (root_rows es) = hd (root_rows es')"
    using roots one by (auto simp: length_Suc_conv)
  have "inj_on (rl_name \<circ> te_relation) (set es)" using names by (simp add: distinct_map)
  then have "inj_on (name_key \<circ> rl_name) (te_relation ` set (leaf_rows es))"
    by (auto simp: inj_on_def leaf_rows_def)
  then have "sort_leaves (map te_relation (leaf_rows es)) = sort_leaves (map te_relation (leaf_rows es'))"
    unfolding sort_leaves_def using leaves by (intro sort_key_unique) simp_all
  moreover have "fold max (map te_level es) 0 = fold max (map te_level es') 0"
    using m by (intro fold_max_mset) simp
  ultimately show ?thesis by (simp add: tree_topology_def hd)
qed

lemma supported_tree_mset:
  assumes "mset es = mset es'" shows "supported_tree opts es = supported_tree opts es'"
proof -
  have roots: "mset (root_rows es) = mset (root_rows es')" and leaves: "mset (leaf_rows es) = mset (leaf_rows es')"
    using assms by (simp_all add: root_rows_def leaf_rows_def)
  then have "length (root_rows es) = length (root_rows es')" "set (leaf_rows es) = set (leaf_rows es')"
    by (metis size_mset, metis set_mset_mset)
  moreover have "leaf_rows es = [] \<longleftrightarrow> leaf_rows es' = []" using leaves by (metis mset_zero_iff)
  ultimately show ?thesis by (simp add: supported_tree_def)
qed

text \<open>Two catalogs that report the same rows in different orders give the same topology, hence the
  same node sequence and the same plan digest.\<close>

theorem Discover_row_order:
  assumes "Discover cr root opts = Inr topo"
    and "\<And>oid es. pc_tree cr oid = Inr es \<Longrightarrow> distinct (map (rl_name \<circ> te_relation) es) \<and>
           (\<exists>es'. tree' oid = Inr es' \<and> mset es' = mset es)"
  shows "Discover (cr\<lparr>pc_tree := tree'\<rparr>) root opts = Inr topo"
proof -
  obtain r es st where *: "pc_relation cr root = Inr r" "rl_kind r = RelKindPartitionedTable"
    "pc_tree cr (rl_oid r) = Inr es" "pc_strategy cr (rl_oid r) = Inr st" "SupportedInV01 st"
    "supported_tree opts es" "topo = tree_topology r st es"
    using assms(1) unfolding Discover_Inr by blast
  obtain es' where es': "tree' (rl_oid r) = Inr es'" "mset es = mset es'"
    and names: "distinct (map (rl_name \<circ> te_relation) es)"
    using assms(2)[OF *(3)] by metis
  have "topo = tree_topology r st es'"
    using tree_topology_mset[OF es'(2) _ names] *(6,7) by (simp add: supported_tree_def)
  moreover have "supported_tree opts es'" using supported_tree_mset[OF es'(2)] *(6) by simp
  ultimately show ?thesis unfolding Discover_Inr using * es' by auto
qed

definition sample_relation :: "32 word \<Rightarrow> string \<Rightarrow> relkind \<Rightarrow> 32 word \<Rightarrow> relation" where
  "sample_relation oid n k parent = \<lparr>rl_oid = oid, rl_name = NewObjectName ''s'' n, rl_kind = k, rl_owner_oid = 10,
     rl_owner = ''o'', rl_pages = 6400, rl_parent_oid = parent, rl_bound = (if parent = 0 then [] else ''b''),
     rl_default = False\<rparr>"

definition sample_entry :: "int \<Rightarrow> relation \<Rightarrow> tree_entry" where
  "sample_entry lv r = \<lparr>te_relation = r, te_level = lv, te_leaf = (lv \<noteq> 0)\<rparr>"

definition sample_rows :: "tree_entry list" where
  "sample_rows = [sample_entry 0 (sample_relation 1 ''t'' RelKindPartitionedTable 0),
     sample_entry 1 (sample_relation 3 ''t2'' RelKindTable 1), sample_entry 1 (sample_relation 2 ''t1'' RelKindTable 1)]"

definition sample_catalog :: planner_catalog where
  "sample_catalog = \<lparr>pc_role = Inr ''o'', pc_database = Inr ''db'', pc_version = Inr 160000,
     pc_relation = \<lambda>_. Inr (sample_relation 1 ''t'' RelKindPartitionedTable 0),
     pc_tree = \<lambda>_. Inr sample_rows, pc_strategy = \<lambda>_. Inr StrategyRange, pc_indexes = \<lambda>_. Inr [],
     pc_index = \<lambda>_. Inl ErrIndexNotFound, pc_comment = \<lambda>_. Inr None,
     pc_memberships = \<lambda>_ _. Inr (\<lambda>oid. Some \<lparr>rm_owner_oid = oid, rm_owner = ''o'', rm_member = True\<rparr>),
     pc_assert_read_only = Some None\<rparr>"

lemma not_default_b: "\<not> IsDefaultBound ''b''" "\<not> IsDefaultBound []"
proof -
  have "TrimSpace ([] @ ''b'' @ []) = ''b''"
    by (rule TrimSpace_framed[where c = "CHR ''b''" and d = "CHR ''b''" and t = "[]" and u = "[]"])
      (simp_all add: ascii_space_iff)
  then show "\<not> IsDefaultBound ''b''"
    by (simp add: IsDefaultBound_def fold_name_def DefaultPartitionBound_def)
  show "\<not> IsDefaultBound []"
    by (simp add: IsDefaultBound_def fold_name_def DefaultPartitionBound_def TrimSpace_Nil)
qed

definition sample_topo :: topology where
  "sample_topo = \<lparr>tp_root = sample_relation 1 ''t'' RelKindPartitionedTable 0, tp_strategy = StrategyRange,
     tp_leaves = [sample_relation 2 ''t1'' RelKindTable 1, sample_relation 3 ''t2'' RelKindTable 1], tp_depth = 1\<rparr>"

lemma sample_split:
  "root_rows sample_rows = [sample_entry 0 (sample_relation 1 ''t'' RelKindPartitionedTable 0)]"
  "leaf_rows sample_rows = [sample_entry 1 (sample_relation 3 ''t2'' RelKindTable 1),
     sample_entry 1 (sample_relation 2 ''t1'' RelKindTable 1)]"
  by (simp_all add: root_rows_def leaf_rows_def sample_rows_def sample_entry_def)

lemma sample_levels: "map te_level sample_rows = [0, 1, 1]"
  by (simp add: sample_rows_def sample_entry_def)

lemma sample_discovered: "Discover sample_catalog root opts = Inr sample_topo"
proof -
  have "supported_tree opts sample_rows"
    by (simp add: supported_tree_def sample_split sample_entry_def sample_relation_def leaf_row_def not_default_b)
  moreover have "tree_topology (sample_relation 1 ''t'' RelKindPartitionedTable 0) StrategyRange sample_rows = sample_topo"
    unfolding tree_topology_def sample_split sample_levels
    by (simp add: sample_topo_def sort_leaves_def name_key_def NewObjectName_def
        sample_entry_def sample_relation_def not_default_b mark_default_def)
  ultimately show ?thesis
    by (simp add: Discover_Inr sample_catalog_def SupportedInV01_def) (simp add: sample_relation_def)
qed

theorem Discover_row_order_witness:
  "Discover (sample_catalog\<lparr>pc_tree := \<lambda>_. Inr (rev sample_rows)\<rparr>) (NewObjectName ''s'' ''t'') [] = Inr sample_topo"
  by (rule Discover_row_order[OF sample_discovered])
    (auto simp: sample_catalog_def sample_rows_def sample_entry_def sample_relation_def)

subsection \<open>The role check\<close>

lemma violations_Nil:
  "concat (map (violation_of ms) rels) = [] \<longleftrightarrow>
     (\<forall>r \<in> set rels. \<exists>m. ms (rl_owner_oid r) = Some m \<and> rm_member m)"
  by (auto simp: violation_of_def split: option.splits if_splits)

lemma set_distinct_owners: "set (distinct_owners seen rs) = rl_owner_oid ` set rs - seen"
  by (induction rs arbitrary: seen) auto

lemma ValidateRoleMembership_None:
  "ValidateRoleMembership cr role rels = None \<longleftrightarrow> rels = [] \<or>
     (\<exists>ms. pc_memberships cr role (sort (distinct_owners {} rels)) = Inr ms \<and>
        (\<forall>r \<in> set rels. \<exists>m. ms (rl_owner_oid r) = Some m \<and> rm_member m))"
  unfolding ValidateRoleMembership_def Let_def violations_Nil
  by (simp split: sum.splits)

subsection \<open>Estimates\<close>

lemma withDefaults_pos:
  "0 < es_page_bytes (withDefaults e)" "0 < es_build_bytes_per_second (withDefaults e)"
  "0 < es_scans_per_build (withDefaults e)" "0 < es_min_build_seconds (withDefaults e)"
  "0 < es_catalog_seconds (withDefaults e)"
  by (simp_all add: withDefaults_def with_default_def DefaultEstimator_def Let_def)

lemma withDefaults_idem [simp]: "withDefaults (withDefaults e) = withDefaults e"
  using withDefaults_pos[of e] by (simp add: withDefaults_def[of "withDefaults e"] with_default_def Let_def)

lemma wrap_int64_small: "- (2 ^ 63) \<le> x \<Longrightarrow> x < 2 ^ 63 \<Longrightarrow> wrap_int64 x = x"
  by (simp add: wrap_int64_def)

lemma BuildSeconds_nonneg: "0 \<le> BuildSeconds e p" "0 \<le> CatalogNodeSeconds e" "0 \<le> WaitSeconds s"
  using withDefaults_pos[of e] by (auto simp: BuildSeconds_def CatalogNodeSeconds_def WaitSeconds_def Let_def)

lemma BuildSeconds_exact:
  assumes "0 \<le> p" "p * es_page_bytes (withDefaults e) * es_scans_per_build (withDefaults e) < 2 ^ 63"
  shows "BuildSeconds e p = max (es_min_build_seconds (withDefaults e))
    (p * es_page_bytes (withDefaults e) * es_scans_per_build (withDefaults e)
       div es_build_bytes_per_second (withDefaults e))"
proof -
  let ?d = "withDefaults e"
  let ?b = "p * es_page_bytes ?d"
  have b: "0 \<le> ?b" and n: "0 \<le> ?b * es_scans_per_build ?d" using assms(1) withDefaults_pos[of e] by auto
  have "?b * 1 \<le> ?b * es_scans_per_build ?d"
    using b withDefaults_pos(3)[of e] by (intro mult_left_mono) auto
  then have "?b < 2 ^ 63" using assms(2) by simp
  then have "Bytes ?d p = ?b"
    using b assms(1) by (auto simp: Bytes_def Let_def wrap_int64_small)
  moreover have "wrap_int64 (?b * es_scans_per_build ?d) = ?b * es_scans_per_build ?d"
    using n assms(2) by (intro wrap_int64_small) auto
  ultimately show ?thesis
    using n by (simp add: BuildSeconds_def Let_def go_div_def max_def)
qed

text \<open>An estimate never falls under the floor, whatever the page statistic and even where the
  64-bit product wraps; where it does not wrap, the estimate is exactly the floored scan time, and it
  grows with the table.\<close>

theorem BuildSeconds_bounds:
  "es_min_build_seconds (withDefaults e) \<le> BuildSeconds e p \<and> 0 < BuildSeconds e p \<and>
   (\<forall>q. 0 \<le> p \<and> p \<le> q \<and> q * es_page_bytes (withDefaults e) * es_scans_per_build (withDefaults e) < 2 ^ 63 \<longrightarrow>
      BuildSeconds e p \<le> BuildSeconds e q \<and>
      BuildSeconds e q = max (es_min_build_seconds (withDefaults e))
        (q * es_page_bytes (withDefaults e) * es_scans_per_build (withDefaults e)
           div es_build_bytes_per_second (withDefaults e)))"
  (is "?A \<and> ?B \<and> ?C")
proof (intro conjI allI impI)
  show ?A by (simp add: BuildSeconds_def Let_def)
  then show ?B using withDefaults_pos(4)[of e] by linarith
next
  fix q assume q: "0 \<le> p \<and> p \<le> q \<and> q * es_page_bytes (withDefaults e) * es_scans_per_build (withDefaults e) < 2 ^ 63"
  let ?m = "\<lambda>x. x * es_page_bytes (withDefaults e) * es_scans_per_build (withDefaults e)"
  have le: "?m p \<le> ?m q" using q withDefaults_pos[of e] by (intro mult_right_mono) auto
  have "BuildSeconds e p = max (es_min_build_seconds (withDefaults e)) (?m p div es_build_bytes_per_second (withDefaults e))"
    using q le by (intro BuildSeconds_exact) auto
  moreover show "BuildSeconds e q = max (es_min_build_seconds (withDefaults e))
    (?m q div es_build_bytes_per_second (withDefaults e))"
    using q by (intro BuildSeconds_exact) auto
  moreover have "?m p div es_build_bytes_per_second (withDefaults e) \<le> ?m q div es_build_bytes_per_second (withDefaults e)"
    using le withDefaults_pos(2)[of e] by (intro zdiv_mono1) auto
  ultimately show "BuildSeconds e p \<le> BuildSeconds e q" by simp
qed

theorem BuildSeconds_bounds_witness:
  "BuildSeconds DefaultEstimator 0 = 5 \<and> BuildSeconds DefaultEstimator 0 \<le> BuildSeconds DefaultEstimator 640000 \<and>
   BuildSeconds DefaultEstimator 640000 = 200"
  using BuildSeconds_bounds[of DefaultEstimator 0]
  by (simp add: withDefaults_def with_default_def DefaultEstimator_def BuildSeconds_def Bytes_def go_div_def wrap_int64_def Let_def)

end
