(* ===== verification/Planner_Indexes.thy ===== *)
theory Planner_Indexes
  imports Planner_Topology Drop_Decision
begin

text \<open>
  engine/planner/indexes.go and preview.go: what already exists under the names the plan would use,
  and what may be done about an unusable index that occupies one of them.
\<close>

subsection \<open>The child index of a leaf\<close>

record child_plan =
  cp_leaf :: relation
  cp_child :: object_name
  cp_existing :: "pg_index option"
  cp_condition :: index_condition
  cp_attached :: "pg_index option"

definition child_Exists :: "child_plan \<Rightarrow> bool" where
  "child_Exists c \<longleftrightarrow> cp_existing c \<noteq> None"

definition child_AttachedTo :: "child_plan \<Rightarrow> 32 word \<Rightarrow> bool" where
  "child_AttachedTo c parent = (case cp_existing c of Some i \<Rightarrow> AttachedTo i parent | None \<Rightarrow> False)"

definition child_Complete :: "child_plan \<Rightarrow> 32 word \<Rightarrow> bool" where
  "child_Complete c parent \<longleftrightarrow> (condition_Usable (cp_condition c) \<and> child_AttachedTo c parent) \<or>
     (case cp_attached c of Some i \<Rightarrow> condition_Usable (Condition i) \<and> AttachedTo i parent | None \<Rightarrow> False)"

definition ForeignAttached :: "child_plan \<Rightarrow> 32 word \<Rightarrow> pg_index option" where
  "ForeignAttached c parent = (case cp_attached c of
     None \<Rightarrow> None
   | Some i \<Rightarrow> if \<not> AttachedTo i parent then None
       else if condition_Usable (Condition i) then None else Some i)"

record inspection =
  in_parent :: "pg_index option"
  in_children :: "child_plan list"

definition ParentIndexOID :: "inspection \<Rightarrow> 32 word" where
  "ParentIndexOID s = (case in_parent s of None \<Rightarrow> 0 | Some p \<Rightarrow> ix_oid p)"

definition Remaining :: "inspection \<Rightarrow> child_plan list" where
  "Remaining s = filter (\<lambda>c. \<not> child_Complete c (ParentIndexOID s)) (in_children s)"

definition CompleteCount :: "inspection \<Rightarrow> nat" where
  "CompleteCount s = length (filter (\<lambda>c. child_Complete c (ParentIndexOID s)) (in_children s))"

text \<open>The Go map keyed by table and name, filled in slice order: a later row replaces an earlier one.\<close>

definition index_on :: "pg_index list \<Rightarrow> 32 word \<Rightarrow> string \<Rightarrow> pg_index option" where
  "index_on ixs table name =
     map_of (map (\<lambda>i. ((ix_table_oid i, obj_name (ix_name i)), i)) (rev ixs)) (table, name)"

definition is_parent_index :: "topology \<Rightarrow> object_name \<Rightarrow> pg_index \<Rightarrow> bool" where
  "is_parent_index topo parentIndex i \<longleftrightarrow>
     ix_table_oid i = rl_oid (tp_root topo) \<and> obj_name (ix_name i) = obj_name parentIndex \<and>
     (obj_schema parentIndex = [] \<or> obj_schema (ix_name i) = obj_schema parentIndex)"

definition inspect_child :: "pg_index list \<Rightarrow> pg_index option \<Rightarrow> relation \<Rightarrow> object_name \<Rightarrow> child_plan" where
  "inspect_child ixs parent leaf child =
     (let existing = index_on ixs (rl_oid leaf) (obj_name child) in
      \<lparr>cp_leaf = leaf, cp_child = child, cp_existing = existing,
       cp_condition = (case existing of Some i \<Rightarrow> Condition i | None \<Rightarrow> IndexAbsent),
       cp_attached = (case parent of None \<Rightarrow> None | Some p \<Rightarrow>
         if (case existing of None \<Rightarrow> True | Some i \<Rightarrow> \<not> AttachedTo i (ix_oid p))
         then find (\<lambda>i. ix_table_oid i = rl_oid leaf \<and> AttachedTo i (ix_oid p)) ixs
         else None)\<rparr>)"

definition InspectChildren :: "planner_catalog \<Rightarrow> topology \<Rightarrow> object_name \<Rightarrow> plan_error + inspection" where
  "InspectChildren cr topo parentIndex =
     rcheck (if obj_Validate parentIndex \<noteq> None then Some (Failed (Detailf ErrInvalidSpecification)) else None)
     (rbind (lifted (ChildIndexNamesQualified (obj_name parentIndex) (LeafObjectNames topo))) (\<lambda>qualified.
      rbind (lifted (pc_indexes cr (RelationOIDs topo))) (\<lambda>indexes.
      let parent = find (is_parent_index topo parentIndex) (rev indexes) in
      Inr \<lparr>in_parent = parent,
           in_children = map2 (inspect_child indexes parent) (tp_leaves topo) qualified\<rparr>)))"

subsection \<open>Cleaning up an unusable index\<close>

datatype cleanup_decision = CleanupNone | CleanupDropWithProvenance | CleanupAdoptThenDrop | CleanupHalt

definition cleanup_Destructive :: "cleanup_decision \<Rightarrow> bool" where
  "cleanup_Destructive d \<longleftrightarrow> d = CleanupDropWithProvenance \<or> d = CleanupAdoptThenDrop"

text \<open>The three results of the Go function; None is the zero verdict.\<close>

type_synonym cleanup = "cleanup_decision \<times> drop_verdict option \<times> plan_error option"

definition existing_marker :: "planner_catalog \<Rightarrow> object_name \<Rightarrow> pg_index \<Rightarrow> err + marker \<times> marker_status" where
  "existing_marker cr child existing =
     (if ix_comment existing = [] then IndexMarker cr child else Inr (index_Marker existing))"

definition claim_of :: "claim_lookup option \<Rightarrow> marker_status \<Rightarrow> object_name \<Rightarrow> err + string" where
  "claim_of claims status o1 = (case claims of
     Some f \<Rightarrow> if status = MarkerAbsent
       then rbind (f o1) (\<lambda>found. Inr (case found of Some run \<Rightarrow> run | None \<Rightarrow> []))
       else Inr []
   | None \<Rightarrow> Inr [])"

definition DecideCleanup :: "planner_catalog option \<Rightarrow> claim_lookup option \<Rightarrow> child_plan \<Rightarrow> cleanup" where
  "DecideCleanup cr claims c = (case cp_existing c of
     None \<Rightarrow> (CleanupNone, None, None)
   | Some existing \<Rightarrow>
     if \<not> NeedsCleanup (cp_condition c) then (CleanupNone, None, None)
     else (case cr of
       None \<Rightarrow> (CleanupHalt, None, Some (Failed (Detailf ErrForeignInvalidIndex)))
     | Some cr \<Rightarrow>
       (case existing_marker cr (cp_child c) existing of
         Inl e \<Rightarrow> (CleanupHalt, None, Some (Failed e))
       | Inr (marker, status) \<Rightarrow>
         (case claim_of claims status (cp_child c) of
           Inl e \<Rightarrow> (CleanupHalt, None, Some (Failed e))
         | Inr run \<Rightarrow>
           (let v = DecideProvenanceDrop \<lparr>pdi_object = cp_child c, pdi_status = status, pdi_marker = marker,
                  pdi_claim_run = run\<rparr> in
            case dv_action v of
              DropAuthorized \<Rightarrow> (CleanupDropWithProvenance, Some v, None)
            | DropAdoptThenDrop \<Rightarrow> (CleanupAdoptThenDrop, Some v, None)
            | DropHalt \<Rightarrow> (CleanupHalt, Some v, Some (Failed (Detailf ErrForeignInvalidIndex))))))))"

subsection \<open>The preview of a node (preview.go)\<close>

definition pending_marker :: "operation \<Rightarrow> marker" where
  "pending_marker op1 = zero_marker\<lparr>m_run := ''pending'', m_plan := ''pending'', m_op := operation_String op1,
     m_at := ''pending''\<rparr>"

definition planner_Preview :: "node \<Rightarrow> operation \<Rightarrow> node" where
  "planner_Preview n op1 =
     (let n' = n\<lparr>n_rendered_sql := Preview (Some n)\<rparr> in
      case RenderMarkerStatement (Some n') (pending_marker op1) zero_marker MarkerAbsent of
        Inr (Some stmt) \<Rightarrow> n'\<lparr>n_rendered_sql := n_rendered_sql n' @ [CHR 0x0A] @ stmt @ '';''\<rparr>
      | _ \<Rightarrow> n')"

lemma planner_Preview_simps [simp]:
  "n_id (planner_Preview n p) = n_id n" "n_kind (planner_Preview n p) = n_kind n"
  "n_params (planner_Preview n p) = n_params n" "n_depends_on (planner_Preview n p) = n_depends_on n"
  "n_authorization (planner_Preview n p) = n_authorization n"
  "n_estimated_seconds (planner_Preview n p) = n_estimated_seconds n"
  by (simp_all add: planner_Preview_def Let_def split: sum.splits option.splits)

subsection \<open>Lemmas\<close>

lemma index_on_Some:
  "index_on ixs t n = Some i \<Longrightarrow> i \<in> set ixs \<and> ix_table_oid i = t \<and> obj_name (ix_name i) = n"
  by (auto simp: index_on_def dest!: map_of_SomeD)

lemma index_on_None:
  "index_on ixs t n = None \<longleftrightarrow> (\<forall>i \<in> set ixs. \<not> (ix_table_oid i = t \<and> obj_name (ix_name i) = n))"
  by (auto simp: index_on_def map_of_eq_None_iff image_iff)

lemma find_mem: "find P xs = Some x \<Longrightarrow> x \<in> set xs \<and> P x"
  by (auto simp: find_Some_iff)

lemma child_Complete_iff:
  assumes "cp_condition c = (case cp_existing c of Some i \<Rightarrow> Condition i | None \<Rightarrow> IndexAbsent)"
  shows "child_Complete c parent \<longleftrightarrow>
    (\<exists>i. (cp_existing c = Some i \<or> cp_attached c = Some i) \<and> AttachedTo i parent \<and> ix_valid i \<and> ix_ready i \<and> ix_live i)"
  using assms by (cases "cp_existing c"; cases "cp_attached c")
    (auto simp: child_Complete_def child_AttachedTo_def condition_Usable_def Condition_def split: if_splits)

definition claimed :: "claim_lookup option \<Rightarrow> object_name \<Rightarrow> bool" where
  "claimed claims o1 \<longleftrightarrow> (\<exists>f run. claims = Some f \<and> f o1 = Inr (Some run) \<and> run \<noteq> [])"

text \<open>Ownership as the planner can prove it: a marker of ours, or an unmarked object that a run still
  claims.\<close>

definition provably_ours ::
    "planner_catalog \<Rightarrow> claim_lookup option \<Rightarrow> object_name \<Rightarrow> pg_index \<Rightarrow> bool" where
  "provably_ours cr claims o1 i \<longleftrightarrow> (\<exists>m st. existing_marker cr o1 i = Inr (m, st) \<and>
     (st = MarkerOurs \<or> st = MarkerAbsent \<and> claimed claims o1))"

lemma claim_of_claimed: "claim_of claims MarkerAbsent o1 = Inr run \<Longrightarrow> run \<noteq> [] \<Longrightarrow> claimed claims o1"
  by (auto simp: claim_of_def claimed_def rbind_Inr split: option.splits)

lemma DecideCleanup_destructive:
  assumes "DecideCleanup (Some cr) claims c = (d, v, e)" "cleanup_Destructive d"
  shows "\<exists>i. cp_existing c = Some i \<and> NeedsCleanup (cp_condition c) \<and>
    provably_ours cr claims (cp_child c) i \<and> e = None"
  using assms
  by (auto simp: DecideCleanup_def Let_def cleanup_Destructive_def DecideProvenanceDrop_def provably_ours_def
      halt_verdict_def dest!: claim_of_claimed
      split: option.splits if_splits sum.splits prod.splits drop_action.splits marker_status.splits)

end
