(* ===== verification/Plan_Graphs.thy ===== *)
theory Plan_Graphs
  imports Plan
begin

text \<open>
  The graphs the operation planners emit.  Every node depends only on nodes listed before it, so such
  a list is a schedulable graph whose canonical order is the listing itself: what the operator reads
  top to bottom is what the executor walks.
\<close>

subsection \<open>Lists whose dependencies point backwards\<close>

fun backward_from :: "node_id set \<Rightarrow> node list \<Rightarrow> bool" where
  "backward_from seen [] \<longleftrightarrow> True"
| "backward_from seen (n # ns) \<longleftrightarrow> set (n_depends_on n) \<subseteq> seen \<and> backward_from (insert (n_id n) seen) ns"

definition backward :: "node list \<Rightarrow> bool" where
  "backward ns \<longleftrightarrow> backward_from {} ns"

lemma backward_from_mono: "backward_from A ns \<Longrightarrow> A \<subseteq> B \<Longrightarrow> backward_from B ns"
  by (induction ns arbitrary: A B) (auto, metis insert_mono)

lemma backward_from_append:
  "backward_from A (xs @ ys) \<longleftrightarrow> backward_from A xs \<and> backward_from (A \<union> n_id ` set xs) ys"
  by (induction xs arbitrary: A) auto

lemma backward_from_nth:
  "backward_from A ns \<Longrightarrow> i < length ns \<Longrightarrow> set (n_depends_on (ns ! i)) \<subseteq> A \<union> n_id ` set (take i ns)"
proof (induction ns arbitrary: A i)
  case (Cons n ns)
  show ?case
  proof (cases i)
    case 0
    then show ?thesis using Cons.prems by simp
  next
    case (Suc j)
    then have "set (n_depends_on (ns ! j)) \<subseteq> insert (n_id n) A \<union> n_id ` set (take j ns)"
      using Cons.prems by (intro Cons.IH) auto
    then show ?thesis using Suc by auto
  qed
qed simp

lemma backward_nth:
  "backward ns \<Longrightarrow> i < length ns \<Longrightarrow> set (n_depends_on (ns ! i)) \<subseteq> n_id ` set (take i ns)"
  using backward_from_nth[of "{}"] by (simp add: backward_def)

subsection \<open>Their canonical order is the listing\<close>

lemma backward_deps_known: "backward ns \<Longrightarrow> deps_known ns"
  unfolding deps_known_def
  by (metis (no_types, lifting) backward_nth image_mono in_set_conv_nth order_trans set_take_subset)

lemma backward_acyclic:
  assumes "backward ns" "distinct (map n_id ns)" shows "acyclic (depends ns)"
proof -
  have "wf (depends ns)"
  proof (rule wf_positions[where ord = "map n_id ns"])
    fix d x assume "(d, x) \<in> depends ns"
    then obtain i where "i < length ns" "x = n_id (ns ! i)" "d \<in> set (n_depends_on (ns ! i))"
      by (auto simp: depends_def in_set_conv_nth)
    then show "\<exists>k < length (map n_id ns). map n_id ns ! k = x \<and> d \<in> set (take k (map n_id ns))"
      using backward_nth[OF assms(1)] by (auto simp: take_map intro!: exI[of _ i])
  qed (rule assms(2))
  then show ?thesis by (rule wf_acyclic)
qed

lemma canonical_order_listing:
  assumes "canonical_order ns ord" "backward ns" "distinct (map n_id ns)" shows "ord = map n_id ns"
proof -
  have d: "distinct ord" and s: "set ord = set (map n_id ns)"
    using assms(1) by (simp_all add: canonical_order_def)
  then have len: "length ord = length ns"
    using assms(3) by (metis distinct_card length_map)
  have "take k ord = take k (map n_id ns)" if "k \<le> length ns" for k
    using that
  proof (induction k)
    case (Suc k)
    then have k: "k < length ns" and IH: "take k ord = map n_id (take k ns)" by (simp_all add: take_map)
    obtain i where i: "i < length ns" "ord ! k = n_id (ns ! i)"
      "\<And>i'. i' < i \<Longrightarrow> n_id (ns ! i') \<in> set (take k ord) \<or> \<not> set (n_depends_on (ns ! i')) \<subseteq> set (take k ord)"
      using assms(1) k len unfolding canonical_order_def by metis
    have fresh: "n_id (ns ! j) \<in> set (take k ord) \<longleftrightarrow> j < k" if "j < length ns" for j
    proof -
      have "set (take k ord) = (\<lambda>l. map n_id ns ! l) ` {0..<k}"
        using nth_image[of k "map n_id ns"] k unfolding IH take_map[symmetric] by (simp del: nth_map)
      moreover have "map n_id ns ! l = map n_id ns ! j \<longleftrightarrow> l = j" if "l < k" for l
        using nth_eq_iff_index_eq[OF assms(3)] that k \<open>j < length ns\<close> by simp
      ultimately have "map n_id ns ! j \<in> set (take k ord) \<longleftrightarrow> j < k"
        by (metis (no_types, lifting) atLeastLessThan_iff image_iff le0)
      then show ?thesis using that by simp
    qed
    have "ord ! k \<notin> set (take k ord)"
      using d k len by (simp add: in_set_conv_nth nth_eq_iff_index_eq)
    then have "\<not> i < k" using fresh[OF i(1)] i(2) by auto
    moreover have "set (n_depends_on (ns ! k)) \<subseteq> set (take k ord)"
      using backward_nth[OF assms(2) k] IH by simp
    then have "\<not> k < i" using i(3)[of k] fresh[OF k] by blast
    ultimately have "i = k" by simp
    then show ?case using k len Suc i(2) by (simp add: take_Suc_conv_app_nth)
  qed simp
  from this[of "length ns"] show ?thesis using len by simp
qed

lemma TopologicalOrder_listing:
  assumes "backward (p_nodes p)" "distinct (map n_id (p_nodes p))"
  shows "TopologicalOrder p = Inr (map n_id (p_nodes p))"
  using TopologicalOrder_cases[OF assms(2)] backward_deps_known[OF assms(1)] backward_acyclic[OF assms]
    canonical_order_listing[OF _ assms] by (auto split: sum.splits)

subsection \<open>Chains\<close>

text \<open>The \<open>add\<close> closures of the operation planners: each node of a chain depends on the one before it,
  the first on the chain's root.\<close>

fun link :: "node_id \<Rightarrow> node list \<Rightarrow> node list" where
  "link prev [] = []"
| "link prev (n # ns) = n\<lparr>n_depends_on := [prev]\<rparr> # link (n_id n) ns"

lemma link_id [simp]: "map n_id (link prev ns) = map n_id ns"
  by (induction prev ns rule: link.induct) auto

lemma link_Nil [simp]: "link prev ns = [] \<longleftrightarrow> ns = []"
  by (cases ns) auto

lemma link_map: "(\<And>n d. f (n\<lparr>n_depends_on := d\<rparr>) = f n) \<Longrightarrow> map f (link prev ns) = map f ns"
  by (induction prev ns rule: link.induct) auto

lemma link_mem: "n \<in> set (link prev ns) \<Longrightarrow> \<exists>m \<in> set ns. \<exists>d. n = m\<lparr>n_depends_on := [d]\<rparr>"
  by (induction prev ns rule: link.induct) auto

lemma link_backward: "prev \<in> A \<Longrightarrow> backward_from A (link prev ns)"
  by (induction prev ns arbitrary: A rule: link.induct) auto

text \<open>Chains one after the other, each hanging off a node listed before them all, and their last nodes.\<close>

definition tails :: "node list list \<Rightarrow> node_id list" where
  "tails css = map (\<lambda>c. n_id (last c)) (filter (\<lambda>c. c \<noteq> []) css)"

lemma concat_links_backward:
  assumes "prev \<in> A" "\<forall>c \<in> set css. \<exists>ns. c = link prev ns" shows "backward_from A (concat css)"
  using assms
  by (induction css arbitrary: A) (auto simp: backward_from_append link_backward)

lemma set_tails: "set (tails css) \<subseteq> n_id ` set (concat css)"
  by (force simp: tails_def)

end
