(* ===== verification/Planner_Requests.thy ===== *)
theory Planner_Requests
  imports Planner_Indexes Plan_Graphs
begin

text \<open>
  The first half of engine/planner/host.go: the specification, the request the host prepares, and the
  interface an operation implements.  Notes for the operator's console are not modelled, so an
  operation yields its nodes.
\<close>

subsection \<open>Specification\<close>

text \<open>\<open>sp_reindex_since\<close> is None for Go's zero time.\<close>

record plan_spec =
  sp_operation :: operation
  sp_table :: object_name
  sp_index :: object_name
  sp_definition :: index_definition
  sp_pace_seconds :: int
  sp_pace_reason :: string
  sp_reindex_since :: "timestamp option"
  sp_confirmations :: "confirmation list"
  sp_actor :: string

definition spec_Confirmed :: "plan_spec \<Rightarrow> string \<Rightarrow> bool" where
  "spec_Confirmed s flag = confirmed_in (sp_confirmations s) flag"

definition spec_Validate :: "plan_spec \<Rightarrow> err option" where
  "spec_Validate s =
     then_check (require (operation_Valid (sp_operation s)) (Detailf ErrInvalidSpecification))
     (then_check (require (\<not> obj_IsZero (sp_table s)) (Detailf ErrInvalidSpecification))
     (then_check (require (obj_Validate (sp_table s) = None) (Detailf ErrInvalidSpecification))
     (then_check (require (\<not> obj_IsZero (sp_index s)) (Detailf ErrInvalidSpecification))
     (then_check (require (obj_Validate (sp_index s) = None) (Detailf ErrInvalidSpecification))
     (then_check (require (sp_operation s = OpCreateIndex \<longrightarrow> definition_Validate (sp_definition s) = None)
                   (Detailf ErrInvalidSpecification))
     (then_check (require (0 \<le> sp_pace_seconds s) (Detailf ErrInvalidSpecification))
       (each_check (\<lambda>c. require (conf_flag c \<noteq> []) (Detailf ErrInvalidSpecification)) (sp_confirmations s))))))))"

subsection \<open>Request and operation\<close>

record request =
  rq_spec :: plan_spec
  rq_catalog :: planner_catalog
  rq_topology :: topology
  rq_role :: string
  rq_database :: string
  rq_version :: int
  rq_estimator :: estimator
  rq_claims :: "claim_lookup option"
  rq_plan_id :: string
  rq_now :: timestamp

record op_planner =
  op_operation :: operation
  op_plan :: "request \<Rightarrow> plan_error + node list"

definition root_name :: "request \<Rightarrow> object_name" where
  "root_name req = rl_name (tp_root (rq_topology req))"

text \<open>The target index, in the schema of the root where the specification names none.\<close>

definition in_root_schema :: "object_name \<Rightarrow> object_name \<Rightarrow> object_name" where
  "in_root_schema root o1 = (if obj_schema o1 = [] then o1\<lparr>obj_schema := obj_schema root\<rparr> else o1)"

text \<open>A node as the operations write it down, before its chain gives it a dependency.\<close>

definition plain_node :: "node_id \<Rightarrow> node_kind \<Rightarrow> node_params \<Rightarrow> string \<Rightarrow> int \<Rightarrow> node" where
  "plain_node i k p sql secs = \<lparr>n_id = i, n_kind = k, n_params = Some p, n_depends_on = [],
     n_rendered_sql = sql, n_estimated_seconds = secs, n_authorization = None\<rparr>"

lemma plain_node_simps [simp]:
  "n_id (plain_node i k p sql secs) = i" "n_kind (plain_node i k p sql secs) = k"
  "n_params (plain_node i k p sql secs) = Some p" "n_depends_on (plain_node i k p sql secs) = []"
  "n_authorization (plain_node i k p sql secs) = None"
  by (simp_all add: plain_node_def)

subsection \<open>Reaching every node from the first, and the last from every node\<close>

definition barrier :: "node_id \<Rightarrow> node_id \<Rightarrow> node list \<Rightarrow> bool" where
  "barrier first final ns \<longleftrightarrow> (\<forall>n \<in> set ns. (first, n_id n) \<in> (depends ns)\<^sup>* \<and> (n_id n, final) \<in> (depends ns)\<^sup>*)"

lemma depends_mem: "n \<in> set ns \<Longrightarrow> d \<in> set (n_depends_on n) \<Longrightarrow> (d, n_id n) \<in> depends ns"
  by (auto simp: depends_def)

lemma depends_mono: "set xs \<subseteq> set ys \<Longrightarrow> depends xs \<subseteq> depends ys"
  by (auto simp: depends_def)

lemma link_from_root:
  "set (link prev ns) \<subseteq> set X \<Longrightarrow> n \<in> set (link prev ns) \<Longrightarrow> (prev, n_id n) \<in> (depends X)\<^sup>*"
proof (induction prev ns arbitrary: n rule: link.induct)
  case (2 prev m ns)
  have one: "(prev, n_id m) \<in> depends X"
    using 2(2) depends_mem[of "m\<lparr>n_depends_on := [prev]\<rparr>" X prev] by simp
  show ?case
  proof (cases "n \<in> set (link (n_id m) ns)")
    case True
    then have "(n_id m, n_id n) \<in> (depends X)\<^sup>*" using 2 by simp
    then show ?thesis by (rule converse_rtrancl_into_rtrancl[OF one])
  next
    case False
    then show ?thesis using one 2(3) by auto
  qed
qed simp

lemma link_to_last:
  "set (link prev ns) \<subseteq> set X \<Longrightarrow> n \<in> set (link prev ns) \<Longrightarrow> (n_id n, n_id (last (link prev ns))) \<in> (depends X)\<^sup>*"
proof (induction prev ns arbitrary: n rule: link.induct)
  case (2 prev m ns)
  show ?case
  proof (cases "ns = []")
    case True
    then show ?thesis using 2(3) by simp
  next
    case False
    then obtain k ks where ns: "ns = k # ks" by (cases ns) auto
    then have one: "(n_id m, n_id k) \<in> depends X"
      using 2(2) depends_mem[of "k\<lparr>n_depends_on := [n_id m]\<rparr>" X "n_id m"] by simp
    have rest: "(n_id j, n_id (last (link (n_id m) ns))) \<in> (depends X)\<^sup>*" if "j \<in> set (link (n_id m) ns)" for j
      using 2 that by simp
    have "(n_id m, n_id (last (link (n_id m) ns))) \<in> (depends X)\<^sup>*"
      using rest[of "k\<lparr>n_depends_on := [n_id m]\<rparr>"] ns by (intro converse_rtrancl_into_rtrancl[OF one]) simp
    then show ?thesis using 2(3) rest False by auto
  qed
qed simp

text \<open>The identifiers every operation gives its first and its last node.\<close>

definition first_node :: node_id where "first_node = ''assert.preconditions''"
definition final_node :: node_id where "final_node = ''verify.final''"

end
