(* ===== verification/Planner_Nodes.thy ===== *)
theory Planner_Nodes
  imports Planner_Requests
begin

text \<open>
  Node builders and facts the three operation planners share: the preconditions on the tree, node
  identifiers, and the frame of a plan (precondition node, chains, verification).
\<close>

definition step_id :: "string \<Rightarrow> object_name \<Rightarrow> node_id" where
  "step_id step o1 = step @ '':'' @ obj_String o1"

definition mk_assertion ::
    "assertion_kind \<Rightarrow> object_name option \<Rightarrow> object_name option \<Rightarrow> exit_code \<Rightarrow> string \<Rightarrow> assertion" where
  "mk_assertion k rel idx code msg = \<lparr>asrt_kind = k, asrt_relation = rel, asrt_index = idx, asrt_role = [],
     asrt_expected = [], asrt_failure_code = code, asrt_message = msg\<rparr>"

text \<open>The four preconditions on the tree that create-index and reindex-index both record.\<close>

definition tree_assertions :: "object_name \<Rightarrow> partition_strategy \<Rightarrow> assertion list" where
  "tree_assertions parent strategy =
     [mk_assertion AssertRelationIsPartitioned (Some parent) None ExitUnsupportedTopology
        (obj_String parent @ '' must be a partitioned table (relkind '' @ [squote] @ ''p'' @ [squote] @ '')''),
      (mk_assertion AssertPartitionStrategy (Some parent) None ExitUnsupportedTopology
        (obj_String parent @ '' must be RANGE or LIST partitioned; planned against ''
          @ strategy_String strategy @ '' (FR-PLAN-3)''))
        \<lparr>asrt_expected := [strategy_String StrategyRange, strategy_String StrategyList]\<rparr>,
      (mk_assertion AssertPartitionDepth (Some parent) None ExitUnsupportedTopology
        (''the partition tree rooted at '' @ obj_String parent @ '' must be exactly one level deep (FR-PLAN-2)''))
        \<lparr>asrt_expected := [''1'']\<rparr>,
      mk_assertion AssertNoDefaultPartition (Some parent) None ExitUnsupportedTopology
        (obj_String parent @ '' must have no DEFAULT partition (FR-PLAN-3)'')]"

definition role_assertion :: "string \<Rightarrow> object_name \<Rightarrow> assertion" where
  "role_assertion role rel =
     (mk_assertion AssertRoleMembership (Some rel) None ExitInsufficientPrivilege
       (''role '' @ role @ '' must be a member of the owning role of '' @ obj_String rel))\<lparr>asrt_role := role\<rparr>"

definition mk_check ::
    "verify_check_kind \<Rightarrow> object_name option \<Rightarrow> object_name option \<Rightarrow> string \<Rightarrow> verify_check" where
  "mk_check k idx parent msg = \<lparr>vc_check = k, vc_index = idx, vc_parent_index = parent, vc_relation = None,
     vc_expected_count = None, vc_message = msg\<rparr>"

text \<open>The UTF-8 bytes of the section sign the planners' texts use.\<close>

definition section_sign :: string where "section_sign = map char_of [0xC2 :: nat, 0xA7]"

text \<open>The text of a refusal, for the reasons the provenance table gives.\<close>

fun provenance_text :: "halt_reason \<Rightarrow> string" where
  "provenance_text (UnmarkedUnclaimed o1) = obj_String o1
     @ '' carries no PartitionCTL ownership marker and no run holds a live claim on it, so PartitionCTL cannot prove it created it (FR-AUTH-2, AC-6). Review it and drop it by hand if it is yours''"
| "provenance_text (ForeignComment o1) = obj_String o1
     @ '' carries a comment that is not a PartitionCTL marker. Somebody wrote it deliberately, so PartitionCTL will neither overwrite it nor drop the object under it (FR-AUTH-2, AC-6)''"
| "provenance_text (UnreadableMarker o1) = obj_String o1 @ '' carries a marker with the '' @ markerPrefix
     @ '' prefix that this binary cannot read: either a newer PartitionCTL owns this object, or the comment is corrupt. Upgrade, or clear the comment by hand after reviewing it''"
| "provenance_text _ = []"

subsection \<open>The frame of a plan\<close>

text \<open>A precondition node, optionally one more node behind it, one chain per leaf hanging off the last
  of these, and a verification behind every chain's last node.\<close>

definition framed_nodes :: "node \<Rightarrow> node list \<Rightarrow> node list list \<Rightarrow> node \<Rightarrow> node list" where
  "framed_nodes a up css v = a # link (n_id a) up @ concat css @ [v]"

definition chain_root :: "node \<Rightarrow> node list \<Rightarrow> node_id" where
  "chain_root a up = (if up = [] then n_id a else n_id (last up))"

definition tails_or :: "node_id \<Rightarrow> node list list \<Rightarrow> node_id list" where
  "tails_or root css = (if tails css = [] then [root] else tails css)"

lemma tails_empty: "tails css = [] \<longleftrightarrow> concat css = []"
  by (auto simp: tails_def filter_empty_conv)

lemma last_link_id: "ns \<noteq> [] \<Longrightarrow> n_id (last (link prev ns)) = n_id (last ns)"
  by (metis last_map link_Nil link_id)

lemma framed_backward:
  assumes "n_depends_on a = []" "n_depends_on v = tails_or (chain_root a up) css"
    and "\<forall>c \<in> set css. \<exists>ns. c = link (chain_root a up) ns"
  shows "backward (framed_nodes a up css v)"
proof -
  let ?A = "insert (n_id a) (n_id ` set (link (n_id a) up))"
  have ids: "n_id ` set (link (n_id a) up) = n_id ` set up" by (metis link_id set_map)
  have root: "chain_root a up \<in> ?A" by (auto simp: chain_root_def ids)
  have "backward_from ?A (concat css)" by (rule concat_links_backward[OF root assms(3)])
  moreover have "set (tails_or (chain_root a up) css) \<subseteq> ?A \<union> n_id ` set (concat css)"
    using set_tails[of css] root by (auto simp: tails_or_def)
  ultimately show ?thesis
    by (simp add: backward_def framed_nodes_def backward_from_append assms(1,2) link_backward)
qed

lemma framed_barrier:
  assumes "n_depends_on v = tails_or (chain_root a up) css"
    and "\<forall>c \<in> set css. \<exists>ns. c = link (chain_root a up) ns"
  shows "barrier (n_id a) (n_id v) (framed_nodes a up css v)"
proof -
  let ?X = "framed_nodes a up css v" and ?r = "chain_root a up"
  let ?R = "(depends ?X)\<^sup>*"
  have up_sub: "set (link (n_id a) up) \<subseteq> set ?X" by (auto simp: framed_nodes_def)
  have v_edge: "d \<in> set (tails_or ?r css) \<Longrightarrow> (d, n_id v) \<in> ?R" for d
    using depends_mem[of v ?X d] assms(1) by (auto simp: framed_nodes_def)
  have root_last: "n_id (last (link (n_id a) up)) = ?r" if "up \<noteq> []"
    using that by (simp add: chain_root_def last_link_id)
  have to_root: "(n_id a, ?r) \<in> ?R"
  proof (cases "up = []")
    case False
    then have "last (link (n_id a) up) \<in> set (link (n_id a) up)" by simp
    then show ?thesis using link_from_root[OF up_sub] root_last[OF False] by metis
  qed (simp add: chain_root_def)
  have chain: "(?r, n_id n) \<in> ?R \<and> (n_id n, n_id v) \<in> ?R" if n: "n \<in> set (concat css)" for n
  proof -
    obtain c where c: "c \<in> set css" "n \<in> set c" using n by auto
    then obtain ns where ns: "c = link ?r ns" using assms(2) by auto
    have sub: "set (link ?r ns) \<subseteq> set ?X" using c ns by (auto simp: framed_nodes_def)
    have "c \<noteq> []" using c(2) by auto
    then have "n_id (last c) \<in> set (tails css)" using c(1) by (auto simp: tails_def)
    then have "(n_id (last c), n_id v) \<in> ?R" by (intro v_edge) (auto simp: tails_or_def)
    then show ?thesis using link_from_root[OF sub] link_to_last[OF sub] c(2) ns by (metis rtrancl_trans)
  qed
  have r_v: "(?r, n_id v) \<in> ?R"
  proof (cases "concat css = []")
    case True
    then show ?thesis using tails_empty[of css] by (intro v_edge) (simp add: tails_or_def)
  next
    case False
    then obtain n where "n \<in> set (concat css)" by (cases "concat css") auto
    then show ?thesis using chain by (meson rtrancl_trans)
  qed
  have in_up: "(n_id a, n_id n) \<in> ?R \<and> (n_id n, ?r) \<in> ?R" if "n \<in> set (link (n_id a) up)" for n
  proof -
    have "up \<noteq> []" using that by auto
    then show ?thesis using link_from_root[OF up_sub that] link_to_last[OF up_sub that] root_last by simp
  qed
  show ?thesis unfolding barrier_def
  proof
    fix n assume "n \<in> set ?X"
    then consider "n = a" | "n \<in> set (link (n_id a) up)" | "n \<in> set (concat css)" | "n = v"
      by (auto simp: framed_nodes_def)
    then show "(n_id a, n_id n) \<in> ?R \<and> (n_id n, n_id v) \<in> ?R"
      using in_up chain to_root r_v by cases (meson rtrancl_trans rtrancl.rtrancl_refl)+
  qed
qed

lemma rmap_Inr_mem: "rmap f xs = Inr ys \<Longrightarrow> y \<in> set ys \<Longrightarrow> \<exists>x \<in> set xs. f x = Inr y"
  by (induction xs arbitrary: ys) (auto simp: rbind_Inr)

lemma rmap_Inr_mem': "rmap f xs = Inr ys \<Longrightarrow> x \<in> set xs \<Longrightarrow> \<exists>y \<in> set ys. f x = Inr y"
  by (induction xs arbitrary: ys) (auto simp: rbind_Inr)

end
