(* ===== verification/Planner_Contract.thy ===== *)
theory Planner_Contract
  imports Planner_Nodes
begin

text \<open>
  The interface between the planner host and an operation, as a locale: what every operation promises
  of the graph it emits.  The precondition node comes first, the verification last, every dependency
  points backwards, every node lies between the two in the dependency order, and a destructive node
  names an object the operation can justify destroying.
\<close>

subsection \<open>When a destructive node is justified\<close>

definition seen_index :: "request \<Rightarrow> pg_index \<Rightarrow> bool" where
  "seen_index req i \<longleftrightarrow> (\<exists>oids \<in> {RelationOIDs (rq_topology req), LeafOIDs (rq_topology req)}.
     \<exists>ixs. pc_indexes (rq_catalog req) oids = Inr ixs \<and> i \<in> set ixs)"

definition ours_by :: "marker \<times> marker_status \<Rightarrow> claim_lookup option \<Rightarrow> object_name \<Rightarrow> bool" where
  "ours_by r claims o1 \<longleftrightarrow> snd r = MarkerOurs \<or> snd r = MarkerAbsent \<and> claimed claims o1"

text \<open>A drop by provenance: an index seen under that name, attached to nothing, that carries our marker
  or that a run still claims.  A drop of a leftover: a name REINDEX CONCURRENTLY gives, with one base
  index among those seen, which carries our marker.  An explicit drop: the partitioned index the
  specification names, on this root, behind no constraint, with the lock confirmed.\<close>

definition plan_justified :: "request \<Rightarrow> node \<Rightarrow> bool" where
  "plan_justified req n \<longleftrightarrow> (\<exists>a. n_authorization n = Some a \<and> node_Object n = (auth_object a, True) \<and>
     (case auth_mode a of
        AuthProvenance \<Rightarrow> \<exists>i. seen_index req i \<and> obj_name (ix_name i) = obj_name (auth_object a) \<and> \<not> Attached i \<and>
          (provably_ours (rq_catalog req) (rq_claims req) (auth_object a) i \<or>
           ours_by (index_Marker i) (rq_claims req) (auth_object a))
      | AuthLeftover \<Rightarrow> \<exists>i base. seen_index req i \<and> seen_index req base \<and> ix_name i = auth_object a \<and>
          fst (ClassifyLeftover (obj_name (auth_object a))) \<noteq> LeftoverNone \<and>
          base_candidate (auth_object a) (ix_name base) \<and> snd (index_Marker base) = MarkerOurs
      | AuthExplicit \<Rightarrow> \<exists>i. pc_index (rq_catalog req) (in_root_schema (root_name req) (sp_index (rq_spec req))) = Inr i \<and>
          auth_object a = ix_name i \<and> ix_kind i = RelKindPartitionedIndex \<and>
          ix_table_oid i = rl_oid (tp_root (rq_topology req)) \<and> \<not> ConstraintBacked i \<and>
          spec_Confirmed (rq_spec req) ConfirmExclusiveLock
      | UnknownMode _ \<Rightarrow> False))"

subsection \<open>When a creating node can be rendered\<close>

definition same_schema :: "node \<Rightarrow> bool" where
  "same_schema n \<longleftrightarrow> (case n_params n of
     Some (CreateParentInvalidParams p) \<Rightarrow> obj_schema (cpi_index p) \<in> {[], obj_schema (cpi_parent p)}
   | Some (CreateConcurrentlyParams p) \<Rightarrow> obj_schema (ccp_index p) \<in> {[], obj_schema (ccp_partition p)}
   | _ \<Rightarrow> True)"

lemma same_schema_depends [simp]: "same_schema (n\<lparr>n_depends_on := d\<rparr>) \<longleftrightarrow> same_schema n"
  by (simp add: same_schema_def)

lemma same_schema_renders:
  assumes "node_Validate n = None" "same_schema n" shows "\<exists>sql. Render (Some n) = Inr sql"
proof -
  obtain p where "n_params n = Some p" "params_Kind p = n_kind n"
    using assms(1) by (auto simp: node_Validate_None)
  then show ?thesis using assms(2)
    by (cases p) (auto simp: Render_def same_schema_def renderCreateIndex_def Let_def split: node_kind.splits)
qed

subsection \<open>The contract\<close>

locale operation_contract =
  fixes opl :: op_planner
  assumes framed: "op_plan opl req = Inr ns \<Longrightarrow> \<exists>a mid v. ns = a # mid @ [v] \<and>
      n_id a = first_node \<and> n_kind a = KindCatalogAssert \<and> n_id v = final_node \<and> n_kind v = KindIndexVerify"
    and listed: "op_plan opl req = Inr ns \<Longrightarrow> backward ns"
    and between: "op_plan opl req = Inr ns \<Longrightarrow> barrier first_node final_node ns"
    and destroys: "op_plan opl req = Inr ns \<Longrightarrow> n \<in> set ns \<Longrightarrow> IsDestructive (n_kind n) \<Longrightarrow> plan_justified req n"
    and placed: "op_plan opl req = Inr ns \<Longrightarrow> obj_schema (sp_index (rq_spec req)) \<in> {[], obj_schema (root_name req)} \<Longrightarrow>
      n \<in> set ns \<Longrightarrow> same_schema n"
begin

lemma nonempty: "op_plan opl req = Inr ns \<Longrightarrow> ns \<noteq> []"
  using framed by blast

lemma runs_as_listed:
  assumes "op_plan opl req = Inr (p_nodes p)" "distinct (map n_id (p_nodes p))"
  shows "TopologicalOrder p = Inr (map n_id (p_nodes p))"
  using TopologicalOrder_listing[OF listed[OF assms(1)] assms(2)] .

lemma first_and_last:
  assumes "op_plan opl req = Inr ns"
  shows "hd (map n_id ns) = first_node \<and> last (map n_id ns) = final_node"
  using framed[OF assms] by auto

end

end
