(* ===== verification/Inspection_Facts.thy ===== *)
theory Inspection_Facts
  imports Planner_Contract
begin

text \<open>
  Facts about an inspection that all of create-index's properties use: what an inspected leaf says of
  the catalog, and when a cleanup decision is destructive.
\<close>

text \<open>The Go map by full name that the drop and reindex planners fill in slice order.\<close>

definition by_full_name :: "pg_index list \<Rightarrow> object_name \<Rightarrow> pg_index option" where
  "by_full_name ixs n = map_of (map (\<lambda>i. (ix_name i, i)) (rev ixs)) n"

definition inspected :: "pg_index list \<Rightarrow> topology \<Rightarrow> object_name \<Rightarrow> inspection" where
  "inspected ixs topo parentIndex =
     (let parent = find (is_parent_index topo parentIndex) (rev ixs) in
      \<lparr>in_parent = parent, in_children = map (\<lambda>l. inspect_child ixs parent l
         (child_object (obj_name parentIndex) (rl_name l))) (tp_leaves topo)\<rparr>)"

lemma map2_map: "map2 f xs (map g xs) = map (\<lambda>x. f x (g x)) xs"
  by (induction xs) auto

lemma InspectChildren_Inr:
  "InspectChildren cr topo parentIndex = Inr insp \<longleftrightarrow>
     obj_Validate parentIndex = None \<and>
     distinct (map (child_object (obj_name parentIndex)) (LeafObjectNames topo)) \<and>
     (\<exists>ixs. pc_indexes cr (RelationOIDs topo) = Inr ixs \<and> insp = inspected ixs topo parentIndex)"
proof -
  have names: "map (child_object (obj_name parentIndex)) (LeafObjectNames topo)
    = map (\<lambda>l. child_object (obj_name parentIndex) (rl_name l)) (tp_leaves topo)"
    by (simp add: LeafObjectNames_def)
  show ?thesis
    unfolding InspectChildren_def ChildIndexNamesQualified_eq
    by (auto simp: rcheck_Inr rbind_Inr lifted_Inr Let_def inspected_def names map2_map split: if_splits)
qed

lemma inspect_child_simps [simp]:
  "cp_leaf (inspect_child ixs parent l ch) = l" "cp_child (inspect_child ixs parent l ch) = ch"
  "cp_existing (inspect_child ixs parent l ch) = index_on ixs (rl_oid l) (obj_name ch)"
  by (simp_all add: inspect_child_def Let_def)

lemma inspect_child_condition:
  "cp_condition (inspect_child ixs parent l ch)
     = (case index_on ixs (rl_oid l) (obj_name ch) of Some i \<Rightarrow> Condition i | None \<Rightarrow> IndexAbsent)"
  by (simp add: inspect_child_def Let_def)

lemma inspect_child_attached:
  "cp_attached (inspect_child ixs parent l ch) = Some i \<Longrightarrow>
     \<exists>p. parent = Some p \<and> i \<in> set ixs \<and> ix_table_oid i = rl_oid l \<and> AttachedTo i (ix_oid p)"
  by (auto simp: inspect_child_def Let_def split: option.splits if_splits dest!: find_mem)

definition parent_oid :: "pg_index option \<Rightarrow> 32 word" where
  "parent_oid parent = (case parent of None \<Rightarrow> 0 | Some p \<Rightarrow> ix_oid p)"

lemma ParentIndexOID_parent: "ParentIndexOID s = parent_oid (in_parent s)"
  by (simp add: ParentIndexOID_def parent_oid_def)

text \<open>A leaf is complete exactly when a usable index of the leaf, under whichever name, is attached to
  the parent index.\<close>

lemma inspected_complete:
  "child_Complete (inspect_child ixs parent l ch) (parent_oid parent) \<longleftrightarrow>
     (\<exists>i. (index_on ixs (rl_oid l) (obj_name ch) = Some i \<or> cp_attached (inspect_child ixs parent l ch) = Some i) \<and>
        AttachedTo i (parent_oid parent) \<and> ix_valid i \<and> ix_ready i \<and> ix_live i)"
  by (subst child_Complete_iff) (simp_all add: inspect_child_condition)

subsection \<open>Cleanup decisions\<close>

lemma DecideCleanup_iff:
  assumes "cp_existing c = Some i" "NeedsCleanup (cp_condition c)"
  shows "if provably_ours cr claims (cp_child c) i
    then \<exists>d v. DecideCleanup (Some cr) claims c = (d, Some v, None) \<and> cleanup_Destructive d \<and> dv_reason v = NoReason
    else \<exists>d v e. DecideCleanup (Some cr) claims c = (d, v, Some e) \<and> \<not> cleanup_Destructive d"
proof (cases "existing_marker cr (cp_child c) i")
  case (Inl e)
  then show ?thesis using assms by (simp add: DecideCleanup_def provably_ours_def cleanup_Destructive_def)
next
  case (Inr ms)
  obtain m st where ms: "ms = (m, st)" by (cases ms)
  show ?thesis
  proof (cases "claim_of claims st (cp_child c)")
    case Inl': (Inl e)
    then have "st = MarkerAbsent \<and> \<not> claimed claims (cp_child c)"
      by (auto simp: claim_of_def claimed_def rbind_def split: option.splits if_splits sum.splits)
    then show ?thesis using assms Inr ms Inl'
      by (auto simp: DecideCleanup_def provably_ours_def cleanup_Destructive_def)
  next
    case run: (Inr run)
    have ours: "provably_ours cr claims (cp_child c) i \<longleftrightarrow> st = MarkerOurs \<or> st = MarkerAbsent \<and> run \<noteq> []"
      using Inr ms run
      by (auto simp: provably_ours_def claim_of_def claimed_def rbind_Inr split: option.splits if_splits)
    show ?thesis using assms Inr ms run
      by (auto simp: ours DecideCleanup_def Let_def DecideProvenanceDrop_def halt_verdict_def cleanup_Destructive_def
          split: marker_status.splits)
  qed
qed

lemma DecideCleanup_none:
  "cp_existing c = None \<or> \<not> NeedsCleanup (cp_condition c) \<Longrightarrow> DecideCleanup cr claims c = (CleanupNone, None, None)"
  by (auto simp: DecideCleanup_def split: option.splits)

end
