(* ===== verification/Planner_Samples.thy ===== *)
theory Planner_Samples
  imports Inspection_Facts
begin

text \<open>
  A concrete catalog and request the planners' witnesses share: the table s.t with the partitions s.t1
  and s.t2, the index s.i, and a claim of run r1 on everything.
\<close>

lemma sample_child_names:
  "ChildIndexName ''i'' ''t1'' = ''i_t1''" "ChildIndexName ''i'' ''t2'' = ''i_t2''"
proof -
  have "valid_utf8 ''i_t1''" "valid_utf8 ''i_t2''" by (simp_all add: ascii_valid ascii_def)
  moreover have "\<not> looksTagged ''i_t1''" "\<not> looksTagged ''i_t2''"
    by (simp_all add: looksTagged_def childNameTagLen_def)
  ultimately show "ChildIndexName ''i'' ''t1'' = ''i_t1''" "ChildIndexName ''i'' ''t2'' = ''i_t2''"
    by (simp_all add: ChildIndexName_cases natural_ok_def MaxIdentifierBytes_def)
qed

lemma plan_sample_ids: "ValidateIdentifier ''s'' = None" "ValidateIdentifier ''i_t1'' = None" "ValidateIdentifier ''i_t2'' = None"
  by (simp_all add: ValidateIdentifier_None MaxIdentifierBytes_def ascii_valid ascii_def nul_def)

definition sample_spec :: "operation \<Rightarrow> plan_spec" where
  "sample_spec op1 = \<lparr>sp_operation = op1, sp_table = NewObjectName ''s'' ''t'', sp_index = NewObjectName ''s'' ''i'',
     sp_definition = zero_definition, sp_pace_seconds = 1, sp_pace_reason = [], sp_reindex_since = None,
     sp_confirmations = [\<lparr>conf_flag = ConfirmExclusiveLock, conf_actor = [], conf_at = 0, conf_note = []\<rparr>],
     sp_actor = []\<rparr>"

definition plan_request :: "operation \<Rightarrow> planner_catalog \<Rightarrow> request" where
  "plan_request op1 cr = \<lparr>rq_spec = sample_spec op1, rq_catalog = cr, rq_topology = sample_topo, rq_role = ''o'',
     rq_database = ''db'', rq_version = 160000, rq_estimator = DefaultEstimator,
     rq_claims = Some (\<lambda>_. Inr (Some ''r1'')), rq_plan_id = ''p'', rq_now = 0\<rparr>"

text \<open>An index row: name, relkind, the relation it is on, whether it is usable, its parent.\<close>

definition sample_index :: "32 word \<Rightarrow> string \<Rightarrow> relkind \<Rightarrow> 32 word \<Rightarrow> bool \<Rightarrow> 32 word \<Rightarrow> pg_index" where
  "sample_index oid n k table usable parent = \<lparr>ix_oid = oid, ix_name = NewObjectName ''s'' n, ix_kind = k,
     ix_owner_oid = 10, ix_pages = 1, ix_table_oid = table, ix_table = NewObjectName ''s'' ''t'', ix_valid = usable,
     ix_ready = True, ix_live = True, ix_unique = False, ix_primary = False, ix_exclusion = False,
     ix_parent_oid = parent, ix_constraint = [], ix_constraint_type = [], ix_comment = []\<rparr>"

lemma sample_root [simp]: "root_name (plan_request op1 cr) = NewObjectName ''s'' ''t''"
  by (simp add: root_name_def plan_request_def sample_topo_def sample_relation_def)

lemma sample_leaf_names: "LeafObjectNames sample_topo = [NewObjectName ''s'' ''t1'', NewObjectName ''s'' ''t2'']"
  by (simp add: LeafObjectNames_def sample_topo_def sample_relation_def)

lemma plan_request_simps [simp]:
  "rq_catalog (plan_request op1 cr) = cr" "rq_topology (plan_request op1 cr) = sample_topo"
  "rq_claims (plan_request op1 cr) = Some (\<lambda>_. Inr (Some ''r1''))" "rq_spec (plan_request op1 cr) = sample_spec op1"
  by (simp_all add: plan_request_def)

lemma sample_inspection:
  "InspectChildren (sample_catalog\<lparr>pc_indexes := \<lambda>_. Inr ixs\<rparr>) sample_topo (NewObjectName ''s'' ''i'')
     = Inr (inspected ixs sample_topo (NewObjectName ''s'' ''i''))"
  unfolding InspectChildren_Inr sample_leaf_names
  by (simp add: obj_Validate_None NewObjectName_def plan_sample_ids sample_identifiers child_object_def sample_child_names)

definition sample_child :: "pg_index list \<Rightarrow> 32 word \<Rightarrow> string \<Rightarrow> string \<Rightarrow> child_plan" where
  "sample_child ixs oid leaf child = inspect_child ixs (find (is_parent_index sample_topo (NewObjectName ''s'' ''i'')) (rev ixs))
     (sample_relation oid leaf RelKindTable 1) (NewObjectName ''s'' child)"

lemma sample_children:
  "in_children (inspected ixs sample_topo (NewObjectName ''s'' ''i''))
     = [sample_child ixs 2 ''t1'' ''i_t1'', sample_child ixs 3 ''t2'' ''i_t2'']"
  by (simp add: inspected_def Let_def sample_topo_def sample_child_def child_object_def NewObjectName_def
      sample_child_names sample_relation_def)

subsection \<open>A catalog whose views agree\<close>

text \<open>The sample table with a list of index rows, found by relation and by name.\<close>

definition sample_view :: "pg_index list \<Rightarrow> planner_catalog" where
  "sample_view rows = sample_catalog\<lparr>
     pc_relation := \<lambda>x. (case find (\<lambda>r. rl_name r = x) (Relations sample_topo) of
       Some r \<Rightarrow> Inr r | None \<Rightarrow> Inl ErrRelationNotFound),
     pc_indexes := \<lambda>oids. Inr (filter (\<lambda>i. ix_table_oid i \<in> set oids) rows),
     pc_index := \<lambda>x. (case find (\<lambda>i. ix_name i = x) rows of
       Some i \<Rightarrow> Inr i | None \<Rightarrow> Inl ErrIndexNotFound)\<rparr>"

lemma sample_view_simps [simp]:
  "pc_indexes (sample_view rows) oids = Inr (filter (\<lambda>i. ix_table_oid i \<in> set oids) rows)"
  "pc_role (sample_view rows) = Inr ''o''" "pc_tree (sample_view rows) oid = Inr sample_rows"
  "pc_memberships (sample_view rows) role oids = Inr (\<lambda>oid. Some \<lparr>rm_owner_oid = oid, rm_owner = ''o'', rm_member = True\<rparr>)"
  "pc_comment (sample_view rows) x = Inr None"
  by (simp_all add: sample_view_def sample_catalog_def)

lemma sample_view_relation:
  "pc_relation (sample_view rows) x = Inr r \<longleftrightarrow> r \<in> set (Relations sample_topo) \<and> rl_name r = x"
proof -
  have "distinct (map rl_name (Relations sample_topo))"
    by (simp add: Relations_def sample_topo_def sample_relation_def NewObjectName_def)
  then have "find (\<lambda>r. rl_name r = x) (Relations sample_topo) = Some r \<longleftrightarrow> r \<in> set (Relations sample_topo) \<and> rl_name r = x"
    by (auto simp: Relations_def sample_topo_def sample_relation_def NewObjectName_def)
  then show ?thesis by (auto simp: sample_view_def split: option.splits)
qed

lemma sample_view_index:
  "pc_index (sample_view rows) x = Inr i \<Longrightarrow> i \<in> set rows \<and> ix_name i = x"
  "pc_index (sample_view rows) x = Inl e \<Longrightarrow> e = ErrIndexNotFound"
  "distinct (map ix_name rows) \<Longrightarrow> i \<in> set rows \<Longrightarrow> pc_index (sample_view rows) (ix_name i) = Inr i"
proof -
  show "pc_index (sample_view rows) x = Inr i \<Longrightarrow> i \<in> set rows \<and> ix_name i = x"
    "pc_index (sample_view rows) x = Inl e \<Longrightarrow> e = ErrIndexNotFound"
    by (auto simp: sample_view_def find_Some_iff split: option.splits)
  show "distinct (map ix_name rows) \<Longrightarrow> i \<in> set rows \<Longrightarrow> pc_index (sample_view rows) (ix_name i) = Inr i"
    by (induction rows) (auto simp: sample_view_def image_iff split: option.splits)
qed

lemma sample_view_discovered:
  "Discover (sample_view rows) (NewObjectName ''s'' ''t'') opts = Inr sample_topo"
proof -
  have r: "pc_relation (sample_view rows) (NewObjectName ''s'' ''t'') = Inr (sample_relation 1 ''t'' RelKindPartitionedTable 0)"
    unfolding sample_view_relation by (simp add: Relations_def sample_topo_def sample_relation_def)
  have s: "pc_relation sample_catalog (NewObjectName ''s'' ''t'') = Inr (sample_relation 1 ''t'' RelKindPartitionedTable 0)"
    "pc_tree (sample_view rows) = pc_tree sample_catalog" "pc_strategy (sample_view rows) = pc_strategy sample_catalog"
    by (simp_all add: sample_view_def sample_catalog_def)
  have "Discover (sample_view rows) (NewObjectName ''s'' ''t'') opts = Discover sample_catalog (NewObjectName ''s'' ''t'') opts"
    unfolding Discover_def r s ..
  then show ?thesis using sample_discovered by simp
qed

end
