(* ===== verification/Create_Index.thy ===== *)
theory Create_Index
  imports Planner_Samples
begin

text \<open>
  operations/create-index/planner.go and render.go: the graph of CreatePartitionedIndex.  What a leaf
  still needs follows from the index that occupies its generated name and from any index already
  attached to the target; the chains of all leaves hang off the parent index and meet in one final
  verification.
\<close>

subsection \<open>Nodes\<close>

definition ci_assertNode ::
    "string \<Rightarrow> object_name \<Rightarrow> object_name \<Rightarrow> partition_strategy \<Rightarrow> object_name list \<Rightarrow> node" where
  "ci_assertNode role parent parentIndex strategy relations =
     (let assertions = tree_assertions parent strategy @ map (role_assertion role) relations
        @ [mk_assertion AssertIndexNameAvailable (Some parent) (Some parentIndex) ExitAuthorizationUnsatisfied
             (obj_String parentIndex
                @ '' must be free, or be an in-progress build with PartitionCTL provenance (FR-PLAN-7)'')]
      in plain_node first_node KindCatalogAssert (CatalogAssertParams assertions)
           (''-- catalog.assert: '' @ FormatInt (int (length assertions))
              @ '' precondition(s) checked before any DDL is issued'') 0)"

definition ci_parentIndexNode :: "request \<Rightarrow> object_name \<Rightarrow> object_name \<Rightarrow> node" where
  "ci_parentIndexNode req parent parentIndex =
     planner_Preview ((plain_node ''index.parent'' KindIndexCreateParentInvalid
       (CreateParentInvalidParams \<lparr>cpi_parent = parent, cpi_index = parentIndex,
          cpi_definition = sp_definition (rq_spec req)\<rparr>)
       [] (CatalogNodeSeconds (rq_estimator req)))\<lparr>n_depends_on := [first_node]\<rparr>) OpCreateIndex"

definition ci_dropNode :: "request \<Rightarrow> object_name \<Rightarrow> object_name \<Rightarrow> drop_verdict \<Rightarrow> node" where
  "ci_dropNode req leaf child verdict =
     (let n = planner_Preview (plain_node (step_id ''drop'' leaf) KindIndexDropConcurrently
            (DropConcurrentlyParams \<lparr>dcp_index = child, dcp_relation = Some leaf, dcp_reason = DropInvalidBuild\<rparr>)
            [] (CatalogNodeSeconds (rq_estimator req))) OpCreateIndex;
          reason = provenance_text (dv_reason verdict);
          note = (if reason = []
            then ''an unusable index left by an interrupted CREATE INDEX CONCURRENTLY (FR-PLAN-6, AC-5)''
            else ''an unusable index left by an interrupted CREATE INDEX CONCURRENTLY; '' @ reason)
      in n\<lparr>n_authorization := Some \<lparr>auth_mode = AuthProvenance, auth_object = child, auth_relation = Some leaf,
             auth_required_confirmation = [], auth_note = note\<rparr>\<rparr>)"

definition leafRelation :: "request \<Rightarrow> object_name \<Rightarrow> relation option" where
  "leafRelation req leaf = find (\<lambda>r. rl_name r = leaf) (tp_leaves (rq_topology req))"

definition ci_createNode :: "request \<Rightarrow> object_name \<Rightarrow> object_name \<Rightarrow> object_name \<Rightarrow> node" where
  "ci_createNode req leaf child parentIndex =
     (let pages = (case leafRelation req leaf of Some r \<Rightarrow> rl_pages r | None \<Rightarrow> 0) in
      planner_Preview (plain_node (step_id ''create'' leaf) KindIndexCreateConcurrently
        (CreateConcurrentlyParams \<lparr>ccp_partition = leaf, ccp_index = child,
           ccp_definition = sp_definition (rq_spec req), ccp_parent_index = Some parentIndex\<rparr>)
        [] (BuildSeconds (rq_estimator req) pages)) OpCreateIndex)"

definition ci_leafVerifyNode :: "object_name \<Rightarrow> object_name \<Rightarrow> node" where
  "ci_leafVerifyNode leaf child = plain_node (step_id ''verify'' leaf) KindIndexVerify
     (VerifyParams [mk_check CheckIndexValid (Some child) None
        (obj_String child @ '' must be valid, ready and live before it is attached (FR-VER-1)'')])
     (''-- verify '' @ obj_Quoted child @ '' is valid, ready and live before attaching it'') 0"

definition ci_attachNode :: "request \<Rightarrow> object_name \<Rightarrow> object_name \<Rightarrow> object_name \<Rightarrow> node" where
  "ci_attachNode req leaf child parentIndex = planner_Preview (plain_node (step_id ''attach'' leaf) KindIndexAttach
     (AttachParams \<lparr>att_parent_index = parentIndex, att_child_index = child\<rparr>)
     [] (CatalogNodeSeconds (rq_estimator req))) OpCreateIndex"

definition ci_waitNode :: "request \<Rightarrow> object_name \<Rightarrow> node" where
  "ci_waitNode req leaf =
     (let seconds = sp_pace_seconds (rq_spec req);
          reason = (if sp_pace_reason (rq_spec req) = []
            then ''pacing after '' @ obj_String leaf @ '' attached (FR-ORD-3)'' else sp_pace_reason (rq_spec req))
      in plain_node (step_id ''wait'' leaf) KindWait (WaitParams \<lparr>wait_seconds = seconds, wait_reason = reason\<rparr>)
           (if seconds \<le> 0 then ''-- no pause''
            else ''-- pause '' @ FormatInt seconds @ ''s before the next partition (FR-ORD-3)'')
           (WaitSeconds seconds))"

definition ci_finalVerifyNode :: "object_name \<Rightarrow> object_name list \<Rightarrow> node_id list \<Rightarrow> node" where
  "ci_finalVerifyNode parentIndex children deps =
     (let count = int (length children);
          checks = [mk_check CheckParentIndexValid None (Some parentIndex)
              (obj_String parentIndex @ '' must be valid; PostgreSQL marks it so on the final attach (FR-VER-3)''),
            (mk_check CheckLeafIndexCount None (Some parentIndex)
              (obj_String parentIndex @ '' must have exactly '' @ FormatInt count
                @ '' leaf index(es), one per partition (FR-VER-4)''))\<lparr>vc_expected_count := Some count\<rparr>]
            @ map (\<lambda>child. mk_check CheckIndexAttached (Some child) (Some parentIndex)
                (obj_String child @ '' must be attached to '' @ obj_String parentIndex @ '' (FR-VER-2)'')) children
      in (plain_node final_node KindIndexVerify (VerifyParams checks)
           (''-- verify '' @ obj_Quoted parentIndex @ '' is valid and has '' @ FormatInt count
              @ '' attached leaf index(es)'') 0)\<lparr>n_depends_on := deps\<rparr>)"

subsection \<open>Classification of what exists\<close>

definition ci_checkChildNames :: "inspection \<Rightarrow> object_name \<Rightarrow> plan_error option" where
  "ci_checkChildNames insp parentIndex = each_check (\<lambda>c.
     if obj_Validate (cp_child c) \<noteq> None then Some (Failed (Detailf ErrInvalidIdentifier))
     else if cp_child c = parentIndex then Some (Failed (Detailf ErrNameCollision)) else None) (in_children insp)"

definition ci_classifyParentIndex :: "request \<Rightarrow> inspection \<Rightarrow> object_name \<Rightarrow> plan_error + bool" where
  "ci_classifyParentIndex req insp parentIndex = (case in_parent insp of
     None \<Rightarrow> Inr True
   | Some existing \<Rightarrow>
     if ix_kind existing \<noteq> RelKindPartitionedIndex then Inl (Failed (Detailf ErrFailure))
     else if condition_Usable (Condition existing) then Inr False
     else (case DecideCleanup (Some (rq_catalog req)) (rq_claims req)
         \<lparr>cp_leaf = tp_root (rq_topology req), cp_child = parentIndex, cp_existing = Some existing,
          cp_condition = Condition existing, cp_attached = None\<rparr> of (_, verdict, e) \<Rightarrow>
       (case e of None \<Rightarrow> Inr False
        | Some e \<Rightarrow> (case verdict of
            None \<Rightarrow> Inl e
          | Some v \<Rightarrow> if provenance_text (dv_reason v) = [] then Inl e
              else Inl (Failed (Detailf ErrForeignInvalidIndex))))))"

text \<open>The nodes of one leaf, before they are linked: \<open>drop\<close> is the verdict a drop rests on.\<close>

definition ci_chain ::
    "request \<Rightarrow> object_name \<Rightarrow> object_name \<Rightarrow> object_name \<Rightarrow> drop_verdict option \<Rightarrow> bool \<Rightarrow> node list" where
  "ci_chain req leaf child parentIndex needDrop needCreate =
     (case needDrop of Some v \<Rightarrow> [ci_dropNode req leaf child v] | None \<Rightarrow> [])
     @ (if needCreate then [ci_createNode req leaf child parentIndex] else [])
     @ [ci_leafVerifyNode leaf child, ci_attachNode req leaf child parentIndex, ci_waitNode req leaf]"

definition ci_leafChain ::
    "request \<Rightarrow> inspection \<Rightarrow> child_plan \<Rightarrow> object_name \<Rightarrow> node_id \<Rightarrow> plan_error + node list" where
  "ci_leafChain req insp c parentIndex root =
     (let parentOID = ParentIndexOID insp; leaf = rl_name (cp_leaf c); child = cp_child c;
          chain = (\<lambda>needDrop needCreate. Inr (link root (ci_chain req leaf child parentIndex needDrop needCreate)))
      in
      if child_Complete c parentOID then Inr []
      else if ForeignAttached c parentOID \<noteq> None then Inl (Failed (Detailf ErrFailure))
      else (case cp_existing c of
        None \<Rightarrow> chain None True
      | Some st \<Rightarrow>
        if ix_kind st = RelKindPartitionedIndex then Inl (Failed (Detailf ErrFailure))
        else if Attached st \<and> \<not> AttachedTo st parentOID then Inl (Failed (Detailf ErrFailure))
        else if child_Complete c parentOID then Inr []
        else if condition_Usable (Condition st) then chain None False
        else if Attached st then Inl (Failed (Detailf ErrFailure))
        else (case DecideCleanup (Some (rq_catalog req)) (rq_claims req) c of (decision, v, e) \<Rightarrow>
          (case e of Some e \<Rightarrow> Inl e
           | None \<Rightarrow> if \<not> cleanup_Destructive decision then Inl (Failed (Detailf ErrForeignInvalidIndex))
               else chain (Some (case v of Some v \<Rightarrow> v | None \<Rightarrow> halt_verdict NoReason)) True))))"

subsection \<open>The plan\<close>

definition ci_Plan :: "request \<Rightarrow> plan_error + node list" where
  "ci_Plan req =
     (let parent = root_name req; parentIndex = in_root_schema parent (sp_index (rq_spec req)) in
      rbind (InspectChildren (rq_catalog req) (rq_topology req) parentIndex) (\<lambda>insp.
      rcheck (ci_checkChildNames insp parentIndex)
      (rbind (ci_classifyParentIndex req insp parentIndex) (\<lambda>needParent.
       let relations = parent # LeafObjectNames (rq_topology req);
           assertn = ci_assertNode (rq_role req) parent parentIndex (tp_strategy (rq_topology req)) relations;
           up = (if needParent then [ci_parentIndexNode req parent parentIndex] else []);
           chainRoot = (if needParent then ''index.parent'' else first_node)
       in rbind (rmap (\<lambda>c. ci_leafChain req insp c parentIndex chainRoot) (in_children insp)) (\<lambda>css.
          Inr (assertn # up @ concat css
            @ [ci_finalVerifyNode parentIndex (map cp_child (in_children insp)) (tails_or chainRoot css)]))))))"

definition create_index :: op_planner where
  "create_index = \<lparr>op_operation = OpCreateIndex, op_plan = ci_Plan\<rparr>"

end
