(* ===== verification/Create_Index_Properties.thy ===== *)
theory Create_Index_Properties
  imports Create_Index
begin

text \<open>
  What CreatePartitionedIndex's plan does: the table of leaf states, the shape of the whole graph, which
  indexes it may drop, when it has nothing left to do, and that it meets the operation contract.
\<close>

subsection \<open>The work of one leaf\<close>

text \<open>The table of leafChain's documentation: the kinds of the nodes a leaf still needs, None where no
  plan is possible.\<close>

definition leaf_work ::
    "planner_catalog \<Rightarrow> claim_lookup option \<Rightarrow> 32 word \<Rightarrow> child_plan \<Rightarrow> node_kind list option" where
  "leaf_work cr claims parent c =
     (if child_Complete c parent then Some []
      else if ForeignAttached c parent \<noteq> None then None
      else (case cp_existing c of
        None \<Rightarrow> Some [KindIndexCreateConcurrently, KindIndexVerify, KindIndexAttach, KindWait]
      | Some i \<Rightarrow>
        if ix_kind i = RelKindPartitionedIndex \<or> Attached i then None
        else if ix_valid i \<and> ix_ready i \<and> ix_live i then Some [KindIndexVerify, KindIndexAttach, KindWait]
        else if provably_ours cr claims (cp_child c) i
        then Some [KindIndexDropConcurrently, KindIndexCreateConcurrently, KindIndexVerify, KindIndexAttach, KindWait]
        else None))"

lemmas ci_nodes = ci_dropNode_def ci_createNode_def ci_leafVerifyNode_def ci_attachNode_def ci_waitNode_def

lemma ci_node_simps [simp]:
  "n_kind (ci_dropNode req leaf child v) = KindIndexDropConcurrently"
  "n_kind (ci_createNode req leaf child parent) = KindIndexCreateConcurrently"
  "n_kind (ci_leafVerifyNode leaf child) = KindIndexVerify"
  "n_kind (ci_attachNode req leaf child parent) = KindIndexAttach"
  "n_kind (ci_waitNode req leaf) = KindWait"
  by (simp_all add: ci_nodes Let_def)

lemma kinds_link: "map n_kind (link prev ns) = map n_kind ns"
  by (rule link_map) simp

lemma ci_chain_kinds:
  "map n_kind (ci_chain req leaf child parent d cr) =
     (if d = None then [] else [KindIndexDropConcurrently]) @ (if cr then [KindIndexCreateConcurrently] else [])
     @ [KindIndexVerify, KindIndexAttach, KindWait]"
  by (simp add: ci_chain_def split: option.splits)

lemma complete_existing:
  assumes "cp_existing c = Some i" "cp_condition c = Condition i"
    and "ix_valid i" "ix_ready i" "ix_live i" "AttachedTo i p"
  shows "child_Complete c p"
  using assms by (simp add: child_Complete_def child_AttachedTo_def)

lemma ci_leafChain_cases:
  assumes cond: "cp_condition c = (case cp_existing c of Some i \<Rightarrow> Condition i | None \<Rightarrow> IndexAbsent)"
  shows "case leaf_work (rq_catalog req) (rq_claims req) (ParentIndexOID insp) c of
      None \<Rightarrow> \<exists>e. ci_leafChain req insp c pidx root = Inl e
    | Some [] \<Rightarrow> child_Complete c (ParentIndexOID insp) \<and> ci_leafChain req insp c pidx root = Inr []
    | Some ks \<Rightarrow> \<not> child_Complete c (ParentIndexOID insp) \<and> (\<exists>d b.
        ci_leafChain req insp c pidx root = Inr (link root (ci_chain req (rl_name (cp_leaf c)) (cp_child c) pidx d b)) \<and>
        ks = map n_kind (ci_chain req (rl_name (cp_leaf c)) (cp_child c) pidx d b) \<and>
        (d \<noteq> None \<longrightarrow> (\<exists>i. cp_existing c = Some i \<and> \<not> Attached i \<and> \<not> (ix_valid i \<and> ix_ready i \<and> ix_live i) \<and>
           provably_ours (rq_catalog req) (rq_claims req) (cp_child c) i)))"
proof -
  let ?p = "ParentIndexOID insp"
  consider (complete) "child_Complete c ?p" | (foreign) "\<not> child_Complete c ?p" "ForeignAttached c ?p \<noteq> None"
    | (absent) "\<not> child_Complete c ?p" "ForeignAttached c ?p = None" "cp_existing c = None"
    | (there) i where "\<not> child_Complete c ?p" "ForeignAttached c ?p = None" "cp_existing c = Some i" by blast
  then show ?thesis
  proof cases
    case absent
    then show ?thesis
      by (auto simp: leaf_work_def ci_leafChain_def Let_def ci_chain_kinds intro!: exI[of _ None] exI[of _ True])
  next
    case there
    note leaf = leaf_work_def ci_leafChain_def Let_def
    show ?thesis
    proof (cases "ix_kind i = RelKindPartitionedIndex \<or> Attached i")
      case True
      then show ?thesis using there complete_existing[OF there(3)] cond
        by (auto simp: leaf)
    next
      case unattached: False
      show ?thesis
      proof (cases "ix_valid i \<and> ix_ready i \<and> ix_live i")
        case True
        then show ?thesis using there unattached
          by (auto simp: leaf ci_chain_kinds intro!: exI[of _ None] exI[of _ False])
      next
        case unusable: False
        then have nc: "NeedsCleanup (cp_condition c)" using there cond by simp
        show ?thesis
        proof (cases "provably_ours (rq_catalog req) (rq_claims req) (cp_child c) i")
          case True
          then obtain d v where d: "DecideCleanup (Some (rq_catalog req)) (rq_claims req) c = (d, Some v, None)"
            "cleanup_Destructive d" using DecideCleanup_iff[OF there(3) nc] by metis
          then show ?thesis using there unattached unusable True
            by (auto simp: leaf ci_chain_kinds intro!: exI[of _ "Some v"] exI[of _ True])
        next
          case False
          then obtain d v e where d: "DecideCleanup (Some (rq_catalog req)) (rq_claims req) c = (d, v, Some e)"
            using DecideCleanup_iff[OF there(3) nc, of "rq_catalog req" "rq_claims req"] by auto
          then show ?thesis using there unattached unusable False by (auto simp: leaf)
        qed
      qed
    qed
  qed (auto simp: leaf_work_def ci_leafChain_def Let_def)
qed

text \<open>C14. The chain of a leaf has exactly the kinds the table gives for what the catalog shows under the
  leaf's name and attached to the parent, and no plan exists exactly where the table has none.\<close>

theorem ci_leafChain_table:
  "(case ci_leafChain req insp (inspect_child ixs parent leaf child) pidx root of
      Inr ch \<Rightarrow> Some (map n_kind ch) | Inl e \<Rightarrow> None)
   = leaf_work (rq_catalog req) (rq_claims req) (ParentIndexOID insp) (inspect_child ixs parent leaf child)"
proof -
  let ?c = "inspect_child ixs parent leaf child"
  have "cp_condition ?c = (case cp_existing ?c of Some i \<Rightarrow> Condition i | None \<Rightarrow> IndexAbsent)"
    by (simp add: inspect_child_condition)
  from ci_leafChain_cases[OF this, of req insp pidx root] show ?thesis
    by (auto simp: kinds_link split: option.splits list.splits)
qed

subsection \<open>The shape of the plan\<close>

definition ci_parent :: "request \<Rightarrow> object_name" where
  "ci_parent req = in_root_schema (root_name req) (sp_index (rq_spec req))"

definition ci_assert :: "request \<Rightarrow> node" where
  "ci_assert req = ci_assertNode (rq_role req) (root_name req) (ci_parent req) (tp_strategy (rq_topology req))
     (root_name req # LeafObjectNames (rq_topology req))"

definition ci_up :: "request \<Rightarrow> bool \<Rightarrow> node list" where
  "ci_up req need = (if need then [ci_parentIndexNode req (root_name req) (ci_parent req)] else [])"

definition ci_children :: "request \<Rightarrow> pg_index list \<Rightarrow> child_plan list" where
  "ci_children req ixs = in_children (inspected ixs (rq_topology req) (ci_parent req))"

lemma depends_update_id: "n_depends_on n = d \<Longrightarrow> n\<lparr>n_depends_on := d\<rparr> = n"
  by (cases n) simp

lemma ci_frame_simps [simp]:
  "n_id (ci_assert req) = first_node" "n_kind (ci_assert req) = KindCatalogAssert" "n_depends_on (ci_assert req) = []"
  "n_id (ci_finalVerifyNode pidx chs deps) = final_node" "n_kind (ci_finalVerifyNode pidx chs deps) = KindIndexVerify"
  "n_depends_on (ci_finalVerifyNode pidx chs deps) = deps"
  "n_authorization (ci_assert req) = None"
  by (simp_all add: ci_assert_def ci_assertNode_def ci_finalVerifyNode_def Let_def)

lemma ci_parentIndexNode_simps [simp]:
  "n_id (ci_parentIndexNode req parent pidx) = ''index.parent''"
  "n_kind (ci_parentIndexNode req parent pidx) = KindIndexCreateParentInvalid"
  "n_depends_on (ci_parentIndexNode req parent pidx) = [first_node]"
  by (simp_all add: ci_parentIndexNode_def)

lemma ci_up_link: "link first_node (ci_up req need) = ci_up req need"
  by (simp add: ci_up_def depends_update_id)

lemma ci_chain_root: "chain_root (ci_assert req) (ci_up req need) = (if need then ''index.parent'' else first_node)"
  by (simp add: chain_root_def ci_up_def)

lemma ci_Plan_Inr:
  assumes "ci_Plan req = Inr ns"
  obtains ixs need css where "pc_indexes (rq_catalog req) (RelationOIDs (rq_topology req)) = Inr ixs"
    and "ci_classifyParentIndex req (inspected ixs (rq_topology req) (ci_parent req)) (ci_parent req) = Inr need"
    and "rmap (\<lambda>c. ci_leafChain req (inspected ixs (rq_topology req) (ci_parent req)) c (ci_parent req)
           (chain_root (ci_assert req) (ci_up req need))) (ci_children req ixs) = Inr css"
    and "ns = framed_nodes (ci_assert req) (ci_up req need) css
           (ci_finalVerifyNode (ci_parent req) (map cp_child (ci_children req ixs))
             (tails_or (chain_root (ci_assert req) (ci_up req need)) css))"
    and "distinct (map cp_child (ci_children req ixs))"
    and "\<forall>c \<in> set (ci_children req ixs). obj_Validate (cp_child c) = None \<and> cp_child c \<noteq> ci_parent req"
proof -
  let ?pidx = "ci_parent req"
  from assms obtain insp need css where
    i: "InspectChildren (rq_catalog req) (rq_topology req) ?pidx = Inr insp"
    and names: "ci_checkChildNames insp ?pidx = None"
    and need: "ci_classifyParentIndex req insp ?pidx = Inr need"
    and css: "rmap (\<lambda>c. ci_leafChain req insp c ?pidx (if need then ''index.parent'' else first_node)) (in_children insp) = Inr css"
    and ns: "ns = ci_assert req # ci_up req need @ concat css @ [ci_finalVerifyNode ?pidx (map cp_child (in_children insp))
        (tails_or (if need then ''index.parent'' else first_node) css)]"
    unfolding ci_Plan_def Let_def rbind_Inr rcheck_Inr ci_parent_def[symmetric] ci_assert_def[symmetric] ci_up_def[symmetric]
    by auto
  obtain ixs where ixs: "pc_indexes (rq_catalog req) (RelationOIDs (rq_topology req)) = Inr ixs"
    "insp = inspected ixs (rq_topology req) ?pidx"
    and d: "distinct (map (child_object (obj_name ?pidx)) (LeafObjectNames (rq_topology req)))"
    using i unfolding InspectChildren_Inr by blast
  have kids: "map cp_child (in_children insp) = map (child_object (obj_name ?pidx)) (LeafObjectNames (rq_topology req))"
    by (simp add: ixs inspected_def Let_def LeafObjectNames_def)
  show ?thesis
  proof (rule that[OF ixs(1)])
    show "distinct (map cp_child (ci_children req ixs))" using d kids ixs by (simp add: ci_children_def)
    show "\<forall>c \<in> set (ci_children req ixs). obj_Validate (cp_child c) = None \<and> cp_child c \<noteq> ci_parent req"
      using names ixs by (auto simp: ci_checkChildNames_def each_check_None ci_children_def split: if_splits)
  qed (use need css ns ixs in \<open>simp_all add: ci_children_def ci_chain_root framed_nodes_def ci_up_link\<close>)
qed

lemma ci_children_mem:
  assumes "c \<in> set (ci_children req ixs)"
  obtains l where "l \<in> set (tp_leaves (rq_topology req))"
    "c = inspect_child ixs (find (is_parent_index (rq_topology req) (ci_parent req)) (rev ixs)) l
           (child_object (obj_name (ci_parent req)) (rl_name l))"
  using assms by (auto simp: ci_children_def inspected_def Let_def)

lemma ci_children_condition:
  assumes "c \<in> set (ci_children req ixs)"
  shows "cp_condition c = (case cp_existing c of Some i \<Rightarrow> Condition i | None \<Rightarrow> IndexAbsent)"
  by (rule ci_children_mem[OF assms]) (simp add: inspect_child_condition)

lemma ci_leafChain_linked:
  assumes "ci_leafChain req insp c pidx root = Inr ch"
    and "cp_condition c = (case cp_existing c of Some i \<Rightarrow> Condition i | None \<Rightarrow> IndexAbsent)"
  shows "\<exists>ns. ch = link root ns"
  using ci_leafChain_cases[OF assms(2), of req insp pidx root] assms(1)
  by (auto split: option.splits list.splits intro: exI[of _ "[]"])

lemma ci_leafChain_destructive:
  assumes "ci_leafChain req insp c pidx root = Inr ch" "n \<in> set ch" "IsDestructive (n_kind n)"
    and "cp_condition c = (case cp_existing c of Some i \<Rightarrow> Condition i | None \<Rightarrow> IndexAbsent)"
  shows "\<exists>i v d. cp_existing c = Some i \<and> \<not> Attached i \<and> \<not> (ix_valid i \<and> ix_ready i \<and> ix_live i) \<and>
     provably_ours (rq_catalog req) (rq_claims req) (cp_child c) i \<and>
     n = (ci_dropNode req (rl_name (cp_leaf c)) (cp_child c) v)\<lparr>n_depends_on := [d]\<rparr>"
proof -
  have *: "ch = [] \<or> (\<exists>d b. ch = link root (ci_chain req (rl_name (cp_leaf c)) (cp_child c) pidx d b) \<and>
        (d \<noteq> None \<longrightarrow> (\<exists>i. cp_existing c = Some i \<and> \<not> Attached i \<and> \<not> (ix_valid i \<and> ix_ready i \<and> ix_live i) \<and>
           provably_ours (rq_catalog req) (rq_claims req) (cp_child c) i)))"
    using ci_leafChain_cases[OF assms(4), of req insp pidx root] assms(1)
    by (auto split: option.splits list.splits)
  then obtain d b m x where "ch = link root (ci_chain req (rl_name (cp_leaf c)) (cp_child c) pidx d b)"
    "d \<noteq> None \<longrightarrow> (\<exists>i. cp_existing c = Some i \<and> \<not> Attached i \<and> \<not> (ix_valid i \<and> ix_ready i \<and> ix_live i) \<and>
       provably_ours (rq_catalog req) (rq_claims req) (cp_child c) i)"
    "m \<in> set (ci_chain req (rl_name (cp_leaf c)) (cp_child c) pidx d b)" "n = m\<lparr>n_depends_on := [x]\<rparr>"
    using assms(2) link_mem by fastforce
  then show ?thesis using assms(3)
    by (auto simp: ci_chain_def IsDestructive_def split: option.splits if_splits)
qed

subsection \<open>The contract\<close>

lemma ci_dropNode_object [simp]:
  "node_Object ((ci_dropNode req leaf child v)\<lparr>n_depends_on := d\<rparr>) = (child, True)"
  by (simp add: ci_dropNode_def node_Object_def Let_def)

lemma ci_dropNode_auth [simp]:
  "\<exists>a. n_authorization (ci_dropNode req leaf child v) = Some a \<and> auth_mode a = AuthProvenance \<and> auth_object a = child"
  by (simp add: ci_dropNode_def Let_def)

lemma ci_Plan_destructive:
  assumes "ci_Plan req = Inr ns" "n \<in> set ns" "IsDestructive (n_kind n)"
  shows "\<exists>l ixs i v d. l \<in> set (tp_leaves (rq_topology req)) \<and>
    pc_indexes (rq_catalog req) (RelationOIDs (rq_topology req)) = Inr ixs \<and> i \<in> set ixs \<and>
    ix_table_oid i = rl_oid l \<and> obj_name (ix_name i) = ChildIndexName (obj_name (ci_parent req)) (obj_name (rl_name l)) \<and>
    \<not> Attached i \<and> \<not> (ix_valid i \<and> ix_ready i \<and> ix_live i) \<and>
    provably_ours (rq_catalog req) (rq_claims req) (child_object (obj_name (ci_parent req)) (rl_name l)) i \<and>
    n = (ci_dropNode req (rl_name l) (child_object (obj_name (ci_parent req)) (rl_name l)) v)\<lparr>n_depends_on := [d]\<rparr>"
proof -
  obtain ixs need css where p: "pc_indexes (rq_catalog req) (RelationOIDs (rq_topology req)) = Inr ixs"
    "rmap (\<lambda>c. ci_leafChain req (inspected ixs (rq_topology req) (ci_parent req)) c (ci_parent req)
       (chain_root (ci_assert req) (ci_up req need))) (ci_children req ixs) = Inr css"
    "ns = framed_nodes (ci_assert req) (ci_up req need) css
       (ci_finalVerifyNode (ci_parent req) (map cp_child (ci_children req ixs))
         (tails_or (chain_root (ci_assert req) (ci_up req need)) css))"
    by (rule ci_Plan_Inr[OF assms(1)])
  have "n \<in> set (concat css)" using assms(2,3) p(3)
    by (auto simp: framed_nodes_def ci_up_link ci_up_def IsDestructive_def split: if_splits)
  then obtain ch where ch: "ch \<in> set css" "n \<in> set ch" by auto
  then obtain c where c: "c \<in> set (ci_children req ixs)"
    "ci_leafChain req (inspected ixs (rq_topology req) (ci_parent req)) c (ci_parent req)
       (chain_root (ci_assert req) (ci_up req need)) = Inr ch"
    using rmap_Inr_mem[OF p(2)] by blast
  obtain l where l: "l \<in> set (tp_leaves (rq_topology req))"
    "c = inspect_child ixs (find (is_parent_index (rq_topology req) (ci_parent req)) (rev ixs)) l
           (child_object (obj_name (ci_parent req)) (rl_name l))"
    by (rule ci_children_mem[OF c(1)])
  show ?thesis
    using ci_leafChain_destructive[OF c(2) ch(2) assms(3) ci_children_condition[OF c(1)]] l p(1)
    by (fastforce simp: child_object_def NewObjectName_def dest: index_on_Some)
qed

lemma ci_same_schema [simp]:
  "same_schema (ci_dropNode req leaf child v)" "same_schema (ci_leafVerifyNode leaf child)"
  "same_schema (ci_waitNode req leaf)" "same_schema (ci_attachNode req leaf child parent)"
  "same_schema (ci_assert req)" "same_schema (ci_finalVerifyNode pidx chs deps)"
  "obj_schema child \<in> {[], obj_schema leaf} \<Longrightarrow> same_schema (ci_createNode req leaf child parent)"
  "obj_schema pidx \<in> {[], obj_schema parent} \<Longrightarrow> same_schema (ci_parentIndexNode req parent pidx)"
  by (simp_all add: ci_nodes Let_def same_schema_def ci_assert_def ci_assertNode_def ci_finalVerifyNode_def
      ci_parentIndexNode_def)

lemma ci_chain_same_schema:
  "obj_schema child \<in> {[], obj_schema leaf} \<Longrightarrow> n \<in> set (link root (ci_chain req leaf child pidx d b)) \<Longrightarrow> same_schema n"
  by (auto simp: ci_chain_def dest!: link_mem split: option.splits if_splits)

lemma ci_Plan_same_schema:
  assumes "ci_Plan req = Inr ns" "obj_schema (sp_index (rq_spec req)) \<in> {[], obj_schema (root_name req)}" "n \<in> set ns"
  shows "same_schema n"
proof -
  obtain ixs need css where p:
    "rmap (\<lambda>c. ci_leafChain req (inspected ixs (rq_topology req) (ci_parent req)) c (ci_parent req)
       (chain_root (ci_assert req) (ci_up req need))) (ci_children req ixs) = Inr css"
    and ns: "ns = framed_nodes (ci_assert req) (ci_up req need) css
       (ci_finalVerifyNode (ci_parent req) (map cp_child (ci_children req ixs))
         (tails_or (chain_root (ci_assert req) (ci_up req need)) css))"
    by (rule ci_Plan_Inr[OF assms(1)])
  have "obj_schema (ci_parent req) \<in> {[], obj_schema (root_name req)}"
    using assms(2) by (auto simp: ci_parent_def in_root_schema_def)
  then have up: "\<forall>m \<in> set (ci_up req need). same_schema m" by (simp add: ci_up_def)
  have "same_schema n" if here: "n \<in> set ch" "ch \<in> set css" for ch
  proof -
    obtain c where c: "c \<in> set (ci_children req ixs)" "ci_leafChain req (inspected ixs (rq_topology req) (ci_parent req)) c
       (ci_parent req) (chain_root (ci_assert req) (ci_up req need)) = Inr ch"
      using rmap_Inr_mem[OF p here(2)] by blast
    obtain l where l: "c = inspect_child ixs (find (is_parent_index (rq_topology req) (ci_parent req)) (rev ixs)) l
           (child_object (obj_name (ci_parent req)) (rl_name l))"
      by (rule ci_children_mem[OF c(1)])
    then have sch: "obj_schema (cp_child c) \<in> {[], obj_schema (rl_name (cp_leaf c))}"
      by (simp add: child_object_def NewObjectName_def)
    have "ch = [] \<or> (\<exists>d b. ch = link (chain_root (ci_assert req) (ci_up req need))
        (ci_chain req (rl_name (cp_leaf c)) (cp_child c) (ci_parent req) d b))"
      using ci_leafChain_cases[OF ci_children_condition[OF c(1)], of req "inspected ixs (rq_topology req) (ci_parent req)"
          "ci_parent req" "chain_root (ci_assert req) (ci_up req need)"] c(2)
      by (auto split: option.splits list.splits)
    then show ?thesis using here(1) ci_chain_same_schema[OF sch] by auto
  qed
  then show ?thesis using assms(3) up unfolding ns framed_nodes_def ci_frame_simps ci_up_link by auto
qed

interpretation ci: operation_contract create_index
proof (unfold_locales, unfold create_index_def op_planner.simps)
  fix req ns assume plan: "ci_Plan req = Inr ns"
  obtain ixs need css where p:
    "rmap (\<lambda>c. ci_leafChain req (inspected ixs (rq_topology req) (ci_parent req)) c (ci_parent req)
       (chain_root (ci_assert req) (ci_up req need))) (ci_children req ixs) = Inr css"
    and ns: "ns = framed_nodes (ci_assert req) (ci_up req need) css
       (ci_finalVerifyNode (ci_parent req) (map cp_child (ci_children req ixs))
         (tails_or (chain_root (ci_assert req) (ci_up req need)) css))"
    by (rule ci_Plan_Inr[OF plan])
  have linked: "\<forall>c \<in> set css. \<exists>ns. c = link (chain_root (ci_assert req) (ci_up req need)) ns"
    using rmap_Inr_mem[OF p] ci_leafChain_linked ci_children_condition by blast
  show "\<exists>a mid v. ns = a # mid @ [v] \<and> n_id a = first_node \<and> n_kind a = KindCatalogAssert \<and>
      n_id v = final_node \<and> n_kind v = KindIndexVerify"
    unfolding ns framed_nodes_def
    by (rule exI[of _ "ci_assert req"], rule exI[of _ "link (n_id (ci_assert req)) (ci_up req need) @ concat css"]) auto
  show "backward ns" unfolding ns by (rule framed_backward[OF _ _ linked]) simp_all
  have "barrier (n_id (ci_assert req)) final_node ns"
    unfolding ns by (subst ci_frame_simps(4)[symmetric], rule framed_barrier[OF _ linked]) simp
  then show "barrier first_node final_node ns" by simp
next
  fix req ns n assume "ci_Plan req = Inr ns" "n \<in> set ns" "IsDestructive (n_kind n)"
  from ci_Plan_destructive[OF this] obtain l ixs i v d where *:
    "l \<in> set (tp_leaves (rq_topology req))" "pc_indexes (rq_catalog req) (RelationOIDs (rq_topology req)) = Inr ixs" "i \<in> set ixs" "\<not> Attached i"
    "obj_name (ix_name i) = ChildIndexName (obj_name (ci_parent req)) (obj_name (rl_name l))"
    "provably_ours (rq_catalog req) (rq_claims req) (child_object (obj_name (ci_parent req)) (rl_name l)) i"
    "n = (ci_dropNode req (rl_name l) (child_object (obj_name (ci_parent req)) (rl_name l)) v)\<lparr>n_depends_on := [d]\<rparr>"
    by blast
  show "plan_justified req n"
    unfolding plan_justified_def using * ci_dropNode_auth[of req "rl_name l" "child_object (obj_name (ci_parent req)) (rl_name l)" v]
    by (fastforce simp: seen_index_def child_object_def NewObjectName_def)
next
  fix req ns n assume plan: "ci_Plan req = Inr ns" and n: "n \<in> set ns"
    and sch: "obj_schema (sp_index (rq_spec req)) \<in> {[], obj_schema (root_name req)}"
  show "same_schema n" by (rule ci_Plan_same_schema[OF plan sch n])
qed

subsection \<open>What the plan covers\<close>

definition node_attaches :: "node \<Rightarrow> attach_params option" where
  "node_attaches n = (case n_params n of Some (AttachParams p) \<Rightarrow> Some p | _ \<Rightarrow> None)"

definition ci_missing :: "request \<Rightarrow> pg_index list \<Rightarrow> child_plan list" where
  "ci_missing req ixs = filter (\<lambda>c. \<not> child_Complete c (ParentIndexOID (inspected ixs (rq_topology req) (ci_parent req))))
     (ci_children req ixs)"

lemma ci_node_attaches [simp]:
  "node_attaches (ci_dropNode req leaf child v) = None" "node_attaches (ci_createNode req leaf child parent) = None"
  "node_attaches (ci_leafVerifyNode leaf child) = None" "node_attaches (ci_waitNode req leaf) = None"
  "node_attaches (ci_attachNode req leaf child parent) = Some \<lparr>att_parent_index = parent, att_child_index = child\<rparr>"
  by (simp_all add: ci_nodes node_attaches_def Let_def)

lemma ci_chain_attaches:
  "Some p \<in> node_attaches ` set (link root (ci_chain req leaf child pidx d b)) \<longleftrightarrow>
     p = \<lparr>att_parent_index = pidx, att_child_index = child\<rparr>"
proof -
  have "map node_attaches (link root (ci_chain req leaf child pidx d b)) = map node_attaches (ci_chain req leaf child pidx d b)"
    by (rule link_map) (simp add: node_attaches_def)
  then have "node_attaches ` set (link root (ci_chain req leaf child pidx d b))
      = node_attaches ` set (ci_chain req leaf child pidx d b)" by (metis set_map)
  then show ?thesis
    by (auto simp: ci_chain_def split: option.splits)
qed

lemma ci_leafChain_result:
  assumes "ci_leafChain req insp c pidx root = Inr ch"
    and "cp_condition c = (case cp_existing c of Some i \<Rightarrow> Condition i | None \<Rightarrow> IndexAbsent)"
  shows "if child_Complete c (ParentIndexOID insp) then ch = []
    else \<exists>d b. ch = link root (ci_chain req (rl_name (cp_leaf c)) (cp_child c) pidx d b)"
  using ci_leafChain_cases[OF assms(2), of req insp pidx root] assms(1)
  by (auto split: option.splits list.splits)

lemma ci_Plan_chains:
  assumes "rmap (\<lambda>c. ci_leafChain req (inspected ixs (rq_topology req) (ci_parent req)) c (ci_parent req) root)
      (ci_children req ixs) = Inr css"
  shows "(\<exists>n \<in> set (concat css). node_attaches n = Some p) \<longleftrightarrow>
      (\<exists>c \<in> set (ci_missing req ixs). p = \<lparr>att_parent_index = ci_parent req, att_child_index = cp_child c\<rparr>)"
    and "concat css = [] \<longleftrightarrow> ci_missing req ixs = []"
    and "ci_missing req ixs \<noteq> [] \<Longrightarrow> \<exists>n \<in> set (concat css). IssuesDDL (n_kind n)"
proof -
  let ?insp = "inspected ixs (rq_topology req) (ci_parent req)"
  have res: "if child_Complete c (ParentIndexOID ?insp) then ch = []
      else \<exists>d b. ch = link root (ci_chain req (rl_name (cp_leaf c)) (cp_child c) (ci_parent req) d b)"
    if "c \<in> set (ci_children req ixs)" "ci_leafChain req ?insp c (ci_parent req) root = Inr ch" for c ch
    using ci_leafChain_result[OF that(2) ci_children_condition[OF that(1)]] .
  have att: "(\<exists>n \<in> set ch. node_attaches n = Some p) \<longleftrightarrow> \<not> child_Complete c (ParentIndexOID ?insp) \<and>
      p = \<lparr>att_parent_index = ci_parent req, att_child_index = cp_child c\<rparr>"
    if here: "c \<in> set (ci_children req ixs)" "ci_leafChain req ?insp c (ci_parent req) root = Inr ch" for c ch p
  proof (cases "child_Complete c (ParentIndexOID ?insp)")
    case True
    then show ?thesis using res[OF here] by simp
  next
    case False
    then obtain d b where "ch = link root (ci_chain req (rl_name (cp_leaf c)) (cp_child c) (ci_parent req) d b)"
      using res[OF here] by auto
    then show ?thesis using ci_chain_attaches[of p root req "rl_name (cp_leaf c)" "cp_child c" "ci_parent req" d b] False
      by (metis (no_types, lifting) image_iff)
  qed
  show main: "(\<exists>n \<in> set (concat css). node_attaches n = Some p) \<longleftrightarrow>
      (\<exists>c \<in> set (ci_missing req ixs). p = \<lparr>att_parent_index = ci_parent req, att_child_index = cp_child c\<rparr>)" for p
  proof
    assume "\<exists>n \<in> set (concat css). node_attaches n = Some p"
    then obtain ch n where ch: "ch \<in> set css" "n \<in> set ch" "node_attaches n = Some p" by auto
    obtain c where c: "c \<in> set (ci_children req ixs)" "ci_leafChain req ?insp c (ci_parent req) root = Inr ch"
      using rmap_Inr_mem[OF assms ch(1)] by blast
    show "\<exists>c \<in> set (ci_missing req ixs). p = \<lparr>att_parent_index = ci_parent req, att_child_index = cp_child c\<rparr>"
      using att[OF c, of p] ch(2,3) c(1) by (auto simp: ci_missing_def)
  next
    assume "\<exists>c \<in> set (ci_missing req ixs). p = \<lparr>att_parent_index = ci_parent req, att_child_index = cp_child c\<rparr>"
    then obtain c where c: "c \<in> set (ci_children req ixs)" "\<not> child_Complete c (ParentIndexOID ?insp)"
      "p = \<lparr>att_parent_index = ci_parent req, att_child_index = cp_child c\<rparr>" by (auto simp: ci_missing_def)
    obtain ch where ch: "ch \<in> set css" "ci_leafChain req ?insp c (ci_parent req) root = Inr ch"
      using rmap_Inr_mem'[OF assms c(1)] by blast
    have "\<exists>n \<in> set ch. node_attaches n = Some p" using att[OF c(1) ch(2), of p] c(2,3) by simp
    then show "\<exists>n \<in> set (concat css). node_attaches n = Some p" using ch(1) by auto
  qed
  show "concat css = [] \<longleftrightarrow> ci_missing req ixs = []"
  proof
    assume "concat css = []"
    then show "ci_missing req ixs = []"
      using main by (metis (no_types, lifting) empty_iff empty_set list.set_intros(1) neq_Nil_conv)
  next
    assume none: "ci_missing req ixs = []"
    have "ch = []" if ch: "ch \<in> set css" for ch
    proof -
      obtain c where "c \<in> set (ci_children req ixs)" "ci_leafChain req ?insp c (ci_parent req) root = Inr ch"
        using rmap_Inr_mem[OF assms ch] by blast
      then show ?thesis using res[of c ch] none by (auto simp: ci_missing_def filter_empty_conv)
    qed
    then show "concat css = []" by auto
  qed
  show "\<exists>n \<in> set (concat css). IssuesDDL (n_kind n)" if some: "ci_missing req ixs \<noteq> []"
  proof -
    obtain c where "c \<in> set (ci_missing req ixs)" using some by (cases "ci_missing req ixs") auto
    then have c: "c \<in> set (ci_children req ixs)" "\<not> child_Complete c (ParentIndexOID ?insp)" by (auto simp: ci_missing_def)
    obtain ch where ch: "ch \<in> set css" "ci_leafChain req ?insp c (ci_parent req) root = Inr ch"
      using rmap_Inr_mem'[OF assms c(1)] by blast
    obtain d b where "ch = link root (ci_chain req (rl_name (cp_leaf c)) (cp_child c) (ci_parent req) d b)"
      using res[OF c(1) ch(2)] c(2) by auto
    then have "KindIndexAttach \<in> set (map n_kind ch)" by (simp only: kinds_link ci_chain_kinds) simp
    then show ?thesis using ch(1) by (force simp: IssuesDDL_def)
  qed
qed

lemma ci_classify_need:
  assumes "ci_classifyParentIndex req insp pidx = Inr need" shows "need \<longleftrightarrow> in_parent insp = None"
  using assms by (auto simp: ci_classifyParentIndex_def split: option.splits if_splits prod.splits)

definition ci_final_checks :: "request \<Rightarrow> verify_check list" where
  "ci_final_checks req = (case n_params (ci_finalVerifyNode (ci_parent req)
       (map (child_object (obj_name (ci_parent req))) (LeafObjectNames (rq_topology req))) []) of
     Some (VerifyParams cs) \<Rightarrow> cs | _ \<Rightarrow> [])"

lemma ci_children_names:
  "map cp_child (ci_children req ixs) = map (child_object (obj_name (ci_parent req))) (LeafObjectNames (rq_topology req))"
  by (simp add: ci_children_def inspected_def Let_def LeafObjectNames_def)

lemma ci_final_params:
  "n_params (ci_finalVerifyNode (ci_parent req) (map cp_child (ci_children req ixs)) deps) = Some (VerifyParams (ci_final_checks req))"
  by (simp add: ci_final_checks_def ci_children_names ci_finalVerifyNode_def Let_def)

lemma ci_frame_attaches [simp]:
  "node_attaches (ci_assert req) = None" "node_attaches (ci_parentIndexNode req parent pidx) = None"
  "node_attaches (ci_finalVerifyNode pidx chs deps) = None"
  by (simp_all add: node_attaches_def ci_assert_def ci_assertNode_def ci_parentIndexNode_def ci_finalVerifyNode_def Let_def)


text \<open>A plan issues no DDL exactly when the parent index exists and every leaf already carries a
  usable index attached to it: planning again over a converged table is a no-op that is still
  verified.\<close>

theorem ci_Plan_converged:
  assumes "ci_Plan req = Inr ns"
  shows "\<exists>ixs. pc_indexes (rq_catalog req) (RelationOIDs (rq_topology req)) = Inr ixs \<and>
    ((\<forall>n \<in> set ns. \<not> IssuesDDL (n_kind n)) \<longleftrightarrow>
       in_parent (inspected ixs (rq_topology req) (ci_parent req)) \<noteq> None \<and>
       (\<forall>c \<in> set (ci_children req ixs).
          child_Complete c (ParentIndexOID (inspected ixs (rq_topology req) (ci_parent req)))))"
proof -
  obtain ixs need css where p: "pc_indexes (rq_catalog req) (RelationOIDs (rq_topology req)) = Inr ixs"
    "ci_classifyParentIndex req (inspected ixs (rq_topology req) (ci_parent req)) (ci_parent req) = Inr need"
    "rmap (\<lambda>c. ci_leafChain req (inspected ixs (rq_topology req) (ci_parent req)) c (ci_parent req)
       (chain_root (ci_assert req) (ci_up req need))) (ci_children req ixs) = Inr css"
    and ns: "ns = framed_nodes (ci_assert req) (ci_up req need) css
       (ci_finalVerifyNode (ci_parent req) (map cp_child (ci_children req ixs))
         (tails_or (chain_root (ci_assert req) (ci_up req need)) css))"
    by (rule ci_Plan_Inr[OF assms])
  have "(\<forall>n \<in> set ns. \<not> IssuesDDL (n_kind n)) \<longleftrightarrow> \<not> need \<and> (\<forall>n \<in> set (concat css). \<not> IssuesDDL (n_kind n))"
    unfolding ns framed_nodes_def ci_frame_simps ci_up_link by (auto simp: ci_up_def IssuesDDL_def)
  also have "\<dots> \<longleftrightarrow> \<not> need \<and> ci_missing req ixs = []"
    using ci_Plan_chains(2,3)[OF p(3)] by auto
  finally show ?thesis
    using p(1) ci_classify_need[OF p(2)] by (auto simp: ci_missing_def filter_empty_conv)
qed

text \<open>C10. The only index a create-index plan destroys is one that carries the generated name of a leaf
  of this tree, is attached to nothing, is not usable, and is provably the tool's own; the node is the
  drop of exactly that name, by provenance.\<close>

theorem ci_Plan_drops_only_wreckage:
  assumes "ci_Plan req = Inr ns" "n \<in> set ns" "IsDestructive (n_kind n)"
  shows "\<exists>l ixs i v d. l \<in> set (tp_leaves (rq_topology req)) \<and>
    pc_indexes (rq_catalog req) (RelationOIDs (rq_topology req)) = Inr ixs \<and> i \<in> set ixs \<and>
    ix_table_oid i = rl_oid l \<and> obj_name (ix_name i) = ChildIndexName (obj_name (ci_parent req)) (obj_name (rl_name l)) \<and>
    \<not> Attached i \<and> \<not> (ix_valid i \<and> ix_ready i \<and> ix_live i) \<and>
    provably_ours (rq_catalog req) (rq_claims req) (child_object (obj_name (ci_parent req)) (rl_name l)) i \<and>
    n = (ci_dropNode req (rl_name l) (child_object (obj_name (ci_parent req)) (rl_name l)) v)\<lparr>n_depends_on := [d]\<rparr>"
  by (rule ci_Plan_destructive[OF assms])

subsection \<open>A concrete plan\<close>

text \<open>s.t1 carries the wreck of an interrupted build under its generated name, s.t2 nothing.\<close>

definition wreck :: pg_index where "wreck = sample_index 20 ''i_t1'' RelKindIndex 2 False 0"

definition ci_sample :: request where
  "ci_sample = plan_request OpCreateIndex (sample_catalog\<lparr>pc_indexes := \<lambda>_. Inr [wreck]\<rparr>)"

lemma ci_sample_parent: "ci_parent ci_sample = NewObjectName ''s'' ''i''"
  by (simp add: ci_parent_def ci_sample_def sample_spec_def in_root_schema_def NewObjectName_def)

lemma wreck_no_parent: "find (is_parent_index sample_topo (NewObjectName ''s'' ''i'')) (rev [wreck]) = None"
  by (simp add: is_parent_index_def wreck_def sample_index_def sample_topo_def sample_relation_def NewObjectName_def)

lemma ci_sample_children:
  "ci_children ci_sample [wreck] = [sample_child [wreck] 2 ''t1'' ''i_t1'', sample_child [wreck] 3 ''t2'' ''i_t2'']"
  unfolding ci_children_def ci_sample_parent by (simp add: ci_sample_def sample_children)

lemma ci_sample_no_parent: "in_parent (inspected [wreck] sample_topo (NewObjectName ''s'' ''i'')) = None"
  unfolding inspected_def wreck_no_parent by simp

lemma ci_sample_work:
  "leaf_work (rq_catalog ci_sample) (rq_claims ci_sample) 0 (sample_child [wreck] 2 ''t1'' ''i_t1'')
     = Some [KindIndexDropConcurrently, KindIndexCreateConcurrently, KindIndexVerify, KindIndexAttach, KindWait]"
  "leaf_work (rq_catalog ci_sample) (rq_claims ci_sample) 0 (sample_child [wreck] 3 ''t2'' ''i_t2'')
     = Some [KindIndexCreateConcurrently, KindIndexVerify, KindIndexAttach, KindWait]"
  unfolding sample_child_def wreck_no_parent
  by (simp_all add: leaf_work_def inspect_child_def index_on_def wreck_def sample_index_def sample_relation_def
      NewObjectName_def child_Complete_def child_AttachedTo_def AttachedTo_def condition_Usable_def Condition_def
      ForeignAttached_def Attached_def provably_ours_def existing_marker_def IndexMarker_def ci_sample_def
      sample_catalog_def claimed_def)

lemma ci_sample_plan: "\<exists>ns. ci_Plan ci_sample = Inr ns \<and> KindIndexDropConcurrently \<in> set (map n_kind ns)"
proof -
  let ?insp = "inspected [wreck] sample_topo (NewObjectName ''s'' ''i'')" and ?i = "NewObjectName ''s'' ''i''"
  have oid: "ParentIndexOID ?insp = 0" by (simp add: ParentIndexOID_def ci_sample_no_parent)
  have cond: "cp_condition c = (case cp_existing c of Some i \<Rightarrow> Condition i | None \<Rightarrow> IndexAbsent)"
    if "c \<in> set (ci_children ci_sample [wreck])" for c
    using that by (rule ci_children_condition)
  obtain ch where ch: "ci_leafChain ci_sample ?insp (sample_child [wreck] 2 ''t1'' ''i_t1'') ?i ''index.parent'' = Inr ch"
    "map n_kind ch = [KindIndexDropConcurrently, KindIndexCreateConcurrently, KindIndexVerify, KindIndexAttach, KindWait]"
    using ci_leafChain_cases[OF cond, of "sample_child [wreck] 2 ''t1'' ''i_t1''" ci_sample ?insp ?i "''index.parent''"]
      ci_sample_work(1) by (auto simp: ci_sample_children oid kinds_link)
  obtain ch2 where ch2: "ci_leafChain ci_sample ?insp (sample_child [wreck] 3 ''t2'' ''i_t2'') ?i ''index.parent'' = Inr ch2"
    using ci_leafChain_cases[OF cond, of "sample_child [wreck] 3 ''t2'' ''i_t2''" ci_sample ?insp ?i "''index.parent''"]
      ci_sample_work(2) by (auto simp: ci_sample_children oid)
  have insp: "InspectChildren (rq_catalog ci_sample) (rq_topology ci_sample) ?i = Inr ?insp"
    by (simp add: ci_sample_def sample_inspection)
  have names: "ci_checkChildNames ?insp ?i = None"
    unfolding ci_checkChildNames_def sample_children
    by (simp add: sample_child_def obj_Validate_None NewObjectName_def plan_sample_ids)
  have parent: "ci_classifyParentIndex ci_sample ?insp ?i = Inr True"
    by (simp add: ci_classifyParentIndex_def ci_sample_no_parent)
  have chains: "rmap (\<lambda>c. ci_leafChain ci_sample ?insp c ?i ''index.parent'') (in_children ?insp) = Inr [ch, ch2]"
    by (simp add: sample_children ch(1) ch2)
  show ?thesis
    unfolding ci_Plan_def Let_def ci_parent_def[symmetric] ci_sample_parent insp rbind_simps names rcheck_simps parent
    using chains ch(2) by (force simp: image_iff)
qed


theorem ci_Plan_converged_witness:
  "\<exists>ns. ci_Plan ci_sample = Inr ns \<and> (\<exists>n \<in> set ns. IssuesDDL (n_kind n))"
proof -
  obtain ns where ns: "ci_Plan ci_sample = Inr ns" using ci_sample_plan by blast
  have "in_parent (inspected [wreck] (rq_topology ci_sample) (ci_parent ci_sample)) = None"
    unfolding ci_sample_parent by (simp add: ci_sample_def ci_sample_no_parent)
  then show ?thesis using ci_Plan_converged[OF ns] ns by (auto simp: ci_sample_def)
qed

theorem ci_Plan_drops_only_wreckage_witness:
  "\<exists>ns n. ci_Plan ci_sample = Inr ns \<and> n \<in> set ns \<and> n_authorization n \<noteq> None"
proof -
  obtain ns n where *: "ci_Plan ci_sample = Inr ns" "n \<in> set ns" "n_kind n = KindIndexDropConcurrently"
    using ci_sample_plan by (auto simp: image_iff)
  then have "IsDestructive (n_kind n)" by (simp add: IsDestructive_def)
  from ci_Plan_drops_only_wreckage[OF *(1,2) this] have "n_authorization n \<noteq> None"
    by (auto simp: ci_dropNode_def Let_def)
  then show ?thesis using * by blast
qed

end
