(* ===== verification/Drop_Index.thy ===== *)
theory Drop_Index
  imports Planner_Samples
begin

text \<open>
  operations/drop-index/planner.go and render.go: the graph of DropPartitionedIndex.  Orphans of an
  abandoned build, which the cascade would leave behind, are dropped online first; then the partitioned
  index itself, under the operator's acknowledgement; then the absence of everything is verified.
\<close>

subsection \<open>The target\<close>

definition di_resolveTarget :: "planner_catalog \<Rightarrow> object_name \<Rightarrow> 32 word \<Rightarrow> plan_error + pg_index" where
  "di_resolveTarget cat target rootOID = (case pc_index cat target of
     Inl e \<Rightarrow> if err_is e (OtherKind ''index_not_found'') then Inl (Failed (Detailf ErrIndexNotFound))
       else Inl (Failed (FmtErr (Some e)))
   | Inr idx \<Rightarrow>
       if ix_kind idx \<noteq> RelKindPartitionedIndex then Inl (Failed (Detailf ErrUnsupportedTopology))
       else if ix_table_oid idx \<noteq> rootOID then Inl (Failed (Detailf ErrUnsupportedTopology))
       else Inr idx)"

definition di_refuseConstraintBacked :: "pg_index \<Rightarrow> plan_error option" where
  "di_refuseConstraintBacked idx = (if \<not> ConstraintBacked idx then None else Some (Failed (Detailf ErrFailure)))"

definition di_requireConfirmation :: "plan_spec \<Rightarrow> plan_error option" where
  "di_requireConfirmation spec =
     (if spec_Confirmed spec ConfirmExclusiveLock then None
      else Some (Failed (Detailf ErrAuthorizationUnsatisfied)))"

subsection \<open>Orphans\<close>

record orphan =
  or_leaf :: object_name
  or_index :: object_name
  or_verdict :: drop_verdict

text \<open>\<open>os_skipped\<close> holds the objects the console notes speak of.\<close>

record orphan_scan =
  os_drop :: "orphan list"
  os_skipped :: "object_name list"
  os_expect_absent :: "object_name list"
  os_attached :: nat

definition di_orphanVerdict :: "claim_lookup option \<Rightarrow> object_name \<Rightarrow> pg_index \<Rightarrow> plan_error + drop_verdict" where
  "di_orphanVerdict claims o1 existing =
     (let (marker, status) = index_Marker existing in
      case claim_of claims status o1 of
        Inl e \<Rightarrow> Inl (Failed (FmtErr (Some e)))
      | Inr run \<Rightarrow> Inr (DecideProvenanceDrop
          \<lparr>pdi_object = o1, pdi_status = status, pdi_marker = marker, pdi_claim_run = run\<rparr>))"

fun di_scan ::
    "claim_lookup option \<Rightarrow> pg_index \<Rightarrow> (object_name \<Rightarrow> pg_index option) \<Rightarrow> (object_name \<times> object_name) list
     \<Rightarrow> orphan_scan \<Rightarrow> plan_error + orphan_scan" where
  "di_scan claims target byName [] s = Inr s"
| "di_scan claims target byName ((leaf, child) # rest) s =
     (let skip = s\<lparr>os_skipped := os_skipped s @ [child]\<rparr>;
          absent = s\<lparr>os_expect_absent := os_expect_absent s @ [child]\<rparr> in
      case byName child of
        None \<Rightarrow> di_scan claims target byName rest absent
      | Some existing \<Rightarrow>
        if AttachedTo existing (ix_oid target)
        then di_scan claims target byName rest (absent\<lparr>os_attached := os_attached s + 1\<rparr>)
        else if Attached existing then di_scan claims target byName rest skip
        else if ix_kind existing \<noteq> RelKindIndex then di_scan claims target byName rest skip
        else rbind (di_orphanVerdict claims child existing) (\<lambda>verdict.
          if \<not> Satisfied verdict then di_scan claims target byName rest skip
          else di_scan claims target byName rest (absent\<lparr>os_drop := os_drop s
                 @ [\<lparr>or_leaf = leaf, or_index = child, or_verdict = verdict\<rparr>]\<rparr>)))"

definition empty_scan :: orphan_scan where
  "empty_scan = \<lparr>os_drop = [], os_skipped = [], os_expect_absent = [], os_attached = 0\<rparr>"

definition di_findOrphans :: "request \<Rightarrow> pg_index \<Rightarrow> plan_error + orphan_scan" where
  "di_findOrphans req target =
     (let leaves = LeafObjectNames (rq_topology req) in
      if leaves = [] then Inr empty_scan
      else rbind (lifted (ChildIndexNamesQualified (obj_name (ix_name target)) leaves)) (\<lambda>children.
        (case pc_indexes (rq_catalog req) (LeafOIDs (rq_topology req)) of
           Inl e \<Rightarrow> Inl (Failed (FmtErr (Some e)))
         | Inr ixs \<Rightarrow> di_scan (rq_claims req) target (by_full_name ixs) (zip leaves children) empty_scan)))"

subsection \<open>Nodes\<close>

definition di_assertNode :: "string \<Rightarrow> object_name \<Rightarrow> object_name \<Rightarrow> relation list \<Rightarrow> node" where
  "di_assertNode role parent index relations =
     (let assertions =
        [mk_assertion AssertRelationIsPartitioned (Some parent) None ExitUnsupportedTopology
           (obj_String parent @ '' must be a partitioned table (relkind '' @ [squote] @ ''p'' @ [squote] @ '')'')]
        @ map (\<lambda>r. role_assertion role (rl_name r)) relations
        @ [mk_assertion AssertIndexExists None (Some index) ExitFailure
             (obj_String index @ '' must exist (FR-DROP-1)''),
           mk_assertion AssertIndexIsPartitioned (Some parent) (Some index) ExitUnsupportedTopology
             (obj_String index @ '' must be a partitioned index (relkind '' @ [squote] @ ''I'' @ [squote] @ '') on ''
                @ obj_String parent @ '' (FR-DROP-1)''),
           mk_assertion AssertIndexNotConstraintBacked (Some parent) (Some index) ExitFailure
             (obj_String index @ '' must not back a PRIMARY KEY, UNIQUE or EXCLUDE constraint; such an index is removed with ALTER TABLE ... DROP CONSTRAINT (FR-DROP-2, AC-14)'')]
      in plain_node first_node KindCatalogAssert (CatalogAssertParams assertions)
           (''-- catalog.assert: '' @ FormatInt (int (length assertions))
              @ '' preconditions (relkind, role membership, index exists, index is partitioned, index is not constraint-backed)'') 0)"

definition catalogOnlySeconds :: int where "catalogOnlySeconds = 1"

definition orphanNodeID :: "object_name \<Rightarrow> node_id" where
  "orphanNodeID child = ''drop.orphan:'' @ obj_String child"

definition di_orphanDropNode :: "orphan \<Rightarrow> node" where
  "di_orphanDropNode x = planner_Preview
     ((plain_node (orphanNodeID (or_index x)) KindIndexDropConcurrently
        (DropConcurrentlyParams \<lparr>dcp_index = or_index x, dcp_relation = Some (or_leaf x), dcp_reason = DropUnattachedOrphan\<rparr>)
        [] catalogOnlySeconds)
      \<lparr>n_depends_on := [first_node], n_authorization := Some \<lparr>auth_mode = AuthProvenance, auth_object = or_index x,
         auth_relation = Some (or_leaf x), auth_required_confirmation = [],
         auth_note = ''an unattached leaf index left behind by an abandoned CreatePartitionedIndex; ''
           @ provenance_text (dv_reason (or_verdict x))\<rparr>\<rparr>) OpDropIndex"

definition newline :: string where "newline = [CHR 0x0A]"

definition dropPartitionedPreamble :: "drop_partitioned_params \<Rightarrow> string" where
  "dropPartitionedPreamble p =
     ''-- AccessExclusiveLock on '' @ obj_Quoted (dpp_parent p) @ '' and on all '' @ FormatInt (dpp_leaf_count p)
     @ '' leaf partition(s), acquired one relation at a'' @ newline
     @ ''-- time and held cumulatively: blocking begins at the first acquisition and continues'' @ newline
     @ ''-- through every later wait, including if the statement aborts (FR-DROP-5).'' @ newline
     @ ''-- lock_timeout bounds each acquisition separately, so the worst case per attempt is'' @ newline
     @ ''-- about '' @ FormatInt (dpp_leaf_count p + 1)
     @ '' x lock_timeout, and each retry repeats the whole escalation.'' @ newline
     @ ''-- Not online: PostgreSQL rejects DROP INDEX CONCURRENTLY on a partitioned index (TRD ''
     @ section_sign @ ''7.2.10)''"

definition di_dropNode :: "object_name \<Rightarrow> object_name \<Rightarrow> int \<Rightarrow> node_id list \<Rightarrow> node" where
  "di_dropNode parent index leafCount deps =
     (let params = \<lparr>dpp_parent = parent, dpp_index = index, dpp_leaf_count = leafCount\<rparr>;
          n = planner_Preview
            ((plain_node ''drop.partitioned'' KindIndexDropPartitioned (DropPartitionedParams params) [] catalogOnlySeconds)
             \<lparr>n_depends_on := deps, n_authorization := Some \<lparr>auth_mode = AuthExplicit, auth_object = index,
                auth_relation = Some parent, auth_required_confirmation = ConfirmExclusiveLock,
                auth_note = ''the specification names '' @ obj_String index @ '' and the operator supplied ''
                  @ ConfirmExclusiveLock @ '' at plan time; the statement takes AccessExclusiveLock on ''
                  @ obj_String parent @ '' and all '' @ FormatInt leafCount
                  @ '' leaf partition(s), one relation at a time and held cumulatively, so blocking begins at the first acquisition and continues through every later wait (FR-DROP-3, FR-DROP-4, AC-13)''\<rparr>\<rparr>)
            OpDropIndex
      in n\<lparr>n_rendered_sql := dropPartitionedPreamble params @ newline @ n_rendered_sql n\<rparr>)"

definition di_finalVerifyNode :: "object_name \<Rightarrow> object_name list \<Rightarrow> node" where
  "di_finalVerifyNode index children =
     (plain_node final_node KindIndexVerify (VerifyParams (
        mk_check CheckIndexAbsent (Some index) None (obj_String index @ '' must be absent from pg_index (FR-DROP-7)'')
        # map (\<lambda>child. mk_check CheckIndexAbsent (Some child) None
            (obj_String child @ '' must be absent from pg_index: the drop cascades to every attached leaf index, and this plan removed the unattached ones first (FR-DROP-7)''))
          children))
        (''-- verify '' @ obj_Quoted index @ '' absent from pg_index, and '' @ FormatInt (int (length children))
           @ '' generated leaf index name(s) with it'') 0)\<lparr>n_depends_on := [''drop.partitioned'']\<rparr>"

subsection \<open>The plan\<close>

definition di_DiscoverOptions :: "discover_option list" where "di_DiscoverOptions = [AllowNoPartitions]"

definition di_Plan :: "request \<Rightarrow> plan_error + node list" where
  "di_Plan req =
     (let parent = root_name req; topo = rq_topology req;
          target = in_root_schema parent (sp_index (rq_spec req)) in
      rbind (di_resolveTarget (rq_catalog req) target (rl_oid (tp_root topo))) (\<lambda>idx.
      rcheck (di_refuseConstraintBacked idx)
      (rcheck (di_requireConfirmation (rq_spec req))
      (rbind (di_findOrphans req idx) (\<lambda>orphans.
       let deps = (if os_drop orphans = [] then [first_node]
             else map (\<lambda>x. orphanNodeID (or_index x)) (os_drop orphans)) in
       Inr (di_assertNode (rq_role req) parent (ix_name idx) (Relations topo)
         # map di_orphanDropNode (os_drop orphans)
         @ [di_dropNode parent (ix_name idx) (int (LeafCount topo)) deps,
            di_finalVerifyNode (ix_name idx) (os_expect_absent orphans)]))))))"

definition drop_index :: op_planner where
  "drop_index = \<lparr>op_operation = OpDropIndex, op_plan = di_Plan\<rparr>"

end
