(* ===== verification/Drop_Index_Properties.thy ===== *)
theory Drop_Index_Properties
  imports Drop_Index
begin

text \<open>
  What DropPartitionedIndex's plan does: which leaf indexes it removes and in what order, which it leaves
  alone, what its verification demands, when it refuses, and that it meets the operation contract.
\<close>

subsection \<open>The fate of a leaf's generated name\<close>

datatype orphan_fate = Gone | Cascades | LeftAlone | DroppedFirst

definition fate_of ::
    "claim_lookup option \<Rightarrow> pg_index \<Rightarrow> (object_name \<Rightarrow> pg_index option) \<Rightarrow> object_name \<Rightarrow> orphan_fate" where
  "fate_of claims target byName child = (case byName child of
     None \<Rightarrow> Gone
   | Some i \<Rightarrow> if AttachedTo i (ix_oid target) then Cascades
       else if Attached i \<or> ix_kind i \<noteq> RelKindIndex \<or> \<not> ours_by (index_Marker i) claims child then LeftAlone
       else DroppedFirst)"

lemma di_orphanVerdict_ours:
  assumes "di_orphanVerdict claims o1 i = Inr v" shows "Satisfied v \<longleftrightarrow> ours_by (index_Marker i) claims o1"
proof -
  obtain m st where ms: "index_Marker i = (m, st)" by (cases "index_Marker i")
  obtain run where run: "claim_of claims st o1 = Inr run"
    and v: "v = DecideProvenanceDrop \<lparr>pdi_object = o1, pdi_status = st, pdi_marker = m, pdi_claim_run = run\<rparr>"
    using assms ms by (auto simp: di_orphanVerdict_def split: sum.splits)
  have "run \<noteq> [] \<longleftrightarrow> claimed claims o1" if "st = MarkerAbsent"
    using run that by (auto simp: claim_of_def claimed_def rbind_Inr split: option.splits)
  then show ?thesis
    by (cases st) (auto simp: v ms ours_by_def Satisfied_def Destructive_def DecideProvenanceDrop_def halt_verdict_def)
qed

definition scan_after :: "orphan_fate \<Rightarrow> object_name \<Rightarrow> object_name \<Rightarrow> drop_verdict \<Rightarrow> orphan_scan \<Rightarrow> orphan_scan" where
  "scan_after f leaf child v s = \<lparr>
     os_drop = os_drop s @ (if f = DroppedFirst then [\<lparr>or_leaf = leaf, or_index = child, or_verdict = v\<rparr>] else []),
     os_skipped = os_skipped s @ (if f = LeftAlone then [child] else []),
     os_expect_absent = os_expect_absent s @ (if f = LeftAlone then [] else [child]),
     os_attached = os_attached s + (if f = Cascades then 1 else 0)\<rparr>"

lemma di_scan_step:
  assumes "di_scan claims target byName ((leaf, child) # rest) s = Inr s'"
  shows "\<exists>v. di_scan claims target byName rest (scan_after (fate_of claims target byName child) leaf child v s) = Inr s'"
proof (cases s; cases "byName child")
  fix d k e a i assume s: "s = \<lparr>os_drop = d, os_skipped = k, os_expect_absent = e, os_attached = a\<rparr>" and Some: "byName child = Some i"
  show ?thesis
  proof (cases "\<not> Attached i \<and> ix_kind i = RelKindIndex")
    case True
    then have na: "\<not> AttachedTo i (ix_oid target)" by (simp add: Attached_def AttachedTo_def)
    obtain v where v: "di_orphanVerdict claims child i = Inr v"
      using assms Some True na by (cases "di_orphanVerdict claims child i") (simp_all add: Let_def rbind_def)
    from assms Some True na v s show ?thesis
      by (intro exI[of _ v], cases "Satisfied v")
        (simp_all add: Let_def fate_of_def scan_after_def di_orphanVerdict_ours[OF v])
  qed (use assms Some s in \<open>auto simp: Let_def fate_of_def scan_after_def split: if_splits\<close>)
qed (use assms in \<open>simp add: Let_def fate_of_def scan_after_def\<close>)

lemma di_scan_fates:
  assumes "di_scan claims target byName ps s = Inr s'"
  shows "map (\<lambda>x. (or_leaf x, or_index x)) (os_drop s') = map (\<lambda>x. (or_leaf x, or_index x)) (os_drop s)
      @ filter (\<lambda>p. fate_of claims target byName (snd p) = DroppedFirst) ps \<and>
    os_expect_absent s' = os_expect_absent s @ filter (\<lambda>c. fate_of claims target byName c \<noteq> LeftAlone) (map snd ps) \<and>
    os_skipped s' = os_skipped s @ filter (\<lambda>c. fate_of claims target byName c = LeftAlone) (map snd ps) \<and>
    os_attached s' = os_attached s + length (filter (\<lambda>c. fate_of claims target byName c = Cascades) (map snd ps))"
  using assms
proof (induction ps arbitrary: s)
  case (Cons p ps)
  obtain leaf child where p: "p = (leaf, child)" by (cases p)
  obtain v where "di_scan claims target byName ps (scan_after (fate_of claims target byName child) leaf child v s) = Inr s'"
    using di_scan_step Cons.prems p by blast
  from Cons.IH[OF this] show ?case by (simp add: p scan_after_def)
qed simp

text \<open>The rows the scan reads: none where the table has no leaves.\<close>

definition di_rows :: "request \<Rightarrow> err + pg_index list" where
  "di_rows req = (if tp_leaves (rq_topology req) = [] then Inr []
     else pc_indexes (rq_catalog req) (LeafOIDs (rq_topology req)))"

definition di_children :: "request \<Rightarrow> object_name \<Rightarrow> object_name list" where
  "di_children req index = map (child_object (obj_name index)) (LeafObjectNames (rq_topology req))"

lemma di_findOrphans_Inr:
  assumes "di_findOrphans req target = Inr s"
  obtains ixs where "di_rows req = Inr ixs"
    "di_scan (rq_claims req) target (by_full_name ixs)
       (zip (LeafObjectNames (rq_topology req)) (di_children req (ix_name target))) empty_scan = Inr s"
proof (cases "tp_leaves (rq_topology req) = []")
  case True
  then show ?thesis using assms that[of "[]"]
    by (simp add: di_findOrphans_def di_rows_def LeafObjectNames_def)
next
  case False
  then have "LeafObjectNames (rq_topology req) \<noteq> []" by (simp add: LeafObjectNames_def)
  then show ?thesis using assms that False
    by (cases "pc_indexes (rq_catalog req) (LeafOIDs (rq_topology req))")
      (auto simp: di_findOrphans_def di_rows_def di_children_def rbind_Inr lifted_Inr
        ChildIndexNamesQualified_eq Let_def split: if_splits)
qed

subsection \<open>The shape of the plan\<close>

definition di_target :: "request \<Rightarrow> object_name" where
  "di_target req = in_root_schema (root_name req) (sp_index (rq_spec req))"

definition di_assert :: "request \<Rightarrow> object_name \<Rightarrow> node" where
  "di_assert req index = di_assertNode (rq_role req) (root_name req) index (Relations (rq_topology req))"

definition di_drop :: "request \<Rightarrow> object_name \<Rightarrow> node list list \<Rightarrow> node" where
  "di_drop req index css = di_dropNode (root_name req) index (int (LeafCount (rq_topology req))) (tails_or first_node css)"

definition orphan_chains :: "orphan list \<Rightarrow> node list list" where
  "orphan_chains xs = map (\<lambda>x. [di_orphanDropNode x]) xs"

lemma di_node_simps [simp]:
  "n_id (di_assert req index) = first_node" "n_kind (di_assert req index) = KindCatalogAssert"
  "n_depends_on (di_assert req index) = []"
  "n_id (di_orphanDropNode x) = orphanNodeID (or_index x)" "n_kind (di_orphanDropNode x) = KindIndexDropConcurrently"
  "n_depends_on (di_orphanDropNode x) = [first_node]" "node_Object (di_orphanDropNode x) = (or_index x, True)"
  "n_id (di_drop req index css) = ''drop.partitioned''" "n_kind (di_drop req index css) = KindIndexDropPartitioned"
  "n_depends_on (di_drop req index css) = tails_or first_node css" "node_Object (di_drop req index css) = (index, True)"
  "n_id (di_finalVerifyNode index chs) = final_node" "n_kind (di_finalVerifyNode index chs) = KindIndexVerify"
  "n_depends_on (di_finalVerifyNode index chs) = [''drop.partitioned'']"
  by (simp_all add: di_assert_def di_assertNode_def di_orphanDropNode_def di_drop_def di_dropNode_def
      di_finalVerifyNode_def Let_def node_Object_def)

lemma orphan_tails: "tails (orphan_chains xs) = map (\<lambda>x. orphanNodeID (or_index x)) xs"
  by (simp add: tails_def orphan_chains_def filter_map comp_def)

lemma orphan_link: "link first_node [di_orphanDropNode x] = [di_orphanDropNode x]"
  by (cases "di_orphanDropNode x") (use di_node_simps(6)[of x] in simp)

lemma orphan_chains_linked: "\<forall>c \<in> set (orphan_chains xs). \<exists>ns. c = link first_node ns"
  by (auto simp: orphan_chains_def intro: orphan_link[symmetric])

definition di_listing :: "request \<Rightarrow> pg_index \<Rightarrow> orphan_scan \<Rightarrow> node list" where
  "di_listing req idx s = framed_nodes (di_assert req (ix_name idx)) [] (orphan_chains (os_drop s))
     (di_drop req (ix_name idx) (orphan_chains (os_drop s)))
   @ [di_finalVerifyNode (ix_name idx) (os_expect_absent s)]"

text \<open>What the specification, the catalog and the operator must provide before anything is planned.\<close>

definition di_admits :: "request \<Rightarrow> pg_index \<Rightarrow> bool" where
  "di_admits req idx \<longleftrightarrow> pc_index (rq_catalog req) (di_target req) = Inr idx \<and>
     ix_kind idx = RelKindPartitionedIndex \<and> ix_table_oid idx = rl_oid (tp_root (rq_topology req)) \<and>
     \<not> ConstraintBacked idx \<and> spec_Confirmed (rq_spec req) ConfirmExclusiveLock"

lemma di_Plan_Inr:
  assumes "di_Plan req = Inr ns"
  obtains idx s where "di_admits req idx" "di_findOrphans req idx = Inr s" "ns = di_listing req idx s"
proof -
  from assms obtain idx s where
    t: "di_resolveTarget (rq_catalog req) (di_target req) (rl_oid (tp_root (rq_topology req))) = Inr idx"
    and c: "di_refuseConstraintBacked idx = None" "di_requireConfirmation (rq_spec req) = None"
    and s: "di_findOrphans req idx = Inr s"
    and ns: "ns = di_assert req (ix_name idx) # map di_orphanDropNode (os_drop s) @
        [di_dropNode (root_name req) (ix_name idx) (int (LeafCount (rq_topology req)))
           (if os_drop s = [] then [first_node] else map (\<lambda>x. orphanNodeID (or_index x)) (os_drop s)),
         di_finalVerifyNode (ix_name idx) (os_expect_absent s)]"
    unfolding di_Plan_def Let_def rbind_Inr rcheck_Inr di_target_def[symmetric] di_assert_def[symmetric] by auto
  have "di_admits req idx"
    using t c by (auto simp: di_admits_def di_resolveTarget_def di_refuseConstraintBacked_def di_requireConfirmation_def
        split: sum.splits if_splits)
  moreover have "concat (orphan_chains xs) = map di_orphanDropNode xs" for xs
    by (induction xs) (auto simp: orphan_chains_def)
  then have "ns = di_listing req idx s"
    by (simp add: ns di_listing_def framed_nodes_def di_drop_def tails_or_def orphan_tails)
  ultimately show ?thesis using s that by blast
qed

subsection \<open>One more node behind a frame\<close>

lemma backward_snoc: "backward ns \<Longrightarrow> set (n_depends_on v) \<subseteq> n_id ` set ns \<Longrightarrow> backward (ns @ [v])"
  by (simp add: backward_def backward_from_append)

lemma barrier_snoc:
  assumes "barrier f m ns" "n_depends_on v = [m]" "ns \<noteq> []" shows "barrier f (n_id v) (ns @ [v])"
proof -
  let ?R = "(depends (ns @ [v]))\<^sup>*"
  have sub: "(depends ns)\<^sup>* \<subseteq> ?R" by (intro rtrancl_mono depends_mono) auto
  have step: "(m, n_id v) \<in> ?R" using depends_mem[of v "ns @ [v]" m] assms(2) by auto
  have old: "(f, n_id n) \<in> ?R \<and> (n_id n, n_id v) \<in> ?R" if n: "n \<in> set ns" for n
    using assms(1) n sub step unfolding barrier_def by (meson rtrancl_trans subsetD)
  obtain n0 where "n0 \<in> set ns" using assms(3) by (cases ns) auto
  then have "(f, n_id v) \<in> ?R" using old by (meson rtrancl_trans)
  then show ?thesis using old by (auto simp: barrier_def)
qed

lemma di_frame_barrier:
  "barrier first_node ''drop.partitioned'' (framed_nodes (di_assert req index) [] (orphan_chains xs)
     (di_drop req index (orphan_chains xs)))"
  using framed_barrier[of "di_drop req index (orphan_chains xs)" "di_assert req index" "[]" "orphan_chains xs"]
    orphan_chains_linked by (simp add: chain_root_def)

subsection \<open>The contract\<close>

lemma di_orphan_facts:
  assumes "di_findOrphans req idx = Inr s" "x \<in> set (os_drop s)"
  obtains ixs i where "di_rows req = Inr ixs" "i \<in> set ixs" "ix_name i = or_index x" "\<not> Attached i"
    "ix_kind i = RelKindIndex" "ours_by (index_Marker i) (rq_claims req) (or_index x)"
    "tp_leaves (rq_topology req) \<noteq> []"
proof -
  obtain ixs where r: "di_rows req = Inr ixs"
    and sc: "di_scan (rq_claims req) idx (by_full_name ixs)
       (zip (LeafObjectNames (rq_topology req)) (di_children req (ix_name idx))) empty_scan = Inr s"
    by (rule di_findOrphans_Inr[OF assms(1)])
  have "(or_leaf x, or_index x) \<in> set (map (\<lambda>x. (or_leaf x, or_index x)) (os_drop s))" using assms(2) by auto
  then have f: "fate_of (rq_claims req) idx (by_full_name ixs) (or_index x) = DroppedFirst"
    and ne: "LeafObjectNames (rq_topology req) \<noteq> []"
    unfolding di_scan_fates[OF sc, THEN conjunct1] by (auto simp: empty_scan_def)
  then obtain i where "by_full_name ixs (or_index x) = Some i" "\<not> Attached i" "ix_kind i = RelKindIndex"
    "ours_by (index_Marker i) (rq_claims req) (or_index x)"
    by (auto simp: fate_of_def split: option.splits if_splits)
  moreover from this(1) have "i \<in> set ixs \<and> ix_name i = or_index x" by (auto simp: by_full_name_def dest!: map_of_SomeD)
  moreover have "tp_leaves (rq_topology req) \<noteq> []" using ne by (simp add: LeafObjectNames_def)
  ultimately show ?thesis using that r by blast
qed

lemma di_node_auth:
  "n_authorization (di_orphanDropNode x) = Some a \<Longrightarrow> auth_mode a = AuthProvenance \<and> auth_object a = or_index x"
  "n_authorization (di_drop req index css) = Some a \<Longrightarrow> auth_mode a = AuthExplicit \<and> auth_object a = index"
  "n_authorization (di_orphanDropNode x) \<noteq> None" "n_authorization (di_drop req index css) \<noteq> None"
  by (auto simp: di_orphanDropNode_def di_drop_def di_dropNode_def Let_def)

lemma di_listing_destructive:
  "filter (\<lambda>n. IsDestructive (n_kind n)) (di_listing req idx s)
     = map di_orphanDropNode (os_drop s) @ [di_drop req (ix_name idx) (orphan_chains (os_drop s))]"
proof -
  have "filter (\<lambda>n. IsDestructive (n_kind n)) (concat (orphan_chains xs)) = map di_orphanDropNode xs" for xs
    by (induction xs) (auto simp: orphan_chains_def IsDestructive_def)
  then show ?thesis by (simp add: di_listing_def framed_nodes_def IsDestructive_def)
qed

interpretation di: operation_contract drop_index
proof (unfold_locales, unfold drop_index_def op_planner.simps)
  fix req ns assume plan: "di_Plan req = Inr ns"
  obtain idx s where ns: "ns = di_listing req idx s" by (rule di_Plan_Inr[OF plan])
  let ?css = "orphan_chains (os_drop s)" and ?f = "di_finalVerifyNode (ix_name idx) (os_expect_absent s)"
  show "\<exists>a mid v. ns = a # mid @ [v] \<and> n_id a = first_node \<and> n_kind a = KindCatalogAssert \<and>
      n_id v = final_node \<and> n_kind v = KindIndexVerify"
    unfolding ns di_listing_def framed_nodes_def
    by (rule exI[of _ "di_assert req (ix_name idx)"], rule exI[of _ "concat ?css @ [di_drop req (ix_name idx) ?css]"],
        rule exI[of _ ?f]) simp
  show "backward ns" unfolding ns di_listing_def
    by (intro backward_snoc framed_backward)
      (use orphan_chains_linked in \<open>auto simp: chain_root_def framed_nodes_def\<close>)
  show "barrier first_node final_node ns"
    unfolding ns di_listing_def di_node_simps(12)[symmetric, of "ix_name idx" "os_expect_absent s"]
    by (rule barrier_snoc[OF di_frame_barrier]) (simp_all add: framed_nodes_def)
next
  fix req ns n assume plan: "di_Plan req = Inr ns" and n: "n \<in> set ns" "IsDestructive (n_kind n)"
  obtain idx s where a: "di_admits req idx" "di_findOrphans req idx = Inr s" "ns = di_listing req idx s"
    by (rule di_Plan_Inr[OF plan])
  have "n \<in> set (filter (\<lambda>n. IsDestructive (n_kind n)) ns)" using n by simp
  then consider (orphan) x where "x \<in> set (os_drop s)" "n = di_orphanDropNode x"
    | (target) "n = di_drop req (ix_name idx) (orphan_chains (os_drop s))"
    unfolding a(3) di_listing_destructive by auto
  then show "plan_justified req n"
  proof cases
    case orphan
    obtain ixs i where i: "di_rows req = Inr ixs" "i \<in> set ixs" "ix_name i = or_index x" "\<not> Attached i"
      "ours_by (index_Marker i) (rq_claims req) (or_index x)" "tp_leaves (rq_topology req) \<noteq> []"
      by (rule di_orphan_facts[OF a(2) orphan(1)])
    then have "seen_index req i" by (auto simp: seen_index_def di_rows_def)
    then show ?thesis
      using orphan(2) i di_node_auth(1,3) unfolding plan_justified_def by fastforce
  next
    case target
    then show ?thesis
      using a(1) di_node_auth(2,4) unfolding plan_justified_def di_admits_def di_target_def by fastforce
  qed
next
  fix req ns n assume plan: "di_Plan req = Inr ns" and n: "n \<in> set ns"
  obtain idx s where ns: "ns = di_listing req idx s" by (rule di_Plan_Inr[OF plan])
  have "same_schema (di_assert req i)" "same_schema (di_orphanDropNode x)" "same_schema (di_drop req i css)"
    "same_schema (di_finalVerifyNode i chs)" for i x css chs
    by (simp_all add: same_schema_def di_assert_def di_assertNode_def di_orphanDropNode_def di_drop_def di_dropNode_def
        di_finalVerifyNode_def Let_def)
  then show "same_schema n" using n by (auto simp: ns di_listing_def framed_nodes_def orphan_chains_def)
qed

subsection \<open>What is destroyed, and what is verified\<close>

definition final_objects :: "node list \<Rightarrow> object_name option list" where
  "final_objects ns = (case n_params (last ns) of Some (VerifyParams cs) \<Rightarrow> map vc_index cs | _ \<Rightarrow> [])"


subsection \<open>A concrete plan\<close>

text \<open>s.t1 carries an orphan under its generated name, s.t2 nothing.\<close>

definition stray :: pg_index where
  "stray = (sample_index 20 ''i_t1'' RelKindIndex 2 True 0)\<lparr>ix_table := NewObjectName ''s'' ''t1''\<rparr>"

definition doomed :: pg_index where "doomed = sample_index 30 ''i'' RelKindPartitionedIndex 1 True 0"

definition di_sample :: request where
  "di_sample = plan_request OpDropIndex (sample_view [doomed, stray])"

lemma di_sample_facts:
  "root_name di_sample = NewObjectName ''s'' ''t''" "rq_topology di_sample = sample_topo"
  "rq_spec di_sample = sample_spec OpDropIndex" "rq_claims di_sample = Some (\<lambda>_. Inr (Some ''r1''))"
  "pc_index (rq_catalog di_sample) (NewObjectName ''s'' ''i'') = Inr doomed"
  "pc_indexes (rq_catalog di_sample) (LeafOIDs sample_topo) = Inr [stray]"
  by (simp_all add: di_sample_def)
    (simp_all add: sample_view_def doomed_def stray_def sample_index_def LeafOIDs_def sample_topo_def sample_relation_def)

lemma sample_some_leaves: "tp_leaves sample_topo \<noteq> []"
  by (simp add: sample_topo_def)

lemma di_sample_target: "di_target di_sample = NewObjectName ''s'' ''i''"
  by (simp add: di_target_def di_sample_facts sample_spec_def in_root_schema_def NewObjectName_def)

lemma di_sample_resolves: "di_resolveTarget (rq_catalog di_sample) (NewObjectName ''s'' ''i'') (rl_oid (tp_root sample_topo)) = Inr doomed"
  by (simp add: di_resolveTarget_def di_sample_facts doomed_def sample_index_def sample_topo_def sample_relation_def)

lemma stray_verdict: "\<exists>v. di_orphanVerdict (Some (\<lambda>_. Inr (Some ''r1''))) o1 stray = Inr v \<and> Satisfied v"
  by (simp add: di_orphanVerdict_def index_Marker_def stray_def sample_index_def claim_of_def ParseMarker_def TrimSpace_Nil rbind_def
      Satisfied_def Destructive_def DecideProvenanceDrop_def)

lemma di_sample_children:
  "ChildIndexNamesQualified (obj_name (ix_name doomed)) (LeafObjectNames sample_topo)
     = Inr [NewObjectName ''s'' ''i_t1'', NewObjectName ''s'' ''i_t2'']"
  unfolding ChildIndexNamesQualified_eq sample_leaf_names
  by (simp add: doomed_def sample_index_def child_object_def NewObjectName_def sample_child_names Let_def)

lemma di_sample_orphans:
  "\<exists>s v. di_findOrphans di_sample doomed = Inr s \<and>
     os_drop s = [\<lparr>or_leaf = NewObjectName ''s'' ''t1'', or_index = NewObjectName ''s'' ''i_t1'', or_verdict = v\<rparr>]"
proof -
  obtain v where v: "di_orphanVerdict (Some (\<lambda>_. Inr (Some ''r1''))) (NewObjectName ''s'' ''i_t1'') stray = Inr v" "Satisfied v"
    using stray_verdict by blast
  have n: "by_full_name [stray] (NewObjectName ''s'' ''i_t1'') = Some stray"
    "by_full_name [stray] (NewObjectName ''s'' ''i_t2'') = None"
    "\<not> Attached stray" "\<not> AttachedTo stray (ix_oid doomed)" "ix_kind stray = RelKindIndex"
    by (simp_all add: by_full_name_def stray_def sample_index_def NewObjectName_def Attached_def AttachedTo_def doomed_def)
  have l: "LeafObjectNames sample_topo \<noteq> []" by (simp add: sample_leaf_names)
  show ?thesis
    unfolding di_findOrphans_def di_sample_facts di_sample_children Let_def
    using l n v by (simp add: sample_leaf_names lifted_def rbind_def Let_def empty_scan_def)
qed

lemma di_sample_plan: "\<exists>ns. di_Plan di_sample = Inr ns"
proof -
  obtain s where s: "di_findOrphans di_sample doomed = Inr s" using di_sample_orphans by blast
  have "spec_Confirmed (sample_spec OpDropIndex) ConfirmExclusiveLock"
    by (simp add: spec_Confirmed_def sample_spec_def)
  then show ?thesis
    unfolding di_Plan_def Let_def di_target_def[symmetric] di_sample_target
    unfolding di_sample_facts di_sample_resolves rbind_simps s
    by (simp add: rcheck_Inr di_refuseConstraintBacked_def di_requireConfirmation_def doomed_def sample_index_def ConstraintBacked_def)
qed


end
