(* ===== verification/Reindex_Index.thy ===== *)
theory Reindex_Index
  imports Planner_Samples Rfc3339
begin

text \<open>
  operations/reindex-index/planner.go and render.go: the graph of ReindexPartitionedIndex.  Every leaf
  index is rebuilt on its own; leftovers of earlier rebuilds are dropped first, a surviving old copy and
  a rebuild since the watermark make the rebuild unnecessary.
\<close>

record leaf_plan =
  lfp_leaf :: relation
  lfp_child :: pg_index
  lfp_leftovers :: "pg_index list"
  lfp_reindex :: bool

subsection \<open>Catalog resolution\<close>

definition ri_resolveParentIndex :: "request \<Rightarrow> plan_error + pg_index" where
  "ri_resolveParentIndex req = (case pc_index (rq_catalog req) (in_root_schema (root_name req) (sp_index (rq_spec req))) of
     Inl e \<Rightarrow> Inl (Failed (FmtErr (Some e)))
   | Inr idx \<Rightarrow>
       if ix_kind idx \<noteq> RelKindPartitionedIndex then Inl (Failed (Detailf ErrUnsupportedTopology))
       else if ix_table_oid idx \<noteq> rl_oid (tp_root (rq_topology req)) then Inl (Failed (Detailf ErrFailure))
       else if \<not> ix_valid idx then Inl (Failed (Detailf ErrFailure))
       else Inr idx)"

definition ri_readLeafIndexes :: "request \<Rightarrow> plan_error + pg_index list" where
  "ri_readLeafIndexes req = (case pc_indexes (rq_catalog req) (LeafOIDs (rq_topology req)) of
     Inl e \<Rightarrow> Inl (Failed (FmtErr (Some e))) | Inr ixs \<Rightarrow> Inr ixs)"

subsection \<open>Classification of the leaves\<close>

definition ri_attachedChild :: "pg_index list \<Rightarrow> pg_index \<Rightarrow> plan_error + pg_index" where
  "ri_attachedChild on1 pidx = (case filter (\<lambda>i. AttachedTo i (ix_oid pidx)) on1 of
     [i] \<Rightarrow> Inr i | _ \<Rightarrow> Inl (Failed (Detailf ErrFailure)))"

definition ri_leftover_input :: "pg_index list \<Rightarrow> object_name \<Rightarrow> leftover_drop_input" where
  "ri_leftover_input ixs leftover =
     (let zero = \<lparr>ldi_object = leftover, ldi_base_exists = False, ldi_base_status = MarkerAbsent, ldi_base_marker = zero_marker\<rparr> in
      case ResolveLeftoverBase leftover (remdups (map ix_name ixs)) of (base, res) \<Rightarrow>
        if res \<noteq> LeftoverResolved then zero
        else (case by_full_name ixs base of
            None \<Rightarrow> zero
          | Some b \<Rightarrow> zero\<lparr>ldi_base_exists := True, ldi_base_status := snd (index_Marker b),
              ldi_base_marker := fst (index_Marker b)\<rparr>))"

definition ri_authorizeLeftover :: "pg_index \<Rightarrow> pg_index list \<Rightarrow> plan_error option" where
  "ri_authorizeLeftover leftover ixs =
     (if Satisfied (DecideLeftoverDrop (ri_leftover_input ixs (ix_name leftover))) then None
      else Some (Failed (Detailf ErrAuthorizationUnsatisfied)))"

definition ri_freshEnough :: "timestamp option \<Rightarrow> pg_index \<Rightarrow> bool" where
  "ri_freshEnough since child = (case since of
     None \<Rightarrow> False
   | Some t \<Rightarrow> (let (m, status) = index_Marker child in
       if status \<noteq> MarkerOurs \<or> m_reindexed m = [] then False
       else (case parse_rfc3339 (m_reindexed m) of None \<Rightarrow> False | Some at1 \<Rightarrow> \<not> at1 < t)))"

text \<open>The loop over the indexes of a leaf, in name order.\<close>

fun ri_leftovers ::
    "pg_index list \<Rightarrow> object_name list \<Rightarrow> pg_index \<Rightarrow> pg_index list \<Rightarrow> leaf_plan \<Rightarrow> plan_error + leaf_plan" where
  "ri_leftovers ixs onNames child [] lp = Inr lp"
| "ri_leftovers ixs onNames child (i # is) lp =
     (let (kind, _) = ClassifyLeftover (obj_name (ix_name i)) in
      if kind = LeftoverNone then ri_leftovers ixs onNames child is lp
      else rcheck (ri_authorizeLeftover i ixs)
        (let lp = lp\<lparr>lfp_leftovers := lfp_leftovers lp @ [i]\<rparr>;
             (base, res) = ResolveLeftoverBase (ix_name i) onNames in
         if res \<noteq> LeftoverResolved \<or> base \<noteq> ix_name child then ri_leftovers ixs onNames child is lp
         else ri_leftovers ixs onNames child is
           (if kind = LeftoverOld then lp\<lparr>lfp_reindex := False\<rparr> else lp)))"

definition leaf_indexes :: "pg_index list \<Rightarrow> relation \<Rightarrow> pg_index list" where
  "leaf_indexes ixs leaf = sort_key (obj_name \<circ> ix_name) (filter (\<lambda>i. ix_table_oid i = rl_oid leaf) ixs)"

definition ri_classifyLeaf ::
    "timestamp option \<Rightarrow> pg_index list \<Rightarrow> pg_index \<Rightarrow> relation \<Rightarrow> plan_error + leaf_plan" where
  "ri_classifyLeaf since ixs pidx leaf =
     (let on1 = leaf_indexes ixs leaf in
      rbind (ri_attachedChild on1 pidx) (\<lambda>child.
      rbind (ri_leftovers ixs (map ix_name on1) child on1
         \<lparr>lfp_leaf = leaf, lfp_child = child, lfp_leftovers = [], lfp_reindex = True\<rparr>) (\<lambda>lp.
      Inr (if lfp_reindex lp \<and> ri_freshEnough since child then lp\<lparr>lfp_reindex := False\<rparr> else lp))))"

definition ri_classifyLeaves ::
    "timestamp option \<Rightarrow> relation list \<Rightarrow> pg_index list \<Rightarrow> pg_index \<Rightarrow> plan_error + leaf_plan list" where
  "ri_classifyLeaves since leaves ixs pidx = rmap (ri_classifyLeaf since ixs pidx) leaves"

subsection \<open>Nodes\<close>

definition ri_assertNode ::
    "string \<Rightarrow> object_name \<Rightarrow> object_name \<Rightarrow> partition_strategy \<Rightarrow> int \<Rightarrow> node" where
  "ri_assertNode role parent parentIndex strategy leaves =
     (let assertions = tree_assertions parent strategy
        @ [role_assertion role parent,
           mk_assertion AssertIndexExists (Some parent) (Some parentIndex) ExitUnsupportedTopology
             (obj_String parentIndex @ '' must exist; a reindex rebuilds an index that is already there''),
           mk_assertion AssertIndexIsPartitioned (Some parent) (Some parentIndex) ExitUnsupportedTopology
             (obj_String parentIndex @ '' must be a partitioned index (relkind '' @ [squote] @ ''I'' @ [squote]
                @ '') on '' @ obj_String parent),
           mk_assertion AssertLeavesAttached (Some parent) (Some parentIndex) ExitUnsupportedTopology
             (''all '' @ FormatInt leaves @ '' leaf index(es) must be attached to '' @ obj_String parentIndex
                @ '' before any of them is rebuilt (FR-REIDX-6)'')]
      in plain_node first_node KindCatalogAssert (CatalogAssertParams assertions)
           (''-- catalog.assert: '' @ FormatInt (int (length assertions))
              @ '' preconditions (relkind, strategy, depth, no DEFAULT partition, role membership, index exists, index is partitioned, leaves attached)'') 0)"

definition ri_dropLeftoverNode :: "request \<Rightarrow> relation \<Rightarrow> pg_index \<Rightarrow> node" where
  "ri_dropLeftoverNode req leaf leftover =
     (let old = (fst (ClassifyLeftover (obj_name (ix_name leftover))) = LeftoverOld);
          note = (if old then ''a _ccold left by a REINDEX CONCURRENTLY that swapped but could not drop the old copy; the leaf is already rebuilt and is not rebuilt again (FR-REIDX-4)''
            else ''a _ccnew left by a REINDEX CONCURRENTLY that failed before the swap; the original index is intact and the leaf is still rebuilt (FR-REIDX-3)'')
      in planner_Preview ((plain_node (step_id ''drop'' (ix_name leftover)) KindIndexDropConcurrently
           (DropConcurrentlyParams \<lparr>dcp_index = ix_name leftover, dcp_relation = Some (rl_name leaf),
              dcp_reason = (if old then DropCCOld else DropCCNew)\<rparr>)
           [] (CatalogNodeSeconds (rq_estimator req)))
         \<lparr>n_authorization := Some \<lparr>auth_mode = AuthLeftover, auth_object = ix_name leftover,
            auth_relation = Some (rl_name leaf), auth_required_confirmation = [], auth_note = note\<rparr>\<rparr>) OpReindexIndex)"

definition ri_reindexNode :: "request \<Rightarrow> leaf_plan \<Rightarrow> object_name \<Rightarrow> node" where
  "ri_reindexNode req lp parentIndex = planner_Preview
     (plain_node (step_id ''reindex'' (rl_name (lfp_leaf lp))) KindIndexReindexConcurrently
        (ReindexConcurrentlyParams \<lparr>rcp_index = ix_name (lfp_child lp), rcp_relation = Some (rl_name (lfp_leaf lp)),
           rcp_parent_index = Some parentIndex,
           rcp_estimated_peak_bytes = ReindexPeakBytes (rq_estimator req) (ix_pages (lfp_child lp))\<rparr>)
        [] (ReindexSeconds (rq_estimator req) (rl_pages (lfp_leaf lp)))) OpReindexIndex"

definition ri_leafVerifyNode :: "object_name \<Rightarrow> object_name \<Rightarrow> object_name \<Rightarrow> node" where
  "ri_leafVerifyNode leaf child parentIndex = plain_node (step_id ''verify'' leaf) KindIndexVerify
     (VerifyParams
       [mk_check CheckIndexValid (Some child) None
          (obj_String child @ '' must be valid, ready and live after the rebuild (FR-VER-1)''),
        mk_check CheckIndexAttached (Some child) (Some parentIndex)
          (obj_String child @ '' must still be attached to '' @ obj_String parentIndex
             @ '' after the rebuild swapped its storage (FR-REIDX-6)'')])
     (''-- verify '' @ obj_Quoted child @ '': indisvalid AND indisready AND indislive, and still attached to ''
        @ obj_Quoted parentIndex) 0"

definition ri_waitNode :: "request \<Rightarrow> object_name \<Rightarrow> node" where
  "ri_waitNode req leaf =
     (let seconds = WaitSeconds (sp_pace_seconds (rq_spec req));
          reason = (if sp_pace_reason (rq_spec req) = []
            then ''pacing after '' @ obj_String leaf @ '' was rebuilt (FR-ORD-3)'' else sp_pace_reason (rq_spec req))
      in plain_node (step_id ''wait'' leaf) KindWait (WaitParams \<lparr>wait_seconds = seconds, wait_reason = reason\<rparr>)
           (''-- wait '' @ FormatInt seconds @ ''s: planner-emitted pacing between leaf index rebuilds'') seconds)"

definition ri_finalVerifyNode :: "object_name \<Rightarrow> relation list \<Rightarrow> node_id list \<Rightarrow> node" where
  "ri_finalVerifyNode parentIndex leaves deps =
     (let count = int (length leaves);
          checks = [mk_check CheckParentIndexValid None (Some parentIndex)
              (obj_String parentIndex @ '' must still be valid after every leaf was rebuilt (FR-VER-3)''),
            (mk_check CheckLeafIndexCount None (Some parentIndex)
              (obj_String parentIndex @ '' must still have exactly '' @ FormatInt count
                @ '' leaf index(es), one per partition (FR-VER-4)''))\<lparr>vc_expected_count := Some count\<rparr>]
            @ map (\<lambda>l. (mk_check CheckNoLeftoverIndexes None None
                (''no _ccnew or _ccold index may remain on '' @ obj_String (rl_name l) @ '' (TRD ''
                   @ section_sign @ ''7.2.11, FR-REIDX-3, FR-REIDX-4)''))\<lparr>vc_relation := Some (rl_name l)\<rparr>) leaves
      in (plain_node final_node KindIndexVerify (VerifyParams checks)
           (''-- verify '' @ obj_Quoted parentIndex @ '': indisvalid, '' @ FormatInt count
              @ '' leaf index(es), and no _ccnew/_ccold left on any leaf'') 0)\<lparr>n_depends_on := deps\<rparr>)"

subsection \<open>The plan\<close>

definition ri_chain :: "request \<Rightarrow> leaf_plan \<Rightarrow> object_name \<Rightarrow> node list" where
  "ri_chain req lp parentIndex = map (ri_dropLeftoverNode req (lfp_leaf lp)) (lfp_leftovers lp)
     @ (if \<not> lfp_reindex lp then []
        else [ri_reindexNode req lp parentIndex,
              ri_leafVerifyNode (rl_name (lfp_leaf lp)) (ix_name (lfp_child lp)) parentIndex]
          @ (if sp_pace_seconds (rq_spec req) > 0 then [ri_waitNode req (rl_name (lfp_leaf lp))] else []))"

definition ri_leafChain :: "request \<Rightarrow> leaf_plan \<Rightarrow> object_name \<Rightarrow> node list" where
  "ri_leafChain req lp parentIndex = link first_node (ri_chain req lp parentIndex)"

definition ri_Plan :: "timestamp option \<Rightarrow> request \<Rightarrow> plan_error + node list" where
  "ri_Plan since req =
     (let parent = root_name req; leaves = tp_leaves (rq_topology req) in
      rbind (ri_resolveParentIndex req) (\<lambda>pidx.
      if leaves = [] then Inl (Failed (Detailf ErrUnsupportedTopology))
      else rbind (ri_readLeafIndexes req) (\<lambda>ixs.
      rbind (ri_classifyLeaves since leaves ixs pidx) (\<lambda>plans.
      let chains = map (\<lambda>lp. ri_leafChain req lp (ix_name pidx)) plans in
      Inr (ri_assertNode (rq_role req) parent (ix_name pidx) (tp_strategy (rq_topology req)) (int (length leaves))
        # concat chains @ [ri_finalVerifyNode (ix_name pidx) leaves (tails_or first_node chains)])))))"

definition reindex_index :: "timestamp option \<Rightarrow> op_planner" where
  "reindex_index since = \<lparr>op_operation = OpReindexIndex, op_plan = ri_Plan since\<rparr>"

end
