(* ===== verification/Reindex_Index_Properties.thy ===== *)
theory Reindex_Index_Properties
  imports Reindex_Index
begin

text \<open>
  What ReindexPartitionedIndex's plan does: which leaf indexes it rebuilds, which leftovers it drops and
  on what evidence, what its verification demands, and that it meets the operation contract.
\<close>

subsection \<open>Leftovers\<close>

definition is_leftover :: "pg_index \<Rightarrow> bool" where
  "is_leftover i \<longleftrightarrow> fst (ClassifyLeftover (obj_name (ix_name i))) \<noteq> LeftoverNone"

lemma resolved_unique:
  assumes "ResolveLeftoverBase l cs = (b, LeftoverResolved)" shows "filter (base_candidate l) cs = [b]"
  using assms unfolding ResolveLeftoverBase_eq by (auto split: if_splits list.splits)

text \<open>The evidence for a drop: one base name among all rows seen, whose index carries our marker.\<close>

definition base_ours :: "pg_index list \<Rightarrow> pg_index \<Rightarrow> pg_index \<Rightarrow> bool" where
  "base_ours ixs i b \<longleftrightarrow> b \<in> set ixs \<and> filter (base_candidate (ix_name i)) (remdups (map ix_name ixs)) = [ix_name b] \<and>
     snd (index_Marker b) = MarkerOurs"

lemma ri_authorize_base:
  assumes "ri_authorizeLeftover i ixs = None" shows "is_leftover i \<and> (\<exists>b. base_ours ixs i b)"
proof -
  let ?inp = "ri_leftover_input ixs (ix_name i)"
  obtain base res where r: "ResolveLeftoverBase (ix_name i) (remdups (map ix_name ixs)) = (base, res)"
    by (cases "ResolveLeftoverBase (ix_name i) (remdups (map ix_name ixs))")
  have obj: "ldi_object ?inp = ix_name i"
    by (simp add: ri_leftover_input_def Let_def r split: option.splits)
  have "Satisfied (DecideLeftoverDrop ?inp)" using assms by (simp add: ri_authorizeLeftover_def split: if_splits)
  then have s: "is_leftover i" "ldi_base_status ?inp = MarkerOurs"
    by (simp_all add: DecideLeftoverDrop_iff is_leftover_def obj)
  from s(2) obtain b where b: "res = LeftoverResolved" "by_full_name ixs base = Some b" "snd (index_Marker b) = MarkerOurs"
    by (auto simp: ri_leftover_input_def Let_def r split: option.splits if_splits)
  then have "b \<in> set ixs" "ix_name b = base" by (auto simp: by_full_name_def dest!: map_of_SomeD)
  moreover have "filter (base_candidate (ix_name i)) (remdups (map ix_name ixs)) = [base]"
    using resolved_unique r b(1) by simp
  ultimately show ?thesis using s(1) b(3) by (auto simp: base_ours_def)
qed

text \<open>Whether a surviving old copy shows that this leaf's own index was already rebuilt.\<close>

definition old_copy :: "object_name list \<Rightarrow> pg_index \<Rightarrow> pg_index \<Rightarrow> bool" where
  "old_copy names child i \<longleftrightarrow> fst (ClassifyLeftover (obj_name (ix_name i))) = LeftoverOld \<and>
     ResolveLeftoverBase (ix_name i) names = (ix_name child, LeftoverResolved)"

lemma ri_leftovers_Inr:
  assumes "ri_leftovers ixs names child is lp = Inr lp'"
  shows "lp' = lp\<lparr>lfp_leftovers := lfp_leftovers lp @ filter is_leftover is,
      lfp_reindex := lfp_reindex lp \<and> \<not> (\<exists>i \<in> set is. old_copy names child i)\<rparr> \<and>
    (\<forall>i \<in> set is. is_leftover i \<longrightarrow> ri_authorizeLeftover i ixs = None)"
  using assms
proof (induction "is" arbitrary: lp)
  case Nil
  then show ?case by simp
next
  case (Cons i "is")
  obtain kind stem where k: "ClassifyLeftover (obj_name (ix_name i)) = (kind, stem)"
    by (cases "ClassifyLeftover (obj_name (ix_name i))")
  obtain base res where r: "ResolveLeftoverBase (ix_name i) names = (base, res)"
    by (cases "ResolveLeftoverBase (ix_name i) names")
  show ?case
  proof (cases "kind = LeftoverNone")
    case True
    then have "ri_leftovers ixs names child is lp = Inr lp'" using Cons.prems by (simp add: k Let_def)
    from Cons.IH[OF this] show ?thesis using True by (simp add: is_leftover_def old_copy_def k)
  next
    case False
    let ?lp = "lp\<lparr>lfp_leftovers := lfp_leftovers lp @ [i],
       lfp_reindex := lfp_reindex lp \<and> \<not> old_copy names child i\<rparr>"
    have "ri_leftovers ixs names child is ?lp = Inr lp' \<and> ri_authorizeLeftover i ixs = None"
      using Cons.prems False
      by (cases lp) (auto simp: k r Let_def rcheck_Inr old_copy_def split: if_splits)
    then show ?thesis using Cons.IH[of ?lp] False by (simp add: is_leftover_def k)
  qed
qed

subsection \<open>The work of one leaf\<close>

definition attached_to_parent :: "pg_index list \<Rightarrow> pg_index \<Rightarrow> relation \<Rightarrow> pg_index list" where
  "attached_to_parent ixs pidx l = filter (\<lambda>i. AttachedTo i (ix_oid pidx)) (leaf_indexes ixs l)"

definition needs_rebuild :: "timestamp option \<Rightarrow> pg_index list \<Rightarrow> relation \<Rightarrow> pg_index \<Rightarrow> bool" where
  "needs_rebuild since ixs l child \<longleftrightarrow> \<not> ri_freshEnough since child \<and>
     \<not> (\<exists>i \<in> set (leaf_indexes ixs l). old_copy (map ix_name (leaf_indexes ixs l)) child i)"

definition leaf_leftovers :: "pg_index list \<Rightarrow> relation \<Rightarrow> pg_index list" where
  "leaf_leftovers ixs l = filter is_leftover (leaf_indexes ixs l)"

lemma leaf_indexes_mem [simp]: "i \<in> set (leaf_indexes ixs l) \<longleftrightarrow> i \<in> set ixs \<and> ix_table_oid i = rl_oid l"
  by (auto simp: leaf_indexes_def)

definition leaf_planned :: "timestamp option \<Rightarrow> pg_index list \<Rightarrow> pg_index \<Rightarrow> relation \<Rightarrow> leaf_plan \<Rightarrow> bool" where
  "leaf_planned since ixs pidx l lp \<longleftrightarrow> attached_to_parent ixs pidx l = [lfp_child lp] \<and>
     lfp_leftovers lp = leaf_leftovers ixs l \<and> (lfp_reindex lp \<longleftrightarrow> needs_rebuild since ixs l (lfp_child lp)) \<and>
     (\<forall>i \<in> set (leaf_leftovers ixs l). \<exists>b. base_ours ixs i b)"

lemma ri_classifyLeaf_Inr:
  assumes "ri_classifyLeaf since ixs pidx l = Inr lp"
  shows "lfp_leaf lp = l \<and> leaf_planned since ixs pidx l lp"
proof -
  let ?on = "leaf_indexes ixs l"
  obtain child lp1 where c: "ri_attachedChild ?on pidx = Inr child"
    and l1: "ri_leftovers ixs (map ix_name ?on) child ?on
         \<lparr>lfp_leaf = l, lfp_child = child, lfp_leftovers = [], lfp_reindex = True\<rparr> = Inr lp1"
    and lp: "lp = (if lfp_reindex lp1 \<and> ri_freshEnough since child then lp1\<lparr>lfp_reindex := False\<rparr> else lp1)"
    using assms by (auto simp: ri_classifyLeaf_def Let_def rbind_Inr)
  have "attached_to_parent ixs pidx l = [child]"
    using c by (auto simp: ri_attachedChild_def attached_to_parent_def split: list.splits)
  moreover note ri_leftovers_Inr[OF l1]
  ultimately show ?thesis using ri_authorize_base
    by (auto simp: lp leaf_planned_def leaf_leftovers_def needs_rebuild_def simp del: leaf_indexes_mem)
qed

subsection \<open>The shape of the plan\<close>

definition ri_assert :: "request \<Rightarrow> object_name \<Rightarrow> node" where
  "ri_assert req index = ri_assertNode (rq_role req) (root_name req) index (tp_strategy (rq_topology req))
     (int (length (tp_leaves (rq_topology req))))"

definition ri_chains :: "request \<Rightarrow> object_name \<Rightarrow> leaf_plan list \<Rightarrow> node list list" where
  "ri_chains req index lps = map (\<lambda>lp. ri_leafChain req lp index) lps"

lemma ri_node_simps [simp]:
  "n_id (ri_assert req index) = first_node" "n_kind (ri_assert req index) = KindCatalogAssert"
  "n_depends_on (ri_assert req index) = []"
  "n_kind (ri_dropLeftoverNode req l i) = KindIndexDropConcurrently"
  "node_Object (ri_dropLeftoverNode req l i) = (ix_name i, True)"
  "n_kind (ri_reindexNode req lp index) = KindIndexReindexConcurrently"
  "node_Object (ri_reindexNode req lp index) = (ix_name (lfp_child lp), True)"
  "n_kind (ri_leafVerifyNode leaf child index) = KindIndexVerify" "n_kind (ri_waitNode req leaf) = KindWait"
  "n_id (ri_finalVerifyNode index ls deps) = final_node" "n_kind (ri_finalVerifyNode index ls deps) = KindIndexVerify"
  "n_depends_on (ri_finalVerifyNode index ls deps) = deps"
  by (simp_all add: ri_assert_def ri_assertNode_def ri_dropLeftoverNode_def ri_reindexNode_def ri_leafVerifyNode_def
      ri_waitNode_def ri_finalVerifyNode_def Let_def node_Object_def)

text \<open>What the plan was made from: the parent index, the rows on the leaves, and each leaf's plan.\<close>

definition ri_inputs :: "timestamp option \<Rightarrow> request \<Rightarrow> pg_index \<Rightarrow> pg_index list \<Rightarrow> leaf_plan list \<Rightarrow> bool" where
  "ri_inputs since req pidx ixs lps \<longleftrightarrow> ri_resolveParentIndex req = Inr pidx \<and> tp_leaves (rq_topology req) \<noteq> [] \<and>
     pc_indexes (rq_catalog req) (LeafOIDs (rq_topology req)) = Inr ixs \<and>
     rmap (ri_classifyLeaf since ixs pidx) (tp_leaves (rq_topology req)) = Inr lps"

definition ri_listing :: "request \<Rightarrow> pg_index \<Rightarrow> leaf_plan list \<Rightarrow> node list" where
  "ri_listing req pidx lps = framed_nodes (ri_assert req (ix_name pidx)) [] (ri_chains req (ix_name pidx) lps)
     (ri_finalVerifyNode (ix_name pidx) (tp_leaves (rq_topology req)) (tails_or first_node (ri_chains req (ix_name pidx) lps)))"

lemma ri_Plan_Inr:
  assumes "ri_Plan since req = Inr ns"
  obtains pidx ixs lps where "ri_inputs since req pidx ixs lps" "ns = ri_listing req pidx lps"
  using assms
  by (auto simp: ri_Plan_def Let_def rbind_Inr ri_readLeafIndexes_def ri_classifyLeaves_def ri_inputs_def ri_listing_def
      framed_nodes_def ri_chains_def ri_assert_def split: if_splits sum.splits)

lemma ri_chains_linked: "\<forall>c \<in> set (ri_chains req index lps). \<exists>ns. c = link first_node ns"
  by (auto simp: ri_chains_def ri_leafChain_def)

lemma rmap_each: "rmap f xs = Inr ys \<Longrightarrow> (\<And>x y. f x = Inr y \<Longrightarrow> g y = x \<and> P x y) \<Longrightarrow> map g ys = xs \<and> (\<forall>y \<in> set ys. P (g y) y)"
  by (induction xs arbitrary: ys) (auto simp: rbind_Inr)

lemma ri_inputs_leaves:
  assumes "ri_inputs since req pidx ixs lps"
  shows "map lfp_leaf lps = tp_leaves (rq_topology req) \<and>
    (\<forall>lp \<in> set lps. leaf_planned since ixs pidx (lfp_leaf lp) lp)"
proof -
  have "rmap (ri_classifyLeaf since ixs pidx) (tp_leaves (rq_topology req)) = Inr lps"
    using assms by (simp add: ri_inputs_def)
  from rmap_each[OF this ri_classifyLeaf_Inr] show ?thesis .
qed

lemma chain_filter:
  "(\<And>n d. P (n\<lparr>n_depends_on := d\<rparr>) \<longleftrightarrow> P n) \<Longrightarrow> (\<And>n d. f (n\<lparr>n_depends_on := d\<rparr>) = f n) \<Longrightarrow>
     map f (filter P (link r ns)) = map f (filter P ns)"
  by (induction r ns rule: link.induct) auto

lemma ri_listing_filter:
  assumes "\<And>n d. P (n\<lparr>n_depends_on := d\<rparr>) \<longleftrightarrow> P n" "\<And>n d. f (n\<lparr>n_depends_on := d\<rparr>) = f n"
    and "\<not> P (ri_assert req (ix_name pidx))" "\<And>deps. \<not> P (ri_finalVerifyNode (ix_name pidx) (tp_leaves (rq_topology req)) deps)"
  shows "map f (filter P (ri_listing req pidx lps))
    = concat (map (\<lambda>lp. map f (filter P (ri_chain req lp (ix_name pidx)))) lps)"
  using assms(3,4)
  by (simp add: ri_listing_def framed_nodes_def ri_chains_def filter_concat map_concat comp_def ri_leafChain_def
      chain_filter[of P f, OF assms(1,2)])


subsection \<open>What is dropped and what is rebuilt\<close>

lemma ri_chain_parts:
  "map node_Object (filter (\<lambda>n. n_kind n = KindIndexReindexConcurrently) (ri_chain req lp index))
     = (if lfp_reindex lp then [(ix_name (lfp_child lp), True)] else [])"
  "map node_Object (filter (\<lambda>n. IsDestructive (n_kind n)) (ri_chain req lp index))
     = map (\<lambda>i. (ix_name i, True)) (lfp_leftovers lp)"
proof -
  have "filter (\<lambda>n. n_kind n = KindIndexReindexConcurrently) (map (ri_dropLeftoverNode req l) is) = []"
    "filter (\<lambda>n. IsDestructive (n_kind n)) (map (ri_dropLeftoverNode req l) is) = map (ri_dropLeftoverNode req l) is" for l "is"
    by (induction "is") (auto simp: IsDestructive_def)
  then show "map node_Object (filter (\<lambda>n. n_kind n = KindIndexReindexConcurrently) (ri_chain req lp index))
     = (if lfp_reindex lp then [(ix_name (lfp_child lp), True)] else [])"
    "map node_Object (filter (\<lambda>n. IsDestructive (n_kind n)) (ri_chain req lp index))
     = map (\<lambda>i. (ix_name i, True)) (lfp_leftovers lp)"
    by (auto simp: ri_chain_def IsDestructive_def comp_def)
qed

lemma node_Object_depends [simp]: "node_Object (n\<lparr>n_depends_on := d\<rparr>) = node_Object n"
  by (simp add: node_Object_def)

definition leaf_child :: "pg_index list \<Rightarrow> pg_index \<Rightarrow> relation \<Rightarrow> pg_index" where
  "leaf_child ixs pidx l = hd (attached_to_parent ixs pidx l)"

definition final_relations :: "node list \<Rightarrow> object_name list" where
  "final_relations ns = (case n_params (last ns) of
     Some (VerifyParams cs) \<Rightarrow> map (the \<circ> vc_relation) (filter (\<lambda>c. vc_check c = CheckNoLeftoverIndexes) cs) | _ \<Rightarrow> [])"

lemma concat_singletons: "concat (map (\<lambda>x. if P x then [f x] else []) xs) = map f (filter P xs)"
  by (induction xs) auto

lemma ri_listing_work:
  assumes "ri_inputs since req pidx ixs lps"
  shows "map node_Object (filter (\<lambda>n. n_kind n = KindIndexReindexConcurrently) (ri_listing req pidx lps))
      = map (\<lambda>l. (ix_name (leaf_child ixs pidx l), True))
          (filter (\<lambda>l. needs_rebuild since ixs l (leaf_child ixs pidx l)) (tp_leaves (rq_topology req)))" (is ?rebuilt)
    and "map node_Object (filter (\<lambda>n. IsDestructive (n_kind n)) (ri_listing req pidx lps))
      = map (\<lambda>i. (ix_name i, True)) (concat (map (leaf_leftovers ixs) (tp_leaves (rq_topology req))))" (is ?dropped)
    and "final_relations (ri_listing req pidx lps) = map rl_name (tp_leaves (rq_topology req))"
proof -
  have m: "map lfp_leaf lps = tp_leaves (rq_topology req)"
    and lp: "\<And>lp. lp \<in> set lps \<Longrightarrow> lfp_child lp = leaf_child ixs pidx (lfp_leaf lp) \<and>
      lfp_leftovers lp = leaf_leftovers ixs (lfp_leaf lp) \<and>
      (lfp_reindex lp \<longleftrightarrow> needs_rebuild since ixs (lfp_leaf lp) (leaf_child ixs pidx (lfp_leaf lp)))"
    using ri_inputs_leaves[OF assms] by (auto simp: leaf_planned_def leaf_child_def)
  have frame: "\<not> IsDestructive KindCatalogAssert" "\<not> IsDestructive KindIndexVerify"
    by (simp_all add: IsDestructive_def)
  have "map node_Object (filter (\<lambda>n. n_kind n = KindIndexReindexConcurrently) (ri_listing req pidx lps))
      = concat (map (\<lambda>lp. if lfp_reindex lp then [(ix_name (lfp_child lp), True)] else []) lps)"
    by (subst ri_listing_filter) (simp_all add: ri_chain_parts)
  also have "\<dots> = map (\<lambda>lp. (ix_name (lfp_child lp), True)) (filter lfp_reindex lps)"
    by (simp add: concat_singletons)
  also have "\<dots> = map (\<lambda>lp. (ix_name (leaf_child ixs pidx (lfp_leaf lp)), True))
      (filter (\<lambda>lp. needs_rebuild since ixs (lfp_leaf lp) (leaf_child ixs pidx (lfp_leaf lp))) lps)"
    using lp by (auto intro!: map_cong filter_cong)
  finally show ?rebuilt by (simp add: m[symmetric] filter_map comp_def)
  have "map node_Object (filter (\<lambda>n. IsDestructive (n_kind n)) (ri_listing req pidx lps))
      = concat (map (\<lambda>lp. map (\<lambda>i. (ix_name i, True)) (lfp_leftovers lp)) lps)"
    using frame by (subst ri_listing_filter) (simp_all add: ri_chain_parts)
  also have "\<dots> = concat (map (\<lambda>lp. map (\<lambda>i. (ix_name i, True)) (leaf_leftovers ixs (lfp_leaf lp))) lps)"
    using lp by (metis (no_types, lifting) map_eq_conv)
  finally show ?dropped by (simp add: m[symmetric] map_concat comp_def)
  show "final_relations (ri_listing req pidx lps) = map rl_name (tp_leaves (rq_topology req))"
    by (simp add: final_relations_def ri_listing_def framed_nodes_def ri_finalVerifyNode_def Let_def mk_check_def comp_def filter_map)
qed


subsection \<open>The contract\<close>

lemma ri_listing_destructive:
  assumes "ri_inputs since req pidx ixs lps" "n \<in> set (ri_listing req pidx lps)" "IsDestructive (n_kind n)"
  shows "\<exists>l i d. l \<in> set (tp_leaves (rq_topology req)) \<and> i \<in> set (leaf_leftovers ixs l) \<and>
    n = (ri_dropLeftoverNode req l i)\<lparr>n_depends_on := [d]\<rparr>"
proof -
  obtain lp where lp: "lp \<in> set lps" "n \<in> set (ri_leafChain req lp (ix_name pidx))"
    using assms(2,3) by (auto simp: ri_listing_def framed_nodes_def ri_chains_def IsDestructive_def)
  then obtain m d where "m \<in> set (ri_chain req lp (ix_name pidx))" "n = m\<lparr>n_depends_on := [d]\<rparr>"
    using link_mem unfolding ri_leafChain_def by blast
  moreover from this assms(3) have "m \<in> set (map (ri_dropLeftoverNode req (lfp_leaf lp)) (lfp_leftovers lp))"
    by (auto simp: ri_chain_def IsDestructive_def split: if_splits)
  moreover have "lfp_leaf lp \<in> set (tp_leaves (rq_topology req))" "lfp_leftovers lp = leaf_leftovers ixs (lfp_leaf lp)"
    using ri_inputs_leaves[OF assms(1)] lp(1) by (auto simp: leaf_planned_def) (metis image_eqI set_map)
  ultimately show ?thesis by auto
qed

lemma ri_dropLeftoverNode_auth:
  "\<exists>a. n_authorization (ri_dropLeftoverNode req l i) = Some a \<and> auth_mode a = AuthLeftover \<and> auth_object a = ix_name i"
  by (simp add: ri_dropLeftoverNode_def Let_def)

interpretation ri: operation_contract "reindex_index since" for since
proof (unfold_locales, unfold reindex_index_def op_planner.simps)
  fix req ns assume plan: "ri_Plan since req = Inr ns"
  obtain pidx ixs lps where ns: "ns = ri_listing req pidx lps" by (rule ri_Plan_Inr[OF plan])
  let ?a = "ri_assert req (ix_name pidx)" and ?css = "ri_chains req (ix_name pidx) lps"
  let ?v = "ri_finalVerifyNode (ix_name pidx) (tp_leaves (rq_topology req)) (tails_or first_node ?css)"
  have root: "chain_root ?a [] = first_node" by (simp add: chain_root_def)
  show "\<exists>a mid v. ns = a # mid @ [v] \<and> n_id a = first_node \<and> n_kind a = KindCatalogAssert \<and>
      n_id v = final_node \<and> n_kind v = KindIndexVerify"
    unfolding ns ri_listing_def framed_nodes_def
    by (rule exI[of _ ?a], rule exI[of _ "concat ?css"], rule exI[of _ ?v]) simp
  show "backward ns" unfolding ns ri_listing_def
    by (rule framed_backward) (simp_all add: root ri_chains_linked)
  have "barrier (n_id ?a) (n_id ?v) ns"
    unfolding ns ri_listing_def by (rule framed_barrier) (simp_all add: root ri_chains_linked)
  then show "barrier first_node final_node ns" by simp
next
  fix req ns n assume plan: "ri_Plan since req = Inr ns" and n: "n \<in> set ns" "IsDestructive (n_kind n)"
  obtain pidx ixs lps where i: "ri_inputs since req pidx ixs lps" and ns: "ns = ri_listing req pidx lps"
    by (rule ri_Plan_Inr[OF plan])
  obtain l x d where x: "l \<in> set (tp_leaves (rq_topology req))" "x \<in> set (leaf_leftovers ixs l)"
    "n = (ri_dropLeftoverNode req l x)\<lparr>n_depends_on := [d]\<rparr>"
    using ri_listing_destructive[OF i] n unfolding ns by blast
  obtain lp where "lp \<in> set lps" "lfp_leaf lp = l"
    using x(1) ri_inputs_leaves[OF i] by (metis (no_types, lifting) image_iff set_map)
  then obtain b where b: "base_ours ixs x b" using ri_inputs_leaves[OF i] x(2) by (auto simp: leaf_planned_def)
  have "ix_name b \<in> set (filter (base_candidate (ix_name x)) (remdups (map ix_name ixs)))"
    using b by (simp add: base_ours_def)
  then have base: "base_candidate (ix_name x) (ix_name b)" by simp
  have seen: "seen_index req y" if "y \<in> set ixs" for y
    using that i by (auto simp: seen_index_def ri_inputs_def)
  show "plan_justified req n"
    unfolding plan_justified_def
    using x(2,3) b base seen[of x] seen[of b] ri_dropLeftoverNode_auth[of req l x]
    by (fastforce simp: leaf_leftovers_def is_leftover_def base_ours_def)
next
  fix req ns n assume plan: "ri_Plan since req = Inr ns" and n: "n \<in> set ns"
  obtain pidx ixs lps where ns: "ns = ri_listing req pidx lps" by (rule ri_Plan_Inr[OF plan])
  have one: "same_schema (ri_assert req i)" "same_schema (ri_dropLeftoverNode req l y)" "same_schema (ri_reindexNode req lp i)"
    "same_schema (ri_leafVerifyNode lf ch i)" "same_schema (ri_waitNode req lf)" "same_schema (ri_finalVerifyNode i ls deps)"
    for i l y lp lf ch ls deps
    by (simp_all add: same_schema_def ri_assert_def ri_assertNode_def ri_dropLeftoverNode_def ri_reindexNode_def
        ri_leafVerifyNode_def ri_waitNode_def ri_finalVerifyNode_def Let_def)
  then have "same_schema m" if "m \<in> set (ri_leafChain req lp i)" for m lp i
    using that unfolding ri_leafChain_def by (auto simp: ri_chain_def dest!: link_mem split: if_splits)
  then show "same_schema n" using n one by (auto simp: ns ri_listing_def framed_nodes_def ri_chains_def)
qed

subsection \<open>A concrete plan\<close>

text \<open>Two partitions, t1 and t1_ccnew, each with its generated index attached to s.i; the first carries
  our marker.\<close>

definition ri_leaves :: "relation list" where
  "ri_leaves = [sample_relation 2 ''t1'' RelKindTable 1, sample_relation 3 ''t1_ccnew'' RelKindTable 1]"

definition ri_row1 :: pg_index where
  "ri_row1 = (sample_index 20 ''i_t1'' RelKindIndex 2 True 30)
     \<lparr>ix_comment := MarkerSentinel @ json_record (marker_members sample_marker)\<rparr>"

definition ri_row2 :: pg_index where "ri_row2 = sample_index 21 ''i_t1_ccnew'' RelKindIndex 3 True 30"

definition ri_rows :: "pg_index list" where "ri_rows = [ri_row1, ri_row2]"

definition ri_parent :: pg_index where "ri_parent = sample_index 30 ''i'' RelKindPartitionedIndex 1 True 0"

definition ri_sample :: request where
  "ri_sample = (plan_request OpReindexIndex (sample_catalog\<lparr>pc_index := \<lambda>_. Inr ri_parent, pc_indexes := \<lambda>_. Inr ri_rows\<rparr>))
     \<lparr>rq_topology := sample_topo\<lparr>tp_leaves := ri_leaves\<rparr>\<rparr>"

lemma ri_names:
  "ClassifyLeftover ''i_t1'' = (LeftoverNone, ''i_t1'')" "ClassifyLeftover ''i_t1_ccnew'' = (LeftoverNew, ''i_t1'')"
  "ClassifyLeftover ''i'' = (LeftoverNone, ''i'')"
  by code_simp+

lemma ri_split: "splitLeftover ''i_t1_ccnew'' = (LeftoverNew, ''i_t1'', ''_ccnew'')" "fst (splitLeftover ''i_t1'') = LeftoverNone"
  by code_simp+

lemma ri_base_names:
  "base_candidate (NewObjectName ''s'' ''i_t1_ccnew'') (NewObjectName ''s'' ''i_t1'')"
  "\<not> base_candidate (NewObjectName ''s'' ''i_t1_ccnew'') (NewObjectName ''s'' ''i_t1_ccnew'')"
proof -
  have "valid_utf8 ''i_t1''" by (simp add: ascii_valid ascii_def)
  then have "truncateUTF8 ''i_t1'' 57 = ''i_t1''" by (intro truncateUTF8_fits) simp_all
  then show "base_candidate (NewObjectName ''s'' ''i_t1_ccnew'') (NewObjectName ''s'' ''i_t1'')"
    by (simp add: base_candidate_def NewObjectName_def ri_split DerivesLeftover_def MaxIdentifierBytes_def)
qed (simp add: base_candidate_def)

lemma ri_marker: "ParseMarker (MarkerSentinel @ json_record (marker_members sample_marker)) = (sample_marker, MarkerOurs)"
  by (rule ParseMarker_written[OF sample_marker_ok])

lemma ri_leaf_indexes:
  "leaf_indexes ri_rows (sample_relation 2 ''t1'' RelKindTable 1) = [ri_row1]"
  "leaf_indexes ri_rows (sample_relation 3 ''t1_ccnew'' RelKindTable 1) = [ri_row2]"
  by (simp_all add: leaf_indexes_def ri_rows_def ri_row1_def ri_row2_def sample_index_def sample_relation_def)

lemma ri_row_facts:
  "ix_name ri_row1 = NewObjectName ''s'' ''i_t1''" "ix_name ri_row2 = NewObjectName ''s'' ''i_t1_ccnew''"
  "AttachedTo ri_row1 (ix_oid ri_parent)" "AttachedTo ri_row2 (ix_oid ri_parent)"
  "map ix_name ri_rows = [NewObjectName ''s'' ''i_t1'', NewObjectName ''s'' ''i_t1_ccnew'']"
  "snd (index_Marker ri_row1) = MarkerOurs" "by_full_name ri_rows (NewObjectName ''s'' ''i_t1'') = Some ri_row1"
  "obj_name (NewObjectName x y) = y"
  by (simp_all add: ri_rows_def ri_row1_def ri_row2_def sample_index_def ri_parent_def AttachedTo_def index_Marker_def ri_marker by_full_name_def
      NewObjectName_def)

lemma ri_authorized: "ri_authorizeLeftover ri_row2 ri_rows = None"
proof -
  let ?l = "NewObjectName ''s'' ''i_t1_ccnew''"
  have "fst (splitLeftover ''i_t1_ccnew'') \<noteq> LeftoverNone" by (simp add: ri_split)
  then have "ResolveLeftoverBase ?l (remdups (map ix_name ri_rows)) = (NewObjectName ''s'' ''i_t1'', LeftoverResolved)"
    by (simp add: ResolveLeftoverBase_def ri_row_facts resolve_loop_spec ri_base_names)
  then show ?thesis
    by (simp add: ri_authorizeLeftover_def DecideLeftoverDrop_iff ri_leftover_input_def ri_row_facts ri_names)
qed

lemma ri_classified:
  "ri_classifyLeaf None ri_rows ri_parent (sample_relation 2 ''t1'' RelKindTable 1)
     = Inr \<lparr>lfp_leaf = sample_relation 2 ''t1'' RelKindTable 1, lfp_child = ri_row1, lfp_leftovers = [], lfp_reindex = True\<rparr>"
  "ri_classifyLeaf None ri_rows ri_parent (sample_relation 3 ''t1_ccnew'' RelKindTable 1)
     = Inr \<lparr>lfp_leaf = sample_relation 3 ''t1_ccnew'' RelKindTable 1, lfp_child = ri_row2,
         lfp_leftovers = [ri_row2], lfp_reindex = True\<rparr>"
proof -
  have "ResolveLeftoverBase (NewObjectName ''s'' ''i_t1_ccnew'') [NewObjectName ''s'' ''i_t1_ccnew'']
      = (NewObjectName [] [], LeftoverUnresolved)"
    by (simp add: ResolveLeftoverBase_def ri_row_facts ri_split resolve_loop_spec ri_base_names)
  then show "ri_classifyLeaf None ri_rows ri_parent (sample_relation 2 ''t1'' RelKindTable 1)
     = Inr \<lparr>lfp_leaf = sample_relation 2 ''t1'' RelKindTable 1, lfp_child = ri_row1, lfp_leftovers = [], lfp_reindex = True\<rparr>"
    "ri_classifyLeaf None ri_rows ri_parent (sample_relation 3 ''t1_ccnew'' RelKindTable 1)
     = Inr \<lparr>lfp_leaf = sample_relation 3 ''t1_ccnew'' RelKindTable 1, lfp_child = ri_row2,
         lfp_leftovers = [ri_row2], lfp_reindex = True\<rparr>"
    by (simp_all add: ri_classifyLeaf_def ri_leaf_indexes ri_attachedChild_def ri_row_facts ri_names ri_authorized
        rcheck_def ri_freshEnough_def rbind_def Let_def)
qed

lemma ri_sample_plan: "\<exists>ns. ri_Plan None ri_sample = Inr ns"
proof -
  have "ri_resolveParentIndex ri_sample = Inr ri_parent" "ri_readLeafIndexes ri_sample = Inr ri_rows"
    by (simp_all add: ri_resolveParentIndex_def ri_readLeafIndexes_def ri_sample_def)
      (simp add: ri_parent_def sample_index_def sample_topo_def sample_relation_def)
  moreover have "\<exists>ps. ri_classifyLeaves None (tp_leaves (rq_topology ri_sample)) ri_rows ri_parent = Inr ps"
    by (simp add: ri_classifyLeaves_def ri_sample_def ri_leaves_def ri_classified)
  moreover have "tp_leaves (rq_topology ri_sample) \<noteq> []" by (simp add: ri_sample_def ri_leaves_def)
  ultimately show ?thesis by (auto simp: ri_Plan_def Let_def)
qed

lemma ri_sample_inputs:
  assumes "ri_resolveParentIndex ri_sample = Inr pidx" "pc_indexes (rq_catalog ri_sample) oids = Inr ixs"
  shows "pidx = ri_parent" "ixs = ri_rows"
  using assms by (auto simp: ri_resolveParentIndex_def ri_sample_def split: if_splits)

lemma ri_sample_work:
  "leaf_leftovers ri_rows (sample_relation 2 ''t1'' RelKindTable 1) = []"
  "leaf_leftovers ri_rows (sample_relation 3 ''t1_ccnew'' RelKindTable 1) = [ri_row2]"
  "leaf_child ri_rows ri_parent (sample_relation 2 ''t1'' RelKindTable 1) = ri_row1"
  "leaf_child ri_rows ri_parent (sample_relation 3 ''t1_ccnew'' RelKindTable 1) = ri_row2"
  "needs_rebuild None ri_rows (sample_relation 2 ''t1'' RelKindTable 1) c"
  "needs_rebuild None ri_rows (sample_relation 3 ''t1_ccnew'' RelKindTable 1) c"
  by (simp_all add: leaf_leftovers_def ri_leaf_indexes is_leftover_def ri_row_facts ri_names leaf_child_def
      attached_to_parent_def needs_rebuild_def ri_freshEnough_def old_copy_def del: leaf_indexes_mem)

lemma ri_sample_leaves: "tp_leaves (rq_topology ri_sample) = ri_leaves"
  by (simp add: ri_sample_def)


text \<open>The classification of leftovers looks at names only.  For the partitions t1 and t1_ccnew, whose
  generated indexes are i_t1 and i_t1_ccnew, the plan drops the second partition's attached, valid index
  as a leftover of the first partition's, and rebuilds it in the same chain.\<close>

theorem ri_Plan_drops_attached:
  "\<exists>ns. ri_Plan None ri_sample = Inr ns \<and>
    (\<forall>i \<in> set ri_rows. AttachedTo i (ix_oid ri_parent) \<and> ix_valid i) \<and>
    map node_Object (filter (\<lambda>n. IsDestructive (n_kind n)) ns) = [(NewObjectName ''s'' ''i_t1_ccnew'', True)] \<and>
    map node_Object (filter (\<lambda>n. n_kind n = KindIndexReindexConcurrently) ns)
      = [(NewObjectName ''s'' ''i_t1'', True), (NewObjectName ''s'' ''i_t1_ccnew'', True)]"
proof -
  obtain ns where ns: "ri_Plan None ri_sample = Inr ns" using ri_sample_plan by blast
  then obtain pidx ixs lps where i: "ri_inputs None ri_sample pidx ixs lps" "ns = ri_listing ri_sample pidx lps"
    by (rule ri_Plan_Inr)
  have e: "pidx = ri_parent" "ixs = ri_rows" using ri_sample_inputs i(1) by (auto simp: ri_inputs_def)
  have "\<forall>i \<in> set ri_rows. AttachedTo i (ix_oid ri_parent) \<and> ix_valid i"
    by (simp add: ri_rows_def ri_row1_def ri_row2_def sample_index_def ri_parent_def AttachedTo_def)
  then show ?thesis
    using ns ri_listing_work(1,2)[OF i(1)] unfolding i(2) e ri_sample_leaves
    by (simp add: ri_leaves_def ri_sample_work ri_row_facts)
qed

end
