(* ===== verification/Planner_Host.thy ===== *)
theory Planner_Host
  imports Create_Index_Properties Drop_Index_Properties Reindex_Index_Properties
begin

text \<open>
  The second half of engine/planner/host.go, the fixed sequence of a planning pass, and the registry of
  adapters/cli/operations.go that picks the operation.  The sealed plan is what the executor later admits.
\<close>

subsection \<open>The host\<close>

text \<open>\<open>hs_now\<close> and \<open>hs_plan_id\<close> are what the clock and the random source yield for this pass; a nil
  catalog is None.\<close>

record host =
  hs_catalog :: "planner_catalog option"
  hs_estimator :: estimator
  hs_claims :: "claim_lookup option"
  hs_now :: timestamp
  hs_plan_id :: string
  hs_options :: "discover_option list"
  hs_skip_read_only :: bool

record outcome =
  oc_plan :: plan
  oc_topology :: topology
  oc_role :: string

definition MinServerVersionNum :: int where "MinServerVersionNum = 140000"

definition host_checks :: "host \<Rightarrow> planner_catalog \<Rightarrow> plan_error option" where
  "host_checks h cat = (if hs_skip_read_only h then None
     else (case pc_assert_read_only cat of Some (Some e) \<Rightarrow> Some (Failed e) | _ \<Rightarrow> None))"

text \<open>The target index as the artifact records it.\<close>

definition host_index :: "plan_spec \<Rightarrow> topology \<Rightarrow> object_name" where
  "host_index spec topo =
     (let i = sp_index spec in
      if obj_schema i = [] \<and> obj_name i \<noteq> [] then i\<lparr>obj_schema := obj_schema (rl_name (tp_root topo))\<rparr> else i)"

definition host_request ::
    "host \<Rightarrow> planner_catalog \<Rightarrow> plan_spec \<Rightarrow> topology \<Rightarrow> string \<Rightarrow> string \<Rightarrow> int \<Rightarrow> request" where
  "host_request h cat spec topo role database version = \<lparr>rq_spec = spec, rq_catalog = cat, rq_topology = topo,
     rq_role = role, rq_database = database, rq_version = version, rq_estimator = withDefaults (hs_estimator h),
     rq_claims = hs_claims h, rq_plan_id = hs_plan_id h, rq_now = hs_now h\<rparr>"

definition host_plan :: "host \<Rightarrow> plan_spec \<Rightarrow> topology \<Rightarrow> string \<Rightarrow> node list \<Rightarrow> string \<Rightarrow> plan" where
  "host_plan h spec topo database ns fingerprint =
     \<lparr>p_format_version = PlanFormatVersion, p_plan_id = hs_plan_id h, p_operation = sp_operation spec,
      p_target = \<lparr>tgt_database = database, tgt_table = rl_name (tp_root topo), tgt_index = Some (host_index spec topo)\<rparr>,
      p_created_at = hs_now h, p_confirmations = sp_confirmations spec, p_nodes = ns,
      p_topology_fingerprint = fingerprint, p_topology = Some (topology_Input topo), p_digest = []\<rparr>"

definition host_seal :: "host \<Rightarrow> plan_spec \<Rightarrow> topology \<Rightarrow> string \<Rightarrow> node list \<Rightarrow> plan_error + plan" where
  "host_seal h spec topo database ns =
     rbind (lifted (Fingerprint (topology_Input topo))) (\<lambda>fingerprint.
     let p = host_plan h spec topo database ns fingerprint in
     rcheck (map_option Failed (plan_Validate p)) (lifted (Seal p)))"

definition Host_Run :: "host \<Rightarrow> op_planner option \<Rightarrow> plan_spec \<Rightarrow> plan_error + outcome" where
  "Host_Run h op1 spec = (case hs_catalog h of None \<Rightarrow> Inl (Failed (Detailf ErrInvalidSpecification))
   | Some cat \<Rightarrow> (case op1 of None \<Rightarrow> Inl (Failed (Detailf ErrInvalidSpecification))
   | Some opl \<Rightarrow>
     rcheck (map_option Failed (spec_Validate spec))
     (if op_operation opl \<noteq> sp_operation spec then Inl (Failed (Detailf ErrInvalidSpecification))
      else rcheck (host_checks h cat)
     (rbind (lifted (pc_version cat)) (\<lambda>version.
      if version < MinServerVersionNum then Inl (Failed (Detailf ErrUnsupportedServerVersion))
      else rbind (lifted (pc_role cat)) (\<lambda>role.
      rbind (lifted (pc_database cat)) (\<lambda>database.
      rbind (Discover cat (sp_table spec) (hs_options h)) (\<lambda>topo.
      rcheck (ValidateRoleMembership cat role (Relations topo))
     (rbind (op_plan opl (host_request h cat spec topo role database version)) (\<lambda>ns.
      if ns = [] then Inl (Failed (Detailf ErrInvalidPlan))
      else rbind (host_seal h spec topo database ns) (\<lambda>p.
      Inr \<lparr>oc_plan = p, oc_topology = topo, oc_role = role\<rparr>)))))))))))"

subsection \<open>The registry\<close>

definition plannerFor :: "plan_spec \<Rightarrow> (op_planner \<times> discover_option list) option" where
  "plannerFor spec = (case sp_operation spec of
     OpCreateIndex \<Rightarrow> Some (create_index, [])
   | OpDropIndex \<Rightarrow> Some (drop_index, di_DiscoverOptions)
   | OpReindexIndex \<Rightarrow> Some (reindex_index (sp_reindex_since spec), [])
   | _ \<Rightarrow> None)"

definition plan_for :: "host \<Rightarrow> plan_spec \<Rightarrow> plan_error + outcome" where
  "plan_for h spec = (case plannerFor spec of
     None \<Rightarrow> Inl (Failed (Detailf ErrFailure))
   | Some (opl, opts) \<Rightarrow> Host_Run (h\<lparr>hs_options := opts\<rparr>) (Some opl) spec)"

end
