(* ===== verification/Sealing.thy ===== *)
theory Sealing
  imports Digest
begin

text \<open>
  Sealing cannot fail: the JSON of a plan is shallow, and a valid plan's nodes all have parameters of
  their kind, so that every valid plan has a digest.
\<close>

subsection \<open>Depth\<close>

definition depth_below :: "nat \<Rightarrow> (string \<times> json) list \<Rightarrow> bool" where
  "depth_below k kvs \<longleftrightarrow> (\<forall>kv \<in> set kvs. json_depth (snd kv) \<le> k)"

lemma depth_JObj: "depth_below k kvs \<Longrightarrow> k < m \<Longrightarrow> json_depth (JObj kvs) \<le> m"
  unfolding json_depth_JObj depth_below_def by fastforce

lemma depth_JArr: "\<forall>x \<in> set xs. json_depth x \<le> k \<Longrightarrow> k < m \<Longrightarrow> json_depth (JArr xs) \<le> m"
  unfolding json_depth_JArr by fastforce

lemma depth_below_simps [simp]:
  "depth_below k []" "depth_below k (xs @ ys) \<longleftrightarrow> depth_below k xs \<and> depth_below k ys"
  "depth_below k (kv # ys) \<longleftrightarrow> json_depth (snd kv) \<le> k \<and> depth_below k ys"
  "depth_below k (omitempty b n v) \<longleftrightarrow> b \<or> json_depth v \<le> k"
  "depth_below k (omitstr n s)" "depth_below k (omitint n i)" "depth_below k (omitbool n bb)"
  "depth_below k (omitnil n f x) \<longleftrightarrow> (case x of None \<Rightarrow> True | Some v \<Rightarrow> json_depth (f v) \<le> k)"
  by (auto simp: depth_below_def omitempty_def omitstr_def omitint_def omitbool_def omitnil_def split: option.splits)

lemma depth_omitstrs [simp]: "0 < k \<Longrightarrow> depth_below k (omitstrs n ss)"
  by (simp add: omitstrs_def depth_JArr[where k = 0] del: json_depth.simps) auto

lemma depth_object [simp]: "0 < k \<Longrightarrow> json_depth (object_json x) \<le> k"
  unfolding object_json_def by (rule depth_JObj[where k = 0]) simp_all

lemma depth_mono: "json_depth v \<le> k \<Longrightarrow> k \<le> m \<Longrightarrow> json_depth v \<le> m"
  by simp

lemma depth_column: "json_depth (column_json c) \<le> 1"
  unfolding column_json_def by (rule depth_JObj[where k = 0]) (simp_all split: option.splits)

lemma depth_definition: "json_depth (definition_json d) \<le> 3"
  unfolding definition_json_def
proof (rule depth_JObj[where k = 2])
  have "json_depth (JArr (map column_json (def_columns d))) \<le> 2"
    by (rule depth_JArr[where k = 1]) (use depth_column in auto)
  moreover have "json_depth (JObj (map (\<lambda>(k, v). (k, JStr v)) (def_storage_params d))) \<le> 2"
    by (rule depth_JObj[where k = 0]) (auto simp: depth_below_def)
  ultimately show "depth_below 2 (omitstr ''method'' (def_method d)
     @ [(''columns'', JArr (map column_json (def_columns d)))]
     @ omitbool ''unique'' (def_unique d) @ omitstrs ''include'' (def_include d)
     @ omitstr ''where'' (def_where d) @ omitstr ''tablespace'' (def_tablespace d)
     @ omitempty (def_storage_params d = []) ''storage_params''
         (JObj (map (\<lambda>(k, v). (k, JStr v)) (def_storage_params d))))"
    by (simp del: json_depth.simps)
qed simp

lemma depth_authorization: "json_depth (authorization_json a) \<le> 2"
  unfolding authorization_json_def by (rule depth_JObj[where k = 1]) (simp_all split: option.splits)

lemma depth_assertion: "json_depth (assertion_json a) \<le> 2"
  unfolding assertion_json_def by (rule depth_JObj[where k = 1]) (simp_all split: option.splits)

lemma depth_check: "json_depth (check_json c) \<le> 2"
  unfolding check_json_def by (rule depth_JObj[where k = 1]) (simp_all split: option.splits)

lemma depth_params: "json_depth (params_json p) \<le> 4"
proof (cases p)
  case (CatalogAssertParams as)
  have "json_depth (JArr (map assertion_json as)) \<le> 3"
    by (rule depth_JArr[where k = 2]) (use depth_assertion in auto)
  then show ?thesis unfolding CatalogAssertParams params_json.simps
    by (intro depth_JObj[where k = 3]) (simp_all del: json_depth.simps)
next
  case (VerifyParams cs)
  have "json_depth (JArr (map check_json cs)) \<le> 3"
    by (rule depth_JArr[where k = 2]) (use depth_check in auto)
  then show ?thesis unfolding VerifyParams params_json.simps
    by (intro depth_JObj[where k = 3]) (simp_all del: json_depth.simps)
qed (simp_all only: params_json.simps, (rule depth_JObj[where k = 3];
  simp add: depth_definition del: json_depth.simps(5,6) split: option.splits)+)

lemma node_json_depth: "node_json n = Inr v \<Longrightarrow> json_depth v \<le> 5"
proof -
  assume "node_json n = Inr v"
  then obtain pj where v: "v = JObj ([(''id'', JStr (n_id n)), (''kind'', JStr (kind_String (n_kind n))), (''params'', pj)]
         @ omitstrs ''depends_on'' (n_depends_on n) @ omitstr ''rendered_sql'' (n_rendered_sql n)
         @ omitint ''estimated_seconds'' (n_estimated_seconds n)
         @ omitnil ''authorization'' authorization_json (n_authorization n))" "json_depth pj \<le> 4"
    using depth_params by (auto simp: node_json_def Let_def split: option.splits if_splits)
  then show ?thesis unfolding v(1) using depth_mono[OF depth_authorization, of 4]
    by (intro depth_JObj[where k = 4]) (simp_all split: option.splits)
qed

lemma depth_topology: "json_depth (topology_json t) \<le> 3"
proof -
  have r: "json_depth (relation_json r) \<le> 1" for r
    unfolding relation_json_def by (rule depth_JObj[where k = 0]) simp_all
  have "json_depth (JArr (map relation_json (top_partitions t))) \<le> 2"
    by (rule depth_JArr[where k = 1]) (use r in auto)
  then show ?thesis unfolding topology_json_def using depth_mono[OF r, of 2]
    by (intro depth_JObj[where k = 2]) (simp_all del: json_depth.simps(5,6))
qed

subsection \<open>Every valid plan has a digest\<close>

lemma rmap_Inr_each: "rmap f xs = Inr ys \<Longrightarrow> \<forall>y \<in> set ys. \<exists>x. f x = Inr y"
  by (induction xs arbitrary: ys) (auto simp: rbind_Inr)

lemma plan_json_depth: "plan_json p = Inr v \<Longrightarrow> json_depth v \<le> 7"
proof -
  assume "plan_json p = Inr v"
  then obtain ns where ns: "rmap node_json (p_nodes p) = Inr ns" and v: "v = JObj (
     [(''format_version'', JInt (p_format_version p)), (''plan_id'', JStr (p_plan_id p)),
      (''operation'', JStr (operation_String (p_operation p))), (''target'', target_json (p_target p)),
      (''created_at'', JStr (ts_Canonical (p_created_at p)))]
     @ omitempty (p_confirmations p = []) ''confirmations'' (JArr (map confirmation_json (p_confirmations p)))
     @ [(''nodes'', JArr ns)]
     @ omitstr ''topology_fingerprint'' (p_topology_fingerprint p)
     @ omitnil ''topology'' topology_json (p_topology p)
     @ omitstr ''digest'' (p_digest p))"
    by (auto simp: plan_json_def rbind_Inr)
  have "\<forall>x \<in> set ns. json_depth x \<le> 5"
    using rmap_Inr_each[OF ns] node_json_depth by blast
  then have "json_depth (JArr ns) \<le> 6" by (rule depth_JArr) simp
  moreover have "json_depth (JArr (map confirmation_json (p_confirmations p))) \<le> 6"
  proof (rule depth_JArr[where k = 1])
    have "json_depth (confirmation_json c) \<le> 1" for c
      unfolding confirmation_json_def by (rule depth_JObj[where k = 0]) simp_all
    then show "\<forall>x \<in> set (map confirmation_json (p_confirmations p)). json_depth x \<le> 1" by auto
  qed simp
  moreover have "json_depth (target_json (p_target p)) \<le> 6"
    unfolding target_json_def by (rule depth_JObj[where k = 1]) (simp_all split: option.splits)
  ultimately show ?thesis unfolding v using depth_mono[OF depth_topology, of 6]
    by (intro depth_JObj[where k = 6]) (simp_all del: json_depth.simps(5,6) split: option.splits)
qed

lemma plan_json_total:
  assumes "\<forall>n \<in> set (p_nodes p). node_Validate n = None" shows "\<exists>v. plan_json p = Inr v"
proof -
  have one: "\<exists>v. node_json n = Inr v" if n: "n \<in> set (p_nodes p)" for n
  proof -
    obtain q where "n_params n = Some q" "params_Kind q = n_kind n"
      using assms n by (auto simp: node_Validate_None)
    then show ?thesis by (simp add: node_json_def)
  qed
  then have "\<exists>g. \<forall>n \<in> set (p_nodes p). node_json n = Inr (g n)" by metis
  then obtain g where "\<And>n. n \<in> set (p_nodes p) \<Longrightarrow> node_json n = Inr (g n)" by blast
  then have "rmap node_json (p_nodes p) = Inr (map g (p_nodes p))" by (rule rmap_all_Inr)
  then show ?thesis by (simp add: plan_json_def)
qed

lemma json_depth_drop_key: "json_depth (drop_key k v) \<le> json_depth v"
proof (cases v)
  case (JObj kvs)
  have "\<forall>kv \<in> set kvs. Suc (json_depth (snd kv)) \<le> json_depth (JObj kvs)" using json_depth_JObj by blast
  then show ?thesis unfolding JObj drop_key_def json.simps
    by (subst json_depth_JObj) (simp del: json_depth.simps)
qed (simp_all add: drop_key_def)

lemma plan_Validate_nodes: "plan_Validate p = None \<Longrightarrow> \<forall>n \<in> set (p_nodes p). node_Validate n = None"
  by (rule plan_Validate_None) (auto dest!: check_nodes_Inr)

lemma TopologicalOrder_digest [simp]: "TopologicalOrder (p\<lparr>p_digest := d\<rparr>) = TopologicalOrder p"
  by (simp add: TopologicalOrder_def)

lemma digest_fields:
  "p_format_version (p\<lparr>p_digest := d\<rparr>) = p_format_version p" "p_plan_id (p\<lparr>p_digest := d\<rparr>) = p_plan_id p"
  "p_operation (p\<lparr>p_digest := d\<rparr>) = p_operation p" "p_target (p\<lparr>p_digest := d\<rparr>) = p_target p"
  "p_topology_fingerprint (p\<lparr>p_digest := d\<rparr>) = p_topology_fingerprint p" "p_nodes (p\<lparr>p_digest := d\<rparr>) = p_nodes p"
  "p_confirmations (p\<lparr>p_digest := d\<rparr>) = p_confirmations p"
  by simp_all

lemma plan_Validate_digest: "plan_Validate (p\<lparr>p_digest := d\<rparr>) = plan_Validate p"
  unfolding plan_Validate_def Confirmed_def TopologicalOrder_digest
  unfolding digest_fields by (rule refl)

lemma Seal_valid:
  assumes "plan_Validate p = None" shows "\<exists>d. Seal p = Inr (p\<lparr>p_digest := d\<rparr>)"
proof -
  have "\<forall>n \<in> set (p_nodes (p\<lparr>p_digest := []\<rparr>)). node_Validate n = None"
    using plan_Validate_nodes[OF assms] by simp
  then obtain v where v: "plan_json (p\<lparr>p_digest := []\<rparr>) = Inr v" using plan_json_total by blast
  have "json_depth (drop_key ''digest'' (decoded v)) \<le> maxCanonicalDepth"
    using json_depth_drop_key[of "''digest''" "decoded v"] json_depth_decoded[of v] plan_json_depth[OF v]
    by (simp add: maxCanonicalDepth_def)
  then have "\<exists>b. CanonicalBody p = Inr b"
    using writeCanonicalValue_text[of 0] v by (simp add: CanonicalBody_def)
  then show ?thesis by (auto simp: Seal_def ComputeDigest_def)
qed

text \<open>C19. Every plan that passes validation can be sealed, and the sealed plan passes the executor's two
  first gates: the digest check and validation again.\<close>

theorem Seal_total:
  assumes "plan_Validate p = None"
  shows "\<exists>q. Seal p = Inr q \<and> VerifyDigest q = None \<and> plan_Validate q = None"
proof -
  obtain d where d: "Seal p = Inr (p\<lparr>p_digest := d\<rparr>)" using Seal_valid[OF assms] by blast
  then have "ComputeDigest p = Inr d" by (cases p) (auto simp: Seal_def rbind_Inr)
  then have "VerifyDigest (p\<lparr>p_digest := d\<rparr>) = None" by (simp add: VerifyDigest_None ComputeDigest_def)
  moreover have "plan_Validate (p\<lparr>p_digest := d\<rparr>) = None" using assms by (simp add: plan_Validate_digest)
  ultimately show ?thesis using d by blast
qed

theorem Seal_total_witness: "\<exists>q. Seal sample_plan = Inr q \<and> VerifyDigest q = None \<and> plan_Validate q = None"
  by (rule Seal_total[OF sample_plan_valid])

end
