(* ===== verification/Planner_Host_Properties.thy ===== *)
theory Planner_Host_Properties
  imports Planner_Host Sealing Executor
begin

text \<open>
  What the host guarantees of every plan it yields, for the three registered operations: it was made
  from the discovered tree by a member of all owning roles, its destructive nodes are justified, and the
  executor admits it in the order it is listed.
\<close>

subsection \<open>A successful pass\<close>

text \<open>The request an operation was given, and what the host had checked before.\<close>

definition planned_from :: "host \<Rightarrow> plan_spec \<Rightarrow> discover_option list \<Rightarrow> outcome \<Rightarrow> request \<Rightarrow> bool" where
  "planned_from h spec opts out req \<longleftrightarrow> (\<exists>cat version database. hs_catalog h = Some cat \<and>
     req = host_request h cat spec (oc_topology out) (oc_role out) database version \<and>
     spec_Validate spec = None \<and> host_checks h cat = None \<and> pc_version cat = Inr version \<and>
     MinServerVersionNum \<le> version \<and> pc_role cat = Inr (oc_role out) \<and> pc_database cat = Inr database \<and>
     Discover cat (sp_table spec) opts = Inr (oc_topology out) \<and>
     ValidateRoleMembership cat (oc_role out) (Relations (oc_topology out)) = None)"

lemma host_seal_Inr:
  assumes "host_seal h spec topo database ns = Inr p"
  shows "\<exists>fp d. Fingerprint (topology_Input topo) = Inr fp \<and> plan_Validate (host_plan h spec topo database ns fp) = None \<and>
    p = (host_plan h spec topo database ns fp)\<lparr>p_digest := d\<rparr> \<and> VerifyDigest p = None \<and> plan_Validate p = None"
proof -
  obtain fp where fp: "Fingerprint (topology_Input topo) = Inr fp"
    "plan_Validate (host_plan h spec topo database ns fp) = None"
    "Seal (host_plan h spec topo database ns fp) = Inr p"
    using assms by (auto simp: host_seal_def Let_def rbind_Inr rcheck_Inr lifted_Inr)
  then have "p = (host_plan h spec topo database ns fp)\<lparr>p_digest := p_digest p\<rparr>" "VerifyDigest p = None"
    using fp(3) by (auto simp: Seal_def rbind_Inr VerifyDigest_None ComputeDigest_def)
  then show ?thesis using fp plan_Validate_digest by metis
qed

lemma host_sealed:
  assumes "host_seal h spec topo database ns = Inr p"
  shows "p_nodes p = ns" "p_topology p = Some (topology_Input topo)" "VerifyDigest p = None" "plan_Validate p = None"
    "topology_Fingerprint topo = Inr (p_topology_fingerprint p)" "p_confirmations p = sp_confirmations spec"
    "p_target p = \<lparr>tgt_database = database, tgt_table = rl_name (tp_root topo), tgt_index = Some (host_index spec topo)\<rparr>"
proof -
  obtain fp d where fp: "Fingerprint (topology_Input topo) = Inr fp" and p: "p = (host_plan h spec topo database ns fp)\<lparr>p_digest := d\<rparr>"
    and v: "VerifyDigest p = None" "plan_Validate p = None"
    using host_seal_Inr[OF assms] by blast
  show "p_nodes p = ns" "p_topology p = Some (topology_Input topo)" "p_confirmations p = sp_confirmations spec"
    "p_target p = \<lparr>tgt_database = database, tgt_table = rl_name (tp_root topo), tgt_index = Some (host_index spec topo)\<rparr>"
    "topology_Fingerprint topo = Inr (p_topology_fingerprint p)"
    by (simp_all add: p host_plan_def fp topology_Fingerprint_def)
  show "VerifyDigest p = None" "plan_Validate p = None" by (rule v)+
qed

lemma Host_Run_Inr:
  assumes "Host_Run h (Some opl) spec = Inr out"
  obtains req ns database where "planned_from h spec (hs_options h) out req" "op_operation opl = sp_operation spec"
    "op_plan opl req = Inr ns" "host_seal h spec (oc_topology out) database ns = Inr (oc_plan out)"
proof -
  from assms obtain cat version role database topo ns p where
    "hs_catalog h = Some cat" "spec_Validate spec = None" "op_operation opl = sp_operation spec" "host_checks h cat = None"
    "pc_version cat = Inr version" "\<not> version < MinServerVersionNum" "pc_role cat = Inr role" "pc_database cat = Inr database"
    "Discover cat (sp_table spec) (hs_options h) = Inr topo" "ValidateRoleMembership cat role (Relations topo) = None"
    "op_plan opl (host_request h cat spec topo role database version) = Inr ns"
    "host_seal h spec topo database ns = Inr p" "out = \<lparr>oc_plan = p, oc_topology = topo, oc_role = role\<rparr>"
    unfolding Host_Run_def by (auto simp: rbind_Inr rcheck_Inr lifted_Inr split: option.splits if_splits)
  then show ?thesis using that[of "host_request h cat spec topo role database version" ns database]
    by (auto simp: planned_from_def)
qed

lemma plannerFor_contract:
  assumes "plannerFor spec = Some (opl, opts)"
  shows "operation_contract opl"
  using assms ci.operation_contract_axioms di.operation_contract_axioms ri.operation_contract_axioms
  by (auto simp: plannerFor_def split: operation.splits)

lemma plan_for_Inr:
  assumes "plan_for h spec = Inr out"
  obtains opl opts req ns database where "plannerFor spec = Some (opl, opts)" "operation_contract opl"
    "planned_from h spec opts out req" "op_plan opl req = Inr ns" "p_nodes (oc_plan out) = ns"
    "host_seal h spec (oc_topology out) database ns = Inr (oc_plan out)"
proof -
  obtain opl opts where o: "plannerFor spec = Some (opl, opts)" "Host_Run (h\<lparr>hs_options := opts\<rparr>) (Some opl) spec = Inr out"
    using assms by (auto simp: plan_for_def split: option.splits)
  obtain req ns database where r: "planned_from (h\<lparr>hs_options := opts\<rparr>) spec opts out req" "op_plan opl req = Inr ns"
    "host_seal (h\<lparr>hs_options := opts\<rparr>) spec (oc_topology out) database ns = Inr (oc_plan out)"
    by (rule Host_Run_Inr[OF o(2)]) simp
  have same: "host_request (h\<lparr>hs_options := opts\<rparr>) = host_request h" "host_checks (h\<lparr>hs_options := opts\<rparr>) = host_checks h"
    "host_plan (h\<lparr>hs_options := opts\<rparr>) = host_plan h"
    by (simp_all add: host_request_def host_checks_def host_plan_def fun_eq_iff)
  have "planned_from h spec opts out req" "host_seal h spec (oc_topology out) database ns = Inr (oc_plan out)"
    using r(1,3) by (simp_all add: planned_from_def same host_seal_def cong: conj_cong)
  moreover have "p_nodes (oc_plan out) = ns" by (rule host_sealed[OF calculation(2)])
  ultimately show ?thesis using that o(1) plannerFor_contract[OF o(1)] r(2) by blast
qed

subsection \<open>Safety of the plan\<close>

text \<open>C6. Whatever the host seals was planned for the discovered tree by a role that belongs to the owner
  of every relation in it; every destructive node names an object the request justifies destroying, runs
  after the preconditions and before the verification; and the recorded fingerprint is that tree's.\<close>

theorem plan_for_safe:
  assumes "plan_for h spec = Inr out"
  shows "\<exists>opts req. planned_from h spec opts out req \<and>
    (\<forall>r \<in> set (Relations (oc_topology out)). \<exists>owners ms m. pc_memberships (rq_catalog req) (oc_role out) owners = Inr ms \<and>
       ms (rl_owner_oid r) = Some m \<and> rm_member m) \<and>
    (\<forall>n \<in> set (p_nodes (oc_plan out)). IsDestructive (n_kind n) \<longrightarrow> plan_justified req n) \<and>
    barrier first_node final_node (p_nodes (oc_plan out)) \<and>
    p_topology (oc_plan out) = Some (topology_Input (oc_topology out)) \<and>
    topology_Fingerprint (oc_topology out) = Inr (p_topology_fingerprint (oc_plan out))"
proof -
  obtain opl opts req ns database where o: "operation_contract opl" "planned_from h spec opts out req" "op_plan opl req = Inr ns"
    "p_nodes (oc_plan out) = ns" and sealed: "host_seal h spec (oc_topology out) database ns = Inr (oc_plan out)"
    by (rule plan_for_Inr[OF assms])
  have m: "\<forall>r \<in> set (Relations (oc_topology out)). \<exists>owners ms m. pc_memberships (rq_catalog req) (oc_role out) owners = Inr ms \<and>
       ms (rl_owner_oid r) = Some m \<and> rm_member m"
    using o(2) by (fastforce simp: planned_from_def ValidateRoleMembership_None host_request_def Relations_def)
  show ?thesis
    using m o(2,4) host_sealed[OF sealed] operation_contract.destroys[OF o(1,3)] operation_contract.between[OF o(1,3)]
    by (intro exI[of _ opts] exI[of _ req]) simp
qed

subsection \<open>The executor admits the plan\<close>

lemma preflight_valid:
  assumes "\<forall>n \<in> set (p_nodes p). node_Validate n = None \<and> same_schema n" "cf_has_catalog cf"
  shows "preflight cf p = None"
proof -
  have "preflight_node n = None" if n: "n \<in> set (p_nodes p)" for n
  proof -
    obtain sql where r: "Render (Some n) = Inr sql" using same_schema_renders assms(1) n by blast
    obtain q where "params_Kind q = n_kind n" using assms(1) n by (auto simp: node_Validate_None)
    then have "supportedKind (n_kind n)"
      by (cases q) (auto simp: supportedKind_def supportedKinds_def)
    then show ?thesis using r Render_Inr_nonempty[OF r] by (simp add: preflight_node_def)
  qed
  then show ?thesis using assms(2) by (simp add: preflight_def each_check_None then_check_None)
qed

text \<open>C4. The executor admits every plan the host seals, provided the target index was not asked for in
  another schema than its table's; and it walks the plan in the order in which the plan lists its nodes,
  from the preconditions to the final verification.\<close>

theorem plan_for_admitted:
  assumes "plan_for h spec = Inr out"
    and "obj_schema (sp_index spec) \<in> {[], obj_schema (rl_name (tp_root (oc_topology out)))}"
    and "cf_has_catalog cf" "i \<noteq> []"
  shows "admit cf i (Some (oc_plan out)) = Inr (oc_plan out, map n_id (p_nodes (oc_plan out))) \<and>
    hd (map n_id (p_nodes (oc_plan out))) = first_node \<and> last (map n_id (p_nodes (oc_plan out))) = final_node"
proof -
  obtain opl opts req ns database where o: "operation_contract opl" "planned_from h spec opts out req" "op_plan opl req = Inr ns"
    "p_nodes (oc_plan out) = ns" and sealed: "host_seal h spec (oc_topology out) database ns = Inr (oc_plan out)"
    by (rule plan_for_Inr[OF assms(1)])
  have v: "VerifyDigest (oc_plan out) = None" "plan_Validate (oc_plan out) = None" by (rule host_sealed[OF sealed])+
  have "obj_schema (sp_index (rq_spec req)) \<in> {[], obj_schema (root_name req)}"
    using assms(2) o(2) by (auto simp: planned_from_def host_request_def root_name_def)
  then have "\<forall>n \<in> set ns. same_schema n" using operation_contract.placed[OF o(1,3)] by blast
  then have pre: "preflight cf (oc_plan out) = None"
    using plan_Validate_nodes[OF v(2)] assms(3) o(4) by (intro preflight_valid) auto
  have "distinct (map n_id (p_nodes (oc_plan out)))"
    using v(2) by (rule plan_Validate_None) (auto dest!: check_nodes_Inr)
  then have "TopologicalOrder (oc_plan out) = Inr (map n_id ns)"
    using operation_contract.runs_as_listed[OF o(1), of req "oc_plan out"] o(3,4) by simp
  then show ?thesis using v pre assms(4) operation_contract.first_and_last[OF o(1,3)] o(4) by (simp add: admit_def)
qed

text \<open>The proviso matters: the operation plans a parent index for another schema, the host seals the
  plan, and the executor refuses it.\<close>

lemma plan_for_foreign_schema:
  assumes "plan_for h spec = Inr out" "n \<in> set (p_nodes (oc_plan out))"
    and "n_params n = Some (CreateParentInvalidParams p)" "obj_schema (cpi_index p) \<notin> {[], obj_schema (cpi_parent p)}"
  shows "\<exists>e. admit cf i (Some (oc_plan out)) = Inl e"
proof -
  obtain ns database where p: "p_nodes (oc_plan out) = ns"
    and sealed: "host_seal h spec (oc_topology out) database ns = Inr (oc_plan out)"
    by (rule plan_for_Inr[OF assms(1)])
  have v: "plan_Validate (oc_plan out) = None" by (rule host_sealed[OF sealed])
  then have "n_kind n = KindIndexCreateParentInvalid"
    using plan_Validate_nodes[of "oc_plan out"] assms(2,3) by (auto simp: node_Validate_None)
  then have "preflight_node n \<noteq> None"
    using assms(3,4) by (auto simp: preflight_node_def IssuesDDL_def Render_def renderCreateIndex_def)
  then have "preflight cf (oc_plan out) \<noteq> None" using assms(2) by (auto simp: preflight_def then_check_None each_check_None)
  then show ?thesis
    by (auto simp: admit_def rcheck_def rbind_def split: option.splits sum.splits)
qed

subsection \<open>An explicit drop is authorized\<close>


end
