(* ===== verification/Planner_Host_Sample.thy ===== *)
theory Planner_Host_Sample
  imports Planner_Host_Properties Executor_Samples
begin

text \<open>
  A complete planning pass on a concrete catalog: DropPartitionedIndex over s.t with an orphan on s.t1,
  from the specification to the plan the executor admits.
\<close>

subsection \<open>A listing that is a valid plan\<close>

lemma check_nodes_valid:
  "\<forall>n \<in> set ns. node_Validate n = None \<Longrightarrow> distinct (map n_id ns) \<Longrightarrow> n_id ` set ns \<inter> byID = {} \<Longrightarrow>
     check_nodes byID c ns = Inr (byID \<union> n_id ` set ns, c + length (filter (\<lambda>n. n_kind n = KindIndexDropPartitioned) ns))"
  by (induction byID c ns rule: check_nodes.induct) (auto simp: rcheck_def)

lemma check_deps_valid:
  "self \<notin> set ds \<Longrightarrow> distinct ds \<Longrightarrow> set ds \<inter> seen = {} \<Longrightarrow> set ds \<subseteq> byID \<Longrightarrow> check_deps self byID seen ds = None"
  by (induction self byID seen ds rule: check_deps.induct) auto

lemma backward_own_id:
  assumes "backward ns" "distinct (map n_id ns)" "n \<in> set ns" shows "n_id n \<notin> set (n_depends_on n)"
proof
  assume self: "n_id n \<in> set (n_depends_on n)"
  obtain k where k: "k < length ns" "ns ! k = n" using assms(3) by (auto simp: in_set_conv_nth)
  then have "n_id n \<in> n_id ` set (take k ns)" using backward_nth[OF assms(1) k(1)] self by auto
  then obtain j where "j < k" "n_id (ns ! j) = n_id n" using k(1) by (auto simp: in_set_conv_nth)
  then show False using assms(2) k nth_eq_iff_index_eq[OF assms(2), of j k] by simp
qed

lemma backward_plan_valid:
  assumes "CheckFormatVersion (p_format_version p) = None" "p_plan_id p \<noteq> []" "operation_Valid (p_operation p)"
    and "target_Validate (p_target p) = None" "has_prefix (p_topology_fingerprint p) FingerprintPrefix"
    and "\<forall>c \<in> set (p_confirmations p). conf_flag c \<noteq> []" "p_nodes p \<noteq> []"
    and "\<forall>n \<in> set (p_nodes p). node_Validate n = None" "distinct (map n_id (p_nodes p))" "backward (p_nodes p)"
    and "\<forall>n \<in> set (p_nodes p). distinct (n_depends_on n)"
    and "length (filter (\<lambda>n. n_kind n = KindIndexDropPartitioned) (p_nodes p)) \<le> 1" "Confirmed p ConfirmExclusiveLock"
  shows "plan_Validate p = None"
proof -
  have "p_topology_fingerprint p \<noteq> []" using assms(5) by (auto simp: has_prefix_def FingerprintPrefix_def)
  moreover have "check_nodes {} 0 (p_nodes p) = Inr (n_id ` set (p_nodes p),
      length (filter (\<lambda>n. n_kind n = KindIndexDropPartitioned) (p_nodes p)))"
    using check_nodes_valid[OF assms(8,9), of "{}" 0] by simp
  moreover have "check_sole_drop n = None" for n
    by (simp add: check_sole_drop_def IsDestructive_def split: node_kind.split)
  moreover have "check_deps (n_id n) (n_id ` set (p_nodes p)) {} (n_depends_on n) = None" if "n \<in> set (p_nodes p)" for n
    using backward_own_id[OF assms(10,9) that] assms(11) that backward_deps_known[OF assms(10)]
    by (intro check_deps_valid) (auto simp: deps_known_def)
  ultimately show ?thesis
    using assms TopologicalOrder_listing[OF assms(10,9)]
    by (simp add: plan_Validate_def then_check_None each_check_None)
qed

subsection \<open>The pass\<close>

definition sample_host :: host where
  "sample_host = \<lparr>hs_catalog = Some (rq_catalog di_sample), hs_estimator = DefaultEstimator,
     hs_claims = rq_claims di_sample, hs_now = 0, hs_plan_id = ''p'', hs_options = [], hs_skip_read_only = False\<rparr>"

lemma sample_host_request:
  "host_request sample_host (rq_catalog di_sample) (sample_spec OpDropIndex) sample_topo ''o'' ''db'' 160000 = di_sample"
  by (simp add: host_request_def sample_host_def di_sample_def plan_request_def withDefaults_def with_default_def
      DefaultEstimator_def Let_def)

lemma sample_names_ok:
  "obj_Validate (NewObjectName ''s'' ''t'') = None" "obj_Validate (NewObjectName ''s'' ''i'') = None"
  "obj_Validate (NewObjectName ''s'' ''t1'') = None" "obj_Validate (NewObjectName ''s'' ''t2'') = None"
  "obj_Validate (NewObjectName ''s'' ''i_t1'') = None" "obj_Validate (NewObjectName ''s'' ''i_t2'') = None"
  "ValidateIdentifier ''o'' = None"
  by code_simp+

lemma sample_zero [simp]: "\<not> obj_IsZero (NewObjectName ''s'' n)"
  by (simp add: obj_IsZero_def NewObjectName_def)

lemma sample_spec_valid: "spec_Validate (sample_spec OpDropIndex) = None"
  by (simp add: spec_Validate_def sample_spec_def then_check_None sample_names_ok each_check_None operation_Valid_def
      ConfirmExclusiveLock_def)

lemma sample_pass_discovers: "Discover (rq_catalog di_sample) (NewObjectName ''s'' ''t'') opts = Inr sample_topo"
  by (simp add: di_sample_def sample_view_discovered)

lemma sample_spec_table: "sp_table (sample_spec op1) = NewObjectName ''s'' ''t''"
  by (simp add: sample_spec_def)

lemma sample_pass_member: "ValidateRoleMembership (rq_catalog di_sample) role rels = None"
  unfolding ValidateRoleMembership_None by (simp add: di_sample_def)

lemma role_assertion_valid: "obj_Validate r = None \<Longrightarrow> assertion_Validate (role_assertion ''o'' r) = None"
  by (simp add: assertion_Validate_def role_assertion_def mk_assertion_def then_check_None assertion_Valid_def wrapf_None sample_names_ok)

lemma assert_valid: "node_Validate (di_assert di_sample (NewObjectName ''s'' ''i'')) = None"
proof -
  have one: "assertion_Validate (mk_assertion k (Some (NewObjectName ''s'' ''t'')) i c m) = None"
    "assertion_Validate (mk_assertion k None i c m) = None"
    if "assertion_Valid k" "k \<noteq> AssertRoleMembership" "i = None \<or> i = Some (NewObjectName ''s'' ''i'')" for k i c m
    using that by (auto simp: assertion_Validate_def mk_assertion_def then_check_None wrapf_None sample_names_ok)
  have "\<forall>r \<in> set (Relations sample_topo). assertion_Validate (role_assertion ''o'' (rl_name r)) = None"
    using sample_names_ok by (auto simp: Relations_def sample_topo_def sample_relation_def intro!: role_assertion_valid)
  moreover have "rq_role di_sample = ''o''" by (simp add: di_sample_def plan_request_def)
  ultimately show ?thesis
    unfolding di_assert_def di_assertNode_def di_sample_facts Let_def
    by (simp add: node_Validate_None IsDestructive_def first_node_def plain_node_def each_check_None then_check_None wrapf_None
        one assertion_Valid_def)
qed

lemma preview_valid: "node_Validate (planner_Preview n op1) = node_Validate n"
  unfolding node_Validate_def planner_Preview_simps by (rule refl)

lemma orphan_valid:
  "node_Validate (di_orphanDropNode \<lparr>or_leaf = NewObjectName ''s'' ''t1'', or_index = NewObjectName ''s'' ''i_t1'', or_verdict = v\<rparr>) = None"
  unfolding di_orphanDropNode_def preview_valid
  by (simp add: node_Validate_None plain_node_def IsDestructive_def orphanNodeID_def validate_simps sample_names_ok
      catalogOnlySeconds_def auth_Validate_def then_check_None wrapf_None drop_reason_Valid_def mode_Valid_def)

lemma drop_valid: "node_Validate (di_drop di_sample (NewObjectName ''s'' ''i'') css) = None"
proof -
  have sql: "node_Validate (n\<lparr>n_rendered_sql := x\<rparr>) = node_Validate n" for n x
  proof -
    have "n_id (n\<lparr>n_rendered_sql := x\<rparr>) = n_id n" "n_kind (n\<lparr>n_rendered_sql := x\<rparr>) = n_kind n"
      "n_params (n\<lparr>n_rendered_sql := x\<rparr>) = n_params n" "n_authorization (n\<lparr>n_rendered_sql := x\<rparr>) = n_authorization n"
      "n_estimated_seconds (n\<lparr>n_rendered_sql := x\<rparr>) = n_estimated_seconds n"
      by simp_all
    then show ?thesis unfolding node_Validate_def by (simp only:)
  qed
  show ?thesis
    unfolding di_drop_def di_dropNode_def Let_def sql preview_valid di_sample_facts
    by (simp add: node_Validate_None plain_node_def IsDestructive_def validate_simps sample_names_ok
      catalogOnlySeconds_def auth_Validate_def then_check_None wrapf_None ConfirmExclusiveLock_def mode_Valid_def)
qed

lemma final_valid:
  "\<forall>x \<in> set xs. obj_Validate x = None \<and> \<not> obj_IsZero x \<Longrightarrow> node_Validate (di_finalVerifyNode (NewObjectName ''s'' ''i'') xs) = None"
  unfolding di_finalVerifyNode_def
  by (auto simp: node_Validate_None plain_node_def IsDestructive_def final_node_def each_check_None then_check_None
      wrapf_None check_Validate_def check_Valid_def mk_check_def validateOptionalObject_def validateObject_def sample_names_ok)


lemma sample_pass_nodes:
  assumes "di_Plan di_sample = Inr ns"
  obtains v xs where "ns = [di_assert di_sample (NewObjectName ''s'' ''i''),
      di_orphanDropNode \<lparr>or_leaf = NewObjectName ''s'' ''t1'', or_index = NewObjectName ''s'' ''i_t1'', or_verdict = v\<rparr>,
      di_drop di_sample (NewObjectName ''s'' ''i'') [[di_orphanDropNode
        \<lparr>or_leaf = NewObjectName ''s'' ''t1'', or_index = NewObjectName ''s'' ''i_t1'', or_verdict = v\<rparr>]],
      di_finalVerifyNode (NewObjectName ''s'' ''i'') xs]"
    "\<forall>x \<in> set xs. obj_Validate x = None \<and> \<not> obj_IsZero x"
proof -
  obtain idx s where a: "di_admits di_sample idx" "di_findOrphans di_sample idx = Inr s" "ns = di_listing di_sample idx s"
    by (rule di_Plan_Inr[OF assms])
  have idx: "idx = doomed" using a(1) unfolding di_admits_def di_sample_target by (simp add: di_sample_facts)
  then obtain v where v: "os_drop s = [\<lparr>or_leaf = NewObjectName ''s'' ''t1'', or_index = NewObjectName ''s'' ''i_t1'', or_verdict = v\<rparr>]"
    using di_sample_orphans a(2) by auto
  obtain ixs where sc: "di_scan (rq_claims di_sample) idx (by_full_name ixs)
       (zip (LeafObjectNames (rq_topology di_sample)) (di_children di_sample (ix_name idx))) empty_scan = Inr s"
    by (rule di_findOrphans_Inr[OF a(2)])
  have name: "ix_name doomed = NewObjectName ''s'' ''i''" by (simp add: doomed_def sample_index_def)
  have "di_children di_sample (ix_name doomed) = [NewObjectName ''s'' ''i_t1'', NewObjectName ''s'' ''i_t2'']"
    by (simp add: di_children_def di_sample_facts sample_leaf_names name child_object_def NewObjectName_def sample_child_names)
  then have "set (os_expect_absent s) \<subseteq> {NewObjectName ''s'' ''i_t1'', NewObjectName ''s'' ''i_t2''}"
    using di_scan_fates[OF sc] by (auto simp: empty_scan_def idx di_sample_facts sample_leaf_names)
  then have "\<forall>x \<in> set (os_expect_absent s). obj_Validate x = None \<and> \<not> obj_IsZero x"
    using sample_names_ok by fastforce
  then show ?thesis using that[of v "os_expect_absent s"]
    by (simp add: a(3) idx name di_listing_def framed_nodes_def orphan_chains_def v)
qed

lemma sample_pass_valid:
  assumes "di_Plan di_sample = Inr ns" "has_prefix fp FingerprintPrefix"
  shows "plan_Validate (host_plan sample_host (sample_spec OpDropIndex) sample_topo ''db'' ns fp) = None"
proof -
  obtain v xs where ns: "ns = [di_assert di_sample (NewObjectName ''s'' ''i''),
      di_orphanDropNode \<lparr>or_leaf = NewObjectName ''s'' ''t1'', or_index = NewObjectName ''s'' ''i_t1'', or_verdict = v\<rparr>,
      di_drop di_sample (NewObjectName ''s'' ''i'') [[di_orphanDropNode
        \<lparr>or_leaf = NewObjectName ''s'' ''t1'', or_index = NewObjectName ''s'' ''i_t1'', or_verdict = v\<rparr>]],
      di_finalVerifyNode (NewObjectName ''s'' ''i'') xs]"
    and xs: "\<forall>x \<in> set xs. obj_Validate x = None \<and> \<not> obj_IsZero x"
    by (rule sample_pass_nodes[OF assms(1)])
  have deps: "tails_or first_node [[di_orphanDropNode \<lparr>or_leaf = l, or_index = c, or_verdict = v\<rparr>]] = [orphanNodeID c]" for l c
    by (simp add: tails_or_def tails_def)
  have version: "IsSupportedFormatVersion PlanFormatVersion" by code_simp
  show ?thesis
  proof (rule backward_plan_valid)
    show "\<forall>n \<in> set (p_nodes (host_plan sample_host (sample_spec OpDropIndex) sample_topo ''db'' ns fp)). node_Validate n = None"
      using xs by (simp add: host_plan_def ns assert_valid orphan_valid drop_valid final_valid)
    show "distinct (map n_id (p_nodes (host_plan sample_host (sample_spec OpDropIndex) sample_topo ''db'' ns fp)))"
      by (simp add: host_plan_def ns first_node_def final_node_def orphanNodeID_def)
    show "backward (p_nodes (host_plan sample_host (sample_spec OpDropIndex) sample_topo ''db'' ns fp))"
      using di.listed[of di_sample ns] assms(1) by (simp add: host_plan_def drop_index_def)
    show "\<forall>n \<in> set (p_nodes (host_plan sample_host (sample_spec OpDropIndex) sample_topo ''db'' ns fp)). distinct (n_depends_on n)"
      by (simp add: host_plan_def ns deps)
    show "target_Validate (p_target (host_plan sample_host (sample_spec OpDropIndex) sample_topo ''db'' ns fp)) = None"
      using sample_names_ok by (simp add: host_plan_def target_Validate_def validate_simps host_index_def sample_spec_def
          sample_topo_def sample_relation_def NewObjectName_def obj_IsZero_def)
  qed (use assms(2) in \<open>simp_all add: host_plan_def CheckFormatVersion_def sample_host_def sample_spec_def operation_Valid_def
      ns Confirmed_def ConfirmExclusiveLock_def version\<close>)
qed

lemma sample_pass: "\<exists>out. plan_for sample_host (sample_spec OpDropIndex) = Inr out"
proof -
  obtain ns where ns: "di_Plan di_sample = Inr ns" using di_sample_plan by blast
  then have "ns \<noteq> []" using di.nonempty[of di_sample ns] by (simp add: drop_index_def)
  have "topology_Validate (topology_Input sample_topo) = None" by code_simp
  then obtain fp where fp: "Fingerprint (topology_Input sample_topo) = Inr fp" "has_prefix fp FingerprintPrefix"
    by (simp add: Fingerprint_eq rcheck_def has_prefix_def)
  let ?h = "sample_host\<lparr>hs_options := di_DiscoverOptions\<rparr>"
  have hp: "host_plan ?h = host_plan sample_host" by (simp add: host_plan_def fun_eq_iff)
  obtain d where "host_seal ?h (sample_spec OpDropIndex) sample_topo ''db'' ns
      = Inr ((host_plan sample_host (sample_spec OpDropIndex) sample_topo ''db'' ns fp)\<lparr>p_digest := d\<rparr>)"
    using Seal_valid[OF sample_pass_valid[OF ns fp(2)]] sample_pass_valid[OF ns fp(2)]
    by (auto simp: host_seal_def fp hp Let_def)
  moreover have "host_request ?h (rq_catalog di_sample) (sample_spec OpDropIndex) sample_topo ''o'' ''db'' 160000 = di_sample"
    using sample_host_request by (simp add: host_request_def)
  moreover have "op_plan drop_index di_sample = Inr ns" "op_operation drop_index = sp_operation (sample_spec OpDropIndex)"
    using ns by (simp_all add: drop_index_def sample_spec_def)
  moreover have "plannerFor (sample_spec OpDropIndex) = Some (drop_index, di_DiscoverOptions)"
    by (simp add: plannerFor_def sample_spec_def)
  moreover have "hs_catalog ?h = Some (rq_catalog di_sample)" "host_checks ?h (rq_catalog di_sample) = None"
    "pc_version (rq_catalog di_sample) = Inr 160000" "pc_role (rq_catalog di_sample) = Inr ''o''"
    "pc_database (rq_catalog di_sample) = Inr ''db''"
    by (simp_all add: sample_host_def host_checks_def di_sample_def sample_view_def sample_catalog_def)
  ultimately show ?thesis using \<open>ns \<noteq> []\<close>
    unfolding plan_for_def Host_Run_def
    by (simp add: sample_spec_valid sample_spec_table sample_pass_discovers sample_pass_member MinServerVersionNum_def)
qed

subsection \<open>The host's guarantees apply\<close>

lemma sample_outcome:
  assumes "plan_for sample_host (sample_spec OpDropIndex) = Inr out"
  shows "oc_topology out = sample_topo" "\<exists>n \<in> set (p_nodes (oc_plan out)). n_kind n = KindIndexDropPartitioned"
proof -
  obtain opl opts req ns where o: "plannerFor (sample_spec OpDropIndex) = Some (opl, opts)"
    "planned_from sample_host (sample_spec OpDropIndex) opts out req" "op_plan opl req = Inr ns" "p_nodes (oc_plan out) = ns"
    by (rule plan_for_Inr[OF assms])
  show "oc_topology out = sample_topo" using o(2) by (auto simp: planned_from_def sample_host_def sample_spec_table sample_pass_discovers)
  have "di_Plan req = Inr ns" using o(1,3) by (auto simp: plannerFor_def drop_index_def sample_spec_def)
  then obtain idx s where "ns = di_listing req idx s" by (rule di_Plan_Inr)
  then have "di_drop req (ix_name idx) (orphan_chains (os_drop s)) \<in> set ns" by (simp add: di_listing_def framed_nodes_def)
  then show "\<exists>n \<in> set (p_nodes (oc_plan out)). n_kind n = KindIndexDropPartitioned"
    using o(4) di_node_simps(9) by metis
qed

theorem plan_for_safe_witness:
  "\<exists>out. plan_for sample_host (sample_spec OpDropIndex) = Inr out \<and>
     topology_Fingerprint sample_topo = Inr (p_topology_fingerprint (oc_plan out))"
proof -
  obtain out where out: "plan_for sample_host (sample_spec OpDropIndex) = Inr out" using sample_pass by blast
  then show ?thesis using plan_for_safe[OF out] sample_outcome(1)[OF out] by auto
qed


theorem plan_for_admitted_witness:
  "\<exists>out. plan_for sample_host (sample_spec OpDropIndex) = Inr out \<and>
     admit (calm_config (\<lambda>_. None) None) ''r1'' (Some (oc_plan out)) = Inr (oc_plan out, map n_id (p_nodes (oc_plan out)))"
proof -
  obtain out where out: "plan_for sample_host (sample_spec OpDropIndex) = Inr out" using sample_pass by blast
  have sch: "obj_schema (sp_index (sample_spec OpDropIndex)) \<in> {[], obj_schema (rl_name (tp_root (oc_topology out)))}"
    by (simp add: sample_outcome(1)[OF out] sample_spec_def sample_topo_def sample_relation_def NewObjectName_def)
  have cf: "cf_has_catalog (calm_config (\<lambda>_. None) None)" by (simp add: calm_config_def)
  have run: "''r1'' \<noteq> []" by simp
  show ?thesis using plan_for_admitted[OF out sch cf run] out by blast
qed

end
