(* ===== verification/Verifier.thy ===== *)
theory Verifier
  imports Planner_Nodes
begin

text \<open>
  engine/verifier: assertions about the catalog, one result each, and the gates that build their checks
  from the live catalog or from a plan.  Reasons are not modelled; the expected and the actual state are.
\<close>

subsection \<open>The catalog (catalog.go)\<close>

record index_state =
  vs_name :: object_name
  vs_relation :: object_name
  vs_valid :: bool
  vs_ready :: bool
  vs_live :: bool
  vs_partitioned :: bool

definition vs_Usable :: "index_state \<Rightarrow> bool" where
  "vs_Usable s \<longleftrightarrow> vs_valid s \<and> vs_ready s \<and> vs_live s"

definition bool_text :: "bool \<Rightarrow> string" where "bool_text b = (if b then ''true'' else ''false'')"

definition vs_Flags :: "index_state \<Rightarrow> string" where
  "vs_Flags s = ''indisvalid='' @ bool_text (vs_valid s) @ '' indisready='' @ bool_text (vs_ready s)
     @ '' indislive='' @ bool_text (vs_live s)"

definition usableFlags :: string where
  "usableFlags = ''indisvalid=true indisready=true indislive=true''"

text \<open>One consistent reading of the catalog; \<open>vt_cancelled\<close> is the state of the context.\<close>

record verifier_catalog =
  vt_index :: "object_name \<Rightarrow> err + index_state option"
  vt_parent :: "object_name \<Rightarrow> err + object_name option"
  vt_attached :: "object_name \<Rightarrow> err + index_state list"
  vt_leaves :: "object_name \<Rightarrow> err + object_name list"
  vt_tree :: "object_name \<Rightarrow> err + index_state list"
  vt_comment :: "object_name \<Rightarrow> err + string option"
  vt_cancelled :: "err option"

definition verifier_IndexMarker :: "verifier_catalog \<Rightarrow> object_name \<Rightarrow> err + marker \<times> marker_status" where
  "verifier_IndexMarker cat index = (case vt_comment cat index of
     Inl e \<Rightarrow> Inl e
   | Inr None \<Rightarrow> Inr (zero_marker, MarkerAbsent)
   | Inr (Some comment) \<Rightarrow> Inr (ParseMarker comment))"

definition sameObject :: "object_name \<Rightarrow> object_name \<Rightarrow> bool" where
  "sameObject want got \<longleftrightarrow> (if obj_name want \<noteq> obj_name got then False
     else if obj_schema want = [] \<or> obj_schema got = [] then True
     else obj_schema want = obj_schema got)"

subsection \<open>Results and reports (result.go)\<close>

datatype verify_status = StatusPass | StatusFail | StatusError

record verify_result =
  vr_check :: verify_check_kind
  vr_status :: verify_status
  vr_node :: node_id
  vr_index :: "object_name option"
  vr_parent_index :: "object_name option"
  vr_relation :: "object_name option"
  vr_expected :: string
  vr_actual :: string
  vr_message :: string
  vr_err :: "err option"

definition passf :: "verify_result \<Rightarrow> verify_result" where "passf r = r\<lparr>vr_status := StatusPass\<rparr>"
definition failf :: "verify_result \<Rightarrow> verify_result" where "failf r = r\<lparr>vr_status := StatusFail\<rparr>"
definition verifier_errorf :: "verify_result \<Rightarrow> err \<Rightarrow> verify_result" where
  "verifier_errorf r e = r\<lparr>vr_status := StatusError, vr_err := Some e\<rparr>"

record counts =
  ct_total :: nat
  ct_passed :: nat
  ct_failed :: nat
  ct_errored :: nat

fun count_result :: "verify_result \<Rightarrow> counts \<Rightarrow> counts" where
  "count_result r c = (case vr_status r of
     StatusPass \<Rightarrow> c\<lparr>ct_passed := ct_passed c + 1\<rparr>
   | StatusFail \<Rightarrow> c\<lparr>ct_failed := ct_failed c + 1\<rparr>
   | StatusError \<Rightarrow> c\<lparr>ct_errored := ct_errored c + 1\<rparr>)"

definition report_Counts :: "verify_result list \<Rightarrow> counts" where
  "report_Counts rs = fold count_result rs \<lparr>ct_total = length rs, ct_passed = 0, ct_failed = 0, ct_errored = 0\<rparr>"

definition report_Passed :: "verify_result list \<Rightarrow> bool" where
  "report_Passed rs \<longleftrightarrow> (\<forall>r \<in> set rs. vr_status r = StatusPass)"

definition report_Failures :: "verify_result list \<Rightarrow> verify_result list" where
  "report_Failures rs = filter (\<lambda>r. vr_status r \<noteq> StatusPass) rs"

fun first_error :: "verify_result list \<Rightarrow> err option" where
  "first_error [] = None"
| "first_error (r # rs) = (if vr_status r \<noteq> StatusError then first_error rs
     else (case vr_err r of Some e \<Rightarrow> Some (FmtErr (Some e)) | None \<Rightarrow> Some (Detailf ErrFailure)))"

definition report_Err :: "verify_result list \<Rightarrow> err option" where
  "report_Err rs = (case first_error rs of
     Some e \<Rightarrow> Some e
   | None \<Rightarrow> if ct_failed (report_Counts rs) = 0 then None else Some (Detailf ErrVerificationFailed))"

subsection \<open>The assertions (verifier.go)\<close>

definition checkIndexValid :: "verifier_catalog \<Rightarrow> verify_result \<Rightarrow> object_name \<Rightarrow> verify_result" where
  "checkIndexValid cat res index = (case vt_index cat index of
     Inl e \<Rightarrow> verifier_errorf res e
   | Inr None \<Rightarrow> failf (res\<lparr>vr_expected := usableFlags, vr_actual := ''absent''\<rparr>)
   | Inr (Some st) \<Rightarrow>
       (let res = res\<lparr>vr_expected := usableFlags, vr_actual := vs_Flags st\<rparr> in
        if \<not> vs_Usable st then failf res else passf res))"

definition checkIndexAttached ::
    "verifier_catalog \<Rightarrow> verify_result \<Rightarrow> object_name \<Rightarrow> object_name \<Rightarrow> verify_result" where
  "checkIndexAttached cat res child parent = (case vt_parent cat child of
     Inl e \<Rightarrow> verifier_errorf res e
   | Inr got \<Rightarrow>
       (let res = res\<lparr>vr_expected := ''attached to '' @ obj_String parent\<rparr> in
        case got of
          None \<Rightarrow> failf (res\<lparr>vr_actual := (if vt_index cat child = Inr None then ''absent'' else ''unattached'')\<rparr>)
        | Some got \<Rightarrow>
            (let res = res\<lparr>vr_actual := ''attached to '' @ obj_String got\<rparr> in
             if \<not> sameObject parent got then failf res else passf res)))"

definition checkParentIndexValid :: "verifier_catalog \<Rightarrow> verify_result \<Rightarrow> object_name \<Rightarrow> verify_result" where
  "checkParentIndexValid cat res parent = (case vt_index cat parent of
     Inl e \<Rightarrow> verifier_errorf res e
   | Inr None \<Rightarrow> failf (res\<lparr>vr_expected := ''indisvalid=true'', vr_actual := ''absent''\<rparr>)
   | Inr (Some st) \<Rightarrow>
       (let res = res\<lparr>vr_expected := ''indisvalid=true'', vr_actual := vs_Flags st\<rparr> in
        if \<not> vs_valid st then failf res else passf res))"

definition checkLeafIndexCount :: "verifier_catalog \<Rightarrow> verify_result \<Rightarrow> object_name \<Rightarrow> int \<Rightarrow> verify_result" where
  "checkLeafIndexCount cat res parent want =
     (let res = res\<lparr>vr_expected := FormatInt want @ '' attached leaf indexes''\<rparr> in
      case vt_index cat parent of
        Inl e \<Rightarrow> verifier_errorf res e
      | Inr None \<Rightarrow> failf (res\<lparr>vr_actual := ''parent index absent''\<rparr>)
      | Inr (Some _) \<Rightarrow>
        (case vt_attached cat parent of
           Inl e \<Rightarrow> verifier_errorf res e
         | Inr children \<Rightarrow>
             (let got = int (length children);
                  res = res\<lparr>vr_actual := FormatInt got @ '' attached leaf indexes''\<rparr> in
              if got \<noteq> want then failf res else passf res)))"

definition checkIndexAbsent :: "verifier_catalog \<Rightarrow> verify_result \<Rightarrow> object_name \<Rightarrow> verify_result" where
  "checkIndexAbsent cat res index = (case vt_index cat index of
     Inl e \<Rightarrow> verifier_errorf res e
   | Inr (Some st) \<Rightarrow> failf (res\<lparr>vr_expected := ''absent'', vr_actual := ''present, '' @ vs_Flags st\<rparr>)
   | Inr None \<Rightarrow> passf (res\<lparr>vr_expected := ''absent'', vr_actual := ''absent''\<rparr>))"

definition checkNoLeftoverIndexes :: "verifier_catalog \<Rightarrow> verify_result \<Rightarrow> object_name \<Rightarrow> verify_result" where
  "checkNoLeftoverIndexes cat res relation = (case vt_tree cat relation of
     Inl e \<Rightarrow> verifier_errorf res e
   | Inr indexes \<Rightarrow>
       (let found = filter (\<lambda>ix. fst (ClassifyLeftover (obj_name (vs_name ix))) \<noteq> LeftoverNone) indexes;
            res = res\<lparr>vr_expected := ''no _ccnew/_ccold indexes'',
              vr_actual := FormatInt (int (length found)) @ '' leftover indexes''\<rparr> in
        if found = [] then passf res else failf res))"

text \<open>A nil catalog is None.\<close>

definition verifier_Check :: "verifier_catalog option \<Rightarrow> verify_check \<Rightarrow> verify_result" where
  "verifier_Check v c =
     (let res = \<lparr>vr_check = vc_check c, vr_status = StatusError, vr_node = [], vr_index = vc_index c,
            vr_parent_index = vc_parent_index c, vr_relation = vc_relation c, vr_expected = [], vr_actual = [],
            vr_message = vc_message c, vr_err = None\<rparr> in
      case v of None \<Rightarrow> verifier_errorf res (Detailf ErrFailure)
      | Some cat \<Rightarrow>
        if check_Validate c \<noteq> None then verifier_errorf res (Detailf ErrInvalidPlan)
        else (case vt_cancelled cat of Some e \<Rightarrow> verifier_errorf res e
        | None \<Rightarrow> (case vc_check c of
            CheckIndexValid \<Rightarrow> checkIndexValid cat res (the (vc_index c))
          | CheckIndexAttached \<Rightarrow> checkIndexAttached cat res (the (vc_index c)) (the (vc_parent_index c))
          | CheckParentIndexValid \<Rightarrow> checkParentIndexValid cat res (the (vc_parent_index c))
          | CheckLeafIndexCount \<Rightarrow> checkLeafIndexCount cat res (the (vc_parent_index c)) (the (vc_expected_count c))
          | CheckIndexAbsent \<Rightarrow> checkIndexAbsent cat res (the (vc_index c))
          | CheckNoLeftoverIndexes \<Rightarrow> checkNoLeftoverIndexes cat res (the (vc_relation c))
          | UnknownCheck _ \<Rightarrow> verifier_errorf res (Detailf ErrInvalidPlan))))"

definition Verify :: "verifier_catalog option \<Rightarrow> verify_check list option \<Rightarrow> verify_result list" where
  "Verify v params = (case params of
     None \<Rightarrow> [\<lparr>vr_check = UnknownCheck [], vr_status = StatusError, vr_node = [], vr_index = None,
        vr_parent_index = None, vr_relation = None, vr_expected = [], vr_actual = [], vr_message = [],
        vr_err = Some (Detailf ErrInvalidPlan)\<rparr>]
   | Some cs \<Rightarrow> map (verifier_Check v) cs)"

definition VerifyNode :: "verifier_catalog option \<Rightarrow> node option \<Rightarrow> err + verify_result list" where
  "VerifyNode v x = (case x of None \<Rightarrow> Inl (Detailf ErrInvalidPlan)
   | Some n \<Rightarrow>
     if n_kind n \<noteq> KindIndexVerify then Inl (Detailf ErrInvalidPlan)
     else (case n_params n of
        Some (VerifyParams cs) \<Rightarrow> Inr (map (\<lambda>r. r\<lparr>vr_node := n_id n\<rparr>) (Verify v (Some cs)))
      | _ \<Rightarrow> Inl (Detailf ErrInvalidPlan)))"

fun verify_walk :: "verifier_catalog option \<Rightarrow> plan \<Rightarrow> node_id list \<Rightarrow> err + verify_result list" where
  "verify_walk v p [] = Inr []"
| "verify_walk v p (i # is) = (case NodeByID p i of
     None \<Rightarrow> verify_walk v p is
   | Some n \<Rightarrow> if n_kind n \<noteq> KindIndexVerify then verify_walk v p is
       else rbind (VerifyNode v (Some n)) (\<lambda>sub. rbind (verify_walk v p is) (\<lambda>rest. Inr (sub @ rest))))"

definition VerifyPlan :: "verifier_catalog option \<Rightarrow> plan option \<Rightarrow> err + verify_result list" where
  "VerifyPlan v x = (case x of None \<Rightarrow> Inl (Detailf ErrInvalidPlan)
   | Some p \<Rightarrow> rbind (TopologicalOrder p) (verify_walk v p))"

subsection \<open>The gates (gates.go)\<close>

definition simple_check :: "verify_check_kind \<Rightarrow> verify_check" where
  "simple_check k = \<lparr>vc_check = k, vc_index = None, vc_parent_index = None, vc_relation = None,
     vc_expected_count = None, vc_message = []\<rparr>"

definition sortNames :: "object_name list \<Rightarrow> object_name list" where
  "sortNames = sort_key name_key"

text \<open>The Go map keyed by the relation's text: a later child replaces an earlier one.\<close>

definition by_relation :: "index_state list \<Rightarrow> string \<Rightarrow> index_state option" where
  "by_relation attached s = map_of (map (\<lambda>ix. (obj_String (vs_relation ix), ix)) (rev attached)) s"

definition leaf_results ::
    "verifier_catalog \<Rightarrow> object_name \<Rightarrow> index_state list \<Rightarrow> object_name \<Rightarrow> verify_result list" where
  "leaf_results cat parentIndex attached leaf = (case by_relation attached (obj_String leaf) of
     None \<Rightarrow> [\<lparr>vr_check = CheckIndexAttached, vr_status = StatusFail, vr_node = [], vr_index = None,
       vr_parent_index = Some parentIndex, vr_relation = Some leaf,
       vr_expected = ''an index attached to '' @ obj_String parentIndex, vr_actual = ''none'', vr_message = [],
       vr_err = None\<rparr>]
   | Some child \<Rightarrow>
      [verifier_Check (Some cat) ((simple_check CheckIndexAttached)
         \<lparr>vc_index := Some (vs_name child), vc_parent_index := Some parentIndex, vc_relation := Some leaf\<rparr>),
       verifier_Check (Some cat) ((simple_check CheckIndexValid)
         \<lparr>vc_index := Some (vs_name child), vc_relation := Some leaf\<rparr>)])"

definition VerifyPartitionedIndex ::
    "verifier_catalog option \<Rightarrow> object_name \<Rightarrow> object_name \<Rightarrow> err + verify_result list" where
  "VerifyPartitionedIndex v table parentIndex = (case v of None \<Rightarrow> Inl (Detailf ErrFailure)
   | Some cat \<Rightarrow>
     rbind (vt_leaves cat table) (\<lambda>leaves.
     rbind (vt_attached cat parentIndex) (\<lambda>attached.
     Inr ([verifier_Check v ((simple_check CheckParentIndexValid)\<lparr>vc_parent_index := Some parentIndex\<rparr>),
           verifier_Check v ((simple_check CheckLeafIndexCount)\<lparr>vc_parent_index := Some parentIndex,
             vc_expected_count := Some (int (length leaves))\<rparr>)]
       @ concat (map (leaf_results cat parentIndex attached) (sortNames leaves))))))"

definition VerifyNoLeftovers :: "verifier_catalog option \<Rightarrow> object_name \<Rightarrow> verify_result list" where
  "VerifyNoLeftovers v relation =
     [verifier_Check v ((simple_check CheckNoLeftoverIndexes)\<lparr>vc_relation := Some relation\<rparr>)]"

definition VerifyReindexedIndex ::
    "verifier_catalog option \<Rightarrow> object_name \<Rightarrow> object_name \<Rightarrow> err + verify_result list" where
  "VerifyReindexedIndex v table parentIndex =
     rbind (VerifyPartitionedIndex v table parentIndex) (\<lambda>r. Inr (r @ VerifyNoLeftovers v table))"

definition absent_check :: "verifier_catalog option \<Rightarrow> object_name \<Rightarrow> object_name option \<Rightarrow> verify_result" where
  "absent_check v index relation =
     verifier_Check v ((simple_check CheckIndexAbsent)\<lparr>vc_index := Some index, vc_relation := relation\<rparr>)"

definition VerifyIndexAbsent ::
    "verifier_catalog option \<Rightarrow> object_name \<Rightarrow> object_name \<Rightarrow> err + verify_result list" where
  "VerifyIndexAbsent v table parentIndex = (case v of None \<Rightarrow> Inl (Detailf ErrFailure)
   | Some cat \<Rightarrow>
     rbind (vt_leaves cat table) (\<lambda>leaves.
     Inr (absent_check v parentIndex None
       # map (\<lambda>leaf. absent_check v (NewObjectName (obj_schema leaf)
            (ChildIndexName (obj_name parentIndex) (obj_name leaf))) (Some leaf)) (sortNames leaves))))"

fun recordedChildIndexes :: "node list \<Rightarrow> object_name list" where
  "recordedChildIndexes [] = []"
| "recordedChildIndexes (n # ns) = (case n_params n of
     Some (CreateConcurrentlyParams p) \<Rightarrow> ccp_index p # recordedChildIndexes ns
   | Some (DropConcurrentlyParams p) \<Rightarrow> dcp_index p # recordedChildIndexes ns
   | _ \<Rightarrow> recordedChildIndexes ns)"

fun check_recorded :: "verifier_catalog option \<Rightarrow> object_name set \<Rightarrow> object_name list \<Rightarrow> verify_result list" where
  "check_recorded v seen [] = []"
| "check_recorded v seen (child # rest) =
     (if child \<in> seen then check_recorded v seen rest
      else absent_check v child None # check_recorded v (insert child seen) rest)"

definition VerifyIndexAbsentForPlan :: "verifier_catalog option \<Rightarrow> plan option \<Rightarrow> err + verify_result list" where
  "VerifyIndexAbsentForPlan v x = (case v of None \<Rightarrow> Inl (Detailf ErrFailure)
   | Some _ \<Rightarrow> (case x of None \<Rightarrow> Inl (Detailf ErrFailure)
   | Some p \<Rightarrow> (case tgt_index (p_target p) of None \<Rightarrow> Inl (Detailf ErrFailure)
   | Some parentIndex \<Rightarrow>
     rbind (VerifyIndexAbsent v (tgt_table (p_target p)) parentIndex) (\<lambda>r.
     Inr (r @ check_recorded v (insert parentIndex (set (List.map_filter vr_index r)))
       (sortNames (recordedChildIndexes (p_nodes p))))))))"

end
