(* ===== verification/Verifier_Properties.thy ===== *)
theory Verifier_Properties
  imports Verifier
begin

text \<open>
  What the verifier's verdicts mean: when each assertion passes, the exit code of a report, and the end
  states the gates accept.
\<close>

subsection \<open>When an assertion passes\<close>

lemmas verdicts = passf_def failf_def verifier_errorf_def

lemma check_status_parts:
  "vr_status (checkIndexValid cat res i) = StatusPass \<longleftrightarrow> (\<exists>st. vt_index cat i = Inr (Some st) \<and> vs_Usable st)"
  "vr_status (checkIndexAttached cat res i p) = StatusPass \<longleftrightarrow> (\<exists>g. vt_parent cat i = Inr (Some g) \<and> sameObject p g)"
  "vr_status (checkParentIndexValid cat res i) = StatusPass \<longleftrightarrow> (\<exists>st. vt_index cat i = Inr (Some st) \<and> vs_valid st)"
  "vr_status (checkLeafIndexCount cat res i n) = StatusPass \<longleftrightarrow>
     (\<exists>st ch. vt_index cat i = Inr (Some st) \<and> vt_attached cat i = Inr ch \<and> int (length ch) = n)"
  "vr_status (checkIndexAbsent cat res i) = StatusPass \<longleftrightarrow> vt_index cat i = Inr None"
  "vr_status (checkNoLeftoverIndexes cat res i) = StatusPass \<longleftrightarrow> (\<exists>ixs. vt_tree cat i = Inr ixs \<and>
     (\<forall>x \<in> set ixs. fst (ClassifyLeftover (obj_name (vs_name x))) = LeftoverNone))"
  by (auto simp: checkIndexValid_def checkIndexAttached_def checkParentIndexValid_def checkLeafIndexCount_def
      checkIndexAbsent_def checkNoLeftoverIndexes_def verdicts Let_def filter_empty_conv split: sum.splits option.splits)

text \<open>What each kind of check demands of the catalog.\<close>

definition demands :: "verifier_catalog \<Rightarrow> verify_check \<Rightarrow> bool" where
  "demands cat c \<longleftrightarrow> (case vc_check c of
     CheckIndexValid \<Rightarrow> \<exists>st. vt_index cat (the (vc_index c)) = Inr (Some st) \<and> vs_valid st \<and> vs_ready st \<and> vs_live st
   | CheckIndexAttached \<Rightarrow> \<exists>g. vt_parent cat (the (vc_index c)) = Inr (Some g) \<and> sameObject (the (vc_parent_index c)) g
   | CheckParentIndexValid \<Rightarrow> \<exists>st. vt_index cat (the (vc_parent_index c)) = Inr (Some st) \<and> vs_valid st
   | CheckLeafIndexCount \<Rightarrow> \<exists>st ch. vt_index cat (the (vc_parent_index c)) = Inr (Some st) \<and>
       vt_attached cat (the (vc_parent_index c)) = Inr ch \<and> int (length ch) = the (vc_expected_count c)
   | CheckIndexAbsent \<Rightarrow> vt_index cat (the (vc_index c)) = Inr None
   | CheckNoLeftoverIndexes \<Rightarrow> \<exists>ixs. vt_tree cat (the (vc_relation c)) = Inr ixs \<and>
       (\<forall>x \<in> set ixs. fst (ClassifyLeftover (obj_name (vs_name x))) = LeftoverNone)
   | UnknownCheck _ \<Rightarrow> False)"

lemma Check_pass:
  "vr_status (verifier_Check (Some cat) c) = StatusPass \<longleftrightarrow>
     check_Validate c = None \<and> vt_cancelled cat = None \<and> demands cat c"
  by (cases "vc_check c")
    (auto simp: verifier_Check_def Let_def demands_def check_status_parts vs_Usable_def verifier_errorf_def split: option.splits)

lemma check_index_parts:
  "vr_index (checkIndexValid cat res i) = vr_index res" "vr_index (checkIndexAttached cat res i p) = vr_index res"
  "vr_index (checkParentIndexValid cat res i) = vr_index res" "vr_index (checkLeafIndexCount cat res i n) = vr_index res"
  "vr_index (checkIndexAbsent cat res i) = vr_index res" "vr_index (checkNoLeftoverIndexes cat res i) = vr_index res"
  "vr_index (verifier_errorf res e) = vr_index res"
  by (auto simp: checkIndexValid_def checkIndexAttached_def checkParentIndexValid_def checkLeafIndexCount_def
      checkIndexAbsent_def checkNoLeftoverIndexes_def verdicts Let_def split: sum.splits option.splits)

lemma Check_index [simp]: "vr_index (verifier_Check v c) = vc_index c"
  unfolding verifier_Check_def Let_def
  by (simp add: check_index_parts split: option.split verify_check_kind.split)

subsection \<open>The exit code of a report\<close>

lemma counts_fold:
  "ct_failed (fold count_result rs c) = ct_failed c + length (filter (\<lambda>r. vr_status r = StatusFail) rs)"
  by (induction rs arbitrary: c) (auto split: verify_status.splits)

lemma first_error_None: "first_error rs = None \<longleftrightarrow> (\<forall>r \<in> set rs. vr_status r \<noteq> StatusError)"
  by (induction rs) (auto split: option.splits)

lemma first_error_split:
  "first_error (ys @ r # zs) = (case vr_err r of Some e \<Rightarrow> Some (FmtErr (Some e)) | None \<Rightarrow> Some (Detailf ErrFailure))"
  if "\<forall>y \<in> set ys. vr_status y \<noteq> StatusError" "vr_status r = StatusError"
  using that by (induction ys) auto

text \<open>C35. A report maps to no error exactly when every assertion passed; to exit code 14 when some
  assertion is false and all could be evaluated; and otherwise to the exit code of the first assertion
  that could not be evaluated, whatever failed before it.\<close>

theorem report_Err_exit:
  "(report_Err rs = None \<longleftrightarrow> report_Passed rs) \<and>
   ((\<forall>r \<in> set rs. vr_status r \<noteq> StatusError) \<and> \<not> report_Passed rs \<longrightarrow>
      ExitCodeFor (report_Err rs) = ExitVerificationFailed) \<and>
   (\<forall>ys r zs. rs = ys @ r # zs \<and> (\<forall>y \<in> set ys. vr_status y \<noteq> StatusError) \<and> vr_status r = StatusError \<longrightarrow>
      ExitCodeFor (report_Err rs) = (case vr_err r of Some e \<Rightarrow> ExitCodeFor (Some e) | None \<Rightarrow> ExitFailure))"
proof -
  have failed: "ct_failed (report_Counts rs) = 0 \<longleftrightarrow> (\<forall>r \<in> set rs. vr_status r \<noteq> StatusFail)"
    by (simp add: report_Counts_def counts_fold filter_empty_conv)
  have passed: "report_Passed rs \<longleftrightarrow> (\<forall>r \<in> set rs. vr_status r \<noteq> StatusError) \<and> (\<forall>r \<in> set rs. vr_status r \<noteq> StatusFail)"
    unfolding report_Passed_def by (metis verify_status.exhaust verify_status.distinct)
  have first: "report_Err rs = (if \<forall>r \<in> set rs. vr_status r \<noteq> StatusError
      then if ct_failed (report_Counts rs) = 0 then None else Some (Detailf ErrVerificationFailed) else first_error rs)"
    using first_error_None[of rs] by (auto simp: report_Err_def split: option.splits)
  have codes: "ExitCodeFor (Some ErrVerificationFailed) = ExitVerificationFailed" "ExitCodeFor (Some ErrFailure) = ExitFailure"
    "ExitCodeFor (Some (FmtErr (Some e))) = ExitCodeFor (Some e)" for e
    by (simp_all add: ExitCodeFor_def ErrVerificationFailed_def ErrFailure_def)
  have none: "report_Err rs = None \<longleftrightarrow> report_Passed rs"
    using first_error_None[of rs] by (auto simp: first passed failed)
  have false: "ExitCodeFor (report_Err rs) = ExitVerificationFailed"
    if "\<forall>r \<in> set rs. vr_status r \<noteq> StatusError" "\<not> report_Passed rs"
    using that passed failed by (auto simp: first codes)
  have err: "ExitCodeFor (report_Err rs) = (case vr_err r of Some e \<Rightarrow> ExitCodeFor (Some e) | None \<Rightarrow> ExitFailure)"
    if rs: "rs = ys @ r # zs" and r: "\<forall>y \<in> set ys. vr_status y \<noteq> StatusError" "vr_status r = StatusError" for ys r zs
  proof -
    have "report_Err rs = first_error rs"
      unfolding first using rs r(2) by (metis in_set_conv_decomp)
    then show ?thesis using first_error_split[OF r] rs by (simp add: codes split: option.splits)
  qed
  show ?thesis using none false err by blast
qed

subsection \<open>The gate of a created index\<close>

text \<open>The catalog agrees with itself about the children of an index, and the names it holds are legal.\<close>

definition coherent :: "verifier_catalog \<Rightarrow> object_name \<Rightarrow> object_name list \<Rightarrow> index_state list \<Rightarrow> bool" where
  "coherent cat parent leaves attached \<longleftrightarrow> vt_cancelled cat = None \<and> vt_attached cat parent = Inr attached \<and>
     validateObject parent = None \<and> (\<forall>l \<in> set leaves. validateObject l = None) \<and>
     (\<forall>x \<in> set attached. validateObject (vs_name x) = None \<and> vt_index cat (vs_name x) = Inr (Some x) \<and>
        (\<exists>g. vt_parent cat (vs_name x) = Inr (Some g) \<and> sameObject parent g))"

lemma by_relation_Some: "by_relation ixs s = Some x \<Longrightarrow> x \<in> set ixs \<and> obj_String (vs_relation x) = s"
  by (auto simp: by_relation_def dest!: map_of_SomeD)

lemma by_relation_None: "by_relation ixs s = None \<longleftrightarrow> s \<notin> (\<lambda>x. obj_String (vs_relation x)) ` set ixs"
  by (auto simp: by_relation_def map_of_eq_None_iff image_iff)

lemma leaf_results_pass:
  assumes "coherent cat parent leaves attached" "l \<in> set leaves"
  shows "report_Passed (leaf_results cat parent attached l) \<longleftrightarrow>
    (\<exists>x. by_relation attached (obj_String l) = Some x \<and> vs_Usable x)"
proof (cases "by_relation attached (obj_String l)")
  case None
  then show ?thesis by (simp add: leaf_results_def report_Passed_def)
next
  case (Some x)
  then have "x \<in> set attached" by (auto dest: by_relation_Some)
  then show ?thesis using assms Some
    by (auto simp: leaf_results_def report_Passed_def Check_pass coherent_def demands_def simple_check_def
        check_Validate_def check_Valid_def validateOptionalObject_def then_check_None vs_Usable_def)
qed

text \<open>C33. The gate for a created index passes exactly when the parent index is valid and the indexes
  attached to it sit one on each leaf partition and nowhere else, all of them valid, ready and live.\<close>

theorem VerifyPartitionedIndex_exact:
  assumes "vt_leaves cat table = Inr leaves" "coherent cat parent leaves attached"
    and "distinct (map obj_String leaves)"
  shows "\<exists>rs. VerifyPartitionedIndex (Some cat) table parent = Inr rs \<and> (report_Passed rs \<longleftrightarrow>
    (\<exists>st. vt_index cat parent = Inr (Some st) \<and> vs_valid st) \<and>
    mset (map (obj_String \<circ> vs_relation) attached) = mset (map obj_String leaves) \<and>
    (\<forall>x \<in> set attached. vs_valid x \<and> vs_ready x \<and> vs_live x))"
proof -
  let ?c1 = "verifier_Check (Some cat) ((simple_check CheckParentIndexValid)\<lparr>vc_parent_index := Some parent\<rparr>)"
  let ?c2 = "verifier_Check (Some cat) ((simple_check CheckLeafIndexCount)\<lparr>vc_parent_index := Some parent,
             vc_expected_count := Some (int (length leaves))\<rparr>)"
  let ?rs = "[?c1, ?c2] @ concat (map (leaf_results cat parent attached) (sortNames leaves))"
  let ?rel = "obj_String \<circ> vs_relation" and ?parent = "\<exists>st. vt_index cat parent = Inr (Some st) \<and> vs_valid st"
  have run: "VerifyPartitionedIndex (Some cat) table parent = Inr ?rs"
    using assms(1,2) by (simp add: VerifyPartitionedIndex_def coherent_def)
  have sorted: "set (sortNames leaves) = set leaves" by (simp add: sortNames_def)
  have "report_Passed ?rs \<longleftrightarrow> vr_status ?c1 = StatusPass \<and> vr_status ?c2 = StatusPass \<and>
      (\<forall>l \<in> set leaves. report_Passed (leaf_results cat parent attached l))"
    by (auto simp: report_Passed_def sorted)
  also have "\<dots> \<longleftrightarrow> ?parent \<and> length attached = length leaves \<and>
      (\<forall>l \<in> set leaves. \<exists>x. by_relation attached (obj_String l) = Some x \<and> vs_Usable x)"
    using leaf_results_pass[OF assms(2)] assms(2)
    by (auto simp: Check_pass demands_def simple_check_def check_Validate_def check_Valid_def coherent_def
        validateOptionalObject_def then_check_None)
  also have "\<dots> \<longleftrightarrow> ?parent \<and> mset (map ?rel attached) = mset (map obj_String leaves) \<and> (\<forall>x \<in> set attached. vs_Usable x)"
  proof (cases "mset (map ?rel attached) = mset (map obj_String leaves)")
    case True
    then have len: "length attached = length leaves" by (metis length_map mset_eq_length)
    have sets: "?rel ` set attached = obj_String ` set leaves" using True by (metis mset_eq_setD set_map)
    have "distinct (map ?rel attached)" using True assms(3) by (metis mset_eq_imp_distinct_iff)
    then have inj: "x \<in> set attached \<Longrightarrow> y \<in> set attached \<Longrightarrow> ?rel x = ?rel y \<Longrightarrow> x = y" for x y
      by (auto simp: distinct_map inj_on_def)
    have "(\<forall>l \<in> set leaves. \<exists>x. by_relation attached (obj_String l) = Some x \<and> vs_Usable x) \<longleftrightarrow> (\<forall>x \<in> set attached. vs_Usable x)"
    proof safe
      fix x assume h: "\<forall>l \<in> set leaves. \<exists>x. by_relation attached (obj_String l) = Some x \<and> vs_Usable x" "x \<in> set attached"
      then obtain l where l: "l \<in> set leaves" "?rel x = obj_String l" using sets by (metis image_iff)
      then obtain y where "by_relation attached (obj_String l) = Some y" "vs_Usable y" using h(1) by blast
      then show "vs_Usable x" using inj[OF h(2), of y] l(2) by_relation_Some[of attached] by fastforce
    next
      fix l assume h: "\<forall>x \<in> set attached. vs_Usable x" "l \<in> set leaves"
      then obtain x where "by_relation attached (obj_String l) = Some x"
        using sets by (cases "by_relation attached (obj_String l)") (auto simp: by_relation_None)
      then show "\<exists>x. by_relation attached (obj_String l) = Some x \<and> vs_Usable x" using h(1) by_relation_Some by blast
    qed
    then show ?thesis using True len by blast
  next
    case False
    have "mset (map ?rel attached) = mset (map obj_String leaves)"
      if here: "length attached = length leaves" "\<forall>l \<in> set leaves. \<exists>x. by_relation attached (obj_String l) = Some x \<and> vs_Usable x"
    proof -
      have "obj_String l \<in> set (map ?rel attached)" if l: "l \<in> set leaves" for l
      proof -
        obtain x where "by_relation attached (obj_String l) = Some x" using here(2) l by blast
        then show ?thesis using by_relation_Some[of attached] by (auto simp: image_iff) metis
      qed
      then have "set (map obj_String leaves) \<subseteq> set (map ?rel attached)" by auto
      then have "set_mset (mset (map obj_String leaves)) \<subseteq> set_mset (mset (map ?rel attached))" by simp
      then have sub: "mset (map obj_String leaves) \<subseteq># mset (map ?rel attached)"
        using subset_imp_msubset_mset_set[of "set (map obj_String leaves)" "set (map ?rel attached)"]
          mset_set_set_mset_msubset[of "mset (map ?rel attached)"] mset_set_set[OF assms(3)]
        by (metis List.finite_set set_mset_mset subset_mset.order_trans)
      have "\<not> mset (map obj_String leaves) \<subset># mset (map ?rel attached)"
        using here(1) mset_subset_size by fastforce
      then show ?thesis using sub by (simp add: subset_mset.le_less)
    qed
    then show ?thesis using False by blast
  qed
  finally show ?thesis using run by (auto simp: vs_Usable_def)
qed

subsection \<open>The gate of a dropped index\<close>

definition absence_names :: "plan \<Rightarrow> object_name \<Rightarrow> object_name list \<Rightarrow> object_name set" where
  "absence_names p parent leaves = {parent} \<union> child_object (obj_name parent) ` set leaves \<union>
     set (recordedChildIndexes (p_nodes p))"

lemma check_recorded_all:
  "(\<forall>r \<in> set (check_recorded v seen cs). P r) \<longleftrightarrow> (\<forall>c \<in> set cs - seen. P (absent_check v c None))"
  by (induction v seen cs rule: check_recorded.induct) auto

lemma absent_check_index [simp]: "vr_index (absent_check v i rel) = Some i"
  by (simp add: absent_check_def)

text \<open>C34. The gate for a dropped index passes exactly when no index exists under any of three kinds of
  name: the target's, the name generated for a leaf of the table as it is now, and every name the plan
  recorded, whether or not its leaf still carries it.\<close>

theorem VerifyIndexAbsentForPlan_exact:
  assumes "vt_leaves cat (tgt_table (p_target p)) = Inr leaves" "tgt_index (p_target p) = Some parent"
    and "vt_cancelled cat = None" "\<forall>l \<in> set leaves. validateObject l = None"
    and "\<forall>x \<in> absence_names p parent leaves. validateObject x = None"
  shows "\<exists>rs. VerifyIndexAbsentForPlan (Some cat) (Some p) = Inr rs \<and>
    (report_Passed rs \<longleftrightarrow> (\<forall>x \<in> absence_names p parent leaves. vt_index cat x = Inr None))"
proof -
  let ?child = "child_object (obj_name parent)"
  obtain r where r: "VerifyIndexAbsent (Some cat) (tgt_table (p_target p)) parent = Inr r"
    "r = absent_check (Some cat) parent None # map (\<lambda>l. absent_check (Some cat) (?child l) (Some l)) (sortNames leaves)"
    using assms(1) by (simp add: VerifyIndexAbsent_def child_object_def)
  let ?seen = "insert parent (set (List.map_filter vr_index r))"
  let ?rest = "check_recorded (Some cat) ?seen (sortNames (recordedChildIndexes (p_nodes p)))"
  have seen: "?seen = {parent} \<union> ?child ` set leaves"
    by (auto simp: r(2) List.map_filter_def sortNames_def image_iff)
  have pass: "vr_status (absent_check (Some cat) x rel) = StatusPass \<longleftrightarrow> vt_index cat x = Inr None"
    if "validateObject x = None" "validateOptionalObject rel = None" for x rel
    using that assms(3) by (auto simp: absent_check_def Check_pass demands_def simple_check_def check_Validate_def
        check_Valid_def validateOptionalObject_def then_check_None)
  have head: "report_Passed r \<longleftrightarrow> vt_index cat parent = Inr None \<and> (\<forall>l \<in> set leaves. vt_index cat (?child l) = Inr None)"
  proof -
    have "vr_status (absent_check (Some cat) parent None) = StatusPass \<longleftrightarrow> vt_index cat parent = Inr None"
      using assms(5) by (intro pass) (simp_all add: absence_names_def validateOptionalObject_def)
    moreover have "vr_status (absent_check (Some cat) (?child l) (Some l)) = StatusPass \<longleftrightarrow> vt_index cat (?child l) = Inr None"
      if "l \<in> set leaves" for l
      using assms(4,5) that by (intro pass) (simp_all add: absence_names_def validateOptionalObject_def)
    ultimately show ?thesis by (simp add: report_Passed_def r(2) sortNames_def)
  qed
  have rest: "report_Passed ?rest \<longleftrightarrow>
      (\<forall>c \<in> set (recordedChildIndexes (p_nodes p)) - ({parent} \<union> ?child ` set leaves). vt_index cat c = Inr None)"
  proof -
    have "report_Passed ?rest \<longleftrightarrow> (\<forall>c \<in> set (sortNames (recordedChildIndexes (p_nodes p))) - ?seen.
        vr_status (absent_check (Some cat) c None) = StatusPass)"
      unfolding report_Passed_def by (rule check_recorded_all)
    moreover have "vr_status (absent_check (Some cat) c None) = StatusPass \<longleftrightarrow> vt_index cat c = Inr None"
      if "c \<in> set (recordedChildIndexes (p_nodes p))" for c
      using assms(5) that by (intro pass) (simp_all add: absence_names_def validateOptionalObject_def)
    ultimately show ?thesis unfolding seen by (simp add: sortNames_def)
  qed
  have "report_Passed (r @ ?rest) \<longleftrightarrow> report_Passed r \<and> report_Passed ?rest" by (auto simp: report_Passed_def)
  also have "\<dots> \<longleftrightarrow> (\<forall>x \<in> absence_names p parent leaves. vt_index cat x = Inr None)"
    unfolding head rest by (auto simp: absence_names_def)
  finally show ?thesis using r(1) assms(2) by (auto simp: VerifyIndexAbsentForPlan_def)
qed

subsection \<open>A concrete catalog\<close>

text \<open>The partitions s.t1 and s.t2 with one attached index each, and the same table after the drop.\<close>

definition ok_index :: "string \<Rightarrow> string \<Rightarrow> index_state" where
  "ok_index n t = \<lparr>vs_name = NewObjectName ''s'' n, vs_relation = NewObjectName ''s'' t, vs_valid = True,
     vs_ready = True, vs_live = True, vs_partitioned = False\<rparr>"

definition ok_rows :: "index_state list" where "ok_rows = [ok_index ''i_t1'' ''t1'', ok_index ''i_t2'' ''t2'']"

definition ok_leaves :: "object_name list" where "ok_leaves = [NewObjectName ''s'' ''t1'', NewObjectName ''s'' ''t2'']"

definition built_view :: verifier_catalog where
  "built_view = \<lparr>vt_index = \<lambda>x. Inr (if x = NewObjectName ''s'' ''i_t1'' then Some (ok_index ''i_t1'' ''t1'')
       else if x = NewObjectName ''s'' ''i_t2'' then Some (ok_index ''i_t2'' ''t2'')
       else Some (ok_index ''i'' ''t'')),
     vt_parent = \<lambda>_. Inr (Some (NewObjectName ''s'' ''i'')), vt_attached = \<lambda>_. Inr ok_rows,
     vt_leaves = \<lambda>_. Inr ok_leaves, vt_tree = \<lambda>_. Inr ok_rows, vt_comment = \<lambda>_. Inr None, vt_cancelled = None\<rparr>"

definition dropped_view :: verifier_catalog where
  "dropped_view = built_view\<lparr>vt_index := \<lambda>_. Inr None, vt_parent := \<lambda>_. Inr None, vt_attached := \<lambda>_. Inr [],
     vt_tree := \<lambda>_. Inr []\<rparr>"

lemma legal_names:
  "validateObject (NewObjectName ''s'' ''i'') = None" "validateObject (NewObjectName ''s'' ''t1'') = None"
  "validateObject (NewObjectName ''s'' ''t2'') = None" "validateObject (NewObjectName ''s'' ''i_t1'') = None"
  "validateObject (NewObjectName ''s'' ''i_t2'') = None" "validateObject (NewObjectName ''s'' ''old'') = None"
  by code_simp+

theorem VerifyPartitionedIndex_exact_witness:
  "\<exists>rs. VerifyPartitionedIndex (Some built_view) (NewObjectName ''s'' ''t'') (NewObjectName ''s'' ''i'') = Inr rs \<and> report_Passed rs"
proof -
  have leaves: "vt_leaves built_view (NewObjectName ''s'' ''t'') = Inr ok_leaves" by (simp add: built_view_def)
  have co: "coherent built_view (NewObjectName ''s'' ''i'') ok_leaves ok_rows"
    by (simp add: coherent_def built_view_def ok_leaves_def ok_rows_def legal_names ok_index_def sameObject_def)
  have d: "distinct (map obj_String ok_leaves)" by (simp add: ok_leaves_def NewObjectName_def obj_String_def)
  have "mset (map (obj_String \<circ> vs_relation) ok_rows) = mset (map obj_String ok_leaves)"
    "\<forall>x \<in> set ok_rows. vs_valid x \<and> vs_ready x \<and> vs_live x"
    "\<exists>st. vt_index built_view (NewObjectName ''s'' ''i'') = Inr (Some st) \<and> vs_valid st"
    by (simp_all add: ok_rows_def ok_leaves_def ok_index_def built_view_def)
  then show ?thesis using VerifyPartitionedIndex_exact[OF leaves co d] by auto
qed

definition dropping_plan :: plan where
  "dropping_plan = sample_plan\<lparr>p_target := \<lparr>tgt_database = ''db'', tgt_table = NewObjectName ''s'' ''t'',
       tgt_index = Some (NewObjectName ''s'' ''i'')\<rparr>,
     p_nodes := [plain_node ''d'' KindIndexDropConcurrently (DropConcurrentlyParams
       \<lparr>dcp_index = NewObjectName ''s'' ''old'', dcp_relation = None, dcp_reason = DropUnattachedOrphan\<rparr>) [] 0]\<rparr>"

lemma dropping_names:
  "absence_names dropping_plan (NewObjectName ''s'' ''i'') ok_leaves
     = {NewObjectName ''s'' ''i'', NewObjectName ''s'' ''i_t1'', NewObjectName ''s'' ''i_t2'', NewObjectName ''s'' ''old''}"
proof -
  have "valid_utf8 ''i_t1''" "valid_utf8 ''i_t2''" by (simp_all add: ascii_valid ascii_def)
  moreover have "\<not> looksTagged ''i_t1''" "\<not> looksTagged ''i_t2''" by (simp_all add: looksTagged_def childNameTagLen_def)
  ultimately have "ChildIndexName ''i'' ''t1'' = ''i_t1''" "ChildIndexName ''i'' ''t2'' = ''i_t2''"
    by (simp_all add: ChildIndexName_cases natural_ok_def MaxIdentifierBytes_def)
  then show ?thesis
    by (auto simp: absence_names_def dropping_plan_def ok_leaves_def child_object_def plain_node_def NewObjectName_def)
qed

theorem VerifyIndexAbsentForPlan_exact_witness:
  "\<exists>rs. VerifyIndexAbsentForPlan (Some dropped_view) (Some dropping_plan) = Inr rs \<and> report_Passed rs"
proof -
  have "\<exists>rs. VerifyIndexAbsentForPlan (Some dropped_view) (Some dropping_plan) = Inr rs \<and> (report_Passed rs \<longleftrightarrow>
      (\<forall>x \<in> absence_names dropping_plan (NewObjectName ''s'' ''i'') ok_leaves. vt_index dropped_view x = Inr None))"
  proof (rule VerifyIndexAbsentForPlan_exact)
    show "\<forall>l \<in> set ok_leaves. validateObject l = None" by (simp add: ok_leaves_def legal_names)
    show "\<forall>x \<in> absence_names dropping_plan (NewObjectName ''s'' ''i'') ok_leaves. validateObject x = None"
      by (simp add: dropping_names legal_names)
  qed (simp_all add: dropped_view_def built_view_def dropping_plan_def)
  then show ?thesis by (simp add: dropped_view_def built_view_def)
qed

theorem report_Err_exit_witness:
  "ExitCodeFor (report_Err [failf (verifier_Check None (simple_check CheckIndexAbsent))]) = ExitVerificationFailed"
  using report_Err_exit[of "[failf (verifier_Check None (simple_check CheckIndexAbsent))]"]
  by (simp add: failf_def report_Passed_def)

end
