(* ===== verification/Propagated_Leaf.thy ===== *)
theory Propagated_Leaf
  imports Create_Index_Properties Verifier_Properties
begin

text \<open>
  Where the create-index planner and its own final verification disagree: a leaf that is complete through
  an index PostgreSQL attached under another name gets no node, and yet the verification demands the
  generated name to be attached.
\<close>

subsection \<open>What a create-index plan touches\<close>

lemma ci_chain_object:
  "n \<in> set (link root (ci_chain req leaf child pidx d b)) \<Longrightarrow> node_Object n = (x, True) \<Longrightarrow> x = child"
  by (auto simp: ci_chain_def ci_nodes node_Object_def Let_def dest!: link_mem split: option.splits if_splits)

lemma ci_Plan_objects:
  assumes "ci_Plan req = Inr ns" "pc_indexes (rq_catalog req) (RelationOIDs (rq_topology req)) = Inr ixs"
    and "n \<in> set ns" "node_Object n = (x, True)"
  shows "x = ci_parent req \<or> (\<exists>c \<in> set (ci_missing req ixs). x = cp_child c)"
proof -
  obtain ixs' need css where p: "pc_indexes (rq_catalog req) (RelationOIDs (rq_topology req)) = Inr ixs'"
    "rmap (\<lambda>c. ci_leafChain req (inspected ixs' (rq_topology req) (ci_parent req)) c (ci_parent req)
       (chain_root (ci_assert req) (ci_up req need))) (ci_children req ixs') = Inr css"
    and ns: "ns = framed_nodes (ci_assert req) (ci_up req need) css
       (ci_finalVerifyNode (ci_parent req) (map cp_child (ci_children req ixs'))
         (tails_or (chain_root (ci_assert req) (ci_up req need)) css))"
    by (rule ci_Plan_Inr[OF assms(1)])
  have ixs: "ixs' = ixs" using p(1) assms(2) by simp
  have frame: "\<nexists>x. node_Object (ci_assert req) = (x, True)" "\<nexists>x. node_Object (ci_finalVerifyNode i chs deps) = (x, True)"
    "node_Object (ci_parentIndexNode req parent i) = (i, True)" for i chs deps parent
    by (simp_all add: node_Object_def ci_assert_def ci_assertNode_def ci_finalVerifyNode_def ci_parentIndexNode_def Let_def)
  consider "n \<in> set (ci_up req need)" | ch where "ch \<in> set css" "n \<in> set ch"
    using assms(3,4) frame(1,2) unfolding ns framed_nodes_def ci_frame_simps ci_up_link by auto
  then show ?thesis
  proof cases
    case 1
    then show ?thesis using assms(4) frame(3) by (auto simp: ci_up_def split: if_splits)
  next
    case 2
    obtain c where c: "c \<in> set (ci_children req ixs)" "ci_leafChain req (inspected ixs (rq_topology req) (ci_parent req)) c
       (ci_parent req) (chain_root (ci_assert req) (ci_up req need)) = Inr ch"
      using rmap_Inr_mem[OF p(2) 2(1)] unfolding ixs by blast
    have "\<not> child_Complete c (ParentIndexOID (inspected ixs (rq_topology req) (ci_parent req))) \<and>
        (\<exists>d b. ch = link (chain_root (ci_assert req) (ci_up req need))
        (ci_chain req (rl_name (cp_leaf c)) (cp_child c) (ci_parent req) d b))"
      using ci_leafChain_cases[OF ci_children_condition[OF c(1)], of req "inspected ixs (rq_topology req) (ci_parent req)"
          "ci_parent req" "chain_root (ci_assert req) (ci_up req need)"] c(2) 2(2)
      by (auto split: option.splits list.splits)
    then show ?thesis using ci_chain_object assms(4) 2(2) c(1) by (auto simp: ci_missing_def)
  qed
qed

subsection \<open>The verification that cannot pass\<close>

text \<open>C22. If a leaf is complete although nothing carries its generated name, the plan names that object
  in no statement, and still its last node demands it to be attached: whatever else the run does, the
  final verification of a converged table fails for as long as the name denotes nothing.\<close>

theorem propagated_leaf_unverifiable:
  assumes "ci_Plan req = Inr ns" "pc_indexes (rq_catalog req) (RelationOIDs (rq_topology req)) = Inr ixs"
    and "c \<in> set (ci_children req ixs)" "cp_existing c = None"
    and "child_Complete c (ParentIndexOID (inspected ixs (rq_topology req) (ci_parent req)))"
    and "vt_parent cat (cp_child c) = Inr None"
  shows "(\<forall>n \<in> set ns. node_Object n \<noteq> (cp_child c, True)) \<and>
    (\<exists>rs. VerifyNode (Some cat) (Some (last ns)) = Inr rs \<and> \<not> report_Passed rs)"
proof -
  obtain ixs' need css where p: "pc_indexes (rq_catalog req) (RelationOIDs (rq_topology req)) = Inr ixs'"
    and ns: "ns = framed_nodes (ci_assert req) (ci_up req need) css
       (ci_finalVerifyNode (ci_parent req) (map cp_child (ci_children req ixs'))
         (tails_or (chain_root (ci_assert req) (ci_up req need)) css))"
    and d: "distinct (map cp_child (ci_children req ixs'))" "\<forall>c \<in> set (ci_children req ixs'). obj_Validate (cp_child c) = None \<and> cp_child c \<noteq> ci_parent req"
    by (rule ci_Plan_Inr[OF assms(1)])
  have ixs: "ixs' = ixs" using p assms(2) by simp
  have "node_Object n \<noteq> (cp_child c, True)" if n: "n \<in> set ns" for n
  proof
    assume "node_Object n = (cp_child c, True)"
    then obtain c' where c': "c' \<in> set (ci_missing req ixs)" "cp_child c = cp_child c'"
      using ci_Plan_objects[OF assms(1,2) n] d(2) assms(3) ixs by auto
    then have "c' = c" using d(1) assms(3) ixs by (auto simp: ci_missing_def distinct_map inj_on_def)
    then show False using c'(1) assms(5) by (simp add: ci_missing_def)
  qed
  moreover obtain cs where cs: "n_params (last ns) = Some (VerifyParams cs)" "n_kind (last ns) = KindIndexVerify"
    "mk_check CheckIndexAttached (Some (cp_child c)) (Some (ci_parent req)) (obj_String (cp_child c)
       @ '' must be attached to '' @ obj_String (ci_parent req) @ '' (FR-VER-2)'') \<in> set cs"
    using assms(3) by (simp add: ns framed_nodes_def ci_finalVerifyNode_def Let_def ixs)
  have "vr_status (verifier_Check (Some cat) (mk_check CheckIndexAttached (Some (cp_child c)) (Some (ci_parent req)) m)) \<noteq> StatusPass" for m
    using assms(6) by (simp add: Check_pass demands_def mk_check_def)
  then have "\<not> report_Passed (map (\<lambda>r. r\<lparr>vr_node := n_id (last ns)\<rparr>) (Verify (Some cat) (Some cs)))"
    using cs(3) by (auto simp: report_Passed_def Verify_def)
  ultimately show ?thesis using cs(1,2) by (simp add: VerifyNode_def)
qed

subsection \<open>A concrete table\<close>

text \<open>s.t1 carries an index that PostgreSQL named t1_a_idx when it attached the partition.\<close>

definition adopted_rows :: "pg_index list" where
  "adopted_rows = [sample_index 30 ''i'' RelKindPartitionedIndex 1 True 0,
     sample_index 31 ''t1_a_idx'' RelKindIndex 2 True 30, sample_index 32 ''i_t2'' RelKindIndex 3 True 30]"

definition adopted :: request where
  "adopted = plan_request OpCreateIndex (sample_catalog\<lparr>pc_indexes := \<lambda>_. Inr adopted_rows\<rparr>)"

lemma adopted_parent: "ci_parent adopted = NewObjectName ''s'' ''i''"
  by (simp add: ci_parent_def adopted_def sample_spec_def in_root_schema_def NewObjectName_def)

lemma adopted_found:
  "find (is_parent_index sample_topo (NewObjectName ''s'' ''i'')) (rev adopted_rows)
     = Some (sample_index 30 ''i'' RelKindPartitionedIndex 1 True 0)"
  by (simp add: is_parent_index_def adopted_rows_def sample_index_def sample_topo_def sample_relation_def NewObjectName_def)

lemma adopted_oid: "ParentIndexOID (inspected adopted_rows sample_topo (NewObjectName ''s'' ''i'')) = 30"
  unfolding inspected_def adopted_found by (simp add: ParentIndexOID_def sample_index_def Let_def)

lemma adopted_children:
  "ci_children adopted adopted_rows = [sample_child adopted_rows 2 ''t1'' ''i_t1'', sample_child adopted_rows 3 ''t2'' ''i_t2'']"
  unfolding ci_children_def adopted_parent by (simp add: adopted_def sample_children)

lemma adopted_complete:
  "child_Complete (sample_child adopted_rows 2 ''t1'' ''i_t1'') 30" "cp_existing (sample_child adopted_rows 2 ''t1'' ''i_t1'') = None"
  "child_Complete (sample_child adopted_rows 3 ''t2'' ''i_t2'') 30" "cp_child (sample_child adopted_rows 2 ''t1'' ''i_t1'') = NewObjectName ''s'' ''i_t1''"
  unfolding sample_child_def adopted_found
  by (simp_all add: inspect_child_def index_on_def adopted_rows_def sample_index_def sample_relation_def Let_def
      NewObjectName_def child_Complete_def child_AttachedTo_def AttachedTo_def condition_Usable_def Condition_def)

lemma adopted_plan: "\<exists>ns. ci_Plan adopted = Inr ns"
proof -
  let ?insp = "inspected adopted_rows sample_topo (NewObjectName ''s'' ''i'')" and ?i = "NewObjectName ''s'' ''i''"
  have insp: "InspectChildren (rq_catalog adopted) (rq_topology adopted) ?i = Inr ?insp"
    by (simp add: adopted_def sample_inspection)
  have names: "ci_checkChildNames ?insp ?i = None"
    unfolding ci_checkChildNames_def sample_children
    by (simp add: sample_child_def obj_Validate_None NewObjectName_def plan_sample_ids)
  have parent: "ci_classifyParentIndex adopted ?insp ?i = Inr False"
    unfolding ci_classifyParentIndex_def inspected_def adopted_found
    by (simp add: sample_index_def condition_Usable_def Condition_def Let_def)
  have "ci_leafChain adopted ?insp c ?i r = Inr []" if "child_Complete c 30" for c r
    using that by (simp add: ci_leafChain_def adopted_oid)
  then have chains: "rmap (\<lambda>c. ci_leafChain adopted ?insp c ?i r) (in_children ?insp) = Inr [[], []]" for r
    by (simp add: sample_children adopted_complete)
  show ?thesis
    unfolding ci_Plan_def Let_def ci_parent_def[symmetric] adopted_parent insp rbind_simps names rcheck_simps parent
    using chains by simp
qed

definition adopted_view :: verifier_catalog where
  "adopted_view = \<lparr>vt_index = \<lambda>_. Inr None, vt_parent = \<lambda>_. Inr None, vt_attached = \<lambda>_. Inr [],
     vt_leaves = \<lambda>_. Inr [], vt_tree = \<lambda>_. Inr [], vt_comment = \<lambda>_. Inr None, vt_cancelled = None\<rparr>"

theorem propagated_leaf_unverifiable_witness:
  "\<exists>ns. ci_Plan adopted = Inr ns \<and> (\<forall>n \<in> set ns. node_Object n \<noteq> (NewObjectName ''s'' ''i_t1'', True))"
proof -
  obtain ns where ns: "ci_Plan adopted = Inr ns" using adopted_plan by blast
  have rows: "pc_indexes (rq_catalog adopted) (RelationOIDs (rq_topology adopted)) = Inr adopted_rows"
    by (simp add: adopted_def)
  have oid: "ParentIndexOID (inspected adopted_rows (rq_topology adopted) (ci_parent adopted)) = 30"
    unfolding adopted_parent by (simp add: adopted_def adopted_oid)
  show ?thesis
    using propagated_leaf_unverifiable[OF ns rows, of "sample_child adopted_rows 2 ''t1'' ''i_t1''" adopted_view] ns
    by (auto simp: adopted_children adopted_complete oid adopted_view_def)
qed

end
