(* ===== verification/Preconditions.thy ===== *)
theory Preconditions
  imports Planner_Topology Planner_Indexes Executor_Ports
begin

text \<open>
  adapters/cli/assert.go: the evaluation of a plan's preconditions against the live catalog when the
  executor dispatches them, with the evaluator's caches as its state.  Of a result the sentence is not
  modelled (\<open>cr_detail\<close> is empty).
\<close>

subsection \<open>The evaluator and its cached reads\<close>

record evaluator =
  ev_relations :: "object_name \<rightharpoonup> relation"
  ev_trees :: "32 word \<rightharpoonup> tree_entry list"
  ev_roles :: "string \<rightharpoonup> (32 word \<rightharpoonup> role_membership)"
  ev_acting :: string

definition newAssertEvaluator :: evaluator where
  "newAssertEvaluator = \<lparr>ev_relations = Map.empty, ev_trees = Map.empty, ev_roles = Map.empty, ev_acting = []\<rparr>"

definition ev_relation :: "planner_catalog \<Rightarrow> object_name option \<Rightarrow> (evaluator, relation) sop" where
  "ev_relation cat name e = (case name of
     None \<Rightarrow> (Inl (Detailf ErrRelationNotFound), e)
   | Some o1 \<Rightarrow> (case ev_relations e o1 of
       Some rel \<Rightarrow> (Inr rel, e)
     | None \<Rightarrow> (case pc_relation cat o1 of
         Inl x \<Rightarrow> (Inl x, e)
       | Inr rel \<Rightarrow> (Inr rel, e\<lparr>ev_relations := (ev_relations e)(o1 \<mapsto> rel)\<rparr>))))"

definition ev_tree :: "planner_catalog \<Rightarrow> 32 word \<Rightarrow> (evaluator, tree_entry list) sop" where
  "ev_tree cat oid e = (case ev_trees e oid of
     Some t \<Rightarrow> (Inr t, e)
   | None \<Rightarrow> (case pc_tree cat oid of
       Inl x \<Rightarrow> (Inl x, e)
     | Inr t \<Rightarrow> (Inr t, e\<lparr>ev_trees := (ev_trees e)(oid \<mapsto> t)\<rparr>)))"

definition actingRole :: "planner_catalog \<Rightarrow> (evaluator, string) sop" where
  "actingRole cat e =
     (if ev_acting e \<noteq> [] then (Inr (ev_acting e), e)
      else (case pc_role cat of Inl x \<Rightarrow> (Inl x, e) | Inr role \<Rightarrow> (Inr role, e\<lparr>ev_acting := role\<rparr>)))"

text \<open>A cached answer that lacks the owner is refreshed, and the fresh entries are merged into it.\<close>

definition ev_membership ::
    "planner_catalog \<Rightarrow> string \<Rightarrow> 32 word \<Rightarrow> (evaluator, 32 word \<rightharpoonup> role_membership) sop" where
  "ev_membership cat role owner e =
     (let cached = (case ev_roles e role of Some ms \<Rightarrow> ms | None \<Rightarrow> Map.empty) in
      if cached owner \<noteq> None then (Inr cached, e)
      else (case pc_memberships cat role [owner] of
        Inl x \<Rightarrow> (Inl x, e)
      | Inr fresh \<Rightarrow> (Inr (cached ++ fresh), e\<lparr>ev_roles := (ev_roles e)(role \<mapsto> cached ++ fresh)\<rparr>)))"

subsection \<open>One assertion\<close>

definition verdict :: "assertion \<Rightarrow> bool \<Rightarrow> check_result" where
  "verdict a b = \<lparr>cr_name = assertion_String (asrt_kind a), cr_passed = b, cr_detail = [],
     cr_failure_code = asrt_failure_code a\<rparr>"

text \<open>A relation that is not there is a false assertion, any other failure to read it an error.\<close>

definition with_relation ::
    "planner_catalog \<Rightarrow> assertion \<Rightarrow> (relation \<Rightarrow> (evaluator, check_result) sop) \<Rightarrow> (evaluator, check_result) sop" where
  "with_relation cat a k = stry (ev_relation cat (asrt_relation a)) (\<lambda>r. case r of
     Inl e \<Rightarrow> if err_is e (OtherKind ''relation_not_found'') then sreturn (verdict a False) else sfail e
   | Inr rel \<Rightarrow> k rel)"

text \<open>\<open>absent\<close> is the verdict when the index does not exist.\<close>

definition with_index ::
    "planner_catalog \<Rightarrow> assertion \<Rightarrow> bool \<Rightarrow> (pg_index \<Rightarrow> (evaluator, check_result) sop) \<Rightarrow> (evaluator, check_result) sop" where
  "with_index cat a absent k = (case asrt_index a of
     None \<Rightarrow> sreturn (verdict a False)
   | Some name \<Rightarrow> (case pc_index cat name of
       Inl e \<Rightarrow> if err_is e (OtherKind ''index_not_found'') then sreturn (verdict a absent) else sfail e
     | Inr idx \<Rightarrow> k idx))"

definition tree_depth :: "tree_entry list \<Rightarrow> int" where
  "tree_depth es = foldl (\<lambda>d t. if te_level t > d then te_level t else d) 0 es"

text \<open>\<open>strconv.Atoi\<close>: an optional sign and decimal digits, within the range of an int.\<close>

definition Atoi :: "string \<Rightarrow> int option" where
  "Atoi s = (let (neg, ds) = (case s of [] \<Rightarrow> (False, [])
         | c # cs \<Rightarrow> if c = CHR ''-'' then (True, cs) else if c = CHR ''+'' then (False, cs) else (False, s));
       n = foldl (\<lambda>n c. 10 * n + (int (of_char c) - 48)) 0 ds; v = (if neg then - n else n) in
     if ds \<noteq> [] \<and> list_all (\<lambda>c. c \<in> set ''0123456789'') ds \<and> - (2 ^ 63) \<le> v \<and> v < 2 ^ 63 then Some v else None)"

definition depth_wanted :: "string list \<Rightarrow> int option" where
  "depth_wanted expected = (case expected of [] \<Rightarrow> Some 1 | s # _ \<Rightarrow> Atoi s)"

definition default_entry :: "32 word \<Rightarrow> tree_entry \<Rightarrow> bool" where
  "default_entry oid t \<longleftrightarrow> rl_oid (te_relation t) \<noteq> oid \<and>
     (rl_default (te_relation t) \<or> IsDefaultBound (rl_bound (te_relation t)))"

definition in_progress_build :: "claim_lookup \<Rightarrow> planner_catalog \<Rightarrow> pg_index \<Rightarrow> err + bool" where
  "in_progress_build claims cat idx =
     rbind (IndexMarker cat (ix_name idx)) (\<lambda>(marker, status).
     rbind (if status = MarkerAbsent then claims (ix_name idx) else Inr None) (\<lambda>found.
     Inr (Satisfied (DecideProvenanceDrop \<lparr>pdi_object = ix_name idx, pdi_status = status, pdi_marker = marker,
       pdi_claim_run = (case found of Some run \<Rightarrow> run | None \<Rightarrow> [])\<rparr>))))"

definition leaves_attached :: "planner_catalog \<Rightarrow> pg_index \<Rightarrow> tree_entry list \<Rightarrow> err + bool" where
  "leaves_attached cat parent entries =
     rbind (pc_indexes cat (map (rl_oid \<circ> te_relation) entries)) (\<lambda>idxs.
     Inr (length (filter (\<lambda>i. AttachedTo i (ix_oid parent)) idxs) = length (filter te_leaf entries)))"

definition assert_one :: "planner_catalog \<Rightarrow> claim_lookup \<Rightarrow> assertion \<Rightarrow> (evaluator, check_result) sop" where
  "assert_one cat claims a = (case asrt_kind a of
     AssertRelationIsPartitioned \<Rightarrow>
       with_relation cat a (\<lambda>rel. sreturn (verdict a (rl_kind rel = RelKindPartitionedTable)))
   | AssertPartitionStrategy \<Rightarrow>
       with_relation cat a (\<lambda>rel. sbind (lift_result (pc_strategy cat (rl_oid rel))) (\<lambda>strategy.
         sreturn (verdict a (strategy_String strategy \<in> set (asrt_expected a)))))
   | AssertPartitionDepth \<Rightarrow>
       with_relation cat a (\<lambda>rel. sbind (ev_tree cat (rl_oid rel)) (\<lambda>entries.
         sreturn (verdict a (depth_wanted (asrt_expected a) = Some (tree_depth entries)))))
   | AssertNoDefaultPartition \<Rightarrow>
       with_relation cat a (\<lambda>rel. sbind (ev_tree cat (rl_oid rel)) (\<lambda>entries.
         sreturn (verdict a (\<not> list_ex (default_entry (rl_oid rel)) entries))))
   | AssertRoleMembership \<Rightarrow>
       if asrt_role a = [] then sreturn (verdict a False)
       else with_relation cat a (\<lambda>rel. sbind (actingRole cat) (\<lambda>acting.
         sbind (ev_membership cat acting (rl_owner_oid rel)) (\<lambda>memberships.
         sreturn (verdict a (case memberships (rl_owner_oid rel) of None \<Rightarrow> False | Some m \<Rightarrow> rm_member m)))))
   | AssertIndexNameAvailable \<Rightarrow>
       with_index cat a True (\<lambda>idx. if condition_Usable (Condition idx) then sreturn (verdict a True)
         else sbind (lift_result (in_progress_build claims cat idx)) (\<lambda>ours. sreturn (verdict a ours)))
   | AssertIndexExists \<Rightarrow> with_index cat a False (\<lambda>idx. sreturn (verdict a True))
   | AssertIndexIsPartitioned \<Rightarrow>
       with_index cat a False (\<lambda>idx. sreturn (verdict a (ix_kind idx = RelKindPartitionedIndex \<and>
         (case asrt_relation a of None \<Rightarrow> True | Some r \<Rightarrow> ix_table idx = r))))
   | AssertIndexNotConstraintBacked \<Rightarrow>
       with_index cat a False (\<lambda>idx. sreturn (verdict a (\<not> ConstraintBacked idx)))
   | AssertLeavesAttached \<Rightarrow>
       with_index cat a False (\<lambda>parent. with_relation cat a (\<lambda>rel. sbind (ev_tree cat (rl_oid rel)) (\<lambda>entries.
         sbind (lift_result (leaves_attached cat parent entries)) (\<lambda>all_attached. sreturn (verdict a all_attached)))))
   | UnknownAssertion s \<Rightarrow> sreturn (verdict a False))"

definition Evaluate :: "planner_catalog \<Rightarrow> claim_lookup \<Rightarrow> assertion list \<Rightarrow> (evaluator, check_result list) sop" where
  "Evaluate cat claims as = smap (assert_one cat claims) as"

subsection \<open>The same questions without a cache\<close>

definition on_relation :: "planner_catalog \<Rightarrow> assertion \<Rightarrow> (relation \<Rightarrow> err + bool) \<Rightarrow> err + bool" where
  "on_relation cat a k = (case asrt_relation a of None \<Rightarrow> Inr False
   | Some name \<Rightarrow> (case pc_relation cat name of
       Inl e \<Rightarrow> if err_is e (OtherKind ''relation_not_found'') then Inr False else Inl e
     | Inr rel \<Rightarrow> k rel))"

definition on_index :: "planner_catalog \<Rightarrow> assertion \<Rightarrow> bool \<Rightarrow> (pg_index \<Rightarrow> err + bool) \<Rightarrow> err + bool" where
  "on_index cat a absent k = (case asrt_index a of None \<Rightarrow> Inr False
   | Some name \<Rightarrow> (case pc_index cat name of
       Inl e \<Rightarrow> if err_is e (OtherKind ''index_not_found'') then Inr absent else Inl e
     | Inr idx \<Rightarrow> k idx))"

definition member_now :: "planner_catalog \<Rightarrow> 32 word \<Rightarrow> err + bool" where
  "member_now cat owner = rbind (pc_role cat) (\<lambda>role. rbind (pc_memberships cat role [owner]) (\<lambda>ms.
     Inr (case ms owner of None \<Rightarrow> False | Some m \<Rightarrow> rm_member m)))"

definition assertion_holds :: "planner_catalog \<Rightarrow> claim_lookup \<Rightarrow> assertion \<Rightarrow> err + bool" where
  "assertion_holds cat claims a = (case asrt_kind a of
     AssertRelationIsPartitioned \<Rightarrow> on_relation cat a (\<lambda>rel. Inr (rl_kind rel = RelKindPartitionedTable))
   | AssertPartitionStrategy \<Rightarrow> on_relation cat a (\<lambda>rel. rbind (pc_strategy cat (rl_oid rel)) (\<lambda>s.
       Inr (strategy_String s \<in> set (asrt_expected a))))
   | AssertPartitionDepth \<Rightarrow> on_relation cat a (\<lambda>rel. rbind (pc_tree cat (rl_oid rel)) (\<lambda>es.
       Inr (depth_wanted (asrt_expected a) = Some (tree_depth es))))
   | AssertNoDefaultPartition \<Rightarrow> on_relation cat a (\<lambda>rel. rbind (pc_tree cat (rl_oid rel)) (\<lambda>es.
       Inr (\<not> list_ex (default_entry (rl_oid rel)) es)))
   | AssertRoleMembership \<Rightarrow>
       if asrt_role a = [] then Inr False else on_relation cat a (\<lambda>rel. member_now cat (rl_owner_oid rel))
   | AssertIndexNameAvailable \<Rightarrow>
       on_index cat a True (\<lambda>idx. if condition_Usable (Condition idx) then Inr True else in_progress_build claims cat idx)
   | AssertIndexExists \<Rightarrow> on_index cat a False (\<lambda>idx. Inr True)
   | AssertIndexIsPartitioned \<Rightarrow>
       on_index cat a False (\<lambda>idx. Inr (ix_kind idx = RelKindPartitionedIndex \<and>
         (case asrt_relation a of None \<Rightarrow> True | Some r \<Rightarrow> ix_table idx = r)))
   | AssertIndexNotConstraintBacked \<Rightarrow> on_index cat a False (\<lambda>idx. Inr (\<not> ConstraintBacked idx))
   | AssertLeavesAttached \<Rightarrow>
       on_index cat a False (\<lambda>parent. on_relation cat a (\<lambda>rel. rbind (pc_tree cat (rl_oid rel)) (leaves_attached cat parent)))
   | UnknownAssertion s \<Rightarrow> Inr False)"

end
