(* ===== verification/Preconditions_Properties.thy ===== *)
theory Preconditions_Properties
  imports Preconditions
begin

text \<open>
  The caches of the precondition evaluator are invisible: as long as the catalog is one snapshot, the
  results are those of asking it anew for every assertion.
\<close>

subsection \<open>Reads through a state\<close>

text \<open>\<open>m\<close> yields \<open>x\<close> from every valid state and keeps the state valid.\<close>

definition reads :: "('s \<Rightarrow> bool) \<Rightarrow> ('s, 'a) sop \<Rightarrow> err + 'a \<Rightarrow> bool" where
  "reads valid m x \<longleftrightarrow> (\<forall>s. valid s \<longrightarrow> (\<exists>s'. m s = (x, s') \<and> valid s'))"

named_theorems reads_intros

lemma reads_sreturn [reads_intros]: "reads v (sreturn x) (Inr x)"
  and reads_sfail [reads_intros]: "reads v (sfail e) (Inl e)"
  and reads_lift_result [reads_intros]: "reads v (lift_result r) r"
  by (simp_all add: reads_def sreturn_def sfail_def lift_result_def)

lemma reads_sbind:
  assumes "reads v m x" "\<And>y. x = Inr y \<Longrightarrow> reads v (f y) (g y)"
  shows "reads v (sbind m f) (rbind x g)"
  unfolding reads_def
proof (intro allI impI)
  fix s assume "v s"
  then obtain s' where s': "m s = (x, s')" "v s'" using assms(1) by (auto simp: reads_def)
  show "\<exists>s'. sbind m f s = (rbind x g, s') \<and> v s'"
  proof (cases x)
    case (Inl e)
    then show ?thesis using s' by (auto simp: sbind_def)
  next
    case (Inr y)
    then show ?thesis using s' assms(2)[OF Inr] by (auto simp: sbind_def reads_def)
  qed
qed

lemma reads_stry:
  assumes "reads v m x" "reads v (f x) y" shows "reads v (stry m f) y"
  using assms unfolding reads_def stry_def by fastforce

lemma reads_smap:
  assumes "\<And>x. x \<in> set xs \<Longrightarrow> reads v (f x) (g x)" shows "reads v (smap f xs) (rmap g xs)"
  using assms by (induction xs) (auto intro!: reads_sbind reads_intros)

subsection \<open>The caches\<close>

text \<open>What a cache holds is what the catalog answers.\<close>

definition faithful :: "planner_catalog \<Rightarrow> evaluator \<Rightarrow> bool" where
  "faithful cat e \<longleftrightarrow>
     (\<forall>o1 r. ev_relations e o1 = Some r \<longrightarrow> pc_relation cat o1 = Inr r) \<and>
     (\<forall>oid t. ev_trees e oid = Some t \<longrightarrow> pc_tree cat oid = Inr t) \<and>
     (ev_acting e \<noteq> [] \<longrightarrow> pc_role cat = Inr (ev_acting e)) \<and>
     (\<forall>role ms oid m. ev_roles e role = Some ms \<and> ms oid = Some m \<longrightarrow>
        (\<exists>ms'. pc_memberships cat role [oid] = Inr ms' \<and> ms' oid = Some m))"

text \<open>The membership of one owner does not depend on which other owners are asked about with it.\<close>

definition answers_per_owner :: "planner_catalog \<Rightarrow> bool" where
  "answers_per_owner cat \<longleftrightarrow> (\<forall>role oids ms oid m. pc_memberships cat role oids = Inr ms \<and> ms oid = Some m \<longrightarrow>
     (\<exists>ms'. pc_memberships cat role [oid] = Inr ms' \<and> ms' oid = Some m))"

lemma faithful_new [simp]: "faithful cat newAssertEvaluator"
  by (simp add: faithful_def newAssertEvaluator_def)

lemma reads_relation: "reads (faithful cat) (ev_relation cat (Some o1)) (pc_relation cat o1)"
  by (auto simp: reads_def ev_relation_def faithful_def split: option.splits sum.splits)

lemma reads_tree [reads_intros]: "reads (faithful cat) (ev_tree cat oid) (pc_tree cat oid)"
  by (auto simp: reads_def ev_tree_def faithful_def split: option.splits sum.splits)

lemma reads_acting [reads_intros]: "reads (faithful cat) (actingRole cat) (pc_role cat)"
  by (auto simp: reads_def actingRole_def faithful_def split: sum.splits)

text \<open>The cached table answers as a fresh one does, for the owner that was asked about.\<close>

lemma ev_membership_cases:
  assumes "faithful cat e" "answers_per_owner cat"
  shows "\<exists>e'. faithful cat e' \<and> (case pc_memberships cat role [owner] of
       Inl x \<Rightarrow> ev_membership cat role owner e = (Inl x, e')
     | Inr ms \<Rightarrow> \<exists>ms'. ev_membership cat role owner e = (Inr ms', e') \<and> ms' owner = ms owner)"
proof -
  define cached where "cached = (case ev_roles e role of Some ms \<Rightarrow> ms | None \<Rightarrow> Map.empty)"
  have hit: "\<exists>ms'. pc_memberships cat role [oid] = Inr ms' \<and> ms' oid = Some m" if "cached oid = Some m" for oid m
    using assms(1) that by (auto simp: cached_def faithful_def split: option.splits)
  show ?thesis
  proof (cases "cached owner")
    case (Some m)
    have ev: "ev_membership cat role owner e = (Inr cached, e)"
      using Some by (simp add: ev_membership_def Let_def flip: cached_def)
    obtain ms' where "pc_memberships cat role [owner] = Inr ms'" "ms' owner = Some m" using hit[OF Some] by blast
    then show ?thesis using assms(1) Some ev by simp
  next
    case miss: None
    show ?thesis
    proof (cases "pc_memberships cat role [owner]")
      case (Inl x)
      then show ?thesis using miss assms(1) by (simp add: ev_membership_def Let_def flip: cached_def)
    next
      case (Inr fresh)
      have ev: "ev_membership cat role owner e =
          (Inr (cached ++ fresh), e\<lparr>ev_roles := (ev_roles e)(role \<mapsto> cached ++ fresh)\<rparr>)"
        using miss Inr by (simp add: ev_membership_def Let_def flip: cached_def)
      have "\<exists>ms'. pc_memberships cat role [oid] = Inr ms' \<and> ms' oid = Some m" if "(cached ++ fresh) oid = Some m" for oid m
        using that hit[of oid m] assms(2) Inr unfolding answers_per_owner_def map_add_Some_iff by blast
      then have "faithful cat (e\<lparr>ev_roles := (ev_roles e)(role \<mapsto> cached ++ fresh)\<rparr>)"
        using assms(1) by (auto simp: faithful_def)
      then show ?thesis using ev Inr miss by (simp add: map_add_def split: option.split)
    qed
  qed
qed

lemma reads_member:
  assumes "answers_per_owner cat"
  shows "reads (faithful cat) (sbind (actingRole cat) (\<lambda>acting. sbind (ev_membership cat acting owner)
     (\<lambda>ms. sreturn (verdict a (case ms owner of None \<Rightarrow> False | Some m \<Rightarrow> rm_member m)))))
    (rbind (member_now cat owner) (\<lambda>b. Inr (verdict a b)))"
proof -
  have "reads (faithful cat) (sbind (ev_membership cat role owner)
      (\<lambda>ms. sreturn (verdict a (case ms owner of None \<Rightarrow> False | Some m \<Rightarrow> rm_member m))))
      (rbind (pc_memberships cat role [owner]) (\<lambda>ms. Inr (verdict a (case ms owner of None \<Rightarrow> False | Some m \<Rightarrow> rm_member m))))" for role
    unfolding reads_def
  proof (intro allI impI)
    fix e assume "faithful cat e"
    from ev_membership_cases[OF this assms, of role owner]
    obtain e' where "faithful cat e'" "case pc_memberships cat role [owner] of
       Inl x \<Rightarrow> ev_membership cat role owner e = (Inl x, e')
     | Inr ms \<Rightarrow> \<exists>ms'. ev_membership cat role owner e = (Inr ms', e') \<and> ms' owner = ms owner" by blast
    then
    show "\<exists>e'. sbind (ev_membership cat role owner) (\<lambda>ms. sreturn (verdict a (case ms owner of None \<Rightarrow> False | Some m \<Rightarrow> rm_member m))) e
        = (rbind (pc_memberships cat role [owner]) (\<lambda>ms. Inr (verdict a (case ms owner of None \<Rightarrow> False | Some m \<Rightarrow> rm_member m))), e')
       \<and> faithful cat e'"
      by (auto simp: sbind_def sreturn_def split: sum.splits)
  qed
  then have "reads (faithful cat) (sbind (actingRole cat) (\<lambda>acting. sbind (ev_membership cat acting owner)
     (\<lambda>ms. sreturn (verdict a (case ms owner of None \<Rightarrow> False | Some m \<Rightarrow> rm_member m)))))
    (rbind (pc_role cat) (\<lambda>role. rbind (pc_memberships cat role [owner])
       (\<lambda>ms. Inr (verdict a (case ms owner of None \<Rightarrow> False | Some m \<Rightarrow> rm_member m)))))"
    by (rule reads_sbind[OF reads_acting])
  moreover have "rbind (pc_role cat) (\<lambda>role. rbind (pc_memberships cat role [owner])
       (\<lambda>ms. Inr (verdict a (case ms owner of None \<Rightarrow> False | Some m \<Rightarrow> rm_member m))))
    = rbind (member_now cat owner) (\<lambda>b. Inr (verdict a b))"
    by (simp add: member_now_def rbind_def split: sum.split)
  ultimately show ?thesis by simp
qed

subsection \<open>The evaluator\<close>

lemma reads_with_relation:
  assumes "\<And>rel. reads (faithful cat) (k rel) (rbind (g rel) (\<lambda>b. Inr (verdict a b)))"
  shows "reads (faithful cat) (with_relation cat a k) (rbind (on_relation cat a g) (\<lambda>b. Inr (verdict a b)))"
proof (cases "asrt_relation a")
  case None
  have "err_is (Detailf ErrRelationNotFound) (OtherKind ''relation_not_found'')"
    by (simp add: ErrRelationNotFound_def)
  then show ?thesis using None
    by (simp add: reads_def with_relation_def on_relation_def ev_relation_def stry_def sreturn_def)
next
  case (Some o1)
  have "reads (faithful cat) (case pc_relation cat o1 of
      Inl e \<Rightarrow> if err_is e (OtherKind ''relation_not_found'') then sreturn (verdict a False) else sfail e
    | Inr rel \<Rightarrow> k rel) (rbind (on_relation cat a g) (\<lambda>b. Inr (verdict a b)))"
    using Some assms by (auto simp: on_relation_def intro!: reads_intros split: sum.split)
  then show ?thesis unfolding with_relation_def Some by (rule reads_stry[OF reads_relation])
qed

lemma reads_with_index:
  assumes "\<And>idx. reads v (k idx) (rbind (g idx) (\<lambda>b. Inr (verdict a b)))"
  shows "reads v (with_index cat a absent k) (rbind (on_index cat a absent g) (\<lambda>b. Inr (verdict a b)))"
  using assms by (auto simp: with_index_def on_index_def intro!: reads_intros split: option.split sum.split)

lemma reads_verdict [reads_intros]: "reads v (sreturn (verdict a b)) (rbind (Inr b) (\<lambda>b. Inr (verdict a b)))"
  by (simp add: reads_sreturn)

lemma reads_then:
  assumes "reads v m x" "\<And>y. x = Inr y \<Longrightarrow> reads v (f y) (rbind (g y) h)"
  shows "reads v (sbind m f) (rbind (rbind x g) h)"
proof -
  have "rbind (rbind x g) h = rbind x (\<lambda>y. rbind (g y) h)" by (cases x) simp_all
  then show ?thesis using reads_sbind[OF assms] by simp
qed

lemma reads_judged [reads_intros]:
  "reads v (sbind (lift_result x) (\<lambda>b. sreturn (verdict a b))) (rbind x (\<lambda>b. Inr (verdict a b)))"
  by (intro reads_sbind reads_intros)

lemma reads_assert_one:
  assumes "answers_per_owner cat"
  shows "reads (faithful cat) (assert_one cat claims a) (rbind (assertion_holds cat claims a) (\<lambda>b. Inr (verdict a b)))"
proof (cases "asrt_kind a")
  case AssertRelationIsPartitioned
  show ?thesis unfolding assert_one_def assertion_holds_def AssertRelationIsPartitioned assertion_kind.case
    by (intro reads_with_relation reads_intros)
next
  case AssertPartitionStrategy
  show ?thesis unfolding assert_one_def assertion_holds_def AssertPartitionStrategy assertion_kind.case
    by (intro reads_with_relation reads_then reads_intros)
next
  case AssertPartitionDepth
  show ?thesis unfolding assert_one_def assertion_holds_def AssertPartitionDepth assertion_kind.case
    by (intro reads_with_relation reads_then reads_intros)
next
  case AssertNoDefaultPartition
  show ?thesis unfolding assert_one_def assertion_holds_def AssertNoDefaultPartition assertion_kind.case
    by (intro reads_with_relation reads_then reads_intros)
next
  case AssertRoleMembership
  show ?thesis unfolding assert_one_def assertion_holds_def AssertRoleMembership assertion_kind.case
    by (auto intro!: reads_with_relation reads_member[OF assms] reads_intros)
next
  case AssertIndexNameAvailable
  have "reads (faithful cat) (if condition_Usable (Condition idx) then sreturn (verdict a True)
      else sbind (lift_result (in_progress_build claims cat idx)) (\<lambda>ours. sreturn (verdict a ours)))
    (rbind (if condition_Usable (Condition idx) then Inr True else in_progress_build claims cat idx)
      (\<lambda>b. Inr (verdict a b)))" for idx
    by (cases "condition_Usable (Condition idx)") (simp_all only: if_True if_False simp_thms reads_intros)
  then show ?thesis unfolding assert_one_def assertion_holds_def AssertIndexNameAvailable assertion_kind.case
    by (rule reads_with_index)
next
  case AssertLeavesAttached
  show ?thesis unfolding assert_one_def assertion_holds_def AssertLeavesAttached assertion_kind.case
    by (intro reads_with_index reads_with_relation reads_then reads_intros)
qed (simp_all add: assert_one_def assertion_holds_def reads_with_index reads_sreturn)

lemma Evaluate_uncached_from:
  assumes "answers_per_owner cat" "faithful cat e"
  shows "\<exists>e'. Evaluate cat claims as e
     = (rmap (\<lambda>a. rbind (assertion_holds cat claims a) (\<lambda>b. Inr (verdict a b))) as, e') \<and> faithful cat e'"
proof -
  have "reads (faithful cat) (Evaluate cat claims as)
      (rmap (\<lambda>a. rbind (assertion_holds cat claims a) (\<lambda>b. Inr (verdict a b))) as)"
    unfolding Evaluate_def by (rule reads_smap) (rule reads_assert_one[OF assms(1)])
  then show ?thesis using assms(2) by (simp add: reads_def)
qed

text \<open>C36. The caches of the evaluator are invisible: over one snapshot of the catalog, whose answer about
  one owner does not depend on the others asked about, an evaluation, and a second one on the caches it
  leaves, returns what asking the catalog anew for every assertion returns, its first failure to read
  included.\<close>

theorem Evaluate_uncached:
  assumes "answers_per_owner cat"
  shows "fst (Evaluate cat claims as newAssertEvaluator)
      = rmap (\<lambda>a. rbind (assertion_holds cat claims a) (\<lambda>b. Inr (verdict a b))) as \<and>
    fst (Evaluate cat claims bs (snd (Evaluate cat claims as newAssertEvaluator)))
      = rmap (\<lambda>a. rbind (assertion_holds cat claims a) (\<lambda>b. Inr (verdict a b))) bs"
proof -
  obtain e' where e: "Evaluate cat claims as newAssertEvaluator
     = (rmap (\<lambda>a. rbind (assertion_holds cat claims a) (\<lambda>b. Inr (verdict a b))) as, e')" "faithful cat e'"
    using Evaluate_uncached_from[OF assms faithful_new] by blast
  obtain e2 where "Evaluate cat claims bs e'
     = (rmap (\<lambda>a. rbind (assertion_holds cat claims a) (\<lambda>b. Inr (verdict a b))) bs, e2)"
    using Evaluate_uncached_from[OF assms e(2)] by blast
  then show ?thesis using e(1) by simp
qed

end
