(* ===== verification/Preconditions_Planned.thy ===== *)
theory Preconditions_Planned
  imports Preconditions_Properties Planner_Host_Properties
begin

text \<open>
  The preconditions a plan records are those its planning pass established: evaluated against the
  catalog the plan was made from, the executor's judgment of them is that all hold.  What this needs of
  the catalog is that its views of one snapshot agree with each other.
\<close>

subsection \<open>Views of one snapshot\<close>

text \<open>A name leads to one relation, and the rows of a partition tree are the relations their names lead
  to: the root at level 0, which is no leaf, and everything else below it, each once.\<close>

definition tree_view :: "planner_catalog \<Rightarrow> relation \<Rightarrow> tree_entry list \<Rightarrow> bool" where
  "tree_view cat root1 es \<longleftrightarrow> distinct (map (rl_oid \<circ> te_relation) es) \<and> (\<forall>e \<in> set es. 0 \<le> te_level e \<and>
     (te_level e = 0 \<longleftrightarrow> rl_oid (te_relation e) = rl_oid root1) \<and> (te_level e = 0 \<longrightarrow> \<not> te_leaf e) \<and>
     (\<exists>r. pc_relation cat (rl_name (te_relation e)) = Inr r \<and> rl_name r = rl_name (te_relation e) \<and>
        rl_oid r = rl_oid (te_relation e) \<and> rl_owner_oid r = rl_owner_oid (te_relation e)))"

definition coherent_relations :: "planner_catalog \<Rightarrow> bool" where
  "coherent_relations cat \<longleftrightarrow>
     (\<forall>x r y r'. pc_relation cat x = Inr r \<and> pc_relation cat y = Inr r' \<and> rl_oid r = rl_oid r' \<longrightarrow> r = r') \<and>
     (\<forall>x r. pc_relation cat x = Inr r \<longrightarrow> obj_schema (rl_name r) \<noteq> []) \<and>
     (\<forall>x r es. pc_relation cat x = Inr r \<and> rl_kind r = RelKindPartitionedTable \<and> pc_tree cat (rl_oid r) = Inr es \<longrightarrow>
        tree_view cat r es) \<and>
     pc_role cat \<noteq> Inr [] \<and> answers_per_owner cat"

text \<open>The index rows of a set of relations, a look-up by name and the comment of an index all speak of
  the same indexes; an index is attached to an index of another relation.\<close>

definition coherent_indexes :: "planner_catalog \<Rightarrow> bool" where
  "coherent_indexes cat \<longleftrightarrow>
     (\<forall>x e. pc_index cat x = Inl e \<longrightarrow> err_is e (OtherKind ''index_not_found'')) \<and>
     (\<forall>x i. pc_index cat x = Inr i \<longrightarrow> pc_index cat (ix_name i) = Inr i \<and>
        (obj_schema x \<noteq> [] \<longrightarrow> ix_name i = x) \<and> IndexMarker cat (ix_name i) = Inr (index_Marker i)) \<and>
     (\<forall>x i y r. pc_index cat x = Inr i \<and> pc_relation cat y = Inr r \<and> ix_table_oid i = rl_oid r \<longrightarrow> ix_table i = rl_name r) \<and>
     (\<exists>rows. (\<forall>oids. \<exists>ixs. pc_indexes cat oids = Inr ixs \<and> mset ixs = filter_mset (\<lambda>i. ix_table_oid i \<in> set oids) (mset rows)) \<and>
        (\<forall>i \<in> set rows. pc_index cat (ix_name i) = Inr i) \<and>
        (\<forall>x p. pc_index cat x = Inr p \<longrightarrow> p \<in> set rows \<and>
           (\<forall>i \<in> set rows. AttachedTo i (ix_oid p) \<longrightarrow> ix_table_oid i \<noteq> ix_table_oid p)))"

lemma coherent_rows:
  assumes "coherent_indexes cat"
  obtains rows where "\<And>oids ixs. pc_indexes cat oids = Inr ixs \<Longrightarrow>
      mset ixs = filter_mset (\<lambda>i. ix_table_oid i \<in> set oids) (mset rows)"
    and "\<And>i. i \<in> set rows \<Longrightarrow> pc_index cat (ix_name i) = Inr i"
    and "\<And>x p. pc_index cat x = Inr p \<Longrightarrow> p \<in> set rows"
    and "\<And>x p i. pc_index cat x = Inr p \<Longrightarrow> i \<in> set rows \<Longrightarrow> AttachedTo i (ix_oid p) \<Longrightarrow> ix_table_oid i \<noteq> ix_table_oid p"
proof -
  obtain rows where r: "\<forall>oids. \<exists>ixs. pc_indexes cat oids = Inr ixs \<and> mset ixs = filter_mset (\<lambda>i. ix_table_oid i \<in> set oids) (mset rows)"
    "\<forall>i \<in> set rows. pc_index cat (ix_name i) = Inr i"
    "\<forall>x p. pc_index cat x = Inr p \<longrightarrow> p \<in> set rows \<and>
       (\<forall>i \<in> set rows. AttachedTo i (ix_oid p) \<longrightarrow> ix_table_oid i \<noteq> ix_table_oid p)"
    using assms unfolding coherent_indexes_def by blast
  have "mset ixs = filter_mset (\<lambda>i. ix_table_oid i \<in> set oids) (mset rows)" if here: "pc_indexes cat oids = Inr ixs" for oids ixs
  proof -
    obtain ixs' where "pc_indexes cat oids = Inr ixs'" "mset ixs' = filter_mset (\<lambda>i. ix_table_oid i \<in> set oids) (mset rows)"
      using r(1) by blast
    then show ?thesis using here by simp
  qed
  then show ?thesis using that r(2,3) by blast
qed

lemma listed_found:
  assumes "coherent_indexes cat" "pc_indexes cat oids = Inr ixs" "i \<in> set ixs"
  shows "pc_index cat (ix_name i) = Inr i" "ix_table_oid i \<in> set oids"
proof -
  obtain rows where r: "mset ixs = filter_mset (\<lambda>i. ix_table_oid i \<in> set oids) (mset rows)"
    "\<And>i. i \<in> set rows \<Longrightarrow> pc_index cat (ix_name i) = Inr i"
    using coherent_rows[OF assms(1)] assms(2) by metis
  have "set ixs = {i \<in> set rows. ix_table_oid i \<in> set oids}" using r(1) by (metis set_mset_filter set_mset_mset)
  then show "pc_index cat (ix_name i) = Inr i" "ix_table_oid i \<in> set oids" using assms(3) r(2) by auto
qed

lemma found_listed:
  assumes "coherent_indexes cat" "pc_indexes cat oids = Inr ixs" "pc_index cat x = Inr i" "ix_table_oid i \<in> set oids"
  shows "i \<in> set ixs"
proof -
  obtain rows where r: "mset ixs = filter_mset (\<lambda>i. ix_table_oid i \<in> set oids) (mset rows)" "i \<in> set rows"
    using coherent_rows[OF assms(1)] assms(2,3) by metis
  have "set ixs = {i \<in> set rows. ix_table_oid i \<in> set oids}" using r(1) by (metis set_mset_filter set_mset_mset)
  then show ?thesis using r(2) assms(4) by auto
qed

subsection \<open>What the pass established\<close>

text \<open>The catalog behind a discovered tree.\<close>

definition discovered ::
    "planner_catalog \<Rightarrow> topology \<Rightarrow> relation \<Rightarrow> partition_strategy \<Rightarrow> tree_entry list \<Rightarrow> bool" where
  "discovered cat topo r st es \<longleftrightarrow> pc_relation cat (rl_name (tp_root topo)) = Inr r \<and>
     rl_kind r = RelKindPartitionedTable \<and> rl_name r = rl_name (tp_root topo) \<and> rl_oid r = rl_oid (tp_root topo) \<and>
     pc_tree cat (rl_oid r) = Inr es \<and> pc_strategy cat (rl_oid r) = Inr st \<and> SupportedInV01 st \<and> tree_view cat r es \<and>
     (\<exists>opts. supported_tree opts es) \<and> tp_leaves topo = sort_leaves (map te_relation (leaf_rows es)) \<and>
     (\<forall>x \<in> set (Relations topo). \<exists>r'. pc_relation cat (rl_name x) = Inr r' \<and> rl_owner_oid r' = rl_owner_oid x)"

lemma tree_topology_root:
  "rl_name (tp_root (tree_topology r st es)) = rl_name (te_relation (hd (root_rows es)))"
  "rl_oid (tp_root (tree_topology r st es)) = rl_oid (te_relation (hd (root_rows es)))"
  "rl_owner_oid (tp_root (tree_topology r st es)) = rl_owner_oid (te_relation (hd (root_rows es)))"
  by (simp_all add: tree_topology_def Let_def mark_default_def)

lemma Discover_discovered:
  assumes "Discover cat x opts = Inr topo" "coherent_relations cat"
  shows "\<exists>r st es. discovered cat topo r st es"
proof -
  obtain r es st where r: "pc_relation cat x = Inr r" "rl_kind r = RelKindPartitionedTable" "pc_tree cat (rl_oid r) = Inr es"
    "pc_strategy cat (rl_oid r) = Inr st" "SupportedInV01 st" "supported_tree opts es" "topo = tree_topology r st es"
    using assms(1) unfolding Discover_Inr by blast
  have view: "tree_view cat r es" using assms(2) r(1-3) unfolding coherent_relations_def by blast
  define e where "e = hd (root_rows es)"
  have "length (root_rows es) = 1" using r(6) by (simp add: supported_tree_def)
  then have "e \<in> set (root_rows es)" by (cases "root_rows es") (simp_all add: e_def)
  then have e: "e \<in> set es" "te_level e = 0" by (simp_all add: root_rows_def)
  then obtain r' where r': "pc_relation cat (rl_name (te_relation e)) = Inr r'" "rl_name r' = rl_name (te_relation e)"
    "rl_oid r' = rl_oid (te_relation e)" "rl_owner_oid r' = rl_owner_oid (te_relation e)"
    using view unfolding tree_view_def by blast
  have "r' = r" using assms(2) r(1) r'(1,3) e view unfolding coherent_relations_def tree_view_def by metis
  have "tp_leaves topo = sort_leaves (map te_relation (leaf_rows es))" using r(7) by (simp add: tree_topology_def Let_def)
  moreover from this have "\<forall>l \<in> set (tp_leaves topo). \<exists>e \<in> set es. l = te_relation e"
    by (auto simp: leaf_rows_def)
  then have "\<forall>x \<in> set (Relations topo). \<exists>r'. pc_relation cat (rl_name x) = Inr r' \<and> rl_owner_oid r' = rl_owner_oid x"
    using r' view unfolding tree_view_def Relations_def r(7)
    by (auto simp: tree_topology_root simp flip: e_def) fastforce
  ultimately show ?thesis using r r' view \<open>r' = r\<close>
    unfolding discovered_def r(7) tree_topology_root e_def[symmetric] by blast
qed

subsection \<open>Assertions on the tree\<close>

lemma mk_assertion_simps [simp]:
  "asrt_kind (mk_assertion k r i c m) = k" "asrt_relation (mk_assertion k r i c m) = r"
  "asrt_index (mk_assertion k r i c m) = i" "asrt_expected (mk_assertion k r i c m) = []"
  "asrt_kind (role_assertion role o1) = AssertRoleMembership" "asrt_relation (role_assertion role o1) = Some o1"
  "asrt_role (role_assertion role o1) = role"
  by (simp_all add: mk_assertion_def role_assertion_def)

lemma tree_depth_one:
  assumes "\<forall>e \<in> set es. 0 \<le> te_level e \<and> te_level e \<le> 1" "\<exists>e \<in> set es. te_level e = 1"
  shows "tree_depth es = 1"
proof -
  have step: "foldl (\<lambda>d t. if te_level t > d then te_level t else d) d ts =
      (if \<exists>e \<in> set ts. te_level e = 1 then 1 else d)"
    if "\<forall>e \<in> set ts. 0 \<le> te_level e \<and> te_level e \<le> 1" "0 \<le> d" "d \<le> 1" for d and ts :: "tree_entry list"
    using that
  proof (induction ts arbitrary: d)
    case (Cons t ts)
    have "te_level t = 0 \<or> te_level t = 1" using Cons.prems(1) by force
    then show ?case using Cons by auto
  qed simp
  from step[OF assms(1), of 0] assms(2) show ?thesis by (simp add: tree_depth_def)
qed

lemma depth_wanted_one [simp]: "depth_wanted [''1''] = Some 1"
  by (simp add: depth_wanted_def Atoi_def Let_def)

lemma discovered_rows:
  assumes "discovered cat topo r st es" "e \<in> set es"
  shows "0 \<le> te_level e" "te_level e \<le> 1" "\<not> default_entry (rl_oid r) e" "te_leaf e \<longleftrightarrow> te_level e \<noteq> 0"
proof -
  obtain opts where s: "supported_tree opts es" and v: "tree_view cat r es" using assms(1) by (auto simp: discovered_def)
  have leaf: "leaf_row e \<and> \<not> rl_default (te_relation e) \<and> \<not> IsDefaultBound (rl_bound (te_relation e))" if "te_level e \<noteq> 0"
    using s assms(2) that by (auto simp: supported_tree_def leaf_rows_def)
  have root1: "0 \<le> te_level e" "te_level e = 0 \<longleftrightarrow> rl_oid (te_relation e) = rl_oid r" "te_level e = 0 \<longrightarrow> \<not> te_leaf e"
    using v assms(2) by (auto simp: tree_view_def)
  show "0 \<le> te_level e" "te_level e \<le> 1" "\<not> default_entry (rl_oid r) e" "te_leaf e \<longleftrightarrow> te_level e \<noteq> 0"
    using leaf root1 by (auto simp: default_entry_def leaf_row_def)
qed

lemma tree_assertions_hold:
  assumes "discovered cat topo r st es" "tp_leaves topo \<noteq> []" "a \<in> set (tree_assertions (rl_name (tp_root topo)) st')"
  shows "assertion_holds cat claims a = Inr True"
proof -
  note d = assms(1)[unfolded discovered_def]
  have "\<exists>e \<in> set es. te_level e = 1"
  proof -
    obtain e where "e \<in> set (leaf_rows es)" using d assms(2) by (cases "leaf_rows es") auto
    then have "e \<in> set es" "te_level e \<noteq> 0" by (auto simp: leaf_rows_def)
    then show ?thesis using discovered_rows(1,2)[OF assms(1), of e] by force
  qed
  then have "tree_depth es = 1" using discovered_rows(1,2)[OF assms(1)] by (intro tree_depth_one) auto
  moreover have "\<not> list_ex (default_entry (rl_oid r)) es"
    using discovered_rows(3)[OF assms(1)] by (auto simp: list_ex_iff)
  moreover have "strategy_String st \<in> {strategy_String StrategyRange, strategy_String StrategyList}"
    using d by (auto simp: SupportedInV01_def)
  ultimately show ?thesis using assms(3) d
    by (auto simp: tree_assertions_def assertion_holds_def on_relation_def)
qed

lemma role_assertion_holds:
  assumes "discovered cat topo r st es" "ValidateRoleMembership cat role (Relations topo) = None"
    "coherent_relations cat" "pc_role cat = Inr role" "x \<in> set (Relations topo)"
  shows "assertion_holds cat claims (role_assertion role (rl_name x)) = Inr True"
proof -
  have c: "answers_per_owner cat" "role \<noteq> []" using assms(3,4) by (auto simp: coherent_relations_def)
  obtain ms where ms: "pc_memberships cat role (sort (distinct_owners {} (Relations topo))) = Inr ms"
    "\<forall>r \<in> set (Relations topo). \<exists>m. ms (rl_owner_oid r) = Some m \<and> rm_member m"
    using assms(2,5) unfolding ValidateRoleMembership_None by auto
  obtain m where m: "ms (rl_owner_oid x) = Some m" "rm_member m" using ms(2) assms(5) by blast
  obtain ms' where "pc_memberships cat role [rl_owner_oid x] = Inr ms'" "ms' (rl_owner_oid x) = Some m"
    using c(1) ms(1) m(1) unfolding answers_per_owner_def by blast
  then have "member_now cat (rl_owner_oid x) = Inr True" using assms(4) m(2) by (simp add: member_now_def)
  moreover obtain r' where "pc_relation cat (rl_name x) = Inr r'" "rl_owner_oid r' = rl_owner_oid x"
    using assms(1,5) by (auto simp: discovered_def)
  ultimately show ?thesis using c(2) by (simp add: assertion_holds_def on_relation_def)
qed

subsection \<open>Assertions on the index\<close>

lemma index_assertions_hold:
  assumes "coherent_indexes cat" "discovered cat topo r st es" "pc_index cat x = Inr i" "ix_kind i = RelKindPartitionedIndex"
    and "ix_table_oid i = rl_oid (tp_root topo)"
  shows "assertion_holds cat claims (mk_assertion AssertIndexExists rel (Some (ix_name i)) c m) = Inr True"
    "assertion_holds cat claims (mk_assertion AssertIndexIsPartitioned (Some (rl_name (tp_root topo))) (Some (ix_name i)) c m) = Inr True"
    "\<not> ConstraintBacked i \<Longrightarrow>
      assertion_holds cat claims (mk_assertion AssertIndexNotConstraintBacked rel (Some (ix_name i)) c m) = Inr True"
proof -
  have "pc_index cat (ix_name i) = Inr i" using assms(1,3) unfolding coherent_indexes_def by blast
  moreover have "ix_table i = rl_name (tp_root topo)"
    using assms(1,2,3,5) unfolding coherent_indexes_def discovered_def by metis
  ultimately show "assertion_holds cat claims (mk_assertion AssertIndexExists rel (Some (ix_name i)) c m) = Inr True"
    "assertion_holds cat claims (mk_assertion AssertIndexIsPartitioned (Some (rl_name (tp_root topo))) (Some (ix_name i)) c m) = Inr True"
    "\<not> ConstraintBacked i \<Longrightarrow>
      assertion_holds cat claims (mk_assertion AssertIndexNotConstraintBacked rel (Some (ix_name i)) c m) = Inr True"
    using assms(4) by (simp_all add: assertion_holds_def on_index_def)
qed

lemma in_progress_build_ours:
  assumes "coherent_indexes cat" "pc_index cat x = Inr i" "provably_ours cat planned (ix_name i) i" "planned \<in> {None, Some claims}"
  shows "in_progress_build claims cat i = Inr True"
proof -
  have m: "IndexMarker cat (ix_name i) = Inr (index_Marker i)" using assms(1,2) by (auto simp: coherent_indexes_def)
  obtain mk st where st: "index_Marker i = (mk, st)" by (cases "index_Marker i")
  have "st = MarkerOurs \<or> st = MarkerAbsent \<and> claimed planned (ix_name i)"
    using assms(3) m st by (auto simp: provably_ours_def existing_marker_def split: if_splits)
  then show ?thesis using assms(4) m st
    by (auto simp: in_progress_build_def claimed_def DecideProvenanceDrop_def Satisfied_def Destructive_def)
qed

lemma name_available_holds:
  assumes "coherent_indexes cat" "pc_indexes cat (RelationOIDs topo) = Inr ixs" "obj_schema parentIndex \<noteq> []"
    and classify: "ci_classifyParentIndex req (inspected ixs topo parentIndex) parentIndex = Inr need"
    and req: "rq_catalog req = cat" "rq_claims req \<in> {None, Some claims}"
    and own: "\<forall>i. pc_index cat parentIndex = Inr i \<longrightarrow> ix_table_oid i = rl_oid (tp_root topo)"
  shows "assertion_holds cat claims (mk_assertion AssertIndexNameAvailable rel (Some parentIndex) c m) = Inr True"
proof (cases "pc_index cat parentIndex")
  case (Inl e)
  then have "err_is e (OtherKind ''index_not_found'')" using assms(1) by (auto simp: coherent_indexes_def)
  then show ?thesis using Inl by (simp add: assertion_holds_def on_index_def)
next
  case (Inr i)
  have name: "ix_name i = parentIndex" using assms(1,3) Inr by (auto simp: coherent_indexes_def)
  have "i \<in> set ixs" using found_listed[OF assms(1,2) Inr] own Inr by (simp add: RelationOIDs_def)
  then have "is_parent_index topo parentIndex i" using name own Inr by (simp add: is_parent_index_def)
  then obtain j where j: "find (is_parent_index topo parentIndex) (rev ixs) = Some j"
    using \<open>i \<in> set ixs\<close> by (cases "find (is_parent_index topo parentIndex) (rev ixs)") (auto simp: find_None_iff)
  then have jm: "j \<in> set ixs" "is_parent_index topo parentIndex j" using find_mem[OF j] by auto
  then have "ix_name j = parentIndex" using assms(3) by (auto simp: is_parent_index_def intro: object_name.equality)
  then have "j = i" using listed_found(1)[OF assms(1,2) jm(1)] Inr by simp
  then have parent: "in_parent (inspected ixs topo parentIndex) = Some i" using j by (simp add: inspected_def Let_def)
  show ?thesis
  proof (cases "condition_Usable (Condition i)")
    case True
    then show ?thesis using Inr by (simp add: assertion_holds_def on_index_def)
  next
    case False
    define c1 where "c1 = \<lparr>cp_leaf = tp_root (rq_topology req), cp_child = parentIndex, cp_existing = Some i,
          cp_condition = Condition i, cp_attached = None\<rparr>"
    obtain d v where "DecideCleanup (Some cat) (rq_claims req) c1 = (d, v, None)"
      using classify parent False req(1) unfolding ci_classifyParentIndex_def
      by (auto simp: c1_def split: if_splits prod.splits option.splits)
    moreover have "cp_existing c1 = Some i" "NeedsCleanup (cp_condition c1)" "cp_child c1 = parentIndex"
      using False by (auto simp: c1_def)
    ultimately have "provably_ours cat (rq_claims req) parentIndex i"
      using DecideCleanup_iff[of c1 i cat "rq_claims req"] by (auto split: if_splits)
    then have "in_progress_build claims cat i = Inr True"
      using in_progress_build_ours[OF assms(1) Inr] req(2) name by simp
    then show ?thesis using Inr False by (simp add: assertion_holds_def on_index_def)
  qed
qed

text \<open>The rows attached to the parent sit on the leaves, one each.\<close>

lemma length_filter_partition:
  assumes "\<forall>x \<in> set xs. f x \<in> set ks" "distinct ks"
  shows "length xs = sum_list (map (\<lambda>k. length (filter (\<lambda>x. f x = k) xs)) ks)"
  using assms
proof (induction ks arbitrary: xs)
  case (Cons k ks)
  have "length xs = length (filter (\<lambda>x. f x = k) xs) + length (filter (\<lambda>x. f x \<noteq> k) xs)"
    by (induction xs) auto
  moreover have "length (filter (\<lambda>x. f x \<noteq> k) xs)
      = sum_list (map (\<lambda>k. length (filter (\<lambda>x. f x = k) xs)) ks)"
  proof -
    have "filter (\<lambda>x. f x = k') (filter (\<lambda>x. f x \<noteq> k) xs) = filter (\<lambda>x. f x = k') xs" if "k' \<in> set ks" for k'
      using Cons.prems(2) that by (auto simp: filter_filter intro: filter_cong)
    then show ?thesis using Cons.IH[of "filter (\<lambda>x. f x \<noteq> k) xs"] Cons.prems by (auto cong: map_cong)
  qed
  ultimately show ?case by simp
qed simp

lemma attached_rows:
  assumes "coherent_indexes cat" "pc_index cat x = Inr p" "pc_indexes cat oids = Inr all1"
    and "pc_indexes cat leaves = Inr ixs" "set oids = insert (ix_table_oid p) (set leaves)"
  shows "mset (filter (\<lambda>i. AttachedTo i (ix_oid p)) all1) = mset (filter (\<lambda>i. AttachedTo i (ix_oid p)) ixs)"
proof -
  obtain rows where rows: "\<And>oids ixs. pc_indexes cat oids = Inr ixs \<Longrightarrow>
      mset ixs = filter_mset (\<lambda>i. ix_table_oid i \<in> set oids) (mset rows)"
    "\<And>x p i. pc_index cat x = Inr p \<Longrightarrow> i \<in> set rows \<Longrightarrow> AttachedTo i (ix_oid p) \<Longrightarrow> ix_table_oid i \<noteq> ix_table_oid p"
    using coherent_rows[OF assms(1)] by metis
  have "filter_mset (\<lambda>i. AttachedTo i (ix_oid p)) (filter_mset (\<lambda>i. ix_table_oid i \<in> set oids) (mset rows))
      = filter_mset (\<lambda>i. AttachedTo i (ix_oid p)) (filter_mset (\<lambda>i. ix_table_oid i \<in> set leaves) (mset rows))"
    unfolding filter_filter_mset assms(5) using rows(2)[OF assms(2)] by (intro filter_mset_cong) auto
  then show ?thesis unfolding mset_filter rows(1)[OF assms(3)] rows(1)[OF assms(4)] by simp
qed

lemma discovered_leaves:
  assumes "discovered cat topo r st es"
  shows "distinct (LeafOIDs topo)" "set (map (rl_oid \<circ> te_relation) es) = insert (rl_oid (tp_root topo)) (set (LeafOIDs topo))"
    "length (filter te_leaf es) = length (tp_leaves topo)"
proof -
  obtain opts where s: "supported_tree opts es" and v: "tree_view cat r es" and r: "rl_oid r = rl_oid (tp_root topo)"
    and l: "tp_leaves topo = sort_leaves (map te_relation (leaf_rows es))"
    using assms by (auto simp: discovered_def)
  have m: "mset (LeafOIDs topo) = mset (map (rl_oid \<circ> te_relation) (leaf_rows es))"
    by (simp add: LeafOIDs_def l sort_leaves_def image_mset.compositionality)
  have "distinct (map (rl_oid \<circ> te_relation) es)" using v by (simp add: tree_view_def)
  then have "distinct (map (rl_oid \<circ> te_relation) (leaf_rows es))" by (simp add: leaf_rows_def distinct_map_filter)
  then show "distinct (LeafOIDs topo)" using m by (metis mset_eq_imp_distinct_iff)
  obtain e where "e \<in> set (root_rows es)" using s by (cases "root_rows es") (auto simp: supported_tree_def)
  then have e: "e \<in> set es" "te_level e = 0" by (simp_all add: root_rows_def)
  have root1: "\<And>x. x \<in> set es \<Longrightarrow> te_level x = 0 \<longleftrightarrow> rl_oid (te_relation x) = rl_oid (tp_root topo)"
    using v r by (auto simp: tree_view_def)
  have "set (LeafOIDs topo) = (rl_oid \<circ> te_relation) ` {x \<in> set es. te_level x \<noteq> 0}"
    using arg_cong[OF m, of set_mset] by (simp add: leaf_rows_def)
  then show "set (map (rl_oid \<circ> te_relation) es) = insert (rl_oid (tp_root topo)) (set (LeafOIDs topo))"
    using e root1 by (auto simp: image_iff) metis
  have "filter te_leaf es = leaf_rows es"
    unfolding leaf_rows_def using discovered_rows(4)[OF assms] by (intro filter_cong) auto
  then show "length (filter te_leaf es) = length (tp_leaves topo)" by (simp add: l sort_leaves_def)
qed

lemma length_attached_to_parent:
  "length (attached_to_parent ixs p l) = length (filter (\<lambda>i. ix_table_oid i = rl_oid l) (filter (\<lambda>i. AttachedTo i (ix_oid p)) ixs))"
proof -
  have "mset (attached_to_parent ixs p l) = mset (filter (\<lambda>i. ix_table_oid i = rl_oid l) (filter (\<lambda>i. AttachedTo i (ix_oid p)) ixs))"
    by (simp add: attached_to_parent_def leaf_indexes_def filter_filter_mset conj_commute)
  then show ?thesis by (metis size_mset)
qed

lemma leaves_attached_hold:
  assumes "coherent_indexes cat" "discovered cat topo r st es" "pc_index cat x = Inr p" "ix_table_oid p = rl_oid (tp_root topo)"
    and "pc_indexes cat (LeafOIDs topo) = Inr ixs" "\<forall>l \<in> set (tp_leaves topo). length (attached_to_parent ixs p l) = 1"
  shows "assertion_holds cat claims (mk_assertion AssertLeavesAttached (Some (rl_name (tp_root topo))) (Some (ix_name p)) c m) = Inr True"
proof -
  note leaves = discovered_leaves[OF assms(2)]
  obtain all1 where all1: "pc_indexes cat (map (rl_oid \<circ> te_relation) es) = Inr all1"
    using assms(1) unfolding coherent_indexes_def by blast
  let ?att = "filter (\<lambda>i. AttachedTo i (ix_oid p)) ixs"
  have "length (filter (\<lambda>i. AttachedTo i (ix_oid p)) all1) = length ?att"
    using attached_rows[OF assms(1,3) all1 assms(5)] leaves(2) assms(4) by (metis size_mset)
  moreover have "length ?att = sum_list (map (\<lambda>k. length (filter (\<lambda>i. ix_table_oid i = k) ?att)) (LeafOIDs topo))"
    using listed_found(2)[OF assms(1,5)] leaves(1) by (intro length_filter_partition) auto
  moreover have "\<dots> = sum_list (map (\<lambda>l. length (attached_to_parent ixs p l)) (tp_leaves topo))"
    by (simp add: LeafOIDs_def length_attached_to_parent comp_def)
  moreover have "\<dots> = sum_list (map (\<lambda>l. 1) (tp_leaves topo))"
    using assms(6) by (intro arg_cong[where f = sum_list] map_cong) auto
  ultimately have "leaves_attached cat p es = Inr True"
    using leaves(3) by (simp add: leaves_attached_def all1 sum_list_triv)
  moreover have "pc_index cat (ix_name p) = Inr p" using assms(1,3) unfolding coherent_indexes_def by blast
  moreover have "pc_relation cat (rl_name (tp_root topo)) = Inr r" "pc_tree cat (rl_oid r) = Inr es"
    using assms(2) unfolding discovered_def by blast+
  ultimately show ?thesis by (simp add: assertion_holds_def on_index_def on_relation_def)
qed

subsection \<open>All preconditions of a plan\<close>

lemma judge_holds:
  assumes "answers_per_owner cat" "\<forall>a \<in> set as. assertion_holds cat claims a = Inr True"
  shows "judge assertion_code as (fst (Evaluate cat claims as newAssertEvaluator)) = None"
proof -
  have "rmap (\<lambda>a. rbind (assertion_holds cat claims a) (\<lambda>b. Inr (verdict a b))) as = Inr (map (\<lambda>a. verdict a True) as)"
    using assms(2) by (induction as) auto
  moreover obtain e' where "Evaluate cat claims as newAssertEvaluator
      = (rmap (\<lambda>a. rbind (assertion_holds cat claims a) (\<lambda>b. Inr (verdict a b))) as, e')"
    using Evaluate_uncached_from[OF assms(1) faithful_new] by blast
  moreover have "first_failed assertion_code (map (\<lambda>a. verdict a True) as) as = None"
    by (induction as) (simp_all add: verdict_def)
  ultimately show ?thesis by (simp add: judge_def)
qed

text \<open>The request of a pass and the catalog behind it.\<close>

definition pass_over :: "planner_catalog \<Rightarrow> claim_lookup \<Rightarrow> request \<Rightarrow> bool" where
  "pass_over cat claims req \<longleftrightarrow> rq_catalog req = cat \<and> rq_claims req \<in> {None, Some claims} \<and>
     coherent_relations cat \<and> coherent_indexes cat \<and> pc_role cat = Inr (rq_role req) \<and>
     ValidateRoleMembership cat (rq_role req) (Relations (rq_topology req)) = None \<and>
     (\<exists>r st es. discovered cat (rq_topology req) r st es)"

lemma pass_roles:
  assumes "pass_over cat claims req" "x \<in> set (Relations (rq_topology req))"
  shows "assertion_holds cat claims (role_assertion (rq_role req) (rl_name x)) = Inr True"
  using assms unfolding pass_over_def by (blast intro: role_assertion_holds)

lemma ci_preconditions:
  assumes "ci_Plan req = Inr ns" "pass_over cat claims req" "tp_leaves (rq_topology req) \<noteq> []"
    and own: "\<forall>i. pc_index cat (ci_parent req) = Inr i \<longrightarrow> ix_table_oid i = rl_oid (tp_root (rq_topology req))"
  shows "\<exists>as. n_params (hd ns) = Some (CatalogAssertParams as) \<and> (\<forall>a \<in> set as. assertion_holds cat claims a = Inr True)"
proof -
  obtain r st es where d: "discovered cat (rq_topology req) r st es" using assms(2) by (auto simp: pass_over_def)
  obtain ixs need css where p: "pc_indexes (rq_catalog req) (RelationOIDs (rq_topology req)) = Inr ixs"
    "ci_classifyParentIndex req (inspected ixs (rq_topology req) (ci_parent req)) (ci_parent req) = Inr need"
    and ns: "hd ns = ci_assert req"
    by (rule ci_Plan_Inr[OF assms(1)]) (simp add: framed_nodes_def)
  obtain m where params: "n_params (ci_assert req) = Some (CatalogAssertParams
      (tree_assertions (root_name req) (tp_strategy (rq_topology req)) @
       map (role_assertion (rq_role req)) (map rl_name (Relations (rq_topology req))) @
       [mk_assertion AssertIndexNameAvailable (Some (root_name req)) (Some (ci_parent req)) ExitAuthorizationUnsatisfied m]))"
    by (simp add: ci_assert_def ci_assertNode_def Let_def plain_node_def Relations_def LeafObjectNames_def root_name_def)
  have "obj_schema (root_name req) \<noteq> []"
    using d assms(2) unfolding discovered_def pass_over_def coherent_relations_def root_name_def by metis
  then have "obj_schema (ci_parent req) \<noteq> []" by (simp add: ci_parent_def in_root_schema_def)
  moreover have "rq_catalog req = cat" "rq_claims req \<in> {None, Some claims}" "coherent_indexes cat"
    using assms(2) by (simp_all add: pass_over_def)
  ultimately have "assertion_holds cat claims (mk_assertion AssertIndexNameAvailable (Some (root_name req))
      (Some (ci_parent req)) ExitAuthorizationUnsatisfied m) = Inr True"
    using p own by (intro name_available_holds) auto
  then show ?thesis
    using tree_assertions_hold[OF d assms(3)] pass_roles[OF assms(2)] unfolding ns params by (auto simp: root_name_def)
qed

lemma di_preconditions:
  assumes "di_Plan req = Inr ns" "pass_over cat claims req"
  shows "\<exists>as. n_params (hd ns) = Some (CatalogAssertParams as) \<and> (\<forall>a \<in> set as. assertion_holds cat claims a = Inr True)"
proof -
  obtain r st es where d: "discovered cat (rq_topology req) r st es" using assms(2) by (auto simp: pass_over_def)
  obtain idx s where i: "di_admits req idx" and ns: "hd ns = di_assert req (ix_name idx)"
    by (rule di_Plan_Inr[OF assms(1)]) (simp add: di_listing_def framed_nodes_def)
  have idx: "coherent_indexes cat" "pc_index cat (di_target req) = Inr idx" "ix_kind idx = RelKindPartitionedIndex"
    "ix_table_oid idx = rl_oid (tp_root (rq_topology req))" "\<not> ConstraintBacked idx"
    using i assms(2) by (simp_all add: di_admits_def pass_over_def)
  note holds = index_assertions_hold[OF idx(1) d idx(2-4)]
  have "assertion_holds cat claims (mk_assertion AssertRelationIsPartitioned (Some (root_name req)) None c m) = Inr True" for c m
    using d by (simp add: assertion_holds_def on_relation_def discovered_def root_name_def)
  moreover obtain m1 m2 m3 m4 where "n_params (di_assert req (ix_name idx)) = Some (CatalogAssertParams
      (mk_assertion AssertRelationIsPartitioned (Some (root_name req)) None ExitUnsupportedTopology m1
       # map (\<lambda>x. role_assertion (rq_role req) (rl_name x)) (Relations (rq_topology req)) @
       [mk_assertion AssertIndexExists None (Some (ix_name idx)) ExitFailure m2,
        mk_assertion AssertIndexIsPartitioned (Some (root_name req)) (Some (ix_name idx)) ExitUnsupportedTopology m3,
        mk_assertion AssertIndexNotConstraintBacked (Some (root_name req)) (Some (ix_name idx)) ExitFailure m4]))"
    by (simp add: di_assert_def di_assertNode_def Let_def plain_node_def)
  ultimately show ?thesis
    using pass_roles[OF assms(2)] holds(1,2) holds(3)[OF idx(5)] unfolding ns by (auto simp: root_name_def)
qed

lemma ri_preconditions:
  assumes "ri_Plan since req = Inr ns" "pass_over cat claims req"
  shows "\<exists>as. n_params (hd ns) = Some (CatalogAssertParams as) \<and> (\<forall>a \<in> set as. assertion_holds cat claims a = Inr True)"
proof -
  obtain r st es where d: "discovered cat (rq_topology req) r st es" using assms(2) by (auto simp: pass_over_def)
  obtain pidx ixs lps where i: "ri_inputs since req pidx ixs lps" and ns: "hd ns = ri_assert req (ix_name pidx)"
    by (rule ri_Plan_Inr[OF assms(1)]) (simp add: ri_listing_def framed_nodes_def)
  have idx: "coherent_indexes cat" "pc_index cat (in_root_schema (root_name req) (sp_index (rq_spec req))) = Inr pidx"
    "ix_kind pidx = RelKindPartitionedIndex" "ix_table_oid pidx = rl_oid (tp_root (rq_topology req))"
    and leaves: "tp_leaves (rq_topology req) \<noteq> []" "pc_indexes cat (LeafOIDs (rq_topology req)) = Inr ixs"
    using i assms(2) by (auto simp: ri_inputs_def pass_over_def ri_resolveParentIndex_def split: sum.splits if_splits)
  have "\<forall>l \<in> set (tp_leaves (rq_topology req)). length (attached_to_parent ixs pidx l) = 1"
    using ri_inputs_leaves[OF i] by (auto simp: leaf_planned_def simp flip: ri_inputs_leaves[OF i, THEN conjunct1])
  note attached = leaves_attached_hold[OF idx(1) d idx(2,4) leaves(2) this]
  have root1: "tp_root (rq_topology req) \<in> set (Relations (rq_topology req))" by (simp add: Relations_def)
  obtain m1 m2 m3 where "n_params (ri_assert req (ix_name pidx)) = Some (CatalogAssertParams
      (tree_assertions (root_name req) (tp_strategy (rq_topology req)) @
       [role_assertion (rq_role req) (root_name req),
        mk_assertion AssertIndexExists (Some (root_name req)) (Some (ix_name pidx)) ExitUnsupportedTopology m1,
        mk_assertion AssertIndexIsPartitioned (Some (root_name req)) (Some (ix_name pidx)) ExitUnsupportedTopology m2,
        mk_assertion AssertLeavesAttached (Some (root_name req)) (Some (ix_name pidx)) ExitUnsupportedTopology m3]))"
    by (simp add: ri_assert_def ri_assertNode_def Let_def plain_node_def)
  then show ?thesis
    using tree_assertions_hold[OF d leaves(1)] pass_roles[OF assms(2) root1] index_assertions_hold(1,2)[OF idx(1) d idx(2-4)] attached
    unfolding ns by (auto simp: root_name_def)
qed

lemma supported_leaves: "Discover cat x [] = Inr topo \<Longrightarrow> tp_leaves topo \<noteq> []"
  by (auto simp: Discover_Inr supported_tree_def tree_topology_def Let_def)


subsection \<open>What the name check lets pass\<close>

text \<open>A usable index of that name satisfies the check on whatever relation it is.\<close>

lemma name_available_elsewhere:
  assumes "pc_index cat name = Inr i" "ix_valid i \<and> ix_ready i \<and> ix_live i"
  shows "assertion_holds cat claims (mk_assertion AssertIndexNameAvailable (Some parent) (Some name) c m) = Inr True"
  using assms by (simp add: assertion_holds_def on_index_def)

end
