(* ===== verification/Preconditions_Sample.thy ===== *)
theory Preconditions_Sample
  imports Preconditions_Planned Planner_Host_Sample
begin

text \<open>
  A catalog whose views agree, and the preconditions of the plan made from it.
\<close>

lemma sample_relations:
  "set (Relations sample_topo) = {sample_relation 1 ''t'' RelKindPartitionedTable 0, sample_relation 2 ''t1'' RelKindTable 1,
     sample_relation 3 ''t2'' RelKindTable 1}"
  by (simp add: Relations_def sample_topo_def)

lemma sample_answers: "answers_per_owner (sample_view rows)"
  by (simp add: answers_per_owner_def)

lemma sample_coherent_relations: "coherent_relations (sample_view rows)"
proof -
  have "tree_view (sample_view rows) (sample_relation 1 ''t'' RelKindPartitionedTable 0) sample_rows"
  proof -
    have rel: "pc_relation (sample_view rows) (rl_name r) = Inr r" if "r \<in> set (Relations sample_topo)" for r
      using that by (simp add: sample_view_relation)
    have "te_relation e \<in> set (Relations sample_topo)" if "e \<in> set sample_rows" for e
      using that by (auto simp: sample_relations sample_rows_def sample_entry_def)
    then have "\<exists>r. pc_relation (sample_view rows) (rl_name (te_relation e)) = Inr r \<and> rl_name r = rl_name (te_relation e) \<and>
        rl_oid r = rl_oid (te_relation e) \<and> rl_owner_oid r = rl_owner_oid (te_relation e)" if "e \<in> set sample_rows" for e
      using rel that by blast
    moreover have "distinct (map (rl_oid \<circ> te_relation) sample_rows)"
      by (simp add: sample_rows_def sample_entry_def sample_relation_def)
    moreover have "0 \<le> te_level e \<and> (te_level e = 0 \<longleftrightarrow> rl_oid (te_relation e) = 1) \<and> (te_level e = 0 \<longrightarrow> \<not> te_leaf e)"
      if "e \<in> set sample_rows" for e
      using that by (auto simp: sample_rows_def sample_entry_def sample_relation_def)
    moreover have "rl_oid (sample_relation 1 ''t'' RelKindPartitionedTable 0) = 1" by (simp add: sample_relation_def)
    ultimately show ?thesis unfolding tree_view_def by simp
  qed
  moreover have "r = sample_relation 1 ''t'' RelKindPartitionedTable 0"
    if "r \<in> set (Relations sample_topo)" "rl_kind r = RelKindPartitionedTable" for r
    using that unfolding sample_relations by (auto simp: sample_relation_def)
  moreover have "r = r'" if "r \<in> set (Relations sample_topo)" "r' \<in> set (Relations sample_topo)" "rl_oid r = rl_oid r'" for r r'
    using that unfolding sample_relations by (auto simp: sample_relation_def)
  moreover have "obj_schema (rl_name r) \<noteq> []" if "r \<in> set (Relations sample_topo)" for r
    using that unfolding sample_relations by (auto simp: sample_relation_def NewObjectName_def)
  ultimately show ?thesis
    unfolding coherent_relations_def sample_view_relation sample_view_simps using sample_answers[of rows] by auto
qed

lemma sample_coherent_indexes:
  assumes "distinct (map ix_name rows)" "\<forall>i \<in> set rows. ix_comment i = []"
    and "\<forall>i \<in> set rows. \<forall>r \<in> set (Relations sample_topo). ix_table_oid i = rl_oid r \<longrightarrow> ix_table i = rl_name r"
    and "\<forall>p \<in> set rows. \<forall>i \<in> set rows. AttachedTo i (ix_oid p) \<longrightarrow> ix_table_oid i \<noteq> ix_table_oid p"
  shows "coherent_indexes (sample_view rows)"
proof -
  have "IndexMarker (sample_view rows) x = Inr (zero_marker, MarkerAbsent)" for x by (simp add: IndexMarker_def)
  moreover have "index_Marker i = (zero_marker, MarkerAbsent)" if "i \<in> set rows" for i
    using assms(2) that by (simp add: index_Marker_def ParseMarker_def TrimSpace_Nil)
  moreover have "err_is ErrIndexNotFound (OtherKind ''index_not_found'')" by (simp add: ErrIndexNotFound_def)
  moreover have "\<exists>ixs. pc_indexes (sample_view rows) oids = Inr ixs \<and>
      mset ixs = filter_mset (\<lambda>i. ix_table_oid i \<in> set oids) (mset rows)" for oids
    by simp
  ultimately show ?thesis
    unfolding coherent_indexes_def sample_view_relation
    using assms sample_view_index(1,2)[of rows] sample_view_index(3)[OF assms(1)]
    by (intro conjI exI[of _ rows]) (simp_all, blast+)
qed

theorem Evaluate_uncached_witness:
  "fst (Evaluate (sample_view []) (\<lambda>_. Inr None) [role_assertion ''o'' (NewObjectName ''s'' ''t''),
       role_assertion ''o'' (NewObjectName ''s'' ''t1'')] newAssertEvaluator)
     = Inr [verdict (role_assertion ''o'' (NewObjectName ''s'' ''t'')) True,
            verdict (role_assertion ''o'' (NewObjectName ''s'' ''t1'')) True]"
proof -
  have "pc_relation (sample_view []) (NewObjectName ''s'' ''t'') = Inr (sample_relation 1 ''t'' RelKindPartitionedTable 0)"
    "pc_relation (sample_view []) (NewObjectName ''s'' ''t1'') = Inr (sample_relation 2 ''t1'' RelKindTable 1)"
    unfolding sample_view_relation sample_relations by (simp_all add: sample_relation_def)
  then have "assertion_holds (sample_view []) claims (role_assertion ''o'' (NewObjectName ''s'' n)) = Inr True"
    if "n \<in> {''t'', ''t1''}" for n claims
    using that by (auto simp: assertion_holds_def on_relation_def member_now_def)
  then show ?thesis by (simp add: Evaluate_uncached[OF sample_answers, THEN conjunct1])
qed


end
