(* ===== verification/Spec2Isabelle.thy ===== *)
theory Spec2Isabelle
  imports Naming Digest Orphans Executor_Properties Rfc3339 Planner_Host_Sample Propagated_Leaf Preconditions_Sample
begin

text \<open>
  partitionctl: the plan protocol.  (See the theories Identifiers, Naming, Node, Plan, Digest.)
\<close>

end
